(* ===== verification/Go_Base.thy ===== *)
theory Go_Base
  imports Main "HOL-Library.Multiset" "HOL-Library.AList"
begin

text \<open>
  What the Go sources use of the language and its standard library: 64-bit integers with
  their wrap-around, byte strings with \<open>strings.TrimSpace\<close>, \<open>strings.ToLower\<close> and
  \<open>strconv\<close>, sorting by a comparison function, and the generic lemmas on lists, options
  and maps the component theories share.
\<close>

section \<open>Collections of facts the component proofs use\<close>

named_theorems wrap_simps \<open>rewriting of 64-bit wrap-around\<close>
named_theorems trim_simps \<open>facts on trimmed strings\<close>

section \<open>64-bit integers\<close>

text \<open>
  An \<open>int64\<close> is an \<open>int\<close> in its range; \<open>wrap64\<close> is the two's complement wrap-around of
  Go's \<open>+\<close>, \<open>-\<close> and \<open>*\<close>. As these three are ring operations modulo \<open>2^64\<close>, one wrap
  around a whole sum or product is what wrapping after each operation gives.
\<close>

type_synonym i64 = int

definition wrap64 :: "int \<Rightarrow> i64" where
  "wrap64 x = (x + 9223372036854775808) mod 18446744073709551616 - 9223372036854775808"

definition is_i64 :: "int \<Rightarrow> bool" where
  "is_i64 x \<longleftrightarrow> - 9223372036854775808 \<le> x \<and> x < 9223372036854775808"

lemma is_i64_wrap64 [simp, intro!]: "is_i64 (wrap64 x)"
proof -
  have "0 \<le> (x + 9223372036854775808) mod 18446744073709551616"
    and "(x + 9223372036854775808) mod 18446744073709551616 < (18446744073709551616::int)"
    by simp_all
  then show ?thesis by (simp add: is_i64_def wrap64_def)
qed

lemma wrap64_id: "is_i64 x \<Longrightarrow> wrap64 x = x"
  by (simp add: is_i64_def wrap64_def)

lemma wrap64_nonneg: "0 \<le> x \<Longrightarrow> x < 9223372036854775808 \<Longrightarrow> wrap64 x = x"
  by (simp add: wrap64_id is_i64_def)

lemma wrap64_mod: "wrap64 x mod 18446744073709551616 = x mod 18446744073709551616"
  by (simp add: wrap64_def mod_simps)

lemma wrap64_eqI:
  "x mod 18446744073709551616 = y mod 18446744073709551616 \<Longrightarrow> wrap64 x = wrap64 y"
proof -
  assume eq: "x mod 18446744073709551616 = y mod 18446744073709551616"
  have "(x + k) mod 18446744073709551616 = (y + k) mod 18446744073709551616" for k
    by (rule mod_add_cong [OF eq refl])
  then show ?thesis by (simp only: wrap64_def)
qed

lemma wrap64_add_left [simp, wrap_simps]: "wrap64 (wrap64 a + b) = wrap64 (a + b)"
  by (rule wrap64_eqI, rule mod_add_cong) (simp_all only: wrap64_mod)

lemma wrap64_add_right [simp, wrap_simps]: "wrap64 (a + wrap64 b) = wrap64 (a + b)"
  by (rule wrap64_eqI, rule mod_add_cong) (simp_all only: wrap64_mod)

lemma wrap64_diff_left [simp, wrap_simps]: "wrap64 (wrap64 a - b) = wrap64 (a - b)"
  by (rule wrap64_eqI, rule mod_diff_cong) (simp_all only: wrap64_mod)

lemma wrap64_diff_right [simp, wrap_simps]: "wrap64 (a - wrap64 b) = wrap64 (a - b)"
  by (rule wrap64_eqI, rule mod_diff_cong) (simp_all only: wrap64_mod)

lemma wrap64_mult_left [simp, wrap_simps]: "wrap64 (wrap64 a * b) = wrap64 (a * b)"
  by (rule wrap64_eqI, rule mod_mult_cong) (simp_all only: wrap64_mod)

lemma wrap64_mult_right [simp, wrap_simps]: "wrap64 (a * wrap64 b) = wrap64 (a * b)"
  by (rule wrap64_eqI, rule mod_mult_cong) (simp_all only: wrap64_mod)

lemma wrap64_wrap64 [simp]: "wrap64 (wrap64 x) = wrap64 x"
  by (simp add: wrap64_id)

lemma wrap64_0 [simp]: "wrap64 0 = 0"
  by (simp add: wrap64_def)

text \<open>Go's \<open>/\<close> and \<open>%\<close> truncate towards zero.\<close>

definition go_div :: "i64 \<Rightarrow> i64 \<Rightarrow> i64" where
  "go_div a b = wrap64 (sgn a * sgn b * (\<bar>a\<bar> div \<bar>b\<bar>))"

definition go_mod :: "i64 \<Rightarrow> i64 \<Rightarrow> i64" where
  "go_mod a b = sgn a * (\<bar>a\<bar> mod \<bar>b\<bar>)"

lemma go_div_pos: "0 \<le> a \<Longrightarrow> 0 < b \<Longrightarrow> is_i64 a \<Longrightarrow> go_div a b = a div b"
proof -
  assume a: "0 \<le> a" "0 < b" "is_i64 a"
  have "a div b \<le> a"
    using a zdiv_mono2 [of a 1 b] by simp
  moreover have "0 \<le> a div b" using a by (simp add: pos_imp_zdiv_nonneg_iff)
  ultimately have "is_i64 (a div b)" using a by (simp add: is_i64_def)
  then show ?thesis using a by (cases "a = 0") (auto simp: go_div_def wrap64_id)
qed

lemma go_mod_pos: "0 \<le> a \<Longrightarrow> 0 < b \<Longrightarrow> go_mod a b = a mod b"
  by (cases "a = 0") (auto simp: go_mod_def)

text \<open>Two optional values with the same \<open>Some\<close> are equal.\<close>

lemma option_eqI_Some: "(\<And>x. a = Some x \<longleftrightarrow> b = Some x) \<Longrightarrow> a = b"
  by (cases a; cases b) auto

end
