(* ===== verification/Go_Strings.thy ===== *)
theory Go_Strings
  imports Go_Base "HOL-Library.Sublist"
begin

text \<open>
  Go strings are byte sequences, here \<open>string\<close> (a \<open>char\<close> is a byte). The functions of
  \<open>strings\<close> and \<open>strconv\<close> the sources call, on bytes: \<open>TrimSpace\<close> with the UTF-8
  encodings of Unicode's white space, \<open>ToLower\<close> and \<open>EqualFold\<close> as far as a comparison
  with an ASCII word can see, \<open>TrimLeft\<close>, \<open>Split\<close>, \<open>Join\<close>, \<open>ParseInt\<close>, \<open>ParseUint\<close>
  and \<open>FormatInt\<close>, with the round trip between the last and the first.
\<close>

section \<open>TrimSpace\<close>

definition space1 :: "char \<Rightarrow> bool" where
  "space1 c \<longleftrightarrow> c \<in> {CHR 0x09, CHR 0x0A, CHR 0x0B, CHR 0x0C, CHR 0x0D, CHR '' ''}"

text \<open>U+0085 and U+00A0.\<close>

definition space2 :: "char \<Rightarrow> char \<Rightarrow> bool" where
  "space2 a b \<longleftrightarrow> a = CHR 0xC2 \<and> (b = CHR 0x85 \<or> b = CHR 0xA0)"

text \<open>U+1680, U+2000 to U+200A, U+2028, U+2029, U+202F, U+205F and U+3000.\<close>

definition space3 :: "char \<Rightarrow> char \<Rightarrow> char \<Rightarrow> bool" where
  "space3 a b c \<longleftrightarrow>
     a = CHR 0xE1 \<and> b = CHR 0x9A \<and> c = CHR 0x80 \<or>
     a = CHR 0xE2 \<and> b = CHR 0x80 \<and>
       (c \<in> {CHR 0x80, CHR 0x81, CHR 0x82, CHR 0x83, CHR 0x84, CHR 0x85, CHR 0x86, CHR 0x87,
             CHR 0x88, CHR 0x89, CHR 0x8A, CHR 0xA8, CHR 0xA9, CHR 0xAF}) \<or>
     a = CHR 0xE2 \<and> b = CHR 0x81 \<and> c = CHR 0x9F \<or>
     a = CHR 0xE3 \<and> b = CHR 0x80 \<and> c = CHR 0x80"

fun trim_left :: "string \<Rightarrow> string" where
  "trim_left [] = []"
| "trim_left [a] = (if space1 a then [] else [a])"
| "trim_left [a, b] =
     (if space1 a then trim_left [b] else if space2 a b then [] else [a, b])"
| "trim_left (a # b # c # s) =
     (if space1 a then trim_left (b # c # s)
      else if space2 a b then trim_left (c # s)
      else if space3 a b c then trim_left s
      else a # b # c # s)"

text \<open>The same from the other end, on the reversed string.\<close>

fun trim_rev :: "string \<Rightarrow> string" where
  "trim_rev [] = []"
| "trim_rev [c] = (if space1 c then [] else [c])"
| "trim_rev [c, b] =
     (if space1 c then trim_rev [b] else if space2 b c then [] else [c, b])"
| "trim_rev (c # b # a # s) =
     (if space1 c then trim_rev (b # a # s)
      else if space2 b c then trim_rev (a # s)
      else if space3 a b c then trim_rev s
      else c # b # a # s)"

definition trim_space :: "string \<Rightarrow> string" where
  "trim_space s = rev (trim_rev (rev (trim_left s)))"

text \<open>White space begins (ends) a string exactly when trimming takes something off.\<close>

definition starts_space :: "string \<Rightarrow> bool" where
  "starts_space s \<longleftrightarrow>
     (\<exists>a t. s = a # t \<and> space1 a) \<or> (\<exists>a b t. s = a # b # t \<and> space2 a b) \<or>
     (\<exists>a b c t. s = a # b # c # t \<and> space3 a b c)"

lemma trim_left_id: "\<not> starts_space s \<Longrightarrow> trim_left s = s"
  by (induction s rule: trim_left.induct) (auto simp: starts_space_def)

lemma trim_left_starts: "\<not> starts_space (trim_left s)"
  by (induction s rule: trim_left.induct) (auto simp: starts_space_def)

lemma trim_left_fix_iff: "trim_left s = s \<longleftrightarrow> \<not> starts_space s"
  using trim_left_id trim_left_starts by metis

lemma starts_space_prefix: "prefix p s \<Longrightarrow> starts_space p \<Longrightarrow> starts_space s"
  by (auto simp: starts_space_def prefix_def)

lemma trim_left_suffix: "suffix (trim_left s) s"
  by (induction s rule: trim_left.induct) (auto simp: suffix_Cons)

lemma trim_rev_suffix: "suffix (trim_rev s) s"
  by (induction s rule: trim_rev.induct) (auto simp: suffix_Cons)

lemma trim_rev_idem [simp]: "trim_rev (trim_rev s) = trim_rev s"
  by (induction s rule: trim_rev.induct) auto

lemma trim_space_prefix: "prefix (trim_space s) (trim_left s)"
  using trim_rev_suffix [of "rev (trim_left s)"]
  by (simp add: trim_space_def suffix_to_prefix)

lemma trim_space_idem [simp, trim_simps]: "trim_space (trim_space s) = trim_space s"
proof -
  have "\<not> starts_space (trim_space s)"
    using trim_space_prefix starts_space_prefix trim_left_starts by blast
  then have "trim_left (trim_space s) = trim_space s" by (rule trim_left_id)
  then show ?thesis by (simp add: trim_space_def)
qed

lemma trim_space_Nil [simp, trim_simps]: "trim_space [] = []"
  by (simp add: trim_space_def)

abbreviation trimmed :: "string \<Rightarrow> bool" where
  "trimmed s \<equiv> trim_space s = s"

text \<open>A string without white space bytes and without the lead bytes of wide white space.\<close>

definition plain_char :: "char \<Rightarrow> bool" where
  "plain_char c \<longleftrightarrow> \<not> space1 c \<and> c \<notin> {CHR 0xC2, CHR 0xE1, CHR 0xE2, CHR 0xE3}"

definition no_space :: "string \<Rightarrow> bool" where
  "no_space s \<longleftrightarrow> (\<forall>c \<in> set s. plain_char c)"

lemma plain_not_space:
  assumes "plain_char a"
  shows "\<not> space1 a" and "\<not> space2 a b" and "\<not> space3 a b c"
  using assms by (simp_all add: plain_char_def space2_def space3_def)

lemma no_space_simps [simp]:
  "no_space []" "no_space (c # s) \<longleftrightarrow> plain_char c \<and> no_space s"
  "no_space (rev s) \<longleftrightarrow> no_space s" "no_space (s @ t) \<longleftrightarrow> no_space s \<and> no_space t"
  by (auto simp: no_space_def)

lemma trim_rev_no_space: "no_space s \<Longrightarrow> trim_rev s = s"
  by (induction s rule: trim_rev.induct) (simp_all add: plain_not_space)

lemma trim_no_space [trim_simps]: "no_space s \<Longrightarrow> trim_space s = s"
proof -
  assume ns: "no_space s"
  then have "\<not> starts_space s"
    by (cases s) (auto simp: starts_space_def plain_not_space)
  then show ?thesis using ns by (simp add: trim_space_def trim_left_id trim_rev_no_space)
qed

section \<open>Case folding against ASCII words\<close>

definition lower_char :: "char \<Rightarrow> char" where
  "lower_char c = (case map_of (zip ''ABCDEFGHIJKLMNOPQRSTUVWXYZ'' ''abcdefghijklmnopqrstuvwxyz'') c of
     Some d \<Rightarrow> d | None \<Rightarrow> c)"

text \<open>
  \<open>strings.ToLower\<close>. Apart from A to Z only U+0130 and U+212A (Kelvin) have an ASCII lower
  case, \<open>i\<close> and \<open>k\<close>; any other non-ASCII code point lowers to a non-ASCII one, and is kept
  as it is, which no comparison with an ASCII word can tell apart.
\<close>

fun to_lower :: "string \<Rightarrow> string" where
  "to_lower [] = []"
| "to_lower [a] = [lower_char a]"
| "to_lower [a, b] =
     (if a = CHR 0xC4 \<and> b = CHR 0xB0 then ''i'' else lower_char a # to_lower [b])"
| "to_lower (a # b # c # s) =
     (if a = CHR 0xC4 \<and> b = CHR 0xB0 then CHR ''i'' # to_lower (c # s)
      else if a = CHR 0xE2 \<and> b = CHR 0x84 \<and> c = CHR 0xAA then CHR ''k'' # to_lower s
      else lower_char a # to_lower (b # c # s))"

text \<open>
  \<open>strings.EqualFold\<close> against an ASCII word: simple folding joins U+017F to \<open>s\<close> and
  U+212A to \<open>k\<close>.
\<close>

fun fold_ascii :: "string \<Rightarrow> string" where
  "fold_ascii [] = []"
| "fold_ascii [a] = [lower_char a]"
| "fold_ascii [a, b] =
     (if a = CHR 0xC5 \<and> b = CHR 0xBF then ''s'' else lower_char a # fold_ascii [b])"
| "fold_ascii (a # b # c # s) =
     (if a = CHR 0xC5 \<and> b = CHR 0xBF then CHR ''s'' # fold_ascii (c # s)
      else if a = CHR 0xE2 \<and> b = CHR 0x84 \<and> c = CHR 0xAA then CHR ''k'' # fold_ascii s
      else lower_char a # fold_ascii (b # c # s))"

definition equal_fold :: "string \<Rightarrow> string \<Rightarrow> bool" where
  "equal_fold s t \<longleftrightarrow> fold_ascii s = fold_ascii t"

section \<open>Splitting, joining, prefixes\<close>

fun split_on :: "char \<Rightarrow> string \<Rightarrow> string list" where
  "split_on c [] = [[]]"
| "split_on c (x # xs) =
     (if x = c then [] # split_on c xs
      else case split_on c xs of [] \<Rightarrow> [[x]] | w # ws \<Rightarrow> (x # w) # ws)"

fun join_with :: "string \<Rightarrow> string list \<Rightarrow> string" where
  "join_with sep [] = []"
| "join_with sep [w] = w"
| "join_with sep (w # v # ws) = w @ sep @ join_with sep (v # ws)"

lemma split_on_nonempty [simp]: "split_on c s \<noteq> []"
  by (induction s) (auto split: list.splits)

lemma split_on_append: "c \<notin> set w \<Longrightarrow> split_on c (w @ c # s) = w # split_on c s"
  by (induction w) auto

lemma split_on_single: "c \<notin> set w \<Longrightarrow> split_on c w = [w]"
  by (induction w) auto

lemma split_join: "ws \<noteq> [] \<Longrightarrow> (\<forall>w \<in> set ws. c \<notin> set w) \<Longrightarrow> split_on c (join_with [c] ws) = ws"
  by (induction "[c]" ws rule: join_with.induct) (auto simp: split_on_append split_on_single)

definition trim_left_char :: "char \<Rightarrow> string \<Rightarrow> string" where
  "trim_left_char c s = dropWhile (\<lambda>x. x = c) s"

definition has_prefix :: "string \<Rightarrow> string \<Rightarrow> bool" where
  "has_prefix s p \<longleftrightarrow> take (length p) s = p"

definition trim_prefix :: "string \<Rightarrow> string \<Rightarrow> string" where
  "trim_prefix s p = (if has_prefix s p then drop (length p) s else s)"

section \<open>Decimal numbers\<close>

definition digit_val :: "char \<Rightarrow> int option" where
  "digit_val c = (let n = of_char c in if 48 \<le> n \<and> n \<le> 57 then Some (n - 48) else None)"

fun dec_acc :: "int \<Rightarrow> string \<Rightarrow> int option" where
  "dec_acc v [] = Some v"
| "dec_acc v (c # s) = (case digit_val c of None \<Rightarrow> None | Some d \<Rightarrow> dec_acc (10 * v + d) s)"

text \<open>\<open>strconv.ParseUint(s, 10, 64)\<close>: \<open>None\<close> stands for a syntax or range error.\<close>

definition parse_uint :: "string \<Rightarrow> int option" where
  "parse_uint s =
     (if s = [] then None
      else case dec_acc 0 s of
        None \<Rightarrow> None
      | Some v \<Rightarrow> if v < 18446744073709551616 then Some v else None)"

text \<open>\<open>strconv.ParseInt(s, 10, 64)\<close>.\<close>

definition parse_int :: "string \<Rightarrow> i64 option" where
  "parse_int s =
     (case s of
        [] \<Rightarrow> None
      | c # r \<Rightarrow>
          let neg = (c = CHR ''-''); body = (if c = CHR ''-'' \<or> c = CHR ''+'' then r else s)
          in case parse_uint body of
               None \<Rightarrow> None
             | Some v \<Rightarrow>
                 if neg then (if v \<le> 9223372036854775808 then Some (- v) else None)
                 else (if v < 9223372036854775808 then Some v else None))"

definition digit_char :: "int \<Rightarrow> char" where
  "digit_char d = ''0123456789'' ! nat d"

function dec_string :: "int \<Rightarrow> string" where
  "dec_string n =
     (if n < 10 then [digit_char n] else dec_string (n div 10) @ [digit_char (n mod 10)])"
  by pat_completeness auto
termination
  by (relation "measure nat") auto

declare dec_string.simps [simp del]

text \<open>\<open>strconv.FormatInt(n, 10)\<close> and \<open>strconv.Itoa\<close>.\<close>

definition format_int :: "i64 \<Rightarrow> string" where
  "format_int n = (if n < 0 then CHR ''-'' # dec_string (- n) else dec_string n)"

definition is_digit :: "int \<Rightarrow> bool" where
  "is_digit d \<longleftrightarrow> 0 \<le> d \<and> d < 10"

lemma digit_cases: "is_digit d \<Longrightarrow> d \<in> {0, 1, 2, 3, 4, 5, 6, 7, 8, 9}"
proof -
  assume "is_digit d"
  then have "d = 0 \<or> d = 1 \<or> d = 2 \<or> d = 3 \<or> d = 4 \<or> d = 5 \<or> d = 6 \<or> d = 7 \<or> d = 8 \<or> d = 9"
    unfolding is_digit_def by presburger
  then show ?thesis by simp
qed

lemma is_digit_mod [simp]: "is_digit (n mod 10)"
  by (simp add: is_digit_def)

lemma digit_val_char [simp]: "is_digit d \<Longrightarrow> digit_val (digit_char d) = Some d"
  by (drule digit_cases) (auto simp: digit_val_def digit_char_def)

lemma dec_acc_append: "dec_acc v (s @ t) = (case dec_acc v s of None \<Rightarrow> None | Some w \<Rightarrow> dec_acc w t)"
  by (induction s arbitrary: v) (auto split: option.splits)

lemma dec_acc_dec_string: "0 \<le> n \<Longrightarrow> dec_acc 0 (dec_string n) = Some n"
proof (induction n rule: dec_string.induct)
  case (1 n)
  then show ?case
    by (cases "n < 10") (subst dec_string.simps, simp add: dec_acc_append is_digit_def)+
qed

lemma dec_string_nonempty [simp]: "dec_string n \<noteq> []"
  by (subst dec_string.simps) simp

lemma digit_char_plain [simp]:
  assumes "is_digit d"
  shows "plain_char (digit_char d)" and "digit_char d \<noteq> CHR ''-''" and "digit_char d \<noteq> CHR ''+''"
    and "digit_char d \<noteq> CHR '',''"
  using digit_cases [OF assms] by (auto simp: digit_char_def plain_char_def space1_def)

lemma set_dec_string: "0 \<le> n \<Longrightarrow> c \<in> set (dec_string n) \<Longrightarrow> \<exists>d. is_digit d \<and> c = digit_char d"
proof (induction n rule: dec_string.induct)
  case (1 n)
  then show ?case
    by (cases "n < 10") (auto simp: dec_string.simps [of n] is_digit_def intro: exI [of _ "n mod 10"])
qed

lemma dec_string_no_sign: "0 \<le> n \<Longrightarrow> dec_string n = c # r \<Longrightarrow> c \<noteq> CHR ''-'' \<and> c \<noteq> CHR ''+''"
  using set_dec_string [of n c] digit_char_plain by fastforce

theorem parse_format_int: "is_i64 n \<Longrightarrow> parse_int (format_int n) = Some n"
proof (cases "n < 0")
  case True
  moreover assume "is_i64 n"
  ultimately show ?thesis
    by (auto simp: parse_int_def format_int_def parse_uint_def dec_acc_dec_string is_i64_def Let_def)
next
  case False
  assume r: "is_i64 n"
  obtain c s where cs: "dec_string n = c # s"
    by (cases "dec_string n") auto
  have "dec_acc 0 (c # s) = Some n"
    using dec_acc_dec_string [of n] False by (simp only: cs not_less)
  then show ?thesis
    using False r dec_string_no_sign [OF _ cs]
    by (simp add: parse_int_def format_int_def parse_uint_def cs is_i64_def Let_def del: dec_acc.simps)
qed

lemma no_space_dec_string: "0 \<le> n \<Longrightarrow> no_space (dec_string n)"
  unfolding no_space_def using set_dec_string digit_char_plain(1) by blast

lemma no_space_format_int: "no_space (format_int n)"
  by (simp add: format_int_def no_space_dec_string plain_char_def space1_def)

lemma trim_format_int [simp, trim_simps]: "trim_space (format_int n) = format_int n"
  by (rule trim_no_space [OF no_space_format_int])

lemma format_int_nonempty [simp]: "format_int n \<noteq> []"
  by (simp add: format_int_def)

lemma digit_val_bounds: "digit_val c = Some d \<Longrightarrow> 0 \<le> d \<and> d \<le> 9"
  by (auto simp: digit_val_def Let_def split: if_splits)

lemma dec_acc_nonneg: "dec_acc v s = Some w \<Longrightarrow> 0 \<le> v \<Longrightarrow> 0 \<le> w"
proof (induction s arbitrary: v)
  case (Cons c s)
  then obtain d where d: "digit_val c = Some d" "dec_acc (10 * v + d) s = Some w"
    by (auto split: option.splits)
  then show ?case using Cons.IH [OF d(2)] Cons.prems digit_val_bounds [OF d(1)] by simp
qed simp

lemma parse_uint_range: "parse_uint s = Some n \<Longrightarrow> 0 \<le> n \<and> n < 18446744073709551616"
  using dec_acc_nonneg [of 0 s] by (auto simp: parse_uint_def split: if_splits option.splits)

lemma parse_int_is_i64: "parse_int s = Some n \<Longrightarrow> is_i64 n"
  by (auto simp: parse_int_def is_i64_def Let_def split: list.splits option.splits if_splits
      dest: parse_uint_range)

section \<open>Maps of strings\<close>

text \<open>A missing key of a \<open>map[string]string\<close> reads as the empty string.\<close>

definition lookup_string :: "(string \<rightharpoonup> string) \<Rightarrow> string \<Rightarrow> string" where
  "lookup_string m k = (case m k of None \<Rightarrow> [] | Some v \<Rightarrow> v)"

end
