(* ===== verification/Go_Sort.thy ===== *)
theory Go_Sort
  imports Go_Strings "HOL-Library.List_Lexorder" "HOL-Library.Char_ord"
begin

text \<open>
  \<open>sort.Slice\<close>. Its result is some permutation sorted by the comparison function, and the
  algorithm is not stable. The model sorts by insertion; the locale shows that for a strict
  weak order the result is a sorted permutation, and that where no two different elements
  are equivalent there is only one, so the choice of algorithm cannot matter. Strings compare
  bytewise, as in Go.
\<close>

fun insert_by :: "('a \<Rightarrow> 'a \<Rightarrow> bool) \<Rightarrow> 'a \<Rightarrow> 'a list \<Rightarrow> 'a list" where
  "insert_by lt x [] = [x]"
| "insert_by lt x (y # ys) = (if lt y x then y # insert_by lt x ys else x # y # ys)"

fun sort_by :: "('a \<Rightarrow> 'a \<Rightarrow> bool) \<Rightarrow> 'a list \<Rightarrow> 'a list" where
  "sort_by lt [] = []"
| "sort_by lt (x # xs) = insert_by lt x (sort_by lt xs)"

lemma mset_insert_by [simp]: "mset (insert_by lt x xs) = add_mset x (mset xs)"
  by (induction xs) auto

lemma mset_sort_by [simp]: "mset (sort_by lt xs) = mset xs"
  by (induction xs) auto

lemma set_sort_by [simp]: "set (sort_by lt xs) = set xs"
  by (metis mset_sort_by set_mset_mset)

lemma length_sort_by [simp]: "length (sort_by lt xs) = length xs"
  by (metis mset_sort_by size_mset)

lemma distinct_sort_by [simp]: "distinct (sort_by lt xs) = distinct xs"
  using mset_eq_imp_distinct_iff mset_sort_by by blast

lemma distinct_map_sort_by [simp]: "distinct (map f (sort_by lt xs)) = distinct (map f xs)"
  by (metis mset_eq_imp_distinct_iff mset_map mset_sort_by)

text \<open>Subsequences, as sets and multisets.\<close>

lemma mset_subseq: "subseq xs ys \<Longrightarrow> mset xs \<subseteq># mset ys"
proof (induction rule: list_emb.induct)
  case (list_emb_Cons xs ys y)
  then show ?case using subset_mset.order_trans [of "mset xs" "mset ys" "mset (y # ys)"] by simp
qed auto

lemma set_subseq: "subseq xs ys \<Longrightarrow> set xs \<subseteq> set ys"
  using mset_subseq set_mset_mono by fastforce

lemma distinct_subseq: "subseq xs ys \<Longrightarrow> distinct ys \<Longrightarrow> distinct xs"
  by (induction rule: list_emb.induct) (use set_subseq in auto)

abbreviation sorted_by :: "('a \<Rightarrow> 'a \<Rightarrow> bool) \<Rightarrow> 'a list \<Rightarrow> bool" where
  "sorted_by lt \<equiv> sorted_wrt (\<lambda>a b. \<not> lt b a)"

locale comparison =
  fixes lt :: "'a \<Rightarrow> 'a \<Rightarrow> bool"
  assumes irrefl: "\<not> lt a a"
    and trans: "lt a b \<Longrightarrow> lt b c \<Longrightarrow> lt a c"
    and neg_trans: "\<not> lt a b \<Longrightarrow> \<not> lt b c \<Longrightarrow> \<not> lt a c"
begin

lemma asym: "lt a b \<Longrightarrow> \<not> lt b a"
  using irrefl trans by blast

lemma sorted_insert_by: "sorted_by lt xs \<Longrightarrow> sorted_by lt (insert_by lt x xs)"
proof (induction xs)
  case Nil
  then show ?case by simp
next
  case (Cons y ys)
  have set: "set (insert_by lt x ys) = insert x (set ys)"
    by (metis mset_insert_by set_mset_add_mset_insert set_mset_mset)
  show ?case
  proof (cases "lt y x")
    case True
    then show ?thesis using Cons by (auto simp: set dest: asym)
  next
    case False
    then show ?thesis using Cons.prems neg_trans by fastforce
  qed
qed

lemma sorted_sort_by: "sorted_by lt (sort_by lt xs)"
  by (induction xs) (simp_all add: sorted_insert_by)

lemma sorted_permutation_unique:
  assumes "mset xs = mset ys" and "sorted_by lt xs" and "sorted_by lt ys"
    and "\<And>a b. a \<in> set xs \<Longrightarrow> b \<in> set xs \<Longrightarrow> \<not> lt a b \<Longrightarrow> \<not> lt b a \<Longrightarrow> a = b"
  shows "xs = ys"
  using assms
proof (induction xs arbitrary: ys)
  case Nil
  then show ?case by simp
next
  case (Cons x xs)
  then obtain y zs where ys: "ys = y # zs" by (cases ys) auto
  have sets: "set (y # zs) = set (x # xs)" using Cons.prems(1) ys by (metis set_mset_mset)
  have "x = y"
  proof (rule ccontr)
    assume ne: "x \<noteq> y"
    then have "y \<in> set xs" "x \<in> set zs" using sets by auto
    then have "\<not> lt y x" "\<not> lt x y" using Cons.prems(2,3) ys by auto
    then show False using Cons.prems(4) [of x y] \<open>y \<in> set xs\<close> ne by auto
  qed
  moreover have "xs = zs"
    using Cons.prems ys \<open>x = y\<close> by (intro Cons.IH) auto
  ultimately show ?case using ys by simp
qed

lemma sort_by_unique:
  assumes "mset ys = mset xs" and "sorted_by lt ys"
    and "\<And>a b. a \<in> set xs \<Longrightarrow> b \<in> set xs \<Longrightarrow> \<not> lt a b \<Longrightarrow> \<not> lt b a \<Longrightarrow> a = b"
  shows "ys = sort_by lt xs"
  by (rule sorted_permutation_unique)
    (use assms sorted_sort_by in \<open>auto simp flip: set_mset_mset\<close>)

end

text \<open>\<open>sort.Strings\<close>.\<close>

interpretation string_order: comparison "(<) :: string \<Rightarrow> string \<Rightarrow> bool"
  by unfold_locales auto

end
