(* ===== verification/Hardware.thy ===== *)
theory Hardware
  imports Go_Sort
begin

text \<open>
  The data the scheduler reads from \<open>backend/internal/hardware/hardware.go\<close>: GPUs, GPU
  processes and the hardware snapshot. Fields nothing in the scheduler reads (names, driver
  versions, bandwidths, utilisation, the time of collection) are left out.
\<close>

record gpu =
  gpu_id :: string
  gpu_total :: i64
  gpu_used :: i64
  gpu_free :: i64

record gpu_process =
  gp_pid :: int
  gp_device :: string
  gp_used :: i64

record snapshot =
  ram_total :: i64
  ram_available :: i64
  gpus :: "gpu list"
  processes :: "gpu_process list"

text \<open>
  An amount on a device: \<open>GPUResourceDemand\<close>, \<open>GPUReservation\<close> and \<open>GPUResource\<close> of the
  scheduler are this one shape.
\<close>

record device_bytes =
  device :: string
  amount :: i64

text \<open>
  \<open>byID[id]\<close> after \<open>for \_, gpu := range gpus { byID[gpu.ID] = gpu }\<close>: the last GPU with
  that id.
\<close>

definition gpu_by_id :: "gpu list \<Rightarrow> string \<Rightarrow> gpu option" where
  "gpu_by_id gs k = map_of (rev (map (\<lambda>g. (gpu_id g, g)) gs)) k"

text \<open>The zero value of the struct, which a missing map entry reads as.\<close>

definition zero_gpu :: gpu where
  "zero_gpu = \<lparr>gpu_id = [], gpu_total = 0, gpu_used = 0, gpu_free = 0\<rparr>"

definition gpu_or_zero :: "gpu list \<Rightarrow> string \<Rightarrow> gpu" where
  "gpu_or_zero gs k = (case gpu_by_id gs k of None \<Rightarrow> zero_gpu | Some g \<Rightarrow> g)"

lemma gpu_by_id_Some:
  "gpu_by_id gs k = Some g \<Longrightarrow> g \<in> set gs \<and> gpu_id g = k"
  by (auto simp: gpu_by_id_def dest!: map_of_SomeD)

lemma gpu_by_id_distinct:
  assumes "distinct (map gpu_id gs)" and "g \<in> set gs"
  shows "gpu_by_id gs (gpu_id g) = Some g"
  unfolding gpu_by_id_def
  using assms by (intro map_of_is_SomeI) (simp_all add: distinct_rev comp_def flip: rev_map)

lemma gpu_by_id_None: "gpu_by_id gs k = None \<longleftrightarrow> k \<notin> gpu_id ` set gs"
  by (auto simp: gpu_by_id_def map_of_eq_None_iff image_image)

end
