(* ===== verification/Go_Float.thy ===== *)
theory Go_Float
  imports Complex_Main Go_Strings
begin

text \<open>
  Go's \<open>float64\<close>: IEEE binary64 with round to nearest, ties to even, on exact rationals,
  executable by the kernel. Signed zeros are one value here: the sources never divide by a
  zero nor print a float. The main facts are that rounding is monotone and exact on integers
  up to \<open>2^53\<close>, which is what the byte arithmetic of the scheduler needs.
\<close>

section \<open>Powers of two and binary exponents\<close>

definition pow2 :: "int \<Rightarrow> rat" where
  "pow2 k = (if 0 \<le> k then 2 ^ nat k else 1 / 2 ^ nat (- k))"

text \<open>The bit length of a non-negative integer.\<close>

function blen :: "int \<Rightarrow> nat" where
  "blen n = (if n \<le> 0 then 0 else Suc (blen (n div 2)))"
  by pat_completeness auto
termination
  by (relation "measure nat") auto

declare blen.simps [simp del]

definition ilog2 :: "rat \<Rightarrow> int" where
  "ilog2 x =
     (case quotient_of x of (p, q) \<Rightarrow>
        let k = int (blen p) - int (blen q)
        in if pow2 k \<le> x then k else k - 1)"

lemma pow2_powi: "pow2 k = 2 powi k"
  by (simp add: pow2_def power_int_def inverse_eq_divide power_one_over)

lemma pow2_pos [simp]: "0 < pow2 k"
  by (simp add: pow2_def)

lemma pow2_nonzero [simp]: "pow2 k \<noteq> 0"
  using pow2_pos [of k] by linarith

lemma pow2_add: "pow2 (a + b) = pow2 a * pow2 b"
  by (simp add: pow2_powi power_int_add)

lemma pow2_le: "a \<le> b \<Longrightarrow> pow2 a \<le> pow2 b"
  by (simp add: pow2_powi power_int_increasing)

lemma pow2_less_iff: "pow2 a < pow2 b \<longleftrightarrow> a < b"
  using pow2_le [of b a] pow2_le [of a b]
  by (metis linorder_not_le order_le_less pow2_powi power_int_strict_increasing one_less_numeral_iff semiring_norm(76))

lemma pow2_nat: "pow2 (int n) = 2 ^ n"
  by (simp add: pow2_def)

lemma pow2_diff: "pow2 (a - b) = pow2 a / pow2 b"
  using pow2_add [of "a - b" b] by (simp add: field_simps)

lemma blen_bounds: "0 < n \<Longrightarrow> n < 2 ^ blen n \<and> 2 ^ blen n \<le> 2 * n"
proof (induction n rule: blen.induct)
  case (1 n)
  show ?case
  proof (cases "n div 2 = 0")
    case True
    then have "n = 1" using "1.prems" by simp
    then show ?thesis by (simp add: blen.simps)
  next
    case False
    then have "0 < n div 2" using "1.prems" by simp
    then have IH: "n div 2 < 2 ^ blen (n div 2)" "2 ^ blen (n div 2) \<le> 2 * (n div 2)"
      using "1.IH" "1.prems" by auto
    have b: "blen n = Suc (blen (n div 2))" using "1.prems" by (subst blen.simps) simp
    from IH show ?thesis unfolding b power_Suc by linarith
  qed
qed

lemma blen_rat: "0 < n \<Longrightarrow> of_int n < (2 ^ blen n :: rat) \<and> 2 ^ blen n \<le> (2 * of_int n :: rat)"
  using blen_bounds [of n] by (metis of_int_le_iff of_int_less_iff of_int_mult of_int_numeral of_int_power)

lemma ilog2_bounds:
  assumes "0 < x"
  shows "pow2 (ilog2 x) \<le> x" and "x < pow2 (ilog2 x + 1)"
proof -
  obtain p q where pq: "quotient_of x = (p, q)" by (cases "quotient_of x")
  then have x: "x = of_int p / of_int q" and q: "0 < q"
    using quotient_of_div quotient_of_denom_pos by blast+
  then have p: "0 < p" using assms by (simp add: zero_less_divide_iff)
  define a b where "a = blen p" and "b = blen q"
  have pa: "of_int p < (2 ^ a :: rat)" "2 ^ a \<le> (2 * of_int p :: rat)"
    and qb: "of_int q < (2 ^ b :: rat)" "2 ^ b \<le> (2 * of_int q :: rat)"
    using blen_rat [OF p] blen_rat [OF q] by (simp_all add: a_def b_def)
  have k: "pow2 (int a - int b) = 2 ^ a / 2 ^ b" by (simp add: pow2_diff pow2_nat)
  have "x < 2 * (2 ^ a / 2 ^ b)"
  proof -
    have "x < 2 ^ a / of_int q" using pa q by (simp add: x divide_strict_right_mono)
    also have "\<dots> \<le> 2 ^ a / (2 ^ b / 2)" using qb q by (intro divide_left_mono) auto
    finally show ?thesis by (simp add: mult.commute)
  qed
  then have up: "x < pow2 (int a - int b + 1)"
    using pow2_nat [of 1] by (simp add: pow2_add k mult.commute)
  have "2 ^ a / 2 ^ b / 2 < x"
  proof -
    have "2 ^ a / 2 \<le> (of_int p :: rat)" using pa by simp
    then have "2 ^ a / 2 / 2 ^ b \<le> (of_int p :: rat) / 2 ^ b" by (rule divide_right_mono) simp
    then have "2 ^ a / 2 ^ b / 2 \<le> (of_int p :: rat) / 2 ^ b" by (simp add: mult.commute)
    also have "\<dots> < x"
      unfolding x using p q qb(1) by (intro divide_strict_left_mono mult_pos_pos) simp_all
    finally show ?thesis .
  qed
  then have lo: "pow2 (int a - int b - 1) < x"
    using pow2_diff [of "int a - int b" 1] pow2_nat [of 1] by (simp add: k)
  show "pow2 (ilog2 x) \<le> x" "x < pow2 (ilog2 x + 1)"
    using up lo by (auto simp: ilog2_def pq Let_def a_def b_def)
qed

lemma ilog2_mono: "0 < x \<Longrightarrow> x \<le> y \<Longrightarrow> ilog2 x \<le> ilog2 y"
proof -
  assume "0 < x" "x \<le> y"
  then have "pow2 (ilog2 x) < pow2 (ilog2 y + 1)"
    using ilog2_bounds [of x] ilog2_bounds [of y] by linarith
  then show ?thesis by (simp add: pow2_less_iff)
qed

section \<open>Rounding to 53 bits\<close>

definition round_even :: "rat \<Rightarrow> int" where
  "round_even r =
     (let f = \<lfloor>r\<rfloor>; d = r - of_int f
      in if d < 1 / 2 then f else if d > 1 / 2 then f + 1 else if even f then f else f + 1)"

text \<open>
  \<open>ulp_exp x\<close> is the exponent of the unit in the last place of a positive \<open>x\<close>: 53 bits of
  precision, not below the subnormal \<open>2^-1074\<close>.
\<close>

definition ulp_exp :: "rat \<Rightarrow> int" where
  "ulp_exp x = max (ilog2 x - 52) (- 1074)"

definition rval :: "rat \<Rightarrow> rat" where
  "rval x =
     (if x = 0 then 0
      else if 0 < x then (let q = ulp_exp x in of_int (round_even (x / pow2 q)) * pow2 q)
      else (let q = ulp_exp (- x) in - (of_int (round_even (- x / pow2 q)) * pow2 q)))"

lemma round_even_near: "\<lfloor>r\<rfloor> \<le> round_even r" "round_even r \<le> \<lfloor>r\<rfloor> + 1"
  by (auto simp: round_even_def Let_def)

lemma round_even_of_int [simp]: "round_even (of_int n) = n"
  by (simp add: round_even_def)

lemma round_even_mono: "r \<le> s \<Longrightarrow> round_even r \<le> round_even s"
proof (cases "\<lfloor>r\<rfloor> = \<lfloor>s\<rfloor>")
  case True
  assume "r \<le> s"
  with True show ?thesis by (auto simp: round_even_def Let_def)
next
  case False
  assume "r \<le> s"
  then have "\<lfloor>r\<rfloor> \<le> \<lfloor>s\<rfloor>" by (rule floor_mono)
  with False have "\<lfloor>r\<rfloor> + 1 \<le> \<lfloor>s\<rfloor>" by simp
  then show ?thesis using round_even_near [of r] round_even_near [of s] by linarith
qed

lemma round_even_le: "r \<le> of_int n \<Longrightarrow> round_even r \<le> n"
  using round_even_mono [of r "of_int n"] by simp

lemma round_even_ge: "of_int n \<le> r \<Longrightarrow> n \<le> round_even r"
  using round_even_mono [of "of_int n" r] by simp

lemma rval_pos: "0 < x \<Longrightarrow> rval x = of_int (round_even (x / pow2 (ulp_exp x))) * pow2 (ulp_exp x)"
  by (simp add: rval_def Let_def)

lemma rval_0 [simp]: "rval 0 = 0"
  by (simp add: rval_def)

lemma rval_minus: "rval (- x) = - rval x"
  by (simp add: rval_def Let_def)

lemma rval_nonneg: "0 \<le> x \<Longrightarrow> 0 \<le> rval x"
proof (cases "x = 0")
  case False
  assume "0 \<le> x"
  with False have x: "0 < x" by simp
  have "0 \<le> x / pow2 (ulp_exp x)" using x pow2_pos [of "ulp_exp x"] by (simp add: less_imp_le)
  then have "0 \<le> round_even (x / pow2 (ulp_exp x))" using round_even_ge [of 0] by simp
  then show ?thesis
    using pow2_pos [of "ulp_exp x"] by (simp add: rval_pos [OF x] less_imp_le del: pow2_pos)
qed simp

text \<open>A value that is a multiple of its unit in the last place is kept.\<close>

lemma rval_exact: "0 < x \<Longrightarrow> x / pow2 (ulp_exp x) = of_int n \<Longrightarrow> rval x = x"
proof -
  assume x: "0 < x" and n: "x / pow2 (ulp_exp x) = of_int n"
  from n have "x = of_int n * pow2 (ulp_exp x)" by (simp add: nonzero_divide_eq_eq)
  then show ?thesis by (simp add: rval_pos [OF x] n)
qed

lemma rval_mono_pos:
  assumes "0 < x" and "x \<le> y"
  shows "rval x \<le> rval y"
proof -
  have y: "0 < y" using assms by simp
  define p q where "p = ulp_exp x" and "q = ulp_exp y"
  have pq: "p \<le> q" using ilog2_mono [OF assms] by (simp add: p_def q_def ulp_exp_def)
  have rx: "rval x = of_int (round_even (x / pow2 p)) * pow2 p"
    and ry: "rval y = of_int (round_even (y / pow2 q)) * pow2 q"
    using assms y by (simp_all add: rval_pos p_def q_def)
  show ?thesis
  proof (cases "p = q")
    case True
    have "x / pow2 p \<le> y / pow2 p" using assms by (intro divide_right_mono) (simp_all add: less_imp_le)
    then show ?thesis
      unfolding rx ry True [symmetric]
      by (intro mult_right_mono) (simp_all add: less_imp_le round_even_mono)
  next
    case False
    then have lt: "p + 1 \<le> q" using pq by simp
    then have qy: "q = ilog2 y - 52" by (auto simp: p_def q_def ulp_exp_def max_def split: if_splits)
    have px: "ilog2 x \<le> p + 52" by (simp add: p_def ulp_exp_def)
    have "x < pow2 (ilog2 x + 1)" by (rule ilog2_bounds [OF assms(1)])
    also have "\<dots> \<le> pow2 (53 + p)" using px by (intro pow2_le) simp
    finally have "x / pow2 p \<le> of_int (2 ^ 53)"
      by (simp add: pow2_add pow2_def [of 53] field_simps)
    then have "rval x \<le> of_int (2 ^ 53) * pow2 p"
      unfolding rx by (intro mult_right_mono) (simp_all only: of_int_le_iff less_imp_le pow2_pos round_even_le)
    also have "\<dots> = pow2 (53 + p)" by (simp add: pow2_add pow2_def [of 53])
    also have "\<dots> \<le> pow2 (52 + q)" using lt by (intro pow2_le) simp
    also have "\<dots> = of_int (2 ^ 52) * pow2 q" by (simp add: pow2_add pow2_def [of 52])
    also have "\<dots> \<le> rval y"
    proof -
      have "pow2 (52 + q) \<le> y" using ilog2_bounds(1) [OF y] by (simp add: qy)
      then have "of_int (2 ^ 52) \<le> y / pow2 q" by (simp add: pow2_add pow2_def [of 52] field_simps)
      then show ?thesis
        unfolding ry by (intro mult_right_mono) (simp_all only: of_int_le_iff less_imp_le pow2_pos round_even_ge)
    qed
    finally show ?thesis .
  qed
qed

theorem rval_mono: "x \<le> y \<Longrightarrow> rval x \<le> rval y"
proof -
  assume le: "x \<le> y"
  consider "0 < x" | "y < 0" | "x \<le> 0" "0 \<le> y" by linarith
  then show ?thesis
  proof cases
    case 1
    then show ?thesis using le by (rule rval_mono_pos)
  next
    case 2
    then have "rval (- y) \<le> rval (- x)" using le by (intro rval_mono_pos) simp_all
    then show ?thesis by (simp add: rval_minus)
  next
    case 3
    then have "0 \<le> rval (- x)" "0 \<le> rval y" by (simp_all add: rval_nonneg)
    then show ?thesis by (simp add: rval_minus)
  qed
qed

theorem rval_of_int: "\<bar>n\<bar> \<le> 2 ^ 53 \<Longrightarrow> rval (of_int n) = of_int n"
proof -
  have pos: "rval (of_int n) = of_int n" if n: "0 < n" "n \<le> 2 ^ 53" for n :: int
  proof -
    let ?x = "of_int n :: rat"
    have x: "0 < ?x" using n by simp
    have "pow2 (ilog2 ?x) \<le> of_int (2 ^ 53)"
      using ilog2_bounds(1) [OF x] n(2) by (metis of_int_le_iff order_trans)
    then have "pow2 (ilog2 ?x) < pow2 54" by (simp add: pow2_def [of 54])
    then have e: "ilog2 ?x \<le> 53" by (simp add: pow2_less_iff)
    show ?thesis
    proof (cases "ilog2 ?x \<le> 52")
      case True
      then have "ulp_exp ?x \<le> 0" by (simp add: ulp_exp_def)
      then have "?x / pow2 (ulp_exp ?x) = of_int (n * 2 ^ nat (- ulp_exp ?x))"
        by (simp add: pow2_def)
      then show ?thesis by (rule rval_exact [OF x])
    next
      case False
      then have i: "ilog2 ?x = 53" using e by simp
      have "pow2 53 \<le> ?x" using ilog2_bounds(1) [OF x] i by simp
      then have "of_int (2 ^ 53) \<le> ?x" by (simp add: pow2_def)
      then have "n = 2 ^ 53" using n(2) by (simp only: of_int_le_iff)
      moreover have "ulp_exp ?x = 1" using i by (simp add: ulp_exp_def)
      ultimately have "?x / pow2 (ulp_exp ?x) = of_int (2 ^ 52)" by (simp add: pow2_def)
      then show ?thesis by (rule rval_exact [OF x])
    qed
  qed
  assume "\<bar>n\<bar> \<le> 2 ^ 53"
  then show ?thesis
    using pos [of n] pos [of "- n"] by (cases n "0::int" rule: linorder_cases) (auto simp: rval_minus)
qed

section \<open>The type and its operations\<close>

datatype f64 = Fin rat | PosInf | NegInf | NaN

text \<open>A value of magnitude \<open>2^1024\<close> or more is an infinity.\<close>

definition rnd :: "rat \<Rightarrow> f64" where
  "rnd x =
     (let v = rval x
      in if v = 0 then Fin 0
         else if 1024 \<le> ilog2 \<bar>v\<bar> then (if 0 < v then PosInf else NegInf)
         else Fin v)"

definition inf_of :: "rat \<Rightarrow> f64" where
  "inf_of s = (if 0 < s then PosInf else if s < 0 then NegInf else NaN)"

fun fadd :: "f64 \<Rightarrow> f64 \<Rightarrow> f64" where
  "fadd (Fin x) (Fin y) = rnd (x + y)"
| "fadd NaN _ = NaN"
| "fadd _ NaN = NaN"
| "fadd PosInf NegInf = NaN"
| "fadd NegInf PosInf = NaN"
| "fadd PosInf _ = PosInf"
| "fadd NegInf _ = NegInf"
| "fadd (Fin _) PosInf = PosInf"
| "fadd (Fin _) NegInf = NegInf"

fun fmul :: "f64 \<Rightarrow> f64 \<Rightarrow> f64" where
  "fmul (Fin x) (Fin y) = rnd (x * y)"
| "fmul NaN _ = NaN"
| "fmul _ NaN = NaN"
| "fmul (Fin x) PosInf = inf_of x"
| "fmul (Fin x) NegInf = inf_of (- x)"
| "fmul PosInf (Fin y) = inf_of y"
| "fmul NegInf (Fin y) = inf_of (- y)"
| "fmul PosInf PosInf = PosInf"
| "fmul NegInf NegInf = PosInf"
| "fmul PosInf NegInf = NegInf"
| "fmul NegInf PosInf = NegInf"

fun fdiv :: "f64 \<Rightarrow> f64 \<Rightarrow> f64" where
  "fdiv (Fin x) (Fin y) = (if y = 0 then inf_of x else rnd (x / y))"
| "fdiv NaN _ = NaN"
| "fdiv _ NaN = NaN"
| "fdiv (Fin _) _ = Fin 0"
| "fdiv PosInf (Fin y) = (if y < 0 then NegInf else PosInf)"
| "fdiv NegInf (Fin y) = (if y < 0 then PosInf else NegInf)"
| "fdiv _ _ = NaN"

fun flt :: "f64 \<Rightarrow> f64 \<Rightarrow> bool" where
  "flt (Fin x) (Fin y) = (x < y)"
| "flt NaN _ = False"
| "flt _ NaN = False"
| "flt NegInf NegInf = False"
| "flt NegInf _ = True"
| "flt _ NegInf = False"
| "flt PosInf _ = False"
| "flt _ PosInf = True"

definition fle :: "f64 \<Rightarrow> f64 \<Rightarrow> bool" where
  "fle a b \<longleftrightarrow> flt a b \<or> (a = b \<and> a \<noteq> NaN)"

definition fmin :: "f64 \<Rightarrow> f64 \<Rightarrow> f64" where
  "fmin a b = (if a = NegInf \<or> b = NegInf then NegInf
     else if a = NaN \<or> b = NaN then NaN else if flt a b then a else b)"

text \<open>\<open>math.Floor\<close>, \<open>math.Ceil\<close>, \<open>math.Round\<close> (halves away from zero), \<open>float64(n)\<close>.\<close>

fun ffloor :: "f64 \<Rightarrow> f64" where
  "ffloor (Fin x) = Fin (of_int \<lfloor>x\<rfloor>)"
| "ffloor v = v"

fun fceil :: "f64 \<Rightarrow> f64" where
  "fceil (Fin x) = Fin (of_int \<lceil>x\<rceil>)"
| "fceil v = v"

definition round_away :: "rat \<Rightarrow> int" where
  "round_away x = (if x < 0 then - \<lfloor>1 / 2 - x\<rfloor> else \<lfloor>x + 1 / 2\<rfloor>)"

fun fround :: "f64 \<Rightarrow> f64" where
  "fround (Fin x) = Fin (of_int (round_away x))"
| "fround v = v"

definition float_of_i64 :: "i64 \<Rightarrow> f64" where
  "float_of_i64 n = rnd (of_int n)"

text \<open>
  \<open>int64(f)\<close> truncates; for a value outside the range the language leaves the result to the
  implementation, and this is the one of amd64.
\<close>

fun i64_of_float :: "f64 \<Rightarrow> i64" where
  "i64_of_float (Fin x) =
     (let t = (if x < 0 then - \<lfloor>- x\<rfloor> else \<lfloor>x\<rfloor>)
      in if is_i64 t then t else - 9223372036854775808)"
| "i64_of_float _ = - 9223372036854775808"

section \<open>ParseFloat\<close>

definition lower_eq :: "char \<Rightarrow> char \<Rightarrow> bool" where
  "lower_eq c d \<longleftrightarrow> lower_char c = d"

definition base_digit :: "int \<Rightarrow> char \<Rightarrow> int option" where
  "base_digit base c =
     (case digit_val c of
        Some d \<Rightarrow> Some d
      | None \<Rightarrow> if base = 16 then map_of (zip ''abcdef'' [10, 11, 12, 13, 14, 15]) (lower_char c)
                else None)"

text \<open>
  The digit loop of \<open>readFloat\<close>: mantissa so far, digits after the dot, whether a dot and
  whether a digit was seen, the rest of the text.
\<close>

fun scan_mant :: "int \<Rightarrow> string \<Rightarrow> int \<Rightarrow> int \<Rightarrow> bool \<Rightarrow> bool \<Rightarrow> int \<times> int \<times> bool \<times> string" where
  "scan_mant base [] m k dot seen = (m, k, seen, [])"
| "scan_mant base (c # s) m k dot seen =
     (if c = CHR ''_'' then scan_mant base s m k dot seen
      else if c = CHR ''.'' then
        (if dot then (m, k, seen, c # s) else scan_mant base s m k True seen)
      else case base_digit base c of
        None \<Rightarrow> (m, k, seen, c # s)
      | Some d \<Rightarrow> scan_mant base s (base * m + d) (if dot then k + 1 else k) dot True)"

fun scan_exp :: "string \<Rightarrow> int \<Rightarrow> int \<times> string" where
  "scan_exp [] e = (e, [])"
| "scan_exp (c # s) e =
     (if c = CHR ''_'' then scan_exp s e
      else case digit_val c of
        None \<Rightarrow> (e, c # s)
      | Some d \<Rightarrow> scan_exp s (if e < 10000 then 10 * e + d else e))"

text \<open>\<open>underscoreOK\<close>: every underscore stands between digits or after a base prefix.\<close>

fun underscores_ok :: "bool \<Rightarrow> char \<Rightarrow> string \<Rightarrow> bool" where
  "underscores_ok hex saw [] \<longleftrightarrow> saw \<noteq> CHR ''_''"
| "underscores_ok hex saw (c # s) \<longleftrightarrow>
     (if base_digit (if hex then 16 else 10) c \<noteq> None then underscores_ok hex (CHR ''0'') s
      else if c = CHR ''_'' then saw = CHR ''0'' \<and> underscores_ok hex (CHR ''_'') s
      else saw \<noteq> CHR ''_'' \<and> underscores_ok hex (CHR ''!'') s)"

definition underscore_ok :: "string \<Rightarrow> bool" where
  "underscore_ok t =
     (case t of
        a # b # r \<Rightarrow>
          if a = CHR ''0'' \<and> (lower_eq b (CHR ''b'') \<or> lower_eq b (CHR ''o'') \<or> lower_eq b (CHR ''x''))
          then underscores_ok (lower_eq b (CHR ''x'')) (CHR ''0'') r
          else underscores_ok False (CHR ''^'') t
      | _ \<Rightarrow> underscores_ok False (CHR ''^'') t)"

definition is_special :: "string \<Rightarrow> string \<Rightarrow> bool" where
  "is_special w s \<longleftrightarrow> map lower_char s = w"

text \<open>A number without its sign; \<open>None\<close> is a syntax error.\<close>

definition read_float :: "string \<Rightarrow> rat option" where
  "read_float t =
     (let hex = (length t > 2 \<and> t ! 0 = CHR ''0'' \<and> lower_eq (t ! 1) (CHR ''x''));
          base = (if hex then 16 else 10);
          (m, k, seen, r) = scan_mant base (if hex then drop 2 t else t) 0 0 False False
      in if \<not> seen then None
         else
           let done = (\<lambda>e rest. if rest \<noteq> [] \<or> CHR ''_'' \<in> set t \<and> \<not> underscore_ok t then None
                 else Some (of_int m * (if hex then pow2 (e - 4 * k)
                   else (if k \<le> e then 10 ^ nat (e - k) else 1 / 10 ^ nat (k - e)))))
           in case r of
                [] \<Rightarrow> if hex then None else done 0 []
              | c # u \<Rightarrow>
                  if lower_eq c (if hex then CHR ''p'' else CHR ''e'') then
                    (let neg = (u \<noteq> [] \<and> hd u = CHR ''-'');
                         v = (if u \<noteq> [] \<and> (hd u = CHR ''-'' \<or> hd u = CHR ''+'') then tl u else u)
                     in if v = [] \<or> digit_val (hd v) = None then None
                        else case scan_exp v 0 of (e, w) \<Rightarrow> done (if neg then - e else e) w)
                  else None)"

text \<open>\<open>strconv.ParseFloat(s, 64)\<close>: \<open>None\<close> is a syntax error or an overflow.\<close>

definition parse_float :: "string \<Rightarrow> f64 option" where
  "parse_float s =
     (let neg = (s \<noteq> [] \<and> hd s = CHR ''-'');
          t = (if s \<noteq> [] \<and> (hd s = CHR ''-'' \<or> hd s = CHR ''+'') then tl s else s)
      in if is_special ''inf'' t \<or> is_special ''infinity'' t
         then Some (if neg then NegInf else PosInf)
         else if is_special ''nan'' s then Some NaN
         else case read_float t of
           None \<Rightarrow> None
         | Some x \<Rightarrow> (case rnd (if neg then - x else x) of Fin v \<Rightarrow> Some (Fin v) | _ \<Rightarrow> None))"

section \<open>Facts on the operations\<close>

lemma rnd_Fin: "\<bar>rval x\<bar> < pow2 1024 \<Longrightarrow> rnd x = Fin (rval x)"
proof (cases "rval x = 0")
  case False
  assume "\<bar>rval x\<bar> < pow2 1024"
  then have "pow2 (ilog2 \<bar>rval x\<bar>) < pow2 1024"
    using ilog2_bounds(1) [of "\<bar>rval x\<bar>"] False by linarith
  then show ?thesis by (auto simp: rnd_def Let_def pow2_less_iff)
qed (simp add: rnd_def)

text \<open>Between integers of 53 bits a rounded value stays between them.\<close>

lemma rval_between:
  assumes "of_int a \<le> x" and "x \<le> of_int b" and "\<bar>a\<bar> \<le> 2 ^ 53" and "\<bar>b\<bar> \<le> 2 ^ 53"
  shows "of_int a \<le> rval x" and "rval x \<le> of_int b"
  using rval_mono [OF assms(1)] rval_mono [OF assms(2)] rval_of_int [OF assms(3)] rval_of_int [OF assms(4)]
  by simp_all

lemma big_pow2: "(of_int (2 ^ 53) :: rat) < pow2 1024"
  using pow2_less_iff [of 53 1024] by (simp add: pow2_def [of 53])

lemma rnd_between:
  assumes "of_int a \<le> x" and "x \<le> of_int b" and "\<bar>a\<bar> \<le> 2 ^ 53" and "\<bar>b\<bar> \<le> 2 ^ 53"
  shows "rnd x = Fin (rval x)"
proof (rule rnd_Fin)
  have "- (of_int (2 ^ 53) :: rat) \<le> of_int a" "(of_int b :: rat) \<le> of_int (2 ^ 53)"
    using assms(3,4) by (simp_all only: of_int_le_iff flip: of_int_minus)
  then show "\<bar>rval x\<bar> < pow2 1024"
    using rval_between [OF assms] big_pow2 by linarith
qed

lemma float_of_i64_exact: "\<bar>n\<bar> \<le> 2 ^ 53 \<Longrightarrow> float_of_i64 n = Fin (of_int n)"
  using rnd_between [of n "of_int n" n] rval_of_int [of n] by (simp add: float_of_i64_def)

lemma round_away_of_int [simp]: "round_away (of_int n) = n"
proof (cases "n < 0")
  case True
  have "\<lfloor>1 / 2 + (of_int (- n) :: rat)\<rfloor> = - n" by (rule floor_unique) simp_all
  then show ?thesis using True by (simp add: round_away_def)
next
  case False
  have "\<lfloor>1 / 2 + (of_int n :: rat)\<rfloor> = n" by (rule floor_unique) simp_all
  then show ?thesis using False by (simp add: round_away_def add.commute)
qed

lemma round_away_0 [simp]: "round_away 0 = 0"
  using round_away_of_int [of 0] by simp

lemma round_away_mono_nonneg: "0 \<le> x \<Longrightarrow> x \<le> y \<Longrightarrow> round_away x \<le> round_away y"
  by (simp add: round_away_def floor_mono)

lemma i64_of_float_int: "is_i64 n \<Longrightarrow> i64_of_float (Fin (of_int n)) = n"
proof (cases "n < 0")
  case True
  assume "is_i64 n"
  moreover have "\<lfloor>- (of_int n :: rat)\<rfloor> = - n" by (metis floor_of_int of_int_minus)
  ultimately show ?thesis using True by simp
qed simp

text \<open>Every \<open>int64\<close> is finite as a float, and conversion keeps the order.\<close>

lemma rval_pow2: "0 \<le> k \<Longrightarrow> rval (pow2 k) = pow2 k"
proof -
  assume k: "0 \<le> k"
  have "pow2 (ilog2 (pow2 k)) \<le> pow2 k" "pow2 k < pow2 (ilog2 (pow2 k) + 1)"
    using ilog2_bounds [of "pow2 k"] by simp_all
  then have "ilog2 (pow2 k) = k" using pow2_less_iff by (metis linorder_not_le not_less_iff_gr_or_eq zle_add1_eq_le zless_add1_eq)
  then have "pow2 k / pow2 (ulp_exp (pow2 k)) = pow2 (k - (k - 52))"
    using k by (simp add: ulp_exp_def pow2_diff)
  also have "\<dots> = of_int (2 ^ 52)" by (simp add: pow2_def)
  finally show ?thesis by (rule rval_exact [rotated]) simp
qed

lemma float_of_i64_Fin:
  assumes "is_i64 n"
  shows "float_of_i64 n = Fin (rval (of_int n))" and "\<bar>rval (of_int n)\<bar> \<le> pow2 63"
proof -
  have "- pow2 63 \<le> of_int n" "of_int n \<le> pow2 63"
    using assms by (simp_all add: is_i64_def pow2_def)
  then have "rval (- pow2 63) \<le> rval (of_int n)" "rval (of_int n) \<le> rval (pow2 63)"
    by (simp_all only: rval_mono)
  then show b: "\<bar>rval (of_int n)\<bar> \<le> pow2 63" by (simp add: rval_minus rval_pow2 abs_le_iff)
  have "pow2 63 < pow2 1024" by (simp add: pow2_less_iff)
  with b show "float_of_i64 n = Fin (rval (of_int n))"
    unfolding float_of_i64_def by (intro rnd_Fin) linarith
qed

lemma rval_ge_1: "1 \<le> x \<Longrightarrow> 1 \<le> rval x"
  using rval_mono [of 1 x] rval_of_int [of 1] by simp

lemma rval_le_1: "x \<le> 1 \<Longrightarrow> rval x \<le> 1"
  using rval_mono [of x 1] rval_of_int [of 1] by simp

lemma rnd_unit: "0 \<le> x \<Longrightarrow> x \<le> 1 \<Longrightarrow> rnd x = Fin (rval x)"
  using rnd_between [of 0 x 1] by simp

text \<open>A quotient of two positive \<open>int64\<close> values is a float between 0 and 1, and at most 1.\<close>

lemma fdiv_unit:
  assumes "is_i64 a" and "is_i64 b" and "0 \<le> a" and "a \<le> b" and "0 < b"
  shows "fdiv (float_of_i64 a) (float_of_i64 b) = Fin (rval (rval (of_int a) / rval (of_int b)))"
    and "0 \<le> rval (rval (of_int a) / rval (of_int b))"
    and "rval (rval (of_int a) / rval (of_int b)) \<le> 1"
proof -
  have b: "1 \<le> rval (of_int b)" using assms(5) by (intro rval_ge_1) simp
  have a: "0 \<le> rval (of_int a)" "rval (of_int a) \<le> rval (of_int b)"
    using assms by (simp_all add: rval_nonneg rval_mono)
  have q: "0 \<le> rval (of_int a) / rval (of_int b)" "rval (of_int a) / rval (of_int b) \<le> 1"
    using a b by (simp_all add: divide_le_eq_1)
  show "fdiv (float_of_i64 a) (float_of_i64 b) = Fin (rval (rval (of_int a) / rval (of_int b)))"
    using b q by (simp add: float_of_i64_Fin assms rnd_unit)
  show "0 \<le> rval (rval (of_int a) / rval (of_int b))" "rval (rval (of_int a) / rval (of_int b)) \<le> 1"
    using q by (simp_all add: rval_nonneg rval_le_1)
qed

text \<open>
  Rounding a quotient of integers up to \<open>2^52\<close> does not carry it over the next integer, so the
  floor of the rounded quotient is the integer quotient.
\<close>

lemma ilog2_unique: "pow2 k \<le> x \<Longrightarrow> x < pow2 (k + 1) \<Longrightarrow> ilog2 x = k"
proof -
  assume a: "pow2 k \<le> x" "x < pow2 (k + 1)"
  then have x: "0 < x" using pow2_pos [of k] by linarith
  have "pow2 k < pow2 (ilog2 x + 1)" "pow2 (ilog2 x) < pow2 (k + 1)"
    using ilog2_bounds [OF x] a by linarith+
  then show ?thesis by (simp add: pow2_less_iff)
qed

text \<open>The float just below a positive integer \<open>n\<close> with \<open>2^k < n \<le> 2^(k+1)\<close>.\<close>

lemma rval_pred:
  assumes "pow2 k \<le> of_int n - pow2 (k - 52)" and "of_int n \<le> pow2 (k + 1)"
    and "- 1 \<le> k" and "k \<le> 52"
  shows "rval (of_int n - pow2 (k - 52)) = of_int n - pow2 (k - 52)"
proof -
  let ?x = "of_int n - pow2 (k - 52)"
  have "?x < pow2 (k + 1)" using assms(2) pow2_pos [of "k - 52"] by linarith
  then have "ilog2 ?x = k" using assms(1) by (intro ilog2_unique)
  then have u: "ulp_exp ?x = k - 52" using assms(3) by (simp add: ulp_exp_def)
  have "pow2 0 / pow2 (k - 52) = pow2 (52 - k)" using pow2_diff [of 0 "k - 52"] by simp
  then have inv: "1 / pow2 (k - 52) = (2 :: rat) ^ nat (52 - k)"
    using assms(4) by (simp add: pow2_def)
  have "?x / pow2 (k - 52) = of_int n * (1 / pow2 (k - 52)) - 1" by (simp add: diff_divide_distrib)
  also have "\<dots> = of_int (n * 2 ^ nat (52 - k) - 1)" unfolding inv by simp
  finally have e: "?x / pow2 (ulp_exp ?x) = of_int (n * 2 ^ nat (52 - k) - 1)" unfolding u .
  have "0 < ?x" using assms(1) pow2_pos [of k] by linarith
  then show ?thesis using e by (rule rval_exact)
qed

lemma floor_rval_div:
  assumes "0 \<le> s" and "s \<le> 2 ^ 52" and "0 < n" and "n \<le> 2 ^ 52"
  shows "\<lfloor>rval (of_int s / of_int n)\<rfloor> = s div n"
proof -
  define q where "q = s div n"
  let ?x = "of_int s / of_int n :: rat" and ?y = "of_int (q + 1) :: rat"
  have q0: "0 \<le> q" using assms by (simp add: q_def pos_imp_zdiv_nonneg_iff)
  have nq: "n * q \<le> s" "s + 1 \<le> n * (q + 1)"
    using mult_div_mod_eq [of n s] pos_mod_bound [OF assms(3), of s] pos_mod_sign [OF assms(3), of s]
    unfolding q_def distrib_left mult_1_right by linarith+
  have "q * 1 \<le> q * n" using q0 assms(3) by (intro mult_left_mono) auto
  then have q52: "q \<le> 2 ^ 52" using nq(1) assms(2) by (simp add: mult.commute)
  have lo: "of_int q \<le> ?x"
    using nq(1) assms(3) by (simp add: pos_le_divide_eq flip: of_int_mult) (simp add: mult.commute)
  have hi: "?x \<le> ?y - 1 / of_int n"
  proof -
    have "(of_int s + 1 :: rat) \<le> of_int (n * (q + 1))" using nq(2) by (metis of_int_1 of_int_add of_int_le_iff)
    then have "(of_int s + 1) / of_int n \<le> ?y"
      using assms(3) by (simp add: pos_divide_le_eq mult.commute)
    then show ?thesis by (simp add: add_divide_distrib)
  qed
  define k where "k = (if q = 0 then - 1 else ilog2 (of_int q))"
  have k: "pow2 k \<le> ?y - pow2 (k - 52)" "?y \<le> pow2 (k + 1)" "- 1 \<le> k" "k \<le> 52"
    "pow2 (k - 52) \<le> 1 / of_int n"
  proof -
    have "pow2 k \<le> ?y - pow2 (k - 52) \<and> ?y \<le> pow2 (k + 1) \<and> - 1 \<le> k \<and> k \<le> 52 \<and>
      pow2 (k - 52) \<le> 1 / of_int n"
    proof (cases "q = 0")
      case True
      have "n \<le> 2 ^ 53" using assms(4) by simp
      then have "(of_int n :: rat) \<le> of_int (2 ^ 53)" by (simp only: of_int_le_iff)
      then show ?thesis using True assms(3) by (simp add: k_def pow2_def field_simps)
    next
      case False
      then have qr: "(0 :: rat) < of_int q" using q0 by simp
      note b = ilog2_bounds [OF qr]
      have k': "k = ilog2 (of_int q)" using False by (simp add: k_def)
      have "pow2 0 \<le> of_int q" using False q0 by (simp add: pow2_def)
      then have "pow2 0 < pow2 (k + 1)" using b(2) by (simp add: k')
      then have k0: "0 \<le> k" by (simp add: pow2_less_iff)
      have "(of_int q :: rat) \<le> of_int (2 ^ 52)" using q52 by (simp only: of_int_le_iff)
      then have "pow2 k < pow2 53" using b(1) unfolding k' [symmetric] by (simp add: pow2_def [of 53])
      then have k52: "k \<le> 52" by (simp add: pow2_less_iff)
      have int: "pow2 (k + 1) = of_int (2 ^ nat (k + 1))" using k0 by (simp add: pow2_def)
      then have "q + 1 \<le> 2 ^ nat (k + 1)" using b(2) unfolding k' [symmetric] int of_int_less_iff by simp
      then have y: "?y \<le> pow2 (k + 1)" unfolding int by (simp only: of_int_le_iff)
      have small: "pow2 (k - 52) \<le> 1" using pow2_le [of "k - 52" 0] k52 by (simp add: pow2_def [of 0])
      then have y': "pow2 k \<le> ?y - pow2 (k - 52)" using b(1) by (simp add: k')
      have "of_int n * pow2 k \<le> of_int n * of_int q"
        using b(1) assms(3) unfolding k' [symmetric] by (intro mult_left_mono) auto
      also have "\<dots> \<le> of_int (2 ^ 52)" using nq(1) assms(2) by (simp only: of_int_le_iff flip: of_int_mult)
      finally have "of_int n * pow2 k \<le> pow2 52" by (simp add: pow2_def [of 52])
      then have "pow2 (k - 52) \<le> 1 / of_int n"
        using assms(3) by (simp add: pow2_diff field_simps)
      then show ?thesis using k0 k52 y y' by simp
    qed
    then show "pow2 k \<le> ?y - pow2 (k - 52)" "?y \<le> pow2 (k + 1)" "- 1 \<le> k" "k \<le> 52"
      "pow2 (k - 52) \<le> 1 / of_int n" by blast+
  qed
  have "rval ?x \<le> rval (?y - pow2 (k - 52))" using hi k(5) by (intro rval_mono) linarith
  also have "\<dots> = ?y - pow2 (k - 52)" using k(1-4) by (rule rval_pred)
  finally have "rval ?x < ?y" using pow2_pos [of "k - 52"] by linarith
  moreover have "rval (of_int q) \<le> rval ?x" using lo by (rule rval_mono)
  then have "of_int q \<le> rval ?x" using q52 q0 by (subst (asm) rval_of_int) auto
  ultimately show ?thesis unfolding q_def [symmetric] by (simp add: floor_eq_iff)
qed

end
