(* ===== verification/Demand.thy ===== *)
theory Demand
  imports Hardware Go_Float
begin

text \<open>
  \<open>backend/internal/scheduler/demand.go\<close>: the estimate of the GPU and host memory one
  Instance needs, from the weights, the GGUF metadata and the llama.cpp options. Options are a
  map from names to values (a Go \<open>nil\<close> map reads as the empty one). \<open>MetadataErr\<close> is only
  compared with \<open>nil\<close>, so it is a truth value.
\<close>

section \<open>Data\<close>

type_synonym options = "string \<rightharpoonup> string"

record resource_demand =
  rd_host_ram :: i64
  rd_weights :: i64
  rd_kv_cache :: i64
  rd_overhead :: i64
  rd_splittable :: i64
  rd_fixed :: i64
  rd_gpu :: "device_bytes list"
  rd_confidence :: string

record kv_metadata =
  km_architecture :: string
  km_context_length :: i64
  km_block_count :: i64
  km_embedding :: i64
  km_head_count :: i64
  km_kv_head_count :: i64
  km_key_length :: i64
  km_value_length :: i64
  km_expert_count :: i64

record demand_input =
  di_weights :: i64
  di_companion :: i64
  di_context :: i64
  di_metadata :: kv_metadata
  di_metadata_err :: bool
  di_options :: options

section \<open>Operations\<close>

definition vram_bytes :: "resource_demand \<Rightarrow> i64" where
  "vram_bytes d = foldl (\<lambda>t g. wrap64 (t + amount g)) 0 (rd_gpu d)"

definition option_value :: "options \<Rightarrow> string \<Rightarrow> string" where
  "option_value opts key =
     (case opts key of
        Some v \<Rightarrow> v
      | None \<Rightarrow> (case opts (''--'' @ key) of Some v \<Rightarrow> v | None \<Rightarrow> []))"

definition option_enabled :: "options \<Rightarrow> string \<Rightarrow> bool" where
  "option_enabled opts key \<longleftrightarrow>
     to_lower (trim_space (option_value opts key)) \<in> {''true'', ''1'', ''yes'', ''on''}"

definition parse_context_option :: "options \<Rightarrow> i64" where
  "parse_context_option opts =
     (let raw = trim_space (option_value opts ''ctx-size'')
      in if raw = [] then 0
         else case parse_int raw of None \<Rightarrow> 0 | Some v \<Rightarrow> if v \<le> 0 then 0 else v)"

definition kv_on_gpu :: "options \<Rightarrow> bool \<Rightarrow> bool" where
  "kv_on_gpu opts cpu_only =
     (if cpu_only then False
      else to_lower (trim_space (option_value opts ''no-kv-offload''))
             \<notin> {''true'', ''1'', ''yes''})"

definition gpu_offload_fraction :: "options \<Rightarrow> i64 \<Rightarrow> f64 \<times> bool" where
  "gpu_offload_fraction opts block_count =
     (let raw0 = option_value opts ''gpu-layers'';
          raw = (if raw0 = [] then option_value opts ''n-gpu-layers'' else raw0)
      in if trim_space raw = [] then (Fin 1, False)
         else case parse_int (trim_space raw) of
           None \<Rightarrow> (Fin 1, False)
         | Some layers \<Rightarrow>
             if layers < 0 then (Fin 1, False)
             else if layers = 0 then (Fin 0, True)
             else if block_count \<le> 0 \<or> block_count \<le> layers then (Fin 1, False)
             else (fdiv (float_of_i64 layers) (float_of_i64 block_count), False))"

definition cache_element_bytes :: "options \<Rightarrow> string \<Rightarrow> i64" where
  "cache_element_bytes opts key =
     (let value = to_lower (trim_space (option_value opts key))
      in if value = [] then 2
         else if value = ''f32'' then 4
         else if value \<in> {''f16'', ''bf16''} then 2
         else if value \<in> {''q8_0'', ''q8_1'', ''q6_k'', ''q5_0'', ''q5_1'', ''q5_k'', ''q4_0'',
                          ''q4_1'', ''q4_k'', ''q3_k'', ''q2_k''} then 1
         else 2)"

definition estimate_kv_bytes :: "i64 \<Rightarrow> kv_metadata \<Rightarrow> options \<Rightarrow> i64" where
  "estimate_kv_bytes ctx m opts =
     (if ctx \<le> 0 \<or> km_block_count m \<le> 0 \<or> km_embedding m \<le> 0 \<or> km_head_count m \<le> 0 then 0
      else
        let kv_heads = (if km_kv_head_count m \<le> 0 then km_head_count m else km_kv_head_count m);
            head_dim = go_div (km_embedding m) (km_head_count m);
            key_dim = (if km_key_length m \<le> 0 then head_dim else km_key_length m);
            value_dim = (if km_value_length m \<le> 0 then head_dim else km_value_length m)
        in if head_dim \<le> 0 \<or> key_dim \<le> 0 \<or> value_dim \<le> 0 then 0
           else
             let key_bytes = cache_element_bytes opts ''cache-type-k'';
                 value_bytes = cache_element_bytes opts ''cache-type-v''
             in wrap64 (ctx * km_block_count m * kv_heads
                        * (key_dim * key_bytes + value_dim * value_bytes)))"

definition cpu_moe_blocks :: "options \<Rightarrow> i64 \<Rightarrow> i64 option" where
  "cpu_moe_blocks opts block_count =
     (if block_count \<le> 0 then None
      else if option_enabled opts ''cpu-moe'' then Some block_count
      else
        let raw = trim_space (option_value opts ''n-cpu-moe'')
        in if raw = [] then None
           else case parse_int raw of
             None \<Rightarrow> None
           | Some v \<Rightarrow> if v < 0 \<or> block_count < v then None else Some v)"

definition gpu_layer_count :: "i64 \<Rightarrow> f64 \<Rightarrow> bool \<Rightarrow> i64" where
  "gpu_layer_count block_count fraction cpu_only =
     (if cpu_only \<or> block_count \<le> 0 then 0
      else if fle (Fin 1) fraction then block_count
      else if fle fraction (Fin 0) then 0
      else i64_of_float (fround (fmul (float_of_i64 block_count) fraction)))"

definition expert_weight_share :: "i64 \<Rightarrow> f64" where
  "expert_weight_share experts =
     (if 1 < experts
      then fmin (rnd (85 / 100)) (fdiv (float_of_i64 (wrap64 (experts - 1))) (float_of_i64 experts))
      else rnd (75 / 100))"

text \<open>\<open>clamp_to lo hi v\<close>: the pair of \<open>if\<close> statements that keep a value in range.\<close>

definition clamp_to :: "i64 \<Rightarrow> i64 \<Rightarrow> i64 \<Rightarrow> i64" where
  "clamp_to lo hi v = (let w = (if v < lo then lo else v) in if hi < w then hi else w)"

definition moe_weight_distribution :: "i64 \<Rightarrow> i64 \<Rightarrow> i64 \<Rightarrow> i64 \<Rightarrow> i64 \<times> i64" where
  "moe_weight_distribution weights block_count moe_blocks experts =
     (if weights \<le> 0 then (0, 0)
      else if block_count \<le> 0 \<or> moe_blocks \<le> 0 \<or> experts \<le> 0 then (weights, 0)
      else
        let blocks = (if block_count < moe_blocks then block_count else moe_blocks);
            share = expert_weight_share experts;
            host = clamp_to 0 weights (i64_of_float (fround
              (fdiv (fmul (fmul (float_of_i64 weights) share) (float_of_i64 blocks))
                    (float_of_i64 block_count))))
        in (wrap64 (weights - host), host))"

definition combined_moe_weight_distribution ::
    "i64 \<Rightarrow> i64 \<Rightarrow> i64 \<Rightarrow> i64 \<Rightarrow> i64 \<Rightarrow> i64 \<times> i64" where
  "combined_moe_weight_distribution weights block_count gpu_layers moe_blocks experts =
     (if weights \<le> 0 then (0, 0)
      else if block_count \<le> 0 then (weights, 0)
      else
        let layers = clamp_to 0 block_count gpu_layers;
            moe = clamp_to 0 block_count moe_blocks;
            full_cpu = wrap64 (block_count - layers);
            extra0 = wrap64 (moe - full_cpu);
            extra = (if extra0 < 0 then 0 else extra0);
            base = i64_of_float (fround
              (fdiv (fmul (float_of_i64 weights) (float_of_i64 full_cpu)) (float_of_i64 block_count)));
            more = (if 0 < extra \<and> 0 < experts
              then i64_of_float (fround
                (fdiv (fmul (fmul (float_of_i64 weights) (expert_weight_share experts)) (float_of_i64 extra))
                      (float_of_i64 block_count)))
              else 0);
            host = clamp_to 0 weights (wrap64 (base + more))
        in (wrap64 (weights - host), host))"

definition demand_confidence :: "kv_metadata \<Rightarrow> bool \<Rightarrow> string" where
  "demand_confidence m err =
     (if \<not> err \<and> 0 < km_block_count m \<and> 0 < km_embedding m \<and> 0 < km_head_count m then ''high''
      else if km_architecture m \<noteq> [] \<or> 0 < km_context_length m \<or> 0 < km_block_count m then ''medium''
      else ''low'')"

definition min_runtime_overhead :: i64 where
  "min_runtime_overhead = 256 * (1024 * 1024)"

definition default_demand_context :: i64 where
  "default_demand_context = 4096"

definition demand_context :: "demand_input \<Rightarrow> i64" where
  "demand_context inp =
     (let c = (if di_context inp \<le> 0 then parse_context_option (di_options inp) else di_context inp)
      in if c \<le> 0 then default_demand_context else c)"

definition runtime_overhead :: "i64 \<Rightarrow> i64" where
  "runtime_overhead total_weights =
     (let ov = i64_of_float (fceil (fmul (float_of_i64 total_weights) (rnd (5 / 100))))
      in if ov < min_runtime_overhead then min_runtime_overhead else ov)"

text \<open>The share of the weights that goes to the GPUs, \<open>weightsGPU\<close> of \<open>EstimateDemand\<close>.\<close>

definition gpu_weights :: "i64 \<Rightarrow> demand_input \<Rightarrow> i64" where
  "gpu_weights weights inp =
     (let opts = di_options inp; m = di_metadata inp; bc = km_block_count m;
          (fraction, cpu_only) = gpu_offload_fraction opts bc;
          w = clamp_to 0 weights (i64_of_float (fround (fmul (float_of_i64 weights) fraction)))
      in if cpu_only then w
         else case cpu_moe_blocks opts bc of
           None \<Rightarrow> w
         | Some moe \<Rightarrow>
             if 0 < km_expert_count m
             then wrap64 (weights - snd (combined_moe_weight_distribution weights bc
                    (gpu_layer_count bc fraction cpu_only) moe (km_expert_count m)))
             else w)"

definition estimate_demand :: "demand_input \<Rightarrow> resource_demand" where
  "estimate_demand inp =
     (let opts = di_options inp; m = di_metadata inp;
          weights = (if di_weights inp < 0 then 0 else di_weights inp);
          companion = (if di_companion inp < 0 then 0 else di_companion inp);
          total = wrap64 (weights + companion);
          overhead = runtime_overhead total;
          kv = estimate_kv_bytes (demand_context inp) m opts;
          (fraction, cpu_only) = gpu_offload_fraction opts (km_block_count m);
          kv_gpu = kv_on_gpu opts cpu_only;
          w_gpu = gpu_weights weights inp;
          (kv_gpu_bytes, kv_ram) = (if kv_gpu then (kv, 0) else (0, kv));
          (over_gpu, over_ram) = (if cpu_only then (0, overhead) else (overhead, 0));
          (comp_gpu, comp_ram) = (if cpu_only then (0, companion) else (companion, 0));
          vram = wrap64 (w_gpu + comp_gpu + kv_gpu_bytes + over_gpu)
      in \<lparr>rd_host_ram = wrap64 ((weights - w_gpu) + comp_ram + kv_ram + over_ram),
          rd_weights = total, rd_kv_cache = kv, rd_overhead = overhead,
          rd_splittable = w_gpu,
          rd_fixed = wrap64 (comp_gpu + kv_gpu_bytes + over_gpu),
          rd_gpu = (if 0 < vram then [\<lparr>device = [], amount = vram\<rparr>] else []),
          rd_confidence = demand_confidence m (di_metadata_err inp)\<rparr>)"

section \<open>The fraction of the layers on the GPUs\<close>

lemma clamp_to_bounds: "lo \<le> hi \<Longrightarrow> lo \<le> clamp_to lo hi v \<and> clamp_to lo hi v \<le> hi"
  by (simp add: clamp_to_def Let_def)

lemma clamp_to_mono: "v \<le> w \<Longrightarrow> clamp_to lo hi v \<le> clamp_to lo hi w"
  by (simp add: clamp_to_def Let_def)

lemma clamp_to_id: "lo \<le> v \<Longrightarrow> v \<le> hi \<Longrightarrow> clamp_to lo hi v = v"
  by (simp add: clamp_to_def Let_def)

text \<open>The fraction is a float between 0 and 1, and 0 when nothing is offloaded.\<close>

lemma offload_fraction_unit:
  assumes "is_i64 bc" and "gpu_offload_fraction opts bc = (f, c)"
  shows "\<exists>r. f = Fin r \<and> 0 \<le> r \<and> r \<le> 1 \<and> (c \<longrightarrow> r = 0)"
proof -
  define raw where "raw = (let raw0 = option_value opts ''gpu-layers''
    in if raw0 = [] then option_value opts ''n-gpu-layers'' else raw0)"
  have eq: "gpu_offload_fraction opts bc =
      (if trim_space raw = [] then (Fin 1, False)
       else case parse_int (trim_space raw) of
         None \<Rightarrow> (Fin 1, False)
       | Some layers \<Rightarrow>
           if layers < 0 then (Fin 1, False) else if layers = 0 then (Fin 0, True)
           else if bc \<le> 0 \<or> bc \<le> layers then (Fin 1, False)
           else (fdiv (float_of_i64 layers) (float_of_i64 bc), False))"
    by (simp add: gpu_offload_fraction_def raw_def Let_def)
  have "\<exists>r. fdiv (float_of_i64 l) (float_of_i64 bc) = Fin r \<and> 0 \<le> r \<and> r \<le> 1"
    if "parse_int (trim_space raw) = Some l" "0 \<le> l" "l < bc" for l
    using fdiv_unit [of l bc] parse_int_is_i64 [OF that(1)] that assms(1) by auto
  then show ?thesis
    using assms(2) unfolding eq by (auto split: if_splits option.splits)
qed

text \<open>
  \<open>weight_part w r\<close> is \<open>int64(math.Round(float64(w) * r))\<close>. Up to \<open>2^60\<close> bytes it never leaves
  the range of an \<open>int64\<close>, and it grows with the fraction.
\<close>

definition weight_part :: "i64 \<Rightarrow> rat \<Rightarrow> i64" where
  "weight_part w r = i64_of_float (fround (fmul (float_of_i64 w) (Fin r)))"

lemma weight_part_eq:
  assumes "0 \<le> w" and "w \<le> 2 ^ 60" and "0 \<le> r" and "r \<le> 1"
  shows "weight_part w r = round_away (rval (rval (of_int w) * r))"
    and "0 \<le> weight_part w r"
proof -
  let ?f = "rval (of_int w)"
  have w: "is_i64 w" using assms by (simp add: is_i64_def)
  have f0: "0 \<le> ?f" using assms by (simp add: rval_nonneg)
  have "?f \<le> rval (pow2 60)" using assms(2) by (intro rval_mono) (simp add: pow2_def)
  then have f60: "?f \<le> pow2 60" by (simp add: rval_pow2)
  let ?p = "?f * r"
  have p0: "0 \<le> ?p" using f0 assms by simp
  have "?p \<le> ?f * 1" using f0 assms(4) by (intro mult_left_mono)
  then have "rval ?p \<le> rval (pow2 60)" using f60 by (intro rval_mono) linarith
  then have v: "0 \<le> rval ?p" "rval ?p \<le> pow2 60" using p0 by (simp_all add: rval_pow2 rval_nonneg)
  have "pow2 60 < pow2 1024" by (simp add: pow2_less_iff)
  then have "rnd ?p = Fin (rval ?p)" using v by (intro rnd_Fin) simp
  moreover have n: "0 \<le> round_away (rval ?p)"
    using round_away_mono_nonneg [of 0 "rval ?p"] v by (simp add: round_away_def)
  moreover have "round_away (rval ?p) \<le> round_away (of_int (2 ^ 60))"
    using v by (intro round_away_mono_nonneg) (simp_all add: pow2_def)
  then have "round_away (rval ?p) \<le> 2 ^ 60" by (simp only: round_away_of_int)
  then have "is_i64 (round_away (rval ?p))" using n by (simp add: is_i64_def)
  ultimately show "weight_part w r = round_away (rval ?p)"
    by (simp add: weight_part_def float_of_i64_Fin w i64_of_float_int del: i64_of_float.simps)
  then show "0 \<le> weight_part w r" using n by simp
qed

lemma weight_part_mono:
  assumes "0 \<le> w" and "w \<le> 2 ^ 60" and "0 \<le> r" and "r \<le> s" and "s \<le> 1"
  shows "weight_part w r \<le> weight_part w s"
proof -
  have "0 \<le> rval (of_int w)" using assms by (simp add: rval_nonneg)
  then have "rval (of_int w) * r \<le> rval (of_int w) * s" "0 \<le> rval (of_int w) * r"
    using assms by (simp_all add: mult_left_mono)
  then show ?thesis
    using assms by (simp add: weight_part_eq round_away_mono_nonneg rval_mono rval_nonneg)
qed

lemma weight_part_0 [simp]: "is_i64 w \<Longrightarrow> weight_part w 0 = 0"
  by (simp add: weight_part_def float_of_i64_Fin rnd_def is_i64_def)

section \<open>The weights on the GPUs\<close>

lemma combined_moe_bounds:
  assumes "0 \<le> w" and "is_i64 w"
    and "combined_moe_weight_distribution w bc layers moe experts = (g, h)"
  shows "0 \<le> h \<and> h \<le> w \<and> g = w - h"
proof -
  have "wrap64 (w - clamp_to 0 w v) = w - clamp_to 0 w v" for v
    using clamp_to_bounds [of 0 w v] assms(1,2) by (intro wrap64_id) (simp add: is_i64_def)
  then show ?thesis
    using assms clamp_to_bounds [of 0 w]
    by (auto simp: combined_moe_weight_distribution_def Let_def split: if_splits)
qed

lemma moe_bounds:
  assumes "0 \<le> w" and "is_i64 w" and "moe_weight_distribution w bc moe experts = (g, h)"
  shows "0 \<le> h \<and> h \<le> w \<and> g = w - h"
proof -
  have "wrap64 (w - clamp_to 0 w v) = w - clamp_to 0 w v" for v
    using clamp_to_bounds [of 0 w v] assms(1,2) by (intro wrap64_id) (simp add: is_i64_def)
  then show ?thesis
    using assms clamp_to_bounds [of 0 w]
    by (auto simp: moe_weight_distribution_def Let_def split: if_splits)
qed

lemma gpu_weights_bounds:
  assumes "0 \<le> w" and "is_i64 w"
  shows "0 \<le> gpu_weights w inp" and "gpu_weights w inp \<le> w"
proof -
  have wr: "wrap64 (w - h) = w - h" if "0 \<le> h" "h \<le> w" for h
    using that assms by (intro wrap64_id) (simp add: is_i64_def)
  have moe: "0 \<le> snd (combined_moe_weight_distribution w bc l m e)"
    "snd (combined_moe_weight_distribution w bc l m e) \<le> w" for bc l m e
    using combined_moe_bounds [OF assms, of bc l m e] by (metis prod.collapse)+
  have "0 \<le> gpu_weights w inp \<and> gpu_weights w inp \<le> w"
    using clamp_to_bounds [of 0 w] assms(1)
    by (auto simp: gpu_weights_def Let_def wr moe split: prod.split option.split)
  then show "0 \<le> gpu_weights w inp" "gpu_weights w inp \<le> w" by blast+
qed

section \<open>The estimate without overflow\<close>

text \<open>
  Inputs for which no sum of the estimate leaves \<open>int64\<close>: at most \<open>2^60\<close> bytes (an exbibyte) of
  weights, companions and key-value cache, and a cache estimate that did not wrap below 0.
\<close>

definition demand_bounded :: "demand_input \<Rightarrow> bool" where
  "demand_bounded inp \<longleftrightarrow>
     is_i64 (di_weights inp) \<and> di_weights inp \<le> 2 ^ 60 \<and>
     is_i64 (di_companion inp) \<and> di_companion inp \<le> 2 ^ 60 \<and>
     is_i64 (km_block_count (di_metadata inp)) \<and>
     0 \<le> estimate_kv_bytes (demand_context inp) (di_metadata inp) (di_options inp) \<and>
     estimate_kv_bytes (demand_context inp) (di_metadata inp) (di_options inp) \<le> 2 ^ 60"

lemma runtime_overhead_min: "min_runtime_overhead \<le> runtime_overhead t"
  by (simp add: runtime_overhead_def Let_def)

lemma runtime_overhead_bounds:
  assumes "0 \<le> t" and "t \<le> 2 ^ 61"
  shows "268435456 \<le> runtime_overhead t" and "runtime_overhead t \<le> 2 ^ 61"
proof -
  have t: "is_i64 t" using assms by (simp add: is_i64_def)
  let ?f = "rval (of_int t)" and ?c = "rval (5 / 100)"
  have f: "0 \<le> ?f" "?f \<le> rval (pow2 61)"
    using assms by (auto intro!: rval_nonneg rval_mono simp: pow2_def)
  have c: "0 \<le> ?c" "?c \<le> 1" by (auto intro: rval_nonneg rval_le_1)
  have c': "rnd (5 / 100) = Fin ?c" by (rule rnd_unit) simp_all
  have p: "0 \<le> ?f * ?c" "?f * ?c \<le> ?f * 1"
    using f c by (simp, intro mult_left_mono) simp_all
  then have "rval (?f * ?c) \<le> rval (pow2 61)" using f(2) by (intro rval_mono) (simp add: rval_pow2)
  then have v: "0 \<le> rval (?f * ?c)" "rval (?f * ?c) \<le> pow2 61"
    using p(1) by (simp_all add: rval_nonneg rval_pow2)
  have "pow2 61 < pow2 1024" by (simp add: pow2_less_iff)
  then have r: "rnd (?f * ?c) = Fin (rval (?f * ?c))" using v by (intro rnd_Fin) simp
  define k where "k = \<lceil>rval (?f * ?c)\<rceil>"
  have "0 \<le> k" using v unfolding k_def by linarith
  moreover have "k \<le> 2 ^ 61"
    using v unfolding k_def by (simp add: ceiling_le_iff pow2_def)
  ultimately have k: "0 \<le> k" "k \<le> 2 ^ 61" "is_i64 k" by (simp_all add: is_i64_def)
  have "i64_of_float (fceil (fmul (float_of_i64 t) (rnd (5 / 100)))) = k"
    unfolding c' float_of_i64_Fin(1) [OF t] fmul.simps r fceil.simps k_def [symmetric]
    by (rule i64_of_float_int [OF k(3)])
  then show "268435456 \<le> runtime_overhead t" "runtime_overhead t \<le> 2 ^ 61"
    using k by (simp_all add: runtime_overhead_def min_runtime_overhead_def Let_def)
qed

definition pos_part :: "i64 \<Rightarrow> i64" where
  "pos_part x = (if x < 0 then 0 else x)"

lemma pos_part_bounds: "0 \<le> pos_part x" "0 \<le> b \<Longrightarrow> x \<le> b \<Longrightarrow> pos_part x \<le> b"
  by (simp_all add: pos_part_def)

abbreviation estimated_kv :: "demand_input \<Rightarrow> i64" where
  "estimated_kv inp \<equiv> estimate_kv_bytes (demand_context inp) (di_metadata inp) (di_options inp)"

abbreviation cpu_only_input :: "demand_input \<Rightarrow> bool" where
  "cpu_only_input inp \<equiv> snd (gpu_offload_fraction (di_options inp) (km_block_count (di_metadata inp)))"

abbreviation kv_gpu_input :: "demand_input \<Rightarrow> bool" where
  "kv_gpu_input inp \<equiv> kv_on_gpu (di_options inp) (cpu_only_input inp)"

text \<open>
  The estimate from its parts: an equation for evaluation, which computes every part once.
\<close>

definition demand_of_parts :: "demand_input \<Rightarrow> i64 \<Rightarrow> i64 \<Rightarrow> i64 \<Rightarrow> i64 \<Rightarrow> bool \<Rightarrow> bool \<Rightarrow> i64 \<Rightarrow> resource_demand" where
  "demand_of_parts inp weights companion overhead kv cpu_only kv_gpu w_gpu =
     (let vram = wrap64 (w_gpu + (if cpu_only then 0 else companion) + (if kv_gpu then kv else 0)
            + (if cpu_only then 0 else overhead))
      in \<lparr>rd_host_ram = wrap64 ((weights - w_gpu) + (if cpu_only then companion else 0)
              + (if kv_gpu then 0 else kv) + (if cpu_only then overhead else 0)),
          rd_weights = wrap64 (weights + companion), rd_kv_cache = kv, rd_overhead = overhead,
          rd_splittable = w_gpu,
          rd_fixed = wrap64 ((if cpu_only then 0 else companion) + (if kv_gpu then kv else 0)
            + (if cpu_only then 0 else overhead)),
          rd_gpu = (if 0 < vram then [\<lparr>device = [], amount = vram\<rparr>] else []),
          rd_confidence = demand_confidence (di_metadata inp) (di_metadata_err inp)\<rparr>)"

lemma estimate_demand_parts [code]:
  "estimate_demand inp = demand_of_parts inp (pos_part (di_weights inp)) (pos_part (di_companion inp))
     (runtime_overhead (wrap64 (pos_part (di_weights inp) + pos_part (di_companion inp))))
     (estimated_kv inp) (cpu_only_input inp) (kv_gpu_input inp) (gpu_weights (pos_part (di_weights inp)) inp)"
proof -
  define c where "c = cpu_only_input inp"
  define kg where "kg = kv_on_gpu (di_options inp) c"
  show ?thesis
    unfolding estimate_demand_def demand_of_parts_def Let_def case_prod_beta pos_part_def [symmetric]
      c_def [symmetric] kg_def [symmetric]
    by (cases c; cases kg) simp_all
qed

text \<open>The fields of the estimate, with every wrap-around gone.\<close>

lemma estimate_demand_fields:
  assumes "demand_bounded inp"
  defines "w \<equiv> pos_part (di_weights inp)" and "cmp \<equiv> pos_part (di_companion inp)"
  shows "rd_weights (estimate_demand inp) = w + cmp"
    and "rd_kv_cache (estimate_demand inp) = estimated_kv inp"
    and "rd_overhead (estimate_demand inp) = runtime_overhead (w + cmp)"
    and "rd_splittable (estimate_demand inp) = gpu_weights w inp"
    and "rd_fixed (estimate_demand inp) =
      (if cpu_only_input inp then 0 else cmp + runtime_overhead (w + cmp)) +
      (if kv_gpu_input inp then estimated_kv inp else 0)"
    and "rd_host_ram (estimate_demand inp) =
      (w - gpu_weights w inp) + (if cpu_only_input inp then cmp + runtime_overhead (w + cmp) else 0) +
      (if kv_gpu_input inp then 0 else estimated_kv inp)"
    and "vram_bytes (estimate_demand inp) =
      rd_splittable (estimate_demand inp) + rd_fixed (estimate_demand inp)"
proof -
  have b: "0 \<le> w" "w \<le> 2 ^ 60" "0 \<le> cmp" "cmp \<le> 2 ^ 60" "0 \<le> estimated_kv inp"
    "estimated_kv inp \<le> 2 ^ 60"
    using assms by (auto simp: demand_bounded_def pos_part_bounds)
  then have i: "is_i64 w" by (simp add: is_i64_def)
  have t: "wrap64 (w + cmp) = w + cmp" using b by (intro wrap64_id) (simp add: is_i64_def)
  define ov where "ov = runtime_overhead (w + cmp)"
  have ov: "0 \<le> ov" "ov \<le> 2 ^ 61"
    using runtime_overhead_bounds [of "w + cmp"] b by (simp_all add: ov_def)
  define g where "g = gpu_weights w inp"
  have g: "0 \<le> g" "g \<le> w" using gpu_weights_bounds [OF b(1) i] by (simp_all add: g_def)
  define c where "c = cpu_only_input inp"
  define kg where "kg = kv_on_gpu (di_options inp) c"
  let ?kv = "estimated_kv inp"
  let ?v = "wrap64 (g + fst (if c then (0, cmp) else (cmp, 0)) + fst (if kg then (?kv, 0) else (0, ?kv))
    + fst (if c then (0, ov) else (ov, 0)))"
  have eq: "estimate_demand inp =
     \<lparr>rd_host_ram = wrap64 ((w - g) + snd (if c then (0, cmp) else (cmp, 0))
        + snd (if kg then (?kv, 0) else (0, ?kv)) + snd (if c then (0, ov) else (ov, 0))),
      rd_weights = w + cmp, rd_kv_cache = ?kv, rd_overhead = ov, rd_splittable = g,
      rd_fixed = wrap64 (fst (if c then (0, cmp) else (cmp, 0)) + fst (if kg then (?kv, 0) else (0, ?kv))
        + fst (if c then (0, ov) else (ov, 0))),
      rd_gpu = (if 0 < ?v then [\<lparr>device = [], amount = ?v\<rparr>] else []),
      rd_confidence = demand_confidence (di_metadata inp) (di_metadata_err inp)\<rparr>"
    by (simp only: estimate_demand_def Let_def case_prod_beta pos_part_def [symmetric] w_def [symmetric] cmp_def [symmetric] t
        ov_def [symmetric] g_def [symmetric] c_def [symmetric] kg_def [symmetric])
  have small: "wrap64 x = x" if "0 \<le> x" "x \<le> 2 ^ 60 + 2 ^ 60 + 2 ^ 60 + 2 ^ 61" for x
    using that by (intro wrap64_nonneg) simp_all
  show "rd_weights (estimate_demand inp) = w + cmp"
    and "rd_kv_cache (estimate_demand inp) = estimated_kv inp"
    and "rd_overhead (estimate_demand inp) = runtime_overhead (w + cmp)"
    and "rd_splittable (estimate_demand inp) = gpu_weights w inp"
    by (simp_all add: eq ov_def g_def)
  show "rd_fixed (estimate_demand inp) =
      (if cpu_only_input inp then 0 else cmp + runtime_overhead (w + cmp)) +
      (if kv_gpu_input inp then estimated_kv inp else 0)"
    using b ov unfolding ov_def [symmetric] g_def [symmetric] c_def [symmetric] kg_def [symmetric] eq
    by (simp add: small)
  show "rd_host_ram (estimate_demand inp) =
      (w - gpu_weights w inp) + (if cpu_only_input inp then cmp + runtime_overhead (w + cmp) else 0) +
      (if kv_gpu_input inp then 0 else estimated_kv inp)"
    using b ov g unfolding ov_def [symmetric] g_def [symmetric] c_def [symmetric] kg_def [symmetric] eq
    by (simp add: small)
  show "vram_bytes (estimate_demand inp) =
      rd_splittable (estimate_demand inp) + rd_fixed (estimate_demand inp)"
    using b ov g by (auto simp: eq vram_bytes_def small)
qed

section \<open>Options that name a number of GPU layers\<close>

text \<open>\<open>key\<close> is the option the llama-server build takes for the number of GPU layers.\<close>

definition layer_key :: "string \<Rightarrow> bool" where
  "layer_key key \<longleftrightarrow> key = ''gpu-layers'' \<or> key = ''n-gpu-layers''"

definition layers_free :: "options \<Rightarrow> bool" where
  "layers_free opts \<longleftrightarrow>
     opts ''gpu-layers'' = None \<and> opts ''--gpu-layers'' = None \<and>
     opts ''n-gpu-layers'' = None \<and> opts ''--n-gpu-layers'' = None"

lemma option_value_upd_same [simp]: "option_value (opts(key \<mapsto> v)) key = v"
  by (simp add: option_value_def)

lemma option_value_upd_other:
  "key' \<noteq> key \<Longrightarrow> ''--'' @ key' \<noteq> key \<Longrightarrow> option_value (opts(key \<mapsto> v)) key' = option_value opts key'"
  by (auto simp: option_value_def split: option.split)

lemma option_value_layers:
  assumes "layer_key key" and "key' \<notin> {''gpu-layers'', ''n-gpu-layers''}" and "hd key' \<noteq> CHR ''-''"
  shows "option_value (opts(key \<mapsto> v)) key' = option_value opts key'"
  using assms by (intro option_value_upd_other) (auto simp: layer_key_def)

lemma layers_other_options:
  assumes "layer_key key"
  shows "parse_context_option (opts(key \<mapsto> v)) = parse_context_option opts"
    and "estimate_kv_bytes ctx m (opts(key \<mapsto> v)) = estimate_kv_bytes ctx m opts"
    and "cpu_moe_blocks (opts(key \<mapsto> v)) bc = cpu_moe_blocks opts bc"
    and "kv_on_gpu (opts(key \<mapsto> v)) c = kv_on_gpu opts c"
proof -
  note ov = option_value_layers [OF assms]
  have c: "cache_element_bytes (opts(key \<mapsto> v)) ''cache-type-k'' = cache_element_bytes opts ''cache-type-k''"
    "cache_element_bytes (opts(key \<mapsto> v)) ''cache-type-v'' = cache_element_bytes opts ''cache-type-v''"
    by (simp_all add: cache_element_bytes_def ov)
  show "estimate_kv_bytes ctx m (opts(key \<mapsto> v)) = estimate_kv_bytes ctx m opts"
    unfolding estimate_kv_bytes_def c by (rule refl)
  show "parse_context_option (opts(key \<mapsto> v)) = parse_context_option opts"
    and "cpu_moe_blocks (opts(key \<mapsto> v)) bc = cpu_moe_blocks opts bc"
    and "kv_on_gpu (opts(key \<mapsto> v)) c = kv_on_gpu opts c"
    by (simp_all add: parse_context_option_def cpu_moe_blocks_def option_enabled_def kv_on_gpu_def ov)
qed

lemma layers_context:
  "layer_key key \<Longrightarrow> demand_context (inp\<lparr>di_options := (di_options inp)(key \<mapsto> v)\<rparr>) = demand_context inp"
  by (simp add: demand_context_def layers_other_options)

lemma demand_bounded_layers:
  "layer_key key \<Longrightarrow> demand_bounded inp \<Longrightarrow>
    demand_bounded (inp\<lparr>di_options := (di_options inp)(key \<mapsto> v)\<rparr>)"
  by (simp add: demand_bounded_def layers_context layers_other_options)

lemma offload_fraction_layers:
  assumes "layer_key key" and "layers_free opts" and "is_i64 n"
  shows "gpu_offload_fraction (opts(key \<mapsto> format_int n)) bc =
    (if n < 0 then (Fin 1, False) else if n = 0 then (Fin 0, True)
     else if bc \<le> 0 \<or> bc \<le> n then (Fin 1, False)
     else (fdiv (float_of_i64 n) (float_of_i64 bc), False))"
  using assms(1) unfolding layer_key_def
proof
  assume "key = ''gpu-layers''"
  then show ?thesis
    using parse_format_int [OF assms(3)] by (simp add: gpu_offload_fraction_def Let_def)
next
  assume k: "key = ''n-gpu-layers''"
  then have "option_value (opts(key \<mapsto> format_int n)) ''gpu-layers'' = []"
    using assms(2) by (simp add: option_value_def layers_free_def)
  then show ?thesis
    using parse_format_int [OF assms(3)] k by (simp add: gpu_offload_fraction_def Let_def)
qed

text \<open>The fraction as a number: 1 from \<open>bc\<close> layers on, else the rounded quotient.\<close>

definition layer_fraction :: "i64 \<Rightarrow> i64 \<Rightarrow> rat" where
  "layer_fraction n bc =
     (if bc \<le> n then 1 else rval (rval (of_int n) / rval (of_int bc)))"

lemma layer_fraction_unit:
  assumes "0 < n" and "is_i64 n" and "is_i64 bc" and "0 < bc"
  shows "0 \<le> layer_fraction n bc" and "layer_fraction n bc \<le> 1"
  using fdiv_unit [of n bc] assms by (auto simp: layer_fraction_def)

lemma layer_fraction_mono:
  assumes "0 < n" and "n \<le> m" and "is_i64 m" and "is_i64 bc" and "0 < bc"
  shows "layer_fraction n bc \<le> layer_fraction m bc"
proof (cases "bc \<le> m")
  case True
  moreover have "is_i64 n" using assms by (simp add: is_i64_def)
  ultimately show ?thesis using layer_fraction_unit(2) [of n bc] assms by (simp add: layer_fraction_def)
next
  case False
  have "1 \<le> rval (of_int bc)" using assms(5) by (intro rval_ge_1) simp
  then have "rval (of_int n) / rval (of_int bc) \<le> rval (of_int m) / rval (of_int bc)"
    using assms(2) by (intro divide_right_mono rval_mono) simp_all
  then show ?thesis using False assms(2) by (simp add: layer_fraction_def rval_mono)
qed

lemma offload_fraction_layer_fraction:
  assumes "layer_key key" and "layers_free opts" and "is_i64 n" and "0 < n" and "is_i64 bc" and "0 < bc"
  shows "gpu_offload_fraction (opts(key \<mapsto> format_int n)) bc = (Fin (layer_fraction n bc), False)"
  using assms fdiv_unit(1) [of n bc]
  by (simp add: offload_fraction_layers layer_fraction_def)

lemma gpu_weights_layers:
  assumes "layer_key key" and "layers_free (di_options inp)" and "is_i64 n" and "0 < n"
    and "is_i64 (km_block_count (di_metadata inp))" and "0 < km_block_count (di_metadata inp)"
    and "km_expert_count (di_metadata inp) \<le> 0"
  shows "gpu_weights w (inp\<lparr>di_options := (di_options inp)(key \<mapsto> format_int n)\<rparr>) =
    clamp_to 0 w (weight_part w (layer_fraction n (km_block_count (di_metadata inp))))"
  using offload_fraction_layer_fraction [OF assms(1,2,3,4,5,6)] assms(7)
  by (simp add: gpu_weights_def Let_def weight_part_def split: option.split)

section \<open>Properties\<close>

text \<open>A concrete model for the witnesses: 8 GB of weights, 32 layers, grouped-query attention.\<close>

definition sample_input :: "i64 \<Rightarrow> options \<Rightarrow> demand_input" where
  "sample_input experts opts =
     \<lparr>di_weights = 8000000000, di_companion = 1000, di_context = 0,
      di_metadata = \<lparr>km_architecture = ''llama'', km_context_length = 8192, km_block_count = 32,
        km_embedding = 4096, km_head_count = 32, km_kv_head_count = 8, km_key_length = 0,
        km_value_length = 0, km_expert_count = experts\<rparr>,
      di_metadata_err = False, di_options = opts\<rparr>"

lemma demand_conserved:
  assumes "demand_bounded inp"
  shows "(let d = estimate_demand inp in
      vram_bytes d + rd_host_ram d = rd_weights d + rd_kv_cache d + rd_overhead d \<and>
      vram_bytes d = rd_splittable d + rd_fixed d \<and>
      0 \<le> rd_splittable d \<and> 0 \<le> rd_fixed d \<and> 0 \<le> rd_host_ram d \<and> 268435456 \<le> rd_overhead d)"
proof -
  let ?w = "pos_part (di_weights inp)" and ?c = "pos_part (di_companion inp)"
  have b: "0 \<le> ?w" "is_i64 ?w" "0 \<le> ?c" "0 \<le> ?w + ?c" "?w + ?c \<le> 2 ^ 61" "0 \<le> estimated_kv inp"
    using assms by (auto simp: demand_bounded_def is_i64_def pos_part_def)
  show ?thesis
    using gpu_weights_bounds [OF b(1,2), of inp] runtime_overhead_bounds [OF b(4,5)] b(3,6)
    by (auto simp only: Let_def estimate_demand_fields [OF assms] split: if_splits)
qed

text \<open>
  Conservation: for inputs that stay in range, the VRAM and the host RAM of the estimate
  add up to the weights, the key-value cache and the runtime overhead; the VRAM is exactly the
  splittable weights plus the fixed part (what manual placement later insists on); every part
  is non-negative and the overhead at least 256 MiB.
\<close>

theorem demand_conservation:
  assumes "demand_bounded inp"
  shows "(let d = estimate_demand inp in
      vram_bytes d + rd_host_ram d = rd_weights d + rd_kv_cache d + rd_overhead d \<and>
      vram_bytes d = rd_splittable d + rd_fixed d \<and>
      0 \<le> rd_splittable d \<and> 0 \<le> rd_fixed d \<and> 0 \<le> rd_host_ram d \<and> 268435456 \<le> rd_overhead d)"
  using assms by (rule demand_conserved)

theorem demand_conservation_witness:
  "demand_bounded (sample_input 0 [''n-gpu-layers'' \<mapsto> ''10'']) \<and>
   (let d = estimate_demand (sample_input 0 [''n-gpu-layers'' \<mapsto> ''10'']) in
      vram_bytes d + rd_host_ram d = rd_weights d + rd_kv_cache d + rd_overhead d)"
proof -
  have b: "demand_bounded (sample_input 0 [''n-gpu-layers'' \<mapsto> ''10''])" by code_simp
  show ?thesis using b demand_conservation [OF b] unfolding Let_def by blast
qed

lemma demand_layers_mono:
  assumes "demand_bounded inp" and "layer_key key" and "layers_free (di_options inp)"
    and "km_expert_count (di_metadata inp) \<le> 0" and "0 < km_block_count (di_metadata inp)"
    and "0 < n" and "n \<le> m" and "is_i64 m"
  shows "vram_bytes (estimate_demand (inp\<lparr>di_options := (di_options inp)(key \<mapsto> format_int n)\<rparr>))
       \<le> vram_bytes (estimate_demand (inp\<lparr>di_options := (di_options inp)(key \<mapsto> format_int m)\<rparr>))
     \<and> rd_host_ram (estimate_demand (inp\<lparr>di_options := (di_options inp)(key \<mapsto> format_int m)\<rparr>))
       \<le> rd_host_ram (estimate_demand (inp\<lparr>di_options := (di_options inp)(key \<mapsto> format_int n)\<rparr>))"
proof -
  let ?bc = "km_block_count (di_metadata inp)" and ?w = "pos_part (di_weights inp)"
  let ?i = "\<lambda>k. inp\<lparr>di_options := (di_options inp)(key \<mapsto> format_int k)\<rparr>"
  have i: "is_i64 n" "is_i64 ?bc" "0 < m" using assms by (auto simp: is_i64_def demand_bounded_def)
  have w: "0 \<le> ?w" "?w \<le> 2 ^ 60"
    using assms(1) by (auto simp: demand_bounded_def pos_part_bounds)
  note B = demand_bounded_layers [OF assms(2,1)]
  note fr = offload_fraction_layer_fraction [OF assms(2,3) _ _ i(2) assms(5)]
  note gw = gpu_weights_layers [OF assms(2,3) _ _ i(2) assms(5,4)]
  have "weight_part ?w (layer_fraction n ?bc) \<le> weight_part ?w (layer_fraction m ?bc)"
    using w layer_fraction_unit [of n ?bc] layer_fraction_unit [of m ?bc] i assms
    by (intro weight_part_mono layer_fraction_mono) auto
  then have "gpu_weights ?w (?i n) \<le> gpu_weights ?w (?i m)"
    using i assms(6,8) by (simp add: gw clamp_to_mono del: fun_upd_apply)
  then show ?thesis
    using i assms(6,8)
    by (simp add: estimate_demand_fields [OF B] fr layers_context [OF assms(2)]
        layers_other_options [OF assms(2)] del: fun_upd_apply)
qed

text \<open>
  More layers on the GPU never need more host RAM and never less VRAM: for a dense model
  whose options do not fix the layers, the estimate is monotone in the number of GPU layers.
\<close>

theorem demand_layers_monotone:
  assumes "demand_bounded inp" and "layer_key key" and "layers_free (di_options inp)"
    and "km_expert_count (di_metadata inp) \<le> 0" and "0 < km_block_count (di_metadata inp)"
    and "0 < n" and "n \<le> m" and "is_i64 m"
  shows "vram_bytes (estimate_demand (inp\<lparr>di_options := (di_options inp)(key \<mapsto> format_int n)\<rparr>))
       \<le> vram_bytes (estimate_demand (inp\<lparr>di_options := (di_options inp)(key \<mapsto> format_int m)\<rparr>))
     \<and> rd_host_ram (estimate_demand (inp\<lparr>di_options := (di_options inp)(key \<mapsto> format_int m)\<rparr>))
       \<le> rd_host_ram (estimate_demand (inp\<lparr>di_options := (di_options inp)(key \<mapsto> format_int n)\<rparr>))"
  using assms by (rule demand_layers_mono)

theorem demand_layers_monotone_witness:
  "vram_bytes (estimate_demand (sample_input 0 [''n-gpu-layers'' \<mapsto> format_int 8]))
     \<le> vram_bytes (estimate_demand (sample_input 0 [''n-gpu-layers'' \<mapsto> format_int 20]))
   \<and> rd_host_ram (estimate_demand (sample_input 0 [''n-gpu-layers'' \<mapsto> format_int 20]))
     \<le> rd_host_ram (estimate_demand (sample_input 0 [''n-gpu-layers'' \<mapsto> format_int 8]))"
proof -
  have b: "demand_bounded (sample_input 0 Map.empty)" by code_simp
  show ?thesis
    using demand_layers_monotone [OF b, of "''n-gpu-layers''" 8 20]
    by (simp add: sample_input_def layer_key_def layers_free_def is_i64_def)
qed


end
