(* ===== verification/Placement.thy ===== *)
theory Placement
  imports Demand
begin

text \<open>
  \<open>backend/internal/scheduler/placement.go\<close>: where an Instance's VRAM demand goes. Automatic
  placement takes one GPU when one has room and else the fewest GPUs in order of usable memory;
  manual placement takes the configured devices and splits the demand by the tensor split.
\<close>

section \<open>Data\<close>

record placement_request =
  pr_required :: i64
  pr_host_ram :: i64
  pr_mode :: string
  pr_devices :: "string list"
  pr_tensor_split :: string
  pr_reserve :: i64
  pr_splittable :: i64
  pr_fixed :: i64

record placement =
  pl_devices :: "string list"
  pl_tensor_split :: string
  pl_required :: i64
  pl_available :: i64
  pl_demand :: "device_bytes list"
  pl_fits :: bool

definition no_placement :: placement where
  "no_placement = \<lparr>pl_devices = [], pl_tensor_split = [], pl_required = 0, pl_available = 0,
     pl_demand = [], pl_fits = False\<rparr>"

text \<open>One constructor per error message of the package.\<close>

datatype sched_error =
    RequiredNegative
  | BadMode
  | ManualNeedsDevice
  | DeviceUnavailable string
  | ManualDemandNegative
  | ManualDemandSum
  | SplitNoDevice
  | SplitCount nat
  | SplitInvalid string
  | SplitNotPositive

section \<open>Operations\<close>

definition default_vram_reserve :: i64 where
  "default_vram_reserve = 512 * 1024 * 1024"

definition usable_vram :: "gpu \<Rightarrow> i64 \<Rightarrow> i64" where
  "usable_vram g reserve = (let u = wrap64 (gpu_free g - reserve) in if u < 0 then 0 else u)"

text \<open>The digit loop of \<open>intString\<close>, from the least digit on.\<close>

function int_digits :: "i64 \<Rightarrow> string \<Rightarrow> string" where
  "int_digits v acc =
     (if 0 < v then int_digits (v div 10) (digit_char (v mod 10) # acc) else acc)"
  by pat_completeness auto
termination
  by (relation "measure (\<lambda>(v, acc). nat v)") auto

declare int_digits.simps [simp del]

definition int_string :: "i64 \<Rightarrow> string" where
  "int_string v =
     (if v = 0 then ''0''
      else let negative = (v < 0);
               digits = int_digits (if negative then wrap64 (- v) else v) []
           in if negative then CHR ''-'' # digits else digits)"

definition split_weight :: "i64 \<Rightarrow> i64" where
  "split_weight v = (let w = go_div v (256 * 1024 * 1024) in if w < 1 then 1 else w)"

definition tensor_split_for :: "i64 list \<Rightarrow> string" where
  "tensor_split_for bytes = join_with '','' (map (\<lambda>v. int_string (split_weight v)) bytes)"

text \<open>The loop over the parts of a tensor split: weights so far and their sum.\<close>

fun strict_weights :: "string list \<Rightarrow> f64 list \<Rightarrow> f64 \<Rightarrow> sched_error + f64 list \<times> f64" where
  "strict_weights [] ws tot = Inr (ws, tot)"
| "strict_weights (part # parts) ws tot =
     (case parse_float (trim_space part) of
        None \<Rightarrow> Inl (SplitInvalid (trim_space part))
      | Some v \<Rightarrow>
          if flt v (Fin 0) \<or> v \<in> {NaN, PosInf, NegInf} then Inl (SplitInvalid (trim_space part))
          else strict_weights parts (ws @ [v]) (fadd tot v))"

definition strict_tensor_split_weights :: "string \<Rightarrow> nat \<Rightarrow> sched_error + f64 list" where
  "strict_tensor_split_weights raw0 n =
     (if n = 0 then Inl SplitNoDevice
      else
        let raw = trim_space raw0
        in if raw = [] then Inr (replicate n (Fin 1))
           else
             let parts = split_on (CHR '','') raw
             in if length parts \<noteq> n then Inl (SplitCount n)
                else case strict_weights parts [] (Fin 0) of
                  Inl e \<Rightarrow> Inl e
                | Inr (ws, tot) \<Rightarrow> if fle tot (Fin 0) then Inl SplitNotPositive else Inr ws)"

text \<open>
  The loop of \<open>manualPlacementDemand\<close> over the devices with their weights: all but the last
  get their rounded-down share, the last what remains, and the first also the fixed bytes.
\<close>

fun manual_shares ::
    "i64 \<Rightarrow> f64 \<Rightarrow> i64 \<Rightarrow> (string \<times> f64) list \<Rightarrow> i64 \<Rightarrow> device_bytes list" where
  "manual_shares splittable tot fixed [] remaining = []"
| "manual_shares splittable tot fixed [(d, w)] remaining =
     [\<lparr>device = d, amount = wrap64 (remaining + fixed)\<rparr>]"
| "manual_shares splittable tot fixed ((d, w) # x # xs) remaining =
     (let bytes = (if 0 < splittable
                   then i64_of_float (ffloor (fdiv (fmul (float_of_i64 splittable) w) tot)) else 0);
          remaining' = (if 0 < splittable then wrap64 (remaining - bytes) else remaining)
      in \<lparr>device = d, amount = wrap64 (bytes + fixed)\<rparr>
         # manual_shares splittable tot 0 (x # xs) remaining')"

definition manual_placement_demand ::
    "placement_request \<Rightarrow> string list \<Rightarrow> sched_error + device_bytes list" where
  "manual_placement_demand req devices =
     (if pr_required req < 0 \<or> pr_splittable req < 0 \<or> pr_fixed req < 0 then Inl ManualDemandNegative
      else
        let fixed = pr_fixed req;
            splittable = (if pr_splittable req = 0 \<and> fixed = 0 then pr_required req
                          else pr_splittable req)
        in if wrap64 (splittable + fixed) \<noteq> pr_required req then Inl ManualDemandSum
           else case strict_tensor_split_weights (pr_tensor_split req) (length devices) of
             Inl e \<Rightarrow> Inl e
           | Inr ws \<Rightarrow>
               Inr (manual_shares splittable (foldl fadd (Fin 0) ws) fixed (zip devices ws) splittable))"

text \<open>The loop over the configured devices: distinct ids in order and their usable total.\<close>

fun manual_devices ::
    "gpu list \<Rightarrow> i64 \<Rightarrow> string list \<Rightarrow> string list \<Rightarrow> i64 \<Rightarrow> sched_error + string list \<times> i64" where
  "manual_devices gs reserve [] devs avail = Inr (devs, avail)"
| "manual_devices gs reserve (raw # raws) devs avail =
     (let k = trim_space raw
      in case gpu_by_id gs k of
           None \<Rightarrow> Inl (DeviceUnavailable k)
         | Some g \<Rightarrow>
             if k \<in> set devs then manual_devices gs reserve raws devs avail
             else manual_devices gs reserve raws (devs @ [k]) (wrap64 (avail + usable_vram g reserve)))"

text \<open>The comparison function of the sort: more usable memory first, then the id.\<close>

definition gpu_before :: "i64 \<Rightarrow> gpu \<Rightarrow> gpu \<Rightarrow> bool" where
  "gpu_before reserve a b =
     (let l = usable_vram a reserve; r = usable_vram b reserve
      in if l \<noteq> r then r < l else gpu_id a < gpu_id b)"

definition sorted_gpus_by_usable :: "snapshot \<Rightarrow> i64 \<Rightarrow> gpu list" where
  "sorted_gpus_by_usable snap reserve = sort_by (gpu_before reserve) (gpus snap)"

text \<open>The loop that adds GPUs until the demand is covered: devices, total, weights, covered.\<close>

fun spread_gpus ::
    "i64 \<Rightarrow> i64 \<Rightarrow> gpu list \<Rightarrow> string list \<Rightarrow> i64 \<Rightarrow> i64 list \<Rightarrow> string list \<times> i64 \<times> i64 list \<times> bool"
where
  "spread_gpus reserve required [] devs avail ws = (devs, avail, ws, False)"
| "spread_gpus reserve required (g # gs) devs avail ws =
     (let u = usable_vram g reserve
      in if u \<le> 0 then spread_gpus reserve required gs devs avail ws
         else
           let avail' = wrap64 (avail + u)
           in if required \<le> avail' then (devs @ [gpu_id g], avail', ws @ [u], True)
              else spread_gpus reserve required gs (devs @ [gpu_id g]) avail' (ws @ [u]))"

definition effective_reserve :: "i64 \<Rightarrow> i64" where
  "effective_reserve r = (if r \<le> 0 then default_vram_reserve else r)"

definition effective_mode :: "string \<Rightarrow> string" where
  "effective_mode m = (let l = to_lower (trim_space m) in if l = [] then ''auto'' else l)"

definition plan_manual :: "snapshot \<Rightarrow> placement_request \<Rightarrow> i64 \<Rightarrow> sched_error + placement" where
  "plan_manual snap req reserve =
     (if pr_devices req = [] then Inl ManualNeedsDevice
      else case manual_devices (gpus snap) reserve (pr_devices req) [] 0 of
        Inl e \<Rightarrow> Inl e
      | Inr (devs, avail) \<Rightarrow>
          let base = \<lparr>pl_devices = devs, pl_tensor_split = trim_space (pr_tensor_split req),
                      pl_required = pr_required req, pl_available = avail, pl_demand = [],
                      pl_fits = False\<rparr>
          in case devs of
               [d] \<Rightarrow> Inr (base\<lparr>pl_demand := [\<lparr>device = d, amount = pr_required req\<rparr>],
                   pl_fits := pr_required req = 0 \<or>
                     pr_required req \<le> usable_vram (gpu_or_zero (gpus snap) d) reserve\<rparr>)
             | _ \<Rightarrow>
               (case manual_placement_demand req devs of
                  Inl e \<Rightarrow> Inl e
                | Inr dem \<Rightarrow> Inr (base\<lparr>pl_demand := dem,
                    pl_fits := \<not> list_ex (\<lambda>x.
                      usable_vram (gpu_or_zero (gpus snap) (device x)) reserve < amount x) dem\<rparr>)))"

definition plan_auto :: "snapshot \<Rightarrow> placement_request \<Rightarrow> i64 \<Rightarrow> placement" where
  "plan_auto snap req reserve =
     (let sorted = sorted_gpus_by_usable snap reserve;
          required = pr_required req
      in case find (\<lambda>g. required = 0 \<or> required \<le> usable_vram g reserve) sorted of
           Some g \<Rightarrow> no_placement\<lparr>pl_devices := [gpu_id g], pl_required := required,
                       pl_available := usable_vram g reserve, pl_fits := True\<rparr>
         | None \<Rightarrow>
             (case spread_gpus reserve required sorted [] 0 [] of (devs, avail, ws, fits) \<Rightarrow>
                no_placement\<lparr>pl_devices := devs,
                  pl_tensor_split := (if 1 < length devs then tensor_split_for ws else []),
                  pl_required := required, pl_available := avail, pl_fits := fits\<rparr>))"

definition plan_placement :: "snapshot \<Rightarrow> placement_request \<Rightarrow> sched_error + placement" where
  "plan_placement snap req =
     (if pr_required req < 0 then Inl RequiredNegative
      else
        let reserve = effective_reserve (pr_reserve req); mode = effective_mode (pr_mode req)
        in if mode \<noteq> ''auto'' \<and> mode \<noteq> ''manual'' then Inl BadMode
           else if gpus snap = [] then
             Inr (no_placement\<lparr>pl_required := pr_required req, pl_fits := pr_required req = 0\<rparr>)
           else if mode = ''manual'' then plan_manual snap req reserve
           else Inr (plan_auto snap req reserve))"

section \<open>The order of the GPUs\<close>

lemma usable_vram_nonneg [simp]: "0 \<le> usable_vram g r"
  by (simp add: usable_vram_def Let_def)

lemma gpu_before_iff:
  "gpu_before r a b \<longleftrightarrow> usable_vram b r < usable_vram a r \<or>
     usable_vram a r = usable_vram b r \<and> gpu_id a < gpu_id b"
  by (auto simp: gpu_before_def Let_def)

interpretation gpu_order: comparison "gpu_before r" for r
proof unfold_locales
  show "\<not> gpu_before r a c" if "\<not> gpu_before r a b" "\<not> gpu_before r b c" for a b c
    using that unfolding gpu_before_iff
    by (metis order.trans leI order.strict_iff_order not_less)
qed (auto simp: gpu_before_iff)

lemma mset_sorted_gpus [simp]: "mset (sorted_gpus_by_usable snap r) = mset (gpus snap)"
  by (simp add: sorted_gpus_by_usable_def)

lemma set_sorted_gpus [simp]: "set (sorted_gpus_by_usable snap r) = set (gpus snap)"
  by (simp add: sorted_gpus_by_usable_def)

lemma sorted_gpus_usable:
  "sorted_wrt (\<lambda>a b. usable_vram b r \<le> usable_vram a r) (sorted_gpus_by_usable snap r)"
  unfolding sorted_gpus_by_usable_def
  by (rule sorted_wrt_mono_rel [OF _ gpu_order.sorted_sort_by]) (auto simp: gpu_before_iff)

section \<open>Greedy choice from a sorted list\<close>

text \<open>No \<open>k\<close> elements of a descending list sum to more than its first \<open>k\<close>.\<close>

lemma sum_take_Suc_le:
  fixes f :: "'a \<Rightarrow> int"
  assumes "sorted_wrt (\<lambda>a b. f b \<le> f a) (x # xs)" and "\<forall>y \<in> set (x # xs). 0 \<le> f y"
  shows "sum_list (map f (take (Suc k) xs)) \<le> f x + sum_list (map f (take k xs))"
proof (cases "k < length xs")
  case True
  then have "f (xs ! k) \<le> f x" using assms(1) by simp
  then show ?thesis using True by (simp add: take_Suc_conv_app_nth)
next
  case False
  then show ?thesis using assms(2) by simp
qed

lemma greedy_sum:
  fixes f :: "'a \<Rightarrow> int"
  assumes "sorted_wrt (\<lambda>a b. f b \<le> f a) xs" and "\<forall>y \<in> set xs. 0 \<le> f y" and "M \<subseteq># mset xs"
  shows "sum_mset (image_mset f M) \<le> sum_list (map f (take (size M) xs))"
  using assms
proof (induction xs arbitrary: M)
  case Nil
  then show ?case by simp
next
  case (Cons x xs)
  show ?case
  proof (cases "x \<in># M")
    case True
    then obtain N where M: "M = add_mset x N" by (metis multi_member_split)
    then have "N \<subseteq># mset xs" using Cons.prems(3) by simp
    then show ?thesis using Cons.IH [of N] Cons.prems(1,2) M by simp
  next
    case False
    then have "count M a \<le> count (mset xs) a" for a
      using Cons.prems(3) by (cases "a = x") (auto simp: subseteq_mset_def not_in_iff dest: spec [of _ a])
    then have sub: "M \<subseteq># mset xs" by (simp add: subseteq_mset_def)
    show ?thesis
    proof (cases "size M")
      case 0
      then show ?thesis by simp
    next
      case (Suc k)
      have "sum_mset (image_mset f M) \<le> sum_list (map f (take (Suc k) xs))"
        using Cons.IH [OF _ _ sub] Cons.prems(1,2) Suc by simp
      also have "\<dots> \<le> f x + sum_list (map f (take k xs))"
        by (rule sum_take_Suc_le [OF Cons.prems(1,2)])
      finally show ?thesis using Suc by simp
    qed
  qed
qed

lemma sum_take_mono:
  fixes f :: "'a \<Rightarrow> int"
  assumes "\<forall>y \<in> set xs. 0 \<le> f y" and "j \<le> k"
  shows "sum_list (map f (take j xs)) \<le> sum_list (map f (take k xs))"
proof -
  have "take k xs = take j xs @ take (k - j) (drop j xs)"
    using assms(2) by (metis le_add_diff_inverse take_add)
  moreover have "0 \<le> sum_list (map f (take (k - j) (drop j xs)))"
    using assms(1) by (intro sum_list_nonneg) (auto dest!: in_set_takeD in_set_dropD)
  ultimately show ?thesis by simp
qed

text \<open>What the loop over the GPUs returns when the total does not wrap.\<close>

abbreviation usable_sum :: "i64 \<Rightarrow> gpu list \<Rightarrow> int" where
  "usable_sum r gs \<equiv> sum_list (map (\<lambda>g. usable_vram g r) gs)"

lemma usable_sum_nonneg: "0 \<le> usable_sum r gs"
  by (intro sum_list_nonneg) auto

lemma spread_gpus_spec:
  assumes "0 \<le> avail" and "avail < required" and "avail + usable_sum r gs < 2 ^ 63"
    and "spread_gpus r required gs devs avail ws = (devs', avail', ws', fits)"
  shows "\<exists>k. avail' = avail + usable_sum r (take k gs) \<and> length devs' \<le> length devs + k \<and>
      (if fits then 0 < k \<and> required \<le> avail' \<and> avail + usable_sum r (take (k - 1) gs) < required
       else length gs \<le> k \<and> avail' < required)"
  using assms
proof (induction gs arbitrary: devs avail ws)
  case Nil
  then show ?case by auto
next
  case (Cons g gs)
  let ?u = "usable_vram g r"
  have w: "wrap64 (avail + ?u) = avail + ?u"
  proof (rule wrap64_nonneg)
    show "avail + ?u < 9223372036854775808"
      using Cons.prems(3) usable_sum_nonneg [of r gs] by simp
  qed (use Cons.prems(1) in simp)
  consider (skip) "?u \<le> 0" | (last) "0 < ?u" "required \<le> avail + ?u" | (more) "0 < ?u" "avail + ?u < required"
    by linarith
  then show ?case
  proof cases
    case skip
    then have "?u = 0" by (simp add: order_antisym)
    then obtain k where k: "avail' = avail + usable_sum r (take k gs)" "length devs' \<le> length devs + k"
      "if fits then 0 < k \<and> required \<le> avail' \<and> avail + usable_sum r (take (k - 1) gs) < required
       else length gs \<le> k \<and> avail' < required"
      using Cons.IH [of avail devs ws] Cons.prems by auto
    show ?thesis
      by (rule exI [of _ "Suc k"], use k \<open>?u = 0\<close> in \<open>cases k; auto split: if_splits\<close>)
  next
    case last
    then show ?thesis using Cons.prems w by (intro exI [of _ 1]) (auto simp: Let_def)
  next
    case more
    then obtain k where k: "avail' = avail + ?u + usable_sum r (take k gs)"
      "length devs' \<le> length devs + 1 + k"
      "if fits then 0 < k \<and> required \<le> avail' \<and> avail + ?u + usable_sum r (take (k - 1) gs) < required
       else length gs \<le> k \<and> avail' < required"
      using Cons.IH [of "avail + ?u" "devs @ [gpu_id g]" "ws @ [?u]"] Cons.prems w by (auto simp: Let_def)
    show ?thesis
      by (rule exI [of _ "Suc k"], use k in \<open>cases k; auto split: if_splits\<close>)
  qed
qed

text \<open>The devices are the GPUs with usable memory of a prefix, and their usable memory is the total.\<close>

lemma spread_gpus_devices:
  assumes "0 \<le> avail" and "avail + usable_sum r gs < 2 ^ 63"
    and "spread_gpus r required gs devs avail ws = (devs', avail', ws', fits)"
  shows "\<exists>hs. devs' = devs @ map gpu_id hs \<and> avail' = avail + usable_sum r hs \<and> subseq hs gs \<and>
    (fits \<longrightarrow> hs \<noteq> [] \<and> required \<le> avail')"
  using assms
proof (induction gs arbitrary: devs avail ws)
  case Nil
  then show ?case by auto
next
  case (Cons g gs)
  let ?u = "usable_vram g r"
  have w: "wrap64 (avail + ?u) = avail + ?u"
  proof (rule wrap64_nonneg)
    show "avail + ?u < 9223372036854775808"
      using Cons.prems(2) usable_sum_nonneg [of r gs] by simp
  qed (use Cons.prems(1) in simp)
  consider (skip) "?u \<le> 0" | (last) "0 < ?u" "required \<le> avail + ?u" | (more) "0 < ?u" "avail + ?u < required"
    by linarith
  then show ?case
  proof cases
    case skip
    then have "?u = 0" by (simp add: order_antisym)
    then obtain hs where "devs' = devs @ map gpu_id hs" "avail' = avail + usable_sum r hs" "subseq hs gs"
      "fits \<longrightarrow> hs \<noteq> [] \<and> required \<le> avail'"
      using Cons.IH [of avail devs ws] Cons.prems by auto
    then show ?thesis by (intro exI [of _ hs]) (auto simp: subseq_Cons')
  next
    case last
    then show ?thesis using Cons.prems w by (intro exI [of _ "[g]"]) (auto simp: Let_def)
  next
    case more
    then obtain hs where "devs' = (devs @ [gpu_id g]) @ map gpu_id hs" "avail' = avail + ?u + usable_sum r hs"
      "subseq hs gs" "fits \<longrightarrow> hs \<noteq> [] \<and> required \<le> avail'"
      using Cons.IH [of "avail + ?u" "devs @ [gpu_id g]" "ws @ [?u]"] Cons.prems w by (auto simp: Let_def)
    then show ?thesis by (intro exI [of _ "g # hs"]) auto
  qed
qed

section \<open>Automatic placement\<close>

abbreviation request_reserve :: "placement_request \<Rightarrow> i64" where
  "request_reserve req \<equiv> effective_reserve (pr_reserve req)"

definition auto_request :: "snapshot \<Rightarrow> placement_request \<Rightarrow> bool" where
  "auto_request snap req \<longleftrightarrow>
     0 \<le> pr_required req \<and> effective_mode (pr_mode req) = ''auto'' \<and> gpus snap \<noteq> []"

lemma plan_placement_auto:
  "auto_request snap req \<Longrightarrow> plan_placement snap req = Inr (plan_auto snap req (request_reserve req))"
  by (auto simp: auto_request_def plan_placement_def Let_def)

lemma plan_auto_single:
  assumes "g \<in> set (gpus snap)" and "required = 0 \<or> required \<le> usable_vram g r" and "required = pr_required req"
  shows "\<exists>b \<in> set (gpus snap). (\<forall>g' \<in> set (gpus snap). usable_vram g' r \<le> usable_vram b r) \<and>
    plan_auto snap req r = no_placement\<lparr>pl_devices := [gpu_id b], pl_required := required,
      pl_available := usable_vram b r, pl_fits := True\<rparr>"
proof -
  obtain b bs where sorted: "sorted_gpus_by_usable snap r = b # bs"
    using assms(1) set_sorted_gpus [of snap r] by (cases "sorted_gpus_by_usable snap r") auto
  have le: "\<forall>g' \<in> set (gpus snap). usable_vram g' r \<le> usable_vram b r"
    using sorted_gpus_usable [of r snap] set_sorted_gpus [of snap r] unfolding sorted by auto
  have "b \<in> set (gpus snap)" using set_sorted_gpus [of snap r] sorted by auto
  then show ?thesis
    using le assms by (auto simp: plan_auto_def sorted Let_def intro!: bexI [of _ b])
qed

lemma plan_auto_spread:
  assumes "\<forall>g \<in> set (gpus snap). \<not> (pr_required req = 0 \<or> pr_required req \<le> usable_vram g r)"
    and "spread_gpus r (pr_required req) (sorted_gpus_by_usable snap r) [] 0 [] = (devs, avail, ws, fits)"
  shows "plan_auto snap req r = no_placement\<lparr>pl_devices := devs,
      pl_tensor_split := (if 1 < length devs then tensor_split_for ws else []),
      pl_required := pr_required req, pl_available := avail, pl_fits := fits\<rparr>"
proof -
  have "find (\<lambda>g. pr_required req = 0 \<or> pr_required req \<le> usable_vram g r)
      (sorted_gpus_by_usable snap r) = None"
    using assms(1) by (simp add: find_None_iff)
  then show ?thesis using assms(2) by (simp add: plan_auto_def Let_def)
qed

text \<open>A host with one GPU per entry of the list: its name and its free bytes.\<close>

definition sample_host :: "(string \<times> i64) list \<Rightarrow> snapshot" where
  "sample_host fs = \<lparr>ram_total = 64000000000, ram_available = 32000000000,
     gpus = map (\<lambda>(n, f). \<lparr>gpu_id = n, gpu_total = 24000000000, gpu_used = 24000000000 - f,
       gpu_free = f\<rparr>) fs, processes = []\<rparr>"

definition sample_request :: "string \<Rightarrow> i64 \<Rightarrow> string list \<Rightarrow> string \<Rightarrow> placement_request" where
  "sample_request mode required devs ts = \<lparr>pr_required = required, pr_host_ram = 0, pr_mode = mode,
     pr_devices = devs, pr_tensor_split = ts, pr_reserve = 0, pr_splittable = 0, pr_fixed = 0\<rparr>"

text \<open>
  Single GPU first: in automatic mode, when some GPU alone has room above the reserve, the
  placement is one device, a GPU with the most usable memory, with no tensor split, and fits.
\<close>

theorem auto_single_gpu_first:
  assumes "auto_request snap req" and "g \<in> set (gpus snap)"
    and "pr_required req \<le> usable_vram g (request_reserve req)"
  shows "\<exists>b \<in> set (gpus snap).
    (\<forall>g' \<in> set (gpus snap). usable_vram g' (request_reserve req) \<le> usable_vram b (request_reserve req)) \<and>
    plan_placement snap req = Inr \<lparr>pl_devices = [gpu_id b], pl_tensor_split = [],
      pl_required = pr_required req, pl_available = usable_vram b (request_reserve req),
      pl_demand = [], pl_fits = True\<rparr>"
  using plan_auto_single [OF assms(2) disjI2 [OF assms(3)] refl]
  by (auto simp: plan_placement_auto [OF assms(1)] no_placement_def)

theorem auto_single_gpu_first_witness:
  "\<exists>b \<in> set (gpus (sample_host [(''CUDA0'', 9000000000), (''CUDA1'', 20000000000)])).
    plan_placement (sample_host [(''CUDA0'', 9000000000), (''CUDA1'', 20000000000)])
      (sample_request ''auto'' 8000000000 [] []) = Inr \<lparr>pl_devices = [gpu_id b], pl_tensor_split = [],
      pl_required = 8000000000, pl_available = usable_vram b default_vram_reserve,
      pl_demand = [], pl_fits = True\<rparr>"
proof -
  let ?s = "sample_host [(''CUDA0'', 9000000000), (''CUDA1'', 20000000000)]"
  let ?r = "sample_request ''auto'' 8000000000 [] []"
  have a: "auto_request ?s ?r" by code_simp
  have g: "gpus ?s ! 0 \<in> set (gpus ?s)" by (simp add: sample_host_def)
  have u: "pr_required ?r \<le> usable_vram (gpus ?s ! 0) (request_reserve ?r)" by code_simp
  have r: "request_reserve ?r = default_vram_reserve" "pr_required ?r = 8000000000" by code_simp+
  show ?thesis using auto_single_gpu_first [OF a g u] unfolding r by blast
qed

lemma plan_auto_minimal:
  assumes "auto_request snap req" and "0 < pr_required req"
    and "usable_sum (request_reserve req) (gpus snap) < 2 ^ 63"
  shows "\<exists>p. plan_placement snap req = Inr p \<and>
    (pl_fits p \<longleftrightarrow> pr_required req \<le> usable_sum (request_reserve req) (gpus snap)) \<and>
    (pl_fits p \<longrightarrow> pr_required req \<le> pl_available p \<and>
      (\<forall>M. M \<subseteq># mset (gpus snap) \<longrightarrow>
        pr_required req \<le> (\<Sum>g \<in># M. usable_vram g (request_reserve req)) \<longrightarrow>
        length (pl_devices p) \<le> size M))"
proof -
  let ?r = "request_reserve req" and ?q = "pr_required req"
  let ?s = "sorted_gpus_by_usable snap ?r"
  have total: "usable_sum ?r ?s = usable_sum ?r (gpus snap)"
    by (metis mset_map mset_sorted_gpus sum_mset_sum_list)
  show ?thesis
  proof (cases "\<exists>g \<in> set (gpus snap). ?q \<le> usable_vram g ?r")
    case True
    then obtain g where g: "g \<in> set (gpus snap)" "?q \<le> usable_vram g ?r" by blast
    obtain b where b: "b \<in> set (gpus snap)" "\<forall>g' \<in> set (gpus snap). usable_vram g' ?r \<le> usable_vram b ?r"
      "plan_auto snap req ?r = no_placement\<lparr>pl_devices := [gpu_id b], pl_required := ?q,
        pl_available := usable_vram b ?r, pl_fits := True\<rparr>"
      using plan_auto_single [OF g(1) disjI2 [OF g(2)] refl] by blast
    have "usable_vram g ?r \<le> usable_sum ?r (gpus snap)"
      using g(1) by (intro member_le_sum_list) auto
    moreover have "1 \<le> size M" if "?q \<le> (\<Sum>g \<in># M. usable_vram g ?r)" for M
      using that assms(2) by (cases M) auto
    moreover have "?q \<le> usable_vram b ?r" using b(2) g by force
    ultimately show ?thesis using g(2) by (auto simp: plan_placement_auto [OF assms(1)] b(3))
  next
    case False
    obtain devs avail ws fits where sp: "spread_gpus ?r ?q ?s [] 0 [] = (devs, avail, ws, fits)"
      by (metis prod_cases4)
    have "0 + usable_sum ?r ?s < 2 ^ 63" using assms(3) total by simp
    from spread_gpus_spec [OF order_refl assms(2) this sp] obtain k where k:
      "avail = usable_sum ?r (take k ?s)" "length devs \<le> k"
      "if fits then 0 < k \<and> ?q \<le> avail \<and> usable_sum ?r (take (k - 1) ?s) < ?q
       else length ?s \<le> k \<and> avail < ?q"
      unfolding add_0 list.size by blast
    have fits: "fits \<longleftrightarrow> ?q \<le> usable_sum ?r (gpus snap)"
      using k sum_take_mono [of ?s "\<lambda>g. usable_vram g ?r" k "length ?s + k"] total
      by (auto split: if_splits)
    have "length devs \<le> size M"
      if M: "M \<subseteq># mset (gpus snap)" "?q \<le> (\<Sum>g \<in># M. usable_vram g ?r)" and fits for M
    proof (rule ccontr)
      assume "\<not> ?thesis"
      then have lt: "size M \<le> k - 1" using k(2) by simp
      have "(\<Sum>g \<in># M. usable_vram g ?r) \<le> usable_sum ?r (take (size M) ?s)"
        using M(1) sorted_gpus_usable by (intro greedy_sum) simp_all
      also have "\<dots> \<le> usable_sum ?r (take (k - 1) ?s)"
        by (rule sum_take_mono [OF _ lt]) simp
      also have "\<dots> < ?q" using k(3) \<open>fits\<close> by simp
      finally show False using M(2) by simp
    qed
    then show ?thesis
      using k(3) fits False assms(2) plan_auto_spread [OF _ sp]
      by (auto simp: plan_placement_auto [OF assms(1)] split: if_splits)
  qed
qed



section \<open>Manual placement\<close>

lemma manual_shares_devices: "map device (manual_shares sp tot fixed dws rem) = map fst dws"
  by (induction sp tot fixed dws rem rule: manual_shares.induct) (simp_all add: Let_def)

lemma manual_shares_sum:
  "dws \<noteq> [] \<Longrightarrow>
    wrap64 (sum_list (map amount (manual_shares sp tot fixed dws rem))) = wrap64 (rem + fixed)"
proof (induction sp tot fixed dws rem rule: manual_shares.induct)
  case (3 sp tot fixed d w x xs rem)
  define b where "b = (if 0 < sp then i64_of_float (ffloor (fdiv (fmul (float_of_i64 sp) w) tot)) else 0)"
  define rem' where "rem' = (if 0 < sp then wrap64 (rem - b) else rem)"
  define rest where "rest = sum_list (map amount (manual_shares sp tot 0 (x # xs) rem'))"
  have "wrap64 rest = wrap64 (rem' + 0)"
    unfolding rest_def rem'_def b_def by (rule "3.IH" [OF refl refl]) simp
  also have "\<dots> = wrap64 (rem - b)" by (simp add: rem'_def b_def)
  finally have r: "wrap64 rest = wrap64 (rem - b)" .
  have a: "sum_list (map amount (manual_shares sp tot fixed ((d, w) # x # xs) rem)) = wrap64 (b + fixed) + rest"
    by (simp add: Let_def b_def rem'_def rest_def)
  have "wrap64 (wrap64 (b + fixed) + rest) = wrap64 ((b + fixed) + wrap64 rest)"
    by (simp only: wrap64_add_left wrap64_add_right)
  also have "\<dots> = wrap64 (b + fixed + (rem - b))" unfolding r by (rule wrap64_add_right)
  also have "b + fixed + (rem - b) = rem + fixed" by simp
  finally show ?case unfolding a .
qed simp_all

lemma strict_weights_length:
  "strict_weights parts ws t = Inr (vs, t') \<Longrightarrow> length vs = length ws + length parts"
  by (induction parts ws t rule: strict_weights.induct) (auto split: option.splits if_splits)

lemma strict_tensor_split_length:
  "strict_tensor_split_weights raw n = Inr ws \<Longrightarrow> length ws = n \<and> 0 < n"
  by (auto simp: strict_tensor_split_weights_def Let_def
      dest: strict_weights_length split: if_splits sum.splits prod.splits)

lemma manual_demand_spec:
  assumes "manual_placement_demand req devs = Inr dem" and "is_i64 (pr_required req)"
  shows "map device dem = devs" and "wrap64 (sum_list (map amount dem)) = pr_required req"
proof -
  define fx where "fx = pr_fixed req"
  define sp where "sp = (if pr_splittable req = 0 \<and> fx = 0 then pr_required req else pr_splittable req)"
  obtain ws where e: "strict_tensor_split_weights (pr_tensor_split req) (length devs) = Inr ws"
    "wrap64 (sp + fx) = pr_required req"
    "dem = manual_shares sp (foldl fadd (Fin 0) ws) fx (zip devs ws) sp"
    using assms(1) unfolding manual_placement_demand_def Let_def fx_def [symmetric] sp_def [symmetric]
    by (auto split: if_split_asm sum.splits)
  have l: "length ws = length devs" "devs \<noteq> []"
    using strict_tensor_split_length [OF e(1)] by auto
  then have "zip devs ws \<noteq> []" by (cases devs; cases ws) auto
  then show "map device dem = devs" "wrap64 (sum_list (map amount dem)) = pr_required req"
    using l e by (simp_all add: manual_shares_devices manual_shares_sum)
qed

lemma manual_devices_spec:
  "manual_devices gs r raws devs avail = Inr (devs', avail') \<Longrightarrow> distinct devs \<Longrightarrow>
    distinct devs' \<and> set devs' = set devs \<union> trim_space ` set raws \<and>
    set devs' \<subseteq> set devs \<union> gpu_id ` set gs"
proof (induction gs r raws devs avail rule: manual_devices.induct)
  case (2 gs r raw raws devs avail)
  obtain g where g: "gpu_by_id gs (trim_space raw) = Some g"
    using "2.prems"(1) by (auto simp: Let_def split: option.splits)
  then have "trim_space raw \<in> gpu_id ` set gs" by (metis gpu_by_id_Some image_eqI)
  note k = this
  show ?case
  proof (cases "trim_space raw \<in> set devs")
    case True
    then show ?thesis using "2.IH"(1) [OF refl g True] "2.prems" g by (auto simp: Let_def)
  next
    case False
    have "distinct devs' \<and> set devs' = set (devs @ [trim_space raw]) \<union> trim_space ` set raws \<and>
        set devs' \<subseteq> set (devs @ [trim_space raw]) \<union> gpu_id ` set gs"
      by (rule "2.IH"(2) [OF refl g False]) (use "2.prems" g False in \<open>simp_all add: Let_def\<close>)
    then show ?thesis using k unfolding set_append list.set image_insert by blast
  qed
qed simp

lemma manual_exact:
  assumes "plan_placement snap req = Inr p" and "effective_mode (pr_mode req) = ''manual''"
    and "gpus snap \<noteq> []" and "is_i64 (pr_required req)"
  shows "map device (pl_demand p) = pl_devices p \<and> distinct (pl_devices p) \<and>
    set (pl_devices p) = trim_space ` set (pr_devices req) \<and>
    set (pl_devices p) \<subseteq> gpu_id ` set (gpus snap) \<and>
    wrap64 (sum_list (map amount (pl_demand p))) = pr_required req \<and>
    (pl_fits p \<longrightarrow> (\<forall>x \<in> set (pl_demand p).
      amount x \<le> usable_vram (gpu_or_zero (gpus snap) (device x)) (request_reserve req)))"
proof -
  let ?r = "request_reserve req"
  have "plan_manual snap req ?r = Inr p"
    using assms by (auto simp: plan_placement_def Let_def split: if_splits)
  then obtain devs avail where
    d: "manual_devices (gpus snap) ?r (pr_devices req) [] 0 = Inr (devs, avail)"
    and p: "case devs of
        [d] \<Rightarrow> pl_demand p = [\<lparr>device = d, amount = pr_required req\<rparr>] \<and> pl_devices p = [d] \<and>
          (pl_fits p \<longleftrightarrow> pr_required req = 0 \<or> pr_required req \<le> usable_vram (gpu_or_zero (gpus snap) d) ?r)
      | _ \<Rightarrow> manual_placement_demand req devs = Inr (pl_demand p) \<and> pl_devices p = devs \<and>
          (pl_fits p \<longleftrightarrow> \<not> list_ex (\<lambda>x.
             usable_vram (gpu_or_zero (gpus snap) (device x)) ?r < amount x) (pl_demand p))"
    by (auto simp: plan_manual_def Let_def split: if_splits sum.splits prod.splits list.splits)
  note D = manual_devices_spec [OF d, simplified]
  show ?thesis
  proof (cases "\<exists>x. devs = [x]")
    case True
    then show ?thesis using p D assms(4) by (auto simp: wrap64_id)
  next
    case False
    then have "manual_placement_demand req devs = Inr (pl_demand p)" "pl_devices p = devs"
      "pl_fits p \<longleftrightarrow> \<not> list_ex (\<lambda>x.
         usable_vram (gpu_or_zero (gpus snap) (device x)) ?r < amount x) (pl_demand p)"
      using p by (auto split: list.splits)
    then show ?thesis
      using D manual_demand_spec [OF _ assms(4), of devs] assms(4)
      by (metis (no_types, lifting) list_ex_iff not_less)
  qed
qed

text \<open>
  Manual placement: whatever the tensor split, the per-device demands are for exactly the
  configured devices, each once and each a GPU of the host; they sum to the required bytes (in
  \<open>int64\<close> arithmetic); and a placement that fits asks of no device more than it has usable.
\<close>

theorem manual_placement_exact:
  assumes "plan_placement snap req = Inr p" and "effective_mode (pr_mode req) = ''manual''"
    and "gpus snap \<noteq> []" and "is_i64 (pr_required req)"
  shows "map device (pl_demand p) = pl_devices p \<and> distinct (pl_devices p) \<and>
    set (pl_devices p) = trim_space ` set (pr_devices req) \<and>
    set (pl_devices p) \<subseteq> gpu_id ` set (gpus snap) \<and>
    wrap64 (sum_list (map amount (pl_demand p))) = pr_required req \<and>
    (pl_fits p \<longrightarrow> (\<forall>x \<in> set (pl_demand p).
      amount x \<le> usable_vram (gpu_or_zero (gpus snap) (device x)) (request_reserve req)))"
  using assms by (rule manual_exact)

text \<open>The smallest case with a split: two GPUs that share the demand one to three.\<close>

theorem manual_placement_exact_witness:
  "\<exists>p. plan_placement (sample_host [(''CUDA0'', 9000000000), (''CUDA1'', 20000000000)])
      (sample_request '' Manual'' 20000000000 [''CUDA0'', '' CUDA1 '', ''CUDA0''] ''1,3'') = Inr p \<and>
    pl_fits p \<and> wrap64 (sum_list (map amount (pl_demand p))) = 20000000000 \<and>
    map device (pl_demand p) = pl_devices p"
proof -
  let ?s = "sample_host [(''CUDA0'', 9000000000), (''CUDA1'', 20000000000)]"
  let ?r = "sample_request '' Manual'' 20000000000 [''CUDA0'', '' CUDA1 '', ''CUDA0''] ''1,3''"
  let ?p = "\<lparr>pl_devices = [''CUDA0'', ''CUDA1''], pl_tensor_split = ''1,3'',
    pl_required = 20000000000, pl_available = 27926258176,
    pl_demand = [\<lparr>device = ''CUDA0'', amount = 5000000000\<rparr>, \<lparr>device = ''CUDA1'', amount = 15000000000\<rparr>],
    pl_fits = True\<rparr>"
  have p: "plan_placement ?s ?r = Inr ?p" by code_simp
  have m: "effective_mode (pr_mode ?r) = ''manual''" by code_simp
  have g: "gpus ?s \<noteq> []" by code_simp
  have i: "is_i64 (pr_required ?r)" by code_simp
  have r: "pr_required ?r = 20000000000" by code_simp
  show ?thesis using manual_placement_exact [OF p m g i] p unfolding r
    by (intro exI [of _ ?p]) simp
qed

text \<open>The sum of \<open>n\<close> weights 1, and the shares they give.\<close>

lemma sum_ones: "int m + int n \<le> 2 ^ 53 \<Longrightarrow> foldl fadd (Fin (of_int (int m))) (replicate n (Fin 1)) = Fin (of_int (int m + int n))"
proof (induction n arbitrary: m)
  case (Suc n)
  have "rnd (of_int (int (Suc m))) = Fin (of_int (int (Suc m)))"
    using Suc.prems by (intro float_of_i64_exact [unfolded float_of_i64_def]) simp
  then have "fadd (Fin (of_int (int m))) (Fin 1) = Fin (of_int (int (Suc m)))"
    by (simp add: add.commute)
  then show ?case using Suc.IH [of "Suc m"] Suc.prems by simp
qed simp

lemma even_share:
  assumes "0 < sp" and "sp \<le> 2 ^ 52" and "0 < n" and "n \<le> 2 ^ 52"
  shows "i64_of_float (ffloor (fdiv (fmul (float_of_i64 sp) (Fin 1)) (Fin (of_int n)))) = sp div n"
proof -
  have s: "float_of_i64 sp = Fin (of_int sp)" using assms by (intro float_of_i64_exact) simp
  then have m: "fmul (float_of_i64 sp) (Fin 1) = Fin (of_int sp)" by (simp add: float_of_i64_def)
  have q: "0 \<le> sp div n" "sp div n \<le> sp"
    using assms zdiv_mono2 [of sp 1 n] by (simp_all add: pos_imp_zdiv_nonneg_iff)
  have le: "(of_int sp / of_int n :: rat) \<le> of_int sp"
    using assms by (simp add: pos_divide_le_eq)
  have "rnd (of_int sp / of_int n) = Fin (rval (of_int sp / of_int n))"
    using le assms by (intro rnd_between [of 0 _ sp]) simp_all
  then show ?thesis
    using assms q floor_rval_div [of sp n]
    by (simp add: m i64_of_float_int is_i64_def del: i64_of_float.simps)
qed

lemma manual_shares_even:
  assumes "0 \<le> sp" and "sp \<le> 2 ^ 52" and "0 < n" and "n \<le> 2 ^ 52"
    and "0 \<le> fixed" and "fixed \<le> 2 ^ 60"
    and "devs \<noteq> []" and "(int (length devs) - 1) * (sp div n) \<le> rem" and "rem \<le> sp"
    and "i < length devs"
  shows "amount (manual_shares sp (Fin (of_int n)) fixed (zip devs (replicate (length devs) (Fin 1))) rem ! i) =
    (if i = length devs - 1 then rem - (int (length devs) - 1) * (sp div n) else sp div n)
    + (if i = 0 then fixed else 0)"
  using assms(5-10)
proof (induction devs arbitrary: i fixed rem)
  case Nil
  then show ?case by simp
next
  case (Cons d ds)
  define q where "q = sp div n"
  have q: "0 \<le> q" "q \<le> sp"
    using assms(1,3) zdiv_mono2 [of sp 1 n] by (simp_all add: q_def pos_imp_zdiv_nonneg_iff)
  show ?case
  proof (cases ds)
    case Nil
    then show ?thesis using Cons.prems assms(1,2) by (simp add: wrap64_nonneg)
  next
    case (Cons e es)
    define b where "b = (if 0 < sp then i64_of_float (ffloor (fdiv (fmul (float_of_i64 sp) (Fin 1)) (Fin (of_int n)))) else 0)"
    have b: "b = q" using even_share [OF _ assms(2,3,4)] assms(1) by (auto simp: b_def q_def)
    have "1 * q \<le> int (length ds) * q" using q(1) Cons by (intro mult_right_mono) auto
    then have rq: "int (length ds) * q \<le> rem" "q \<le> rem"
      using Cons.prems(4) by (simp_all add: q_def)
    define rem' where "rem' = (if 0 < sp then wrap64 (rem - b) else rem)"
    have rem': "rem' = rem - q"
      using b q rq Cons.prems(5) assms(1,2) by (auto simp: rem'_def q_def intro!: wrap64_nonneg)
    have w: "wrap64 (b + fixed) = q + fixed"
      unfolding b using q Cons.prems(1,2) assms(2) by (intro wrap64_nonneg) auto
    have eq: "manual_shares sp (Fin (of_int n)) fixed (zip (d # ds) (replicate (length (d # ds)) (Fin 1))) rem =
        \<lparr>device = d, amount = q + fixed\<rparr>
        # manual_shares sp (Fin (of_int n)) 0 (zip ds (replicate (length ds) (Fin 1))) rem'"
      by (simp add: Cons Let_def flip: b_def rem'_def) (simp add: w)
    have IH: "amount (manual_shares sp (Fin (of_int n)) 0 (zip ds (replicate (length ds) (Fin 1))) rem' ! k) =
        (if k = length ds - 1 then rem' - (int (length ds) - 1) * q else q)" if "k < length ds" for k
    proof -
      have c: "(int (length ds) - 1) * (sp div n) \<le> rem'" "rem' \<le> sp"
        using rq q Cons.prems(5) by (simp_all add: rem' left_diff_distrib flip: q_def)
      show ?thesis
        using Cons.IH [OF _ _ _ c that, of 0] Cons by (simp add: q_def)
    qed
    show ?thesis
      unfolding eq q_def [symmetric]
      using Cons.prems(6) Cons IH by (cases i) (auto simp: rem' algebra_simps)
  qed
qed

text \<open>
  With no tensor split, manual placement on several devices splits evenly: every device gets
  the integer quotient of the splittable bytes, the last one also the remainder, and the first
  one also the fixed bytes, for up to \<open>2^52\<close> splittable bytes in spite of the rounding of floats.
\<close>

theorem manual_even_split:
  assumes "trim_space (pr_tensor_split req) = []" and "devs \<noteq> []" and "int (length devs) \<le> 2 ^ 52"
    and "0 < pr_splittable req" and "pr_splittable req \<le> 2 ^ 52"
    and "0 \<le> pr_fixed req" and "pr_fixed req \<le> 2 ^ 60"
    and "pr_required req = pr_splittable req + pr_fixed req"
  shows "\<exists>dem. manual_placement_demand req devs = Inr dem \<and> length dem = length devs \<and>
    (\<forall>i < length devs. amount (dem ! i) =
      (if i = length devs - 1
       then pr_splittable req - (int (length devs) - 1) * (pr_splittable req div int (length devs))
       else pr_splittable req div int (length devs))
      + (if i = 0 then pr_fixed req else 0))"
proof -
  let ?n = "length devs" and ?sp = "pr_splittable req" and ?fx = "pr_fixed req"
  let ?dem = "manual_shares ?sp (Fin (of_int (int ?n))) ?fx (zip devs (replicate ?n (Fin 1))) ?sp"
  have w: "wrap64 (?sp + ?fx) = ?sp + ?fx" using assms(4-7) by (intro wrap64_nonneg) auto
  have s: "strict_tensor_split_weights (pr_tensor_split req) ?n = Inr (replicate ?n (Fin 1))"
    using assms(1,2) by (simp add: strict_tensor_split_weights_def Let_def)
  have "foldl fadd (Fin 0) (replicate ?n (Fin 1)) = Fin (of_int (int ?n))"
    using sum_ones [of 0 ?n] assms(3) by simp
  then have d: "manual_placement_demand req devs = Inr ?dem"
    using assms(4,6,8) w s by (simp add: manual_placement_demand_def Let_def)
  have n: "0 < int ?n" using assms(2) by simp
  have "(int ?n - 1) * (?sp div int ?n) \<le> int ?n * (?sp div int ?n)"
    using assms(4) n by (intro mult_right_mono) (simp_all add: pos_imp_zdiv_nonneg_iff)
  also have "\<dots> \<le> ?sp"
    using mult_div_mod_eq [of "int ?n" ?sp] pos_mod_sign [OF n, of ?sp] by linarith
  finally have r: "(int ?n - 1) * (?sp div int ?n) \<le> ?sp" .
  have "length ?dem = ?n" by (metis length_map manual_shares_devices length_zip length_replicate min.idem)
  then show ?thesis
    using manual_shares_even [OF _ assms(5) n assms(3) assms(6,7,2) r order_refl] assms(4) d by auto
qed

theorem manual_even_split_witness:
  "\<exists>dem. manual_placement_demand \<lparr>pr_required = 1100, pr_host_ram = 0, pr_mode = ''manual'', pr_devices = [],
      pr_tensor_split = '' '', pr_reserve = 0, pr_splittable = 1000, pr_fixed = 100\<rparr> [''A'', ''B'', ''C''] = Inr dem \<and>
    amount (dem ! 0) = 433 \<and> amount (dem ! 1) = 333 \<and> amount (dem ! 2) = 334"
proof -
  let ?r = "\<lparr>pr_required = 1100, pr_host_ram = 0, pr_mode = ''manual'', pr_devices = [],
      pr_tensor_split = '' '', pr_reserve = 0, pr_splittable = 1000, pr_fixed = 100\<rparr>"
  have t: "trim_space (pr_tensor_split ?r) = []" by code_simp
  obtain dem where "manual_placement_demand ?r [''A'', ''B'', ''C''] = Inr dem"
    and all: "\<forall>i < 3. amount (dem ! i) = (if i = 2 then 1000 - 2 * (1000 div 3) else 1000 div 3)
      + (if i = 0 then 100 else 0)"
    using manual_even_split [OF t, of "[''A'', ''B'', ''C'']"] by auto
  then show ?thesis using all [rule_format, of 0] all [rule_format, of 1] all [rule_format, of 2] by auto
qed

lemma int_digits_acc: "0 \<le> v \<Longrightarrow> int_digits v acc = (if v = 0 then [] else dec_string v) @ acc"
proof (induction v acc rule: int_digits.induct)
  case (1 v acc)
  show ?case
  proof (cases "0 < v")
    case True
    then have "int_digits (v div 10) (digit_char (v mod 10) # acc) =
        (if v div 10 = 0 then [] else dec_string (v div 10)) @ digit_char (v mod 10) # acc"
      by (intro "1.IH") (simp_all add: pos_imp_zdiv_nonneg_iff)
    then show ?thesis
      using True by (subst int_digits.simps, subst dec_string.simps) auto
  qed (use "1.prems" in \<open>subst int_digits.simps; simp\<close>)
qed

lemma int_string_format: "- 9223372036854775808 < v \<Longrightarrow> is_i64 v \<Longrightarrow> int_string v = format_int v"
proof -
  assume a: "- 9223372036854775808 < v" "is_i64 v"
  then have w: "wrap64 (- v) = - v" by (intro wrap64_id) (simp add: is_i64_def)
  have z: "dec_string 0 = ''0''" by (simp add: dec_string.simps [of 0] digit_char_def)
  show ?thesis
    using int_digits_acc [of v "[]"] int_digits_acc [of "- v" "[]"] w z
    by (auto simp: int_string_def format_int_def Let_def)
qed

lemma format_int_no_comma: "CHR '','' \<notin> set (format_int v)"
proof -
  have "CHR '','' \<notin> set (dec_string w)" if "0 \<le> w" for w
    using set_dec_string [OF that, of "CHR '',''"] digit_char_plain(4) by metis
  then show ?thesis by (auto simp: format_int_def)
qed

text \<open>
  The tensor split that automatic placement computes round-trips: splitting it at the commas
  gives one decimal number per device, each parses to that device's weight in units of 256 MiB,
  and every weight is at least 1.
\<close>

theorem tensor_split_roundtrip:
  assumes "bytes \<noteq> []"
  shows "map parse_int (split_on (CHR '','') (tensor_split_for bytes))
      = map (\<lambda>v. Some (split_weight v)) bytes \<and> (\<forall>v \<in> set bytes. 1 \<le> split_weight v)"
proof -
  have b: "1 \<le> split_weight v \<and> is_i64 (split_weight v)" for v
    using is_i64_wrap64 by (auto simp: split_weight_def Let_def go_div_def is_i64_def)
  then have f: "int_string (split_weight v) = format_int (split_weight v)" for v
    using b [of v] by (intro int_string_format) linarith+
  have "split_on (CHR '','') (tensor_split_for bytes) = map (\<lambda>v. format_int (split_weight v)) bytes"
    unfolding tensor_split_for_def f using assms
    by (intro split_join) (auto simp: format_int_no_comma)
  then show ?thesis using b by (simp add: parse_format_int)
qed

theorem tensor_split_roundtrip_witness:
  "map parse_int (split_on (CHR '','') (tensor_split_for [8589934592, 1000])) = [Some 32, Some 1]"
  using tensor_split_roundtrip [of "[8589934592, 1000]"] by (simp add: split_weight_def go_div_def wrap64_def)

text \<open>The float facts of the overflow below: \<open>2^1000\<close> as a weight.\<close>

lemma rnd_big_weight: "rnd (pow2 1000) = Fin (pow2 1000)"
proof -
  have "\<bar>rval (pow2 1000)\<bar> < pow2 1024" using pow2_pos [of 1000] by (simp add: rval_pow2 pow2_less_iff abs_of_pos)
  then show ?thesis by (simp add: rnd_Fin rval_pow2)
qed

lemma parse_big_weight:
  "parse_float ''0x1p1000'' = Some (Fin (pow2 1000))" "parse_float ''1'' = Some (Fin 1)"
proof -
  have "read_float ''0x1p1000'' = Some (pow2 1000)"
    by (simp add: read_float_def base_digit_def digit_val_def lower_eq_def lower_char_def Let_def)
  then show "parse_float ''0x1p1000'' = Some (Fin (pow2 1000))"
    by (simp add: parse_float_def is_special_def lower_char_def rnd_big_weight)
  show "parse_float ''1'' = Some (Fin 1)" by code_simp
qed

lemma big_weight_sum: "\<exists>t > 0. fadd (Fin (pow2 1000)) (Fin 1) = Fin t"
proof -
  have "(1 :: rat) \<le> pow2 1000" using pow2_le [of 0 1000] by (simp add: pow2_def [of 0])
  then have "pow2 1000 + 1 \<le> pow2 1001" "pow2 1000 \<le> pow2 1000 + 1"
    using pow2_add [of 1000 1] by (simp_all add: pow2_def [of 1])
  then have "rval (pow2 1000 + 1) \<le> rval (pow2 1001)" "rval (pow2 1000) \<le> rval (pow2 1000 + 1)"
    by (simp_all only: rval_mono)
  then have b: "rval (pow2 1000 + 1) \<le> pow2 1001" "pow2 1000 \<le> rval (pow2 1000 + 1)"
    by (simp_all add: rval_pow2)
  moreover have "pow2 1001 < pow2 1024" by (simp add: pow2_less_iff)
  ultimately have "rnd (pow2 1000 + 1) = Fin (rval (pow2 1000 + 1))"
    using pow2_pos [of 1000] by (intro rnd_Fin) linarith
  moreover have "0 < rval (pow2 1000 + 1)" using b(2) pow2_pos [of 1000] by linarith
  ultimately show ?thesis by auto
qed

lemma big_weight_product: "fmul (float_of_i64 20000000000) (Fin (pow2 1000)) = PosInf"
proof -
  let ?x = "20000000000 * pow2 1000"
  have "pow2 1034 = 17179869184 * pow2 1000" using pow2_add [of 34 1000] by (simp add: pow2_def [of 34])
  then have "pow2 1034 \<le> ?x" using pow2_pos [of 1000] by linarith
  then have v: "pow2 1034 \<le> rval ?x" using rval_mono rval_pow2 by (metis zero_le_numeral)
  then have "ilog2 (pow2 1034) \<le> ilog2 (rval ?x)" by (intro ilog2_mono) simp
  moreover have "ilog2 (pow2 1034) = 1034" by (rule ilog2_unique) (simp_all add: pow2_less_iff)
  moreover have "0 < rval ?x" using v pow2_pos [of 1034] by linarith
  ultimately have "rnd ?x = PosInf" by (simp add: rnd_def Let_def)
  moreover have "float_of_i64 20000000000 = Fin 20000000000"
    using float_of_i64_exact [of 20000000000] by simp
  ultimately show ?thesis by simp
qed

lemma big_weight_demand:
  "manual_placement_demand (sample_request ''manual'' 20000000000 [''CUDA0'', ''CUDA1''] ''0x1p1000,1'')
     [''CUDA0'', ''CUDA1''] =
   Inr [\<lparr>device = ''CUDA0'', amount = - 9223372036854775808\<rparr>,
        \<lparr>device = ''CUDA1'', amount = - 9223372016854775808\<rparr>]"
proof -
  obtain t where t: "0 < t" "fadd (Fin (pow2 1000)) (Fin 1) = Fin t" using big_weight_sum by blast
  have z: "fadd (Fin 0) (Fin (pow2 1000)) = Fin (pow2 1000)"
    by (simp add: rnd_big_weight)
  have p: "trim_space ''0x1p1000,1'' = ''0x1p1000,1''" "split_on (CHR '','') ''0x1p1000,1'' = [''0x1p1000'', ''1'']"
    "trim_space ''0x1p1000'' = ''0x1p1000''" "trim_space ''1'' = ''1''"
    by code_simp+
  have w: "strict_weights [''0x1p1000'', ''1''] [] (Fin 0) = Inr ([Fin (pow2 1000), Fin 1], Fin t)"
    using not_less_iff_gr_or_eq [of "pow2 1000" 0] pow2_pos [of 1000]
    by (simp add: p parse_big_weight z t order_less_imp_not_less del: fadd.simps)
  have "strict_tensor_split_weights ''0x1p1000,1'' 2 = Inr [Fin (pow2 1000), Fin 1]"
    using t(1) by (simp add: strict_tensor_split_weights_def p w fle_def del: strict_weights.simps)
  then show ?thesis
    by (simp add: manual_placement_demand_def sample_request_def Let_def z t big_weight_product
        wrap64_def numeral_2_eq_2 del: fadd.simps)
qed

text \<open>
  A tensor split whose products overflow the floats passes the checks: with \<open>0x1p1000,1\<close> (any
  weight of that size, as \<open>1e300\<close>, acts the same) the
  first share is infinite, its conversion to \<open>int64\<close> the least integer, and so the demand of the
  first device is negative and the one of the second wraps. With no free memory at all on the
  host the placement still fits.
\<close>

theorem manual_split_overflow_fits:
  "plan_placement (sample_host [(''CUDA0'', 0), (''CUDA1'', 0)])
     (sample_request ''manual'' 20000000000 [''CUDA0'', ''CUDA1''] ''0x1p1000,1'') =
   Inr \<lparr>pl_devices = [''CUDA0'', ''CUDA1''], pl_tensor_split = ''0x1p1000,1'', pl_required = 20000000000,
     pl_available = 0,
     pl_demand = [\<lparr>device = ''CUDA0'', amount = - 9223372036854775808\<rparr>,
                  \<lparr>device = ''CUDA1'', amount = - 9223372016854775808\<rparr>],
     pl_fits = True\<rparr>"
proof -
  let ?s = "sample_host [(''CUDA0'', 0), (''CUDA1'', 0)]"
  let ?r = "sample_request ''manual'' 20000000000 [''CUDA0'', ''CUDA1''] ''0x1p1000,1''"
  have d: "manual_devices (gpus ?s) default_vram_reserve (pr_devices ?r) [] 0 = Inr ([''CUDA0'', ''CUDA1''], 0)"
    "gpus ?s \<noteq> []" "pr_devices ?r \<noteq> []" "effective_mode (pr_mode ?r) = ''manual''" "pr_required ?r = 20000000000"
    "request_reserve ?r = default_vram_reserve" "trim_space (pr_tensor_split ?r) = ''0x1p1000,1''"
    by code_simp+
  have "plan_placement ?s ?r = plan_manual ?s ?r default_vram_reserve"
    using d by (simp add: plan_placement_def Let_def)
  then show ?thesis
    using d by (simp add: plan_manual_def Let_def big_weight_demand not_less order_trans [OF _ usable_vram_nonneg])
qed

end
