(* ===== verification/Runtime_Plan.thy ===== *)
theory Runtime_Plan
  imports Placement
begin

text \<open>
  \<open>backend/internal/scheduler/runtime_plan.go\<close>: how an Instance is launched on the memory there
  is. The configured options come first; when they do not fit, experts of a mixture model move to
  the host, and with spillover allowed layers, the key-value cache or everything do. Two binary
  searches look for the number of layers. Their loops may not end (see below), so a search is
  \<open>None\<close> when it does not return, and a plan then is, too.
\<close>

section \<open>Data\<close>

record runtime_capabilities =
  rc_n_cpu_moe :: bool
  rc_cpu_moe :: bool
  rc_no_kv_offload :: bool
  rc_gpu_layers :: bool
  rc_layers_option :: string

record runtime_request =
  rr_snapshot :: snapshot
  rr_idle :: "snapshot option"
  rr_demand :: demand_input
  rr_placement :: placement_request
  rr_allow_spill :: bool
  rr_caps :: runtime_capabilities

record runtime_plan =
  rp_fits :: bool
  rp_mode :: string
  rp_demand :: resource_demand
  rp_placement :: placement
  rp_options :: options
  rp_spill :: bool

record option_locks =
  lock_layers :: bool
  lock_moe :: bool
  lock_kv :: bool

section \<open>Operations\<close>

definition default_ram_reserve :: i64 where
  "default_ram_reserve = 1024 * 1024 * 1024"

definition option_present :: "options \<Rightarrow> string \<Rightarrow> bool" where
  "option_present opts key \<longleftrightarrow> opts key \<noteq> None \<or> opts (''--'' @ key) \<noteq> None"

definition option_locks_for :: "options \<Rightarrow> option_locks" where
  "option_locks_for opts =
     \<lparr>lock_layers = option_present opts ''gpu-layers'' \<or> option_present opts ''n-gpu-layers'',
      lock_moe = option_present opts ''cpu-moe'' \<or> option_present opts ''n-cpu-moe'',
      lock_kv = option_present opts ''no-kv-offload'' \<or> option_present opts ''kv-offload''\<rparr>"

definition gpu_layer_option_key :: "runtime_capabilities \<Rightarrow> string" where
  "gpu_layer_option_key caps =
     (let key = trim_space (rc_layers_option caps)
      in if key \<noteq> [] then trim_left_char (CHR ''-'') key
         else if rc_gpu_layers caps then ''n-gpu-layers'' else [])"

definition gpu_layer_option_value :: "options \<Rightarrow> string" where
  "gpu_layer_option_value opts =
     (let value = option_value opts ''gpu-layers''
      in if trim_space value \<noteq> [] then value else option_value opts ''n-gpu-layers'')"

definition demand_for :: "demand_input \<Rightarrow> options \<Rightarrow> resource_demand" where
  "demand_for base opts = estimate_demand (base\<lparr>di_options := opts\<rparr>)"

definition plan_demand_placement ::
    "placement_request \<Rightarrow> snapshot \<Rightarrow> resource_demand \<Rightarrow> sched_error + placement" where
  "plan_demand_placement base snap d =
     (let required = vram_bytes d
      in if required = 0 then Inr (no_placement\<lparr>pl_required := 0, pl_fits := True\<rparr>)
         else plan_placement snap (base\<lparr>pr_required := required, pr_host_ram := rd_host_ram d,
                pr_splittable := rd_splittable d, pr_fixed := rd_fixed d\<rparr>))"

definition runtime_host_ram_fits :: "snapshot \<Rightarrow> i64 \<Rightarrow> bool" where
  "runtime_host_ram_fits snap required =
     (if required \<le> 0 then True
      else if ram_total snap \<le> 0 \<and> ram_available snap \<le> 0 then False
      else if ram_available snap \<le> default_ram_reserve then False
      else required \<le> ram_available snap - default_ram_reserve)"

definition candidate_mode :: "options \<Rightarrow> resource_demand \<Rightarrow> placement \<Rightarrow> string" where
  "candidate_mode opts d p =
     (if vram_bytes d = 0 then ''cpu''
      else if option_enabled opts ''cpu-moe'' \<or> trim_space (option_value opts ''n-cpu-moe'') \<noteq> [] then ''moe''
      else if option_enabled opts ''no-kv-offload'' then ''hybrid''
      else
        let raw = trim_space (gpu_layer_option_value opts);
            layers = (if raw = [] then None else parse_int raw)
        in if (case layers of None \<Rightarrow> False | Some n \<Rightarrow> 0 < n) then ''partial''
           else if 1 < length (pl_devices p) then ''multi_gpu'' else ''full'')"

definition evaluate_runtime_candidate ::
    "runtime_request \<Rightarrow> options \<Rightarrow> bool \<Rightarrow> sched_error + runtime_plan" where
  "evaluate_runtime_candidate req opts spill =
     (let d = demand_for (rr_demand req) opts
      in case plan_demand_placement (rr_placement req) (rr_snapshot req) d of
           Inl e \<Rightarrow> Inl e
         | Inr p \<Rightarrow> Inr \<lparr>
             rp_fits = pl_fits p \<and> runtime_host_ram_fits (rr_snapshot req) (rd_host_ram d),
             rp_mode = candidate_mode opts d p, rp_demand = d, rp_placement = p,
             rp_options = opts, rp_spill = spill\<rparr>)"

text \<open>One probe of a search: the options with the key set to the number.\<close>

definition probe_count :: "runtime_request \<Rightarrow> options \<Rightarrow> string \<Rightarrow> i64 \<Rightarrow> sched_error + bool" where
  "probe_count req opts key mid =
     (let d = demand_for (rr_demand req) (opts(key \<mapsto> format_int mid))
      in case plan_demand_placement (rr_placement req) (rr_snapshot req) d of
           Inl e \<Rightarrow> Inl e
         | Inr p \<Rightarrow> Inr (pl_fits p \<and> runtime_host_ram_fits (rr_snapshot req) (rd_host_ram d)))"

text \<open>
  Equations for evaluation: the demand is computed once and handed on as an argument.
\<close>

definition candidate_of ::
    "runtime_request \<Rightarrow> options \<Rightarrow> bool \<Rightarrow> resource_demand \<Rightarrow> sched_error + runtime_plan" where
  "candidate_of req opts spill d =
     (case plan_demand_placement (rr_placement req) (rr_snapshot req) d of
        Inl e \<Rightarrow> Inl e
      | Inr p \<Rightarrow> Inr \<lparr>
          rp_fits = pl_fits p \<and> runtime_host_ram_fits (rr_snapshot req) (rd_host_ram d),
          rp_mode = candidate_mode opts d p, rp_demand = d, rp_placement = p,
          rp_options = opts, rp_spill = spill\<rparr>)"

definition demand_fits :: "runtime_request \<Rightarrow> resource_demand \<Rightarrow> sched_error + bool" where
  "demand_fits req d =
     (case plan_demand_placement (rr_placement req) (rr_snapshot req) d of
        Inl e \<Rightarrow> Inl e
      | Inr p \<Rightarrow> Inr (pl_fits p \<and> runtime_host_ram_fits (rr_snapshot req) (rd_host_ram d)))"

lemma evaluate_runtime_candidate_code [code]:
  "evaluate_runtime_candidate req opts spill = candidate_of req opts spill (demand_for (rr_demand req) opts)"
  by (simp add: evaluate_runtime_candidate_def candidate_of_def Let_def)

lemma probe_count_code [code]:
  "probe_count req opts key mid = demand_fits req (demand_for (rr_demand req) (opts(key \<mapsto> format_int mid)))"
  by (simp add: probe_count_def demand_fits_def Let_def)

definition mid_of :: "i64 \<Rightarrow> i64 \<Rightarrow> i64" where
  "mid_of lo hi = wrap64 (lo + go_div (wrap64 (hi - lo)) 2)"

text \<open>The loop of \<open>planAutomaticMoE\<close> looks for the least number that fits.\<close>

partial_function (option) moe_search ::
    "(i64 \<Rightarrow> sched_error + bool) \<Rightarrow> i64 \<Rightarrow> i64 \<Rightarrow> i64 \<Rightarrow> (sched_error + i64) option" where
  "moe_search probe lo hi found =
     (if lo \<le> hi then
        (case probe (mid_of lo hi) of
           Inl e \<Rightarrow> Some (Inl e)
         | Inr ok \<Rightarrow>
             if ok then moe_search probe lo (wrap64 (mid_of lo hi - 1)) (mid_of lo hi)
             else moe_search probe (wrap64 (mid_of lo hi + 1)) hi found)
      else Some (Inr found))"

text \<open>The loop of \<open>planDensePartial\<close> looks for the greatest number that fits.\<close>

partial_function (option) dense_search ::
    "(i64 \<Rightarrow> sched_error + bool) \<Rightarrow> i64 \<Rightarrow> i64 \<Rightarrow> i64 \<Rightarrow> (sched_error + i64) option" where
  "dense_search probe lo hi best =
     (if lo \<le> hi then
        (case probe (mid_of lo hi) of
           Inl e \<Rightarrow> Some (Inl e)
         | Inr ok \<Rightarrow>
             if ok then dense_search probe (wrap64 (mid_of lo hi + 1)) hi (mid_of lo hi)
             else dense_search probe lo (wrap64 (mid_of lo hi - 1)) best)
      else Some (Inr best))"

declare moe_search.simps [code] dense_search.simps [code]

text \<open>What \<open>planAutomaticMoE\<close> tries with the number its search found; \<open>None\<close>: go on.\<close>

definition moe_found ::
    "runtime_request \<Rightarrow> options \<Rightarrow> i64 \<Rightarrow> sched_error + runtime_plan option" where
  "moe_found req base found =
     (if 0 < found then
        (let opts = (if km_block_count (di_metadata (rr_demand req)) \<le> found \<and> rc_cpu_moe (rr_caps req)
                     then (base(''n-cpu-moe'' := None))(''cpu-moe'' \<mapsto> ''true'')
                     else base(''n-cpu-moe'' \<mapsto> format_int found))
         in case evaluate_runtime_candidate req opts False of
              Inl e \<Rightarrow> Inl e
            | Inr plan \<Rightarrow> Inr (if rp_fits plan then Some (plan\<lparr>rp_mode := ''moe''\<rparr>) else None))
      else Inr None)"

text \<open>Its last resort: all experts and the key-value cache on the host.\<close>

definition moe_all_host ::
    "runtime_request \<Rightarrow> options \<Rightarrow> option_locks \<Rightarrow> sched_error + runtime_plan option" where
  "moe_all_host req base locks =
     (let opts = (if rc_cpu_moe (rr_caps req) then base(''cpu-moe'' \<mapsto> ''true'')
                  else base(''n-cpu-moe'' \<mapsto> format_int (km_block_count (di_metadata (rr_demand req)))));
          eval = (\<lambda>ops. case evaluate_runtime_candidate req ops False of
              Inl e \<Rightarrow> Inl e
            | Inr plan \<Rightarrow> Inr (if rp_fits plan then Some (plan\<lparr>rp_mode := ''moe''\<rparr>) else None))
      in if option_enabled opts ''no-kv-offload'' then eval opts
         else if lock_kv locks \<or> \<not> rc_no_kv_offload (rr_caps req) then Inr None
         else eval (opts(''no-kv-offload'' \<mapsto> ''true'')))"

definition plan_automatic_moe ::
    "runtime_request \<Rightarrow> options \<Rightarrow> option_locks \<Rightarrow> (sched_error + runtime_plan option) option" where
  "plan_automatic_moe req base locks =
     (let blocks = km_block_count (di_metadata (rr_demand req))
      in if blocks \<le> 0 then Some (Inr None)
         else case moe_search (probe_count req base ''n-cpu-moe'') 1 blocks 0 of
           None \<Rightarrow> None
         | Some (Inl e) \<Rightarrow> Some (Inl e)
         | Some (Inr found) \<Rightarrow>
             (case moe_found req base found of
                Inl e \<Rightarrow> Some (Inl e)
              | Inr (Some plan) \<Rightarrow> Some (Inr (Some plan))
              | Inr None \<Rightarrow> Some (moe_all_host req base locks)))"

definition plan_dense_partial ::
    "runtime_request \<Rightarrow> options \<Rightarrow> bool \<Rightarrow> (sched_error + runtime_plan option) option" where
  "plan_dense_partial req base move_kv =
     (let blocks = km_block_count (di_metadata (rr_demand req)); key = gpu_layer_option_key (rr_caps req);
          opts = (if move_kv then base(''no-kv-offload'' \<mapsto> ''true'') else base)
      in if blocks \<le> 0 \<or> key = [] then Some (Inr None)
         else case dense_search (probe_count req opts key) 1 blocks 0 of
           None \<Rightarrow> None
         | Some (Inl e) \<Rightarrow> Some (Inl e)
         | Some (Inr best) \<Rightarrow>
             Some (if best \<le> 0 then Inr None
               else case evaluate_runtime_candidate req (opts(key \<mapsto> format_int best)) True of
                 Inl e \<Rightarrow> Inl e
               | Inr plan \<Rightarrow> Inr (if rp_fits plan then Some (plan\<lparr>rp_spill := True\<rparr>) else None)))"

text \<open>The plan on a host without GPUs.\<close>

definition plan_cpu_host :: "runtime_request \<Rightarrow> options \<Rightarrow> option_locks \<Rightarrow> sched_error + runtime_plan" where
  "plan_cpu_host req base locks =
     (if lock_layers locks then evaluate_runtime_candidate req base False
      else
        let key = gpu_layer_option_key (rr_caps req);
            opts = (if key \<noteq> [] then base(key \<mapsto> ''0'') else base);
            demand_opts = (if key \<noteq> [] then opts else base(''n-gpu-layers'' \<mapsto> ''0''));
            d = demand_for (rr_demand req) demand_opts
        in Inr \<lparr>rp_fits = runtime_host_ram_fits (rr_snapshot req) (rd_host_ram d), rp_mode = ''cpu'',
             rp_demand = d, rp_placement = no_placement\<lparr>pl_required := 0, pl_fits := True\<rparr>,
             rp_options = opts, rp_spill = False\<rparr>)"

text \<open>The last step of spillover: nothing on the GPUs.\<close>

definition plan_spill_cpu ::
    "runtime_request \<Rightarrow> options \<Rightarrow> option_locks \<Rightarrow> runtime_plan \<Rightarrow> sched_error + runtime_plan" where
  "plan_spill_cpu req base locks full =
     (let key = gpu_layer_option_key (rr_caps req)
      in if \<not> lock_layers locks \<and> key \<noteq> [] then
           (case evaluate_runtime_candidate req (base(key \<mapsto> ''0'')) True of
              Inl e \<Rightarrow> Inl e
            | Inr cpu \<Rightarrow>
                Inr (if rp_fits cpu then cpu\<lparr>rp_mode := ''cpu'', rp_spill := True\<rparr> else full))
         else Inr full)"

text \<open>The step before: the key-value cache to the host, with fewer layers or without.\<close>

definition plan_spill_kv ::
    "runtime_request \<Rightarrow> options \<Rightarrow> option_locks \<Rightarrow> (sched_error + runtime_plan option) option" where
  "plan_spill_kv req base locks =
     (if \<not> lock_kv locks \<and> rc_no_kv_offload (rr_caps req) then
        (if \<not> lock_layers locks \<and> gpu_layer_option_key (rr_caps req) \<noteq> []
         then plan_dense_partial req base True
         else Some (case evaluate_runtime_candidate req (base(''no-kv-offload'' \<mapsto> ''true'')) True of
                Inl e \<Rightarrow> Inl e
              | Inr plan \<Rightarrow> Inr (if rp_fits plan then Some (plan\<lparr>rp_spill := True\<rparr>) else None)))
      else Some (Inr None))"

text \<open>The body of \<open>PlanRuntime\<close> once the idle host was looked at; \<open>or_next\<close> is the chain of \<open>if\<close>s.\<close>

definition or_next ::
    "(sched_error + runtime_plan option) option \<Rightarrow> (sched_error + runtime_plan) option \<Rightarrow>
     (sched_error + runtime_plan) option" where
  "or_next attempt next =
     (case attempt of
        None \<Rightarrow> None
      | Some (Inl e) \<Rightarrow> Some (Inl e)
      | Some (Inr (Some plan)) \<Rightarrow> Some (Inr plan)
      | Some (Inr None) \<Rightarrow> next)"

definition plan_runtime_now :: "runtime_request \<Rightarrow> (sched_error + runtime_plan) option" where
  "plan_runtime_now req =
     (let base = di_options (rr_demand req); locks = option_locks_for base; caps = rr_caps req
      in if gpus (rr_snapshot req) = [] then Some (plan_cpu_host req base locks)
         else case evaluate_runtime_candidate req base False of
           Inl e \<Rightarrow> Some (Inl e)
         | Inr full \<Rightarrow>
             if rp_fits full then Some (Inr full)
             else or_next
               (if 0 < km_expert_count (di_metadata (rr_demand req)) \<and> rc_n_cpu_moe caps \<and> \<not> lock_moe locks
                then plan_automatic_moe req base locks else Some (Inr None))
               (if \<not> rr_allow_spill req then Some (Inr full)
                else or_next
                  (if \<not> lock_layers locks \<and> gpu_layer_option_key caps \<noteq> []
                   then plan_dense_partial req base False else Some (Inr None))
                  (or_next (plan_spill_kv req base locks)
                    (Some (plan_spill_cpu req base locks full)))))"

text \<open>
  The first statement of \<open>PlanRuntime\<close>: without spillover, a model that would fit the idle host
  without moving experts is not given moved experts now. The inner call has no idle snapshot.
\<close>

definition idle_request :: "runtime_request \<Rightarrow> bool" where
  "idle_request req \<longleftrightarrow> rr_idle req \<noteq> None \<and> \<not> rr_allow_spill req \<and> rc_n_cpu_moe (rr_caps req) \<and>
     \<not> lock_moe (option_locks_for (di_options (rr_demand req)))"

definition plan_runtime :: "runtime_request \<Rightarrow> (sched_error + runtime_plan) option" where
  "plan_runtime req =
     (if idle_request req then
        (case plan_runtime_now (req\<lparr>rr_snapshot := the (rr_idle req), rr_idle := None\<rparr>) of
           None \<Rightarrow> None
         | Some idle \<Rightarrow>
             plan_runtime_now
               (case idle of
                  Inl e \<Rightarrow> req
                | Inr plan \<Rightarrow>
                    if rp_fits plan \<and> rp_mode plan \<in> {''full'', ''multi_gpu''}
                    then req\<lparr>rr_caps := (rr_caps req)\<lparr>rc_n_cpu_moe := False, rc_cpu_moe := False\<rparr>\<rparr>
                    else req))
      else plan_runtime_now req)"

section \<open>The searches\<close>

lemma mid_of_bounds:
  assumes "0 \<le> lo" and "lo \<le> hi" and "is_i64 hi"
  shows "lo \<le> mid_of lo hi" and "mid_of lo hi \<le> hi"
proof -
  have h: "is_i64 (hi - lo)" using assms by (simp add: is_i64_def)
  have d: "go_div (wrap64 (hi - lo)) 2 = (hi - lo) div 2"
    unfolding wrap64_id [OF h] using assms h by (intro go_div_pos) auto
  have b: "lo \<le> lo + (hi - lo) div 2" "lo + (hi - lo) div 2 \<le> hi" using assms by auto
  then have "is_i64 (lo + (hi - lo) div 2)" using assms(1,3) unfolding is_i64_def by linarith
  then have "mid_of lo hi = lo + (hi - lo) div 2" by (simp add: mid_of_def d wrap64_id)
  then show "lo \<le> mid_of lo hi" "mid_of lo hi \<le> hi" using assms by auto
qed

text \<open>One step of a search, with the wrap-around gone; \<open>hi\<close> below the greatest \<open>int64\<close>.\<close>

definition search_range :: "i64 \<Rightarrow> i64 \<Rightarrow> bool" where
  "search_range lo hi \<longleftrightarrow> 1 \<le> lo \<and> lo \<le> hi + 1 \<and> hi < 9223372036854775807"

lemma search_step:
  assumes "search_range lo hi" and "lo \<le> hi"
  shows "lo \<le> mid_of lo hi" and "mid_of lo hi \<le> hi"
    and "wrap64 (mid_of lo hi + 1) = mid_of lo hi + 1"
    and "wrap64 (mid_of lo hi - 1) = mid_of lo hi - 1"
    and "search_range (mid_of lo hi + 1) hi" and "search_range lo (mid_of lo hi - 1)"
proof -
  have "is_i64 hi" using assms by (simp add: search_range_def is_i64_def)
  then have m: "lo \<le> mid_of lo hi" "mid_of lo hi \<le> hi"
    using mid_of_bounds [of lo hi] assms by (simp_all add: search_range_def)
  then show "lo \<le> mid_of lo hi" "mid_of lo hi \<le> hi"
    "wrap64 (mid_of lo hi + 1) = mid_of lo hi + 1" "wrap64 (mid_of lo hi - 1) = mid_of lo hi - 1"
    "search_range (mid_of lo hi + 1) hi" "search_range lo (mid_of lo hi - 1)"
    using assms by (auto simp: search_range_def intro!: wrap64_nonneg)
qed

lemma moe_search_step:
  "search_range lo hi \<Longrightarrow> lo \<le> hi \<Longrightarrow> moe_search probe lo hi found =
    (case probe (mid_of lo hi) of
       Inl e \<Rightarrow> Some (Inl e)
     | Inr ok \<Rightarrow> if ok then moe_search probe lo (mid_of lo hi - 1) (mid_of lo hi)
               else moe_search probe (mid_of lo hi + 1) hi found)"
  by (subst moe_search.simps) (simp add: search_step(3,4) split: sum.split)

lemma dense_search_step:
  "search_range lo hi \<Longrightarrow> lo \<le> hi \<Longrightarrow> dense_search probe lo hi best =
    (case probe (mid_of lo hi) of
       Inl e \<Rightarrow> Some (Inl e)
     | Inr ok \<Rightarrow> if ok then dense_search probe (mid_of lo hi + 1) hi (mid_of lo hi)
               else dense_search probe lo (mid_of lo hi - 1) best)"
  by (subst dense_search.simps) (simp add: search_step(3,4) split: sum.split)

lemma search_end:
  "hi < lo \<Longrightarrow> moe_search probe lo hi found = Some (Inr found)"
  "hi < lo \<Longrightarrow> dense_search probe lo hi found = Some (Inr found)"
  by (subst moe_search.simps, simp, subst dense_search.simps, simp)

text \<open>What a search returns: an error of a probe, the number it started with, or one that fits.\<close>

definition search_ok ::
    "(i64 \<Rightarrow> sched_error + bool) \<Rightarrow> i64 \<Rightarrow> i64 \<Rightarrow> i64 \<Rightarrow> (sched_error + i64) option \<Rightarrow> bool" where
  "search_ok probe lo hi found res \<longleftrightarrow>
     (\<exists>e k. res = Some (Inl e) \<and> lo \<le> k \<and> k \<le> hi \<and> probe k = Inl e) \<or>
     (\<exists>m. res = Some (Inr m) \<and> (m = found \<or> lo \<le> m \<and> m \<le> hi \<and> probe m = Inr True))"

lemma search_ok_sub:
  "search_ok probe lo' hi' found res \<Longrightarrow> lo \<le> lo' \<Longrightarrow> hi' \<le> hi \<Longrightarrow> search_ok probe lo hi found res"
  unfolding search_ok_def by fastforce

lemma search_ok_found:
  "search_ok probe lo hi m res \<Longrightarrow> lo \<le> m \<Longrightarrow> m \<le> hi \<Longrightarrow> probe m = Inr True \<Longrightarrow>
    search_ok probe lo hi found res"
  unfolding search_ok_def by blast

lemma search_ok_Inl: "probe k = Inl e \<Longrightarrow> lo \<le> k \<Longrightarrow> k \<le> hi \<Longrightarrow> search_ok probe lo hi found (Some (Inl e))"
  unfolding search_ok_def by blast

lemma search_ok_start: "search_ok probe lo hi found (Some (Inr found))"
  unfolding search_ok_def by blast

lemma moe_search_ok: "search_range lo hi \<Longrightarrow> search_ok probe lo hi found (moe_search probe lo hi found)"
proof (induction "nat (hi + 1 - lo)" arbitrary: lo hi found rule: less_induct)
  case less
  show ?case
  proof (cases "lo \<le> hi")
    case False
    then show ?thesis by (simp add: search_end search_ok_start)
  next
    case True
    let ?m = "mid_of lo hi"
    note s = search_step [OF less.prems True] and step = moe_search_step [OF less.prems True]
    have down: "search_ok probe lo (?m - 1) f (moe_search probe lo (?m - 1) f)" for f
      using less.hyps [OF _ s(6)] s(1,2) True by simp
    have up: "search_ok probe (?m + 1) hi f (moe_search probe (?m + 1) hi f)" for f
      using less.hyps [OF _ s(5)] s(1,2) True by simp
    show ?thesis
      using s(1,2) search_ok_sub [OF up, of lo hi found] search_ok_Inl [of probe ?m]
        search_ok_found [OF search_ok_sub [OF down, of lo hi ?m]]
      by (auto simp: step split: sum.split)
  qed
qed

lemma dense_search_ok: "search_range lo hi \<Longrightarrow> search_ok probe lo hi best (dense_search probe lo hi best)"
proof (induction "nat (hi + 1 - lo)" arbitrary: lo hi best rule: less_induct)
  case less
  show ?case
  proof (cases "lo \<le> hi")
    case False
    then show ?thesis by (simp add: search_end search_ok_start)
  next
    case True
    let ?m = "mid_of lo hi"
    note s = search_step [OF less.prems True] and step = dense_search_step [OF less.prems True]
    have down: "search_ok probe lo (?m - 1) f (dense_search probe lo (?m - 1) f)" for f
      using less.hyps [OF _ s(6)] s(1,2) True by simp
    have up: "search_ok probe (?m + 1) hi f (dense_search probe (?m + 1) hi f)" for f
      using less.hyps [OF _ s(5)] s(1,2) True by simp
    show ?thesis
      using s(1,2) search_ok_sub [OF down, of lo hi best] search_ok_Inl [of probe ?m]
        search_ok_found [OF search_ok_sub [OF up, of lo hi ?m]]
      by (auto simp: step split: sum.split)
  qed
qed

text \<open>When a number that fits implies that every smaller one does, the search finds the greatest.\<close>

definition probe_antitone :: "(i64 \<Rightarrow> sched_error + bool) \<Rightarrow> i64 \<Rightarrow> i64 \<Rightarrow> bool" where
  "probe_antitone probe lo hi \<longleftrightarrow>
     (\<forall>k. lo \<le> k \<longrightarrow> k \<le> hi \<longrightarrow> (\<exists>b. probe k = Inr b)) \<and>
     (\<forall>k m. lo \<le> k \<longrightarrow> k \<le> m \<longrightarrow> m \<le> hi \<longrightarrow> probe m = Inr True \<longrightarrow> probe k = Inr True)"

lemma probe_antitone_sub:
  "probe_antitone probe lo hi \<Longrightarrow> lo \<le> lo' \<Longrightarrow> hi' \<le> hi \<Longrightarrow> probe_antitone probe lo' hi'"
  unfolding probe_antitone_def by (meson order_trans)

text \<open>\<open>greatest_fit probe lo hi m\<close>: \<open>m\<close> fits and nothing above it up to \<open>hi\<close> does.\<close>

definition no_fit :: "(i64 \<Rightarrow> sched_error + bool) \<Rightarrow> i64 \<Rightarrow> i64 \<Rightarrow> bool" where
  "no_fit probe lo hi \<longleftrightarrow> (\<forall>k. lo \<le> k \<longrightarrow> k \<le> hi \<longrightarrow> probe k \<noteq> Inr True)"

lemma no_fit_split: "no_fit probe lo (m - 1) \<Longrightarrow> no_fit probe m hi \<Longrightarrow> no_fit probe lo hi"
  unfolding no_fit_def by (metis linorder_not_less zle_diff1_eq)

lemma no_fit_above: "no_fit probe m hi \<Longrightarrow> m \<le> n \<Longrightarrow> no_fit probe n hi"
  unfolding no_fit_def by force

lemma no_fit_antitone:
  assumes "probe_antitone probe lo hi" and "lo \<le> m" and "m \<le> hi" and "probe m = Inr False"
  shows "no_fit probe m hi"
  unfolding no_fit_def
proof (intro allI impI notI)
  fix k assume "m \<le> k" "k \<le> hi" "probe k = Inr True"
  then have "probe m = Inr True" using assms(1,2) unfolding probe_antitone_def by blast
  then show False using assms(4) by simp
qed

lemma dense_search_greatest:
  assumes "search_range lo hi" and "probe_antitone probe lo hi"
  shows "\<exists>m. dense_search probe lo hi best = Some (Inr m) \<and>
    (m = best \<and> no_fit probe lo hi \<or>
     lo \<le> m \<and> m \<le> hi \<and> probe m = Inr True \<and> no_fit probe (m + 1) hi)"
  using assms
proof (induction "nat (hi + 1 - lo)" arbitrary: lo hi best rule: less_induct)
  case less
  show ?case
  proof (cases "lo \<le> hi")
    case False
    then show ?thesis by (simp add: search_end no_fit_def)
  next
    case True
    let ?m = "mid_of lo hi"
    note s = search_step [OF less.prems(1) True] and step = dense_search_step [OF less.prems(1) True]
    obtain ok where ok: "probe ?m = Inr ok" using less.prems(2) s(1,2) unfolding probe_antitone_def by blast
    show ?thesis
    proof (cases ok)
      case False
      then have none: "no_fit probe ?m hi" using no_fit_antitone [OF less.prems(2) s(1,2)] ok by simp
      have "nat (?m - 1 + 1 - lo) < nat (hi + 1 - lo)" using s(1,2) True by simp
      moreover have "probe_antitone probe lo (?m - 1)"
        using probe_antitone_sub [OF less.prems(2)] s(2) by simp
      ultimately obtain m where m: "dense_search probe lo (?m - 1) best = Some (Inr m)"
        "m = best \<and> no_fit probe lo (?m - 1) \<or>
         lo \<le> m \<and> m \<le> ?m - 1 \<and> probe m = Inr True \<and> no_fit probe (m + 1) (?m - 1)"
        using less.hyps s(6) by blast
      have "dense_search probe lo hi best = Some (Inr m)" using ok False m(1) by (simp add: step)
      then show ?thesis using m(2) no_fit_split [OF _ none] s(2) by fastforce
    next
      case t: True
      have "nat (hi + 1 - (?m + 1)) < nat (hi + 1 - lo)" using s(1,2) True by simp
      moreover have "probe_antitone probe (?m + 1) hi"
        using probe_antitone_sub [OF less.prems(2)] s(1) by simp
      ultimately obtain m where m: "dense_search probe (?m + 1) hi ?m = Some (Inr m)"
        "m = ?m \<and> no_fit probe (?m + 1) hi \<or>
         ?m + 1 \<le> m \<and> m \<le> hi \<and> probe m = Inr True \<and> no_fit probe (m + 1) hi"
        using less.hyps s(5) by blast
      have "dense_search probe lo hi best = Some (Inr m)" using ok t m(1) by (simp add: step)
      then show ?thesis using m(2) ok t s(1,2) by fastforce
    qed
  qed
qed

section \<open>What every plan on a host with GPUs satisfies\<close>

text \<open>
  The plan is what evaluating its own options gives, except for its mode and spillover flag; its
  options extend the configured ones; and it spills only where \<open>spill\<close> allows it.
\<close>

definition plan_for :: "runtime_request \<Rightarrow> options \<Rightarrow> bool \<Rightarrow> runtime_plan \<Rightarrow> bool" where
  "plan_for req base spill plan \<longleftrightarrow>
     rp_demand plan = demand_for (rr_demand req) (rp_options plan) \<and>
     plan_demand_placement (rr_placement req) (rr_snapshot req) (rp_demand plan) = Inr (rp_placement plan) \<and>
     (rp_fits plan \<longleftrightarrow> pl_fits (rp_placement plan) \<and>
        runtime_host_ram_fits (rr_snapshot req) (rd_host_ram (rp_demand plan))) \<and>
     base \<subseteq>\<^sub>m rp_options plan \<and> (rp_spill plan \<longrightarrow> spill)"

lemma evaluate_plan_for:
  "evaluate_runtime_candidate req opts s = Inr plan \<Longrightarrow> base \<subseteq>\<^sub>m opts \<Longrightarrow> (s \<longrightarrow> spill) \<Longrightarrow>
    plan_for req base spill plan"
  by (auto simp: evaluate_runtime_candidate_def plan_for_def Let_def split: sum.splits)

lemma plan_for_upd:
  "plan_for req base spill plan \<Longrightarrow> plan_for req base spill (plan\<lparr>rp_mode := m\<rparr>)"
  "plan_for req base True plan \<Longrightarrow> plan_for req base True (plan\<lparr>rp_spill := b\<rparr>)"
  by (auto simp: plan_for_def)

lemma option_present_map_le:
  "\<not> option_present base key \<Longrightarrow> base \<subseteq>\<^sub>m opts \<Longrightarrow> base \<subseteq>\<^sub>m opts(key := v)"
  by (auto simp: option_present_def map_le_def dom_def)

lemmas lock_defs = option_locks_for_def

lemma layer_lock_map_le:
  "\<not> lock_layers (option_locks_for base) \<Longrightarrow> layer_key key \<Longrightarrow> base \<subseteq>\<^sub>m opts \<Longrightarrow> base \<subseteq>\<^sub>m opts(key := v)"
  by (auto simp: lock_defs layer_key_def intro: option_present_map_le)

lemma kv_lock_map_le:
  "\<not> lock_kv (option_locks_for base) \<Longrightarrow> base \<subseteq>\<^sub>m opts \<Longrightarrow> base \<subseteq>\<^sub>m opts(''no-kv-offload'' := v)"
  by (auto simp: lock_defs intro: option_present_map_le)

lemma moe_lock_map_le:
  "\<not> lock_moe (option_locks_for base) \<Longrightarrow> base \<subseteq>\<^sub>m opts \<Longrightarrow> base \<subseteq>\<^sub>m opts(''n-cpu-moe'' := v)"
  "\<not> lock_moe (option_locks_for base) \<Longrightarrow> base \<subseteq>\<^sub>m opts \<Longrightarrow> base \<subseteq>\<^sub>m opts(''cpu-moe'' := v)"
  by (auto simp: lock_defs intro: option_present_map_le)

lemmas lock_map_le = layer_lock_map_le kv_lock_map_le moe_lock_map_le

lemma plan_automatic_moe_for:
  assumes "plan_automatic_moe req base (option_locks_for base) = Some (Inr (Some plan))"
    and "\<not> lock_moe (option_locks_for base)"
  shows "plan_for req base False plan \<and> rp_fits plan"
proof -
  have found: "plan_for req base False plan \<and> rp_fits plan" if "moe_found req base n = Inr (Some plan)" for n
    using that assms(2) evaluate_plan_for [where s = False and spill = False and base = base]
    by (auto simp: moe_found_def Let_def plan_for_upd lock_map_le split: if_splits sum.splits)
  have all: "plan_for req base False plan \<and> rp_fits plan"
    if "moe_all_host req base (option_locks_for base) = Inr (Some plan)"
    using that assms(2) evaluate_plan_for [where s = False and spill = False and base = base]
    by (auto simp: moe_all_host_def Let_def plan_for_upd lock_map_le split: if_splits sum.splits)
  show ?thesis
    using assms(1) found all
    by (auto simp: plan_automatic_moe_def Let_def split: if_splits option.splits sum.splits)
qed

lemma plan_dense_partial_for:
  assumes "plan_dense_partial req base kv = Some (Inr (Some plan))"
    and "\<not> lock_layers (option_locks_for base)" and "kv \<longrightarrow> \<not> lock_kv (option_locks_for base)"
    and "gpu_layer_option_key (rr_caps req) \<noteq> [] \<longrightarrow> layer_key (gpu_layer_option_key (rr_caps req))"
  shows "plan_for req base True plan \<and> rp_fits plan"
proof -
  define opts where "opts = (if kv then base(''no-kv-offload'' \<mapsto> ''true'') else base)"
  have "base \<subseteq>\<^sub>m opts" using assms(3) by (auto simp: opts_def lock_map_le)
  moreover obtain n p where "evaluate_runtime_candidate req
      (opts(gpu_layer_option_key (rr_caps req) \<mapsto> format_int n)) True = Inr p"
    "rp_fits p" "plan = p\<lparr>rp_spill := True\<rparr>" "gpu_layer_option_key (rr_caps req) \<noteq> []"
    using assms(1) unfolding plan_dense_partial_def Let_def opts_def [symmetric]
    by (auto split: if_split_asm option.splits sum.splits)
  ultimately show ?thesis
    using assms(2,4) evaluate_plan_for [of req _ True p base True]
    by (auto simp: plan_for_upd lock_map_le)
qed

lemma plan_spill_kv_for:
  assumes "plan_spill_kv req base (option_locks_for base) = Some (Inr (Some plan))"
    and "gpu_layer_option_key (rr_caps req) \<noteq> [] \<longrightarrow> layer_key (gpu_layer_option_key (rr_caps req))"
  shows "plan_for req base True plan \<and> rp_fits plan"
  using assms plan_dense_partial_for [of req base True plan]
    evaluate_plan_for [where s = True and spill = True and base = base]
  by (auto simp: plan_spill_kv_def plan_for_upd lock_map_le split: if_splits sum.splits)

lemma plan_for_weaken: "plan_for req base spill plan \<Longrightarrow> (spill \<longrightarrow> spill') \<Longrightarrow> plan_for req base spill' plan"
  by (auto simp: plan_for_def)

lemma plan_spill_cpu_for:
  assumes "plan_spill_cpu req base (option_locks_for base) full = Inr plan" and "plan_for req base False full"
    and "gpu_layer_option_key (rr_caps req) \<noteq> [] \<longrightarrow> layer_key (gpu_layer_option_key (rr_caps req))"
  shows "plan_for req base True plan"
  using assms evaluate_plan_for [where s = True and spill = True and base = base]
    plan_for_weaken [of req base False full True]
  by (auto simp: plan_spill_cpu_def Let_def plan_for_upd lock_map_le split: if_splits sum.splits)

lemma or_next_cases:
  assumes "or_next attempt next = Some (Inr plan)"
  obtains "attempt = Some (Inr (Some plan))" | "attempt = Some (Inr None)" "next = Some (Inr plan)"
  using assms by (auto simp: or_next_def split: option.splits sum.splits)

lemma plan_runtime_now_for:
  assumes "plan_runtime_now req = Some (Inr plan)" and "gpus (rr_snapshot req) \<noteq> []"
    and "gpu_layer_option_key (rr_caps req) \<noteq> [] \<longrightarrow> layer_key (gpu_layer_option_key (rr_caps req))"
  shows "plan_for req (di_options (rr_demand req)) (rr_allow_spill req) plan"
proof -
  define base where "base = di_options (rr_demand req)"
  define locks where "locks = option_locks_for base"
  obtain full where full: "evaluate_runtime_candidate req base False = Inr full"
    using assms(1,2) by (auto simp: plan_runtime_now_def Let_def base_def split: sum.splits)
  have ff: "plan_for req base False full" by (rule evaluate_plan_for [OF full]) simp_all
  then have fw: "plan_for req base (rr_allow_spill req) full" by (rule plan_for_weaken) simp
  have now: "plan_runtime_now req = (if rp_fits full then Some (Inr full) else or_next
      (if 0 < km_expert_count (di_metadata (rr_demand req)) \<and> rc_n_cpu_moe (rr_caps req) \<and> \<not> lock_moe locks
       then plan_automatic_moe req base locks else Some (Inr None))
      (if \<not> rr_allow_spill req then Some (Inr full)
       else or_next
         (if \<not> lock_layers locks \<and> gpu_layer_option_key (rr_caps req) \<noteq> []
          then plan_dense_partial req base False else Some (Inr None))
         (or_next (plan_spill_kv req base locks)
           (Some (plan_spill_cpu req base locks full)))))"
    using assms(2) full by (simp add: plan_runtime_now_def Let_def base_def locks_def)
  show ?thesis
  proof (cases "rp_fits full")
    case True
    then show ?thesis using assms(1) now fw by (simp add: base_def)
  next
    case False
    then have "or_next
      (if 0 < km_expert_count (di_metadata (rr_demand req)) \<and> rc_n_cpu_moe (rr_caps req) \<and> \<not> lock_moe locks
       then plan_automatic_moe req base locks else Some (Inr None))
      (if \<not> rr_allow_spill req then Some (Inr full)
       else or_next
         (if \<not> lock_layers locks \<and> gpu_layer_option_key (rr_caps req) \<noteq> []
          then plan_dense_partial req base False else Some (Inr None))
         (or_next (plan_spill_kv req base locks)
           (Some (plan_spill_cpu req base locks full)))) = Some (Inr plan)"
      using assms(1) now by simp
    then show ?thesis
    proof (cases rule: or_next_cases)
      case 1
      then have "plan_for req base False plan"
        using plan_automatic_moe_for [of req base plan] by (auto simp: locks_def split: if_splits)
      then show ?thesis unfolding base_def by (rule plan_for_weaken) simp
    next
      case 2
      show ?thesis
      proof (cases "rr_allow_spill req")
        case False
        then show ?thesis using 2(2) fw by (simp add: base_def)
      next
        case sp: True
        from 2(2) sp have "or_next
         (if \<not> lock_layers locks \<and> gpu_layer_option_key (rr_caps req) \<noteq> []
          then plan_dense_partial req base False else Some (Inr None))
         (or_next (plan_spill_kv req base locks)
           (Some (plan_spill_cpu req base locks full))) = Some (Inr plan)"
          by simp
        then have "plan_for req base True plan"
          using plan_dense_partial_for [of req base False plan] plan_spill_kv_for [of req base plan]
            plan_spill_cpu_for [of req base full plan] ff assms(3)
          by (auto simp: locks_def elim!: or_next_cases split: if_splits)
        then show ?thesis using sp by (simp add: base_def)
      qed
    qed
  qed
qed

section \<open>Termination\<close>

lemma or_next_None:
  "or_next attempt rest = None \<longleftrightarrow> attempt = None \<or> attempt = Some (Inr None) \<and> rest = None"
  by (auto simp: or_next_def split: option.splits sum.splits)

lemma search_ok_total: "search_ok probe lo hi found res \<Longrightarrow> res \<noteq> None"
  by (auto simp: search_ok_def)

definition blocks_below_max :: "runtime_request \<Rightarrow> bool" where
  "blocks_below_max req \<longleftrightarrow> km_block_count (di_metadata (rr_demand req)) < 9223372036854775807"

lemma search_range_blocks: "blocks_below_max req \<Longrightarrow> 0 < km_block_count (di_metadata (rr_demand req)) \<Longrightarrow>
    search_range 1 (km_block_count (di_metadata (rr_demand req)))"
  by (simp add: blocks_below_max_def search_range_def)

lemma plan_automatic_moe_total: "blocks_below_max req \<Longrightarrow> plan_automatic_moe req base locks \<noteq> None"
  using search_ok_total [OF moe_search_ok [OF search_range_blocks],
    of req "probe_count req base ''n-cpu-moe''" 0]
  by (auto simp: plan_automatic_moe_def Let_def not_le split: option.split sum.split)

lemma plan_dense_partial_total: "blocks_below_max req \<Longrightarrow> plan_dense_partial req base kv \<noteq> None"
proof -
  assume b: "blocks_below_max req"
  have "dense_search probe 1 (km_block_count (di_metadata (rr_demand req))) 0 \<noteq> None"
    if "0 < km_block_count (di_metadata (rr_demand req))" for probe
    by (rule search_ok_total [OF dense_search_ok [OF search_range_blocks [OF b that]]])
  note total = this
  define opts where "opts = (if kv then base(''no-kv-offload'' \<mapsto> ''true'') else base)"
  show ?thesis
  proof (cases "0 < km_block_count (di_metadata (rr_demand req))")
    case True
    then obtain r where r: "dense_search (probe_count req opts (gpu_layer_option_key (rr_caps req))) 1
        (km_block_count (di_metadata (rr_demand req))) 0 = Some r"
      using total by blast
    show ?thesis
      unfolding plan_dense_partial_def Let_def opts_def [symmetric] r by (simp split: sum.split)
  qed (simp add: plan_dense_partial_def)
qed

lemma plan_spill_kv_total: "blocks_below_max req \<Longrightarrow> plan_spill_kv req base locks \<noteq> None"
  unfolding plan_spill_kv_def using plan_dense_partial_total [of req base True] by (simp only: split: if_split) simp

lemma plan_runtime_now_total: "blocks_below_max req \<Longrightarrow> plan_runtime_now req \<noteq> None"
  using plan_automatic_moe_total [of req] plan_dense_partial_total [of req] plan_spill_kv_total [of req]
  unfolding plan_runtime_now_def Let_def
  by (auto simp only: or_next_None split: sum.split if_split_asm if_split)

lemma blocks_below_max_upd [simp]:
  "blocks_below_max (req\<lparr>rr_snapshot := s, rr_idle := i\<rparr>) = blocks_below_max req"
  "blocks_below_max (req\<lparr>rr_caps := c\<rparr>) = blocks_below_max req"
  by (simp_all add: blocks_below_max_def)

lemma plan_runtime_total: "blocks_below_max req \<Longrightarrow> plan_runtime req \<noteq> None"
  by (simp add: plan_runtime_def plan_runtime_now_total del: not_None_eq split: option.split sum.split)

text \<open>
  With the greatest \<open>int64\<close> as upper bound the loop of \<open>planAutomaticMoE\<close> runs forever when no
  number fits: after the last probe \<open>lo = mid + 1\<close> wraps to the least \<open>int64\<close>, the difference of
  the bounds wraps, and from then on \<open>mid\<close> stays the least \<open>int64\<close>.
\<close>

definition stuck_at :: "i64 \<Rightarrow> bool" where
  "stuck_at lo \<longleftrightarrow> 1 \<le> lo \<and> lo \<le> 9223372036854775807 \<or>
     lo = - 9223372036854775808 \<or> lo = - 9223372036854775807"

lemma stuck_step: "stuck_at lo \<Longrightarrow> stuck_at (wrap64 (mid_of lo 9223372036854775807 + 1))"
proof -
  assume "stuck_at lo"
  then consider "1 \<le> lo" "lo \<le> 9223372036854775807" | "lo = - 9223372036854775808" | "lo = - 9223372036854775807"
    unfolding stuck_at_def by blast
  then show ?thesis
  proof cases
    case 1
    then have m: "lo \<le> mid_of lo 9223372036854775807" "mid_of lo 9223372036854775807 \<le> 9223372036854775807"
      using mid_of_bounds [of lo 9223372036854775807] by (simp_all add: is_i64_def)
    show ?thesis
    proof (cases "mid_of lo 9223372036854775807 = 9223372036854775807")
      case True
      then show ?thesis by (simp add: stuck_at_def wrap64_def)
    next
      case False
      then show ?thesis using m 1 by (simp add: stuck_at_def wrap64_nonneg)
    qed
  qed (simp_all add: mid_of_def wrap64_def go_div_def stuck_at_def)
qed

lemma moe_search_hangs_aux:
  assumes "moe_search probe lo hi found = Some res"
  shows "(\<forall>k. probe k = Inr False) \<longrightarrow> hi = 9223372036854775807 \<longrightarrow> \<not> stuck_at lo"
  using assms
proof (rule moe_search.raw_induct [rotated])
  fix search probe lo hi found res
  assume IH: "\<And>probe lo hi found res. search probe lo hi found = Some res \<Longrightarrow>
      (\<forall>k. probe k = Inr False) \<longrightarrow> hi = 9223372036854775807 \<longrightarrow> \<not> stuck_at lo"
    and body: "(if lo \<le> hi then
        (case probe (mid_of lo hi) of
           Inl e \<Rightarrow> Some (Inl e)
         | Inr ok \<Rightarrow>
             if ok then search probe lo (wrap64 (mid_of lo hi - 1)) (mid_of lo hi)
             else search probe (wrap64 (mid_of lo hi + 1)) hi found)
      else Some (Inr found)) = Some res"
  show "(\<forall>k. probe k = Inr False) \<longrightarrow> hi = 9223372036854775807 \<longrightarrow> \<not> stuck_at lo"
  proof (intro impI notI)
    assume p: "\<forall>k. probe k = Inr False" and hi: "hi = 9223372036854775807" and lo: "stuck_at lo"
    have "lo \<le> hi" using lo unfolding stuck_at_def hi by linarith
    then have "search probe (wrap64 (mid_of lo hi + 1)) hi found = Some res" using body p by simp
    then show False using IH p hi stuck_step [OF lo] by blast
  qed
qed

lemma moe_search_hangs:
  "(\<And>k. probe k = Inr False) \<Longrightarrow> moe_search probe 1 9223372036854775807 0 = None"
proof (rule ccontr)
  assume p: "\<And>k. probe k = Inr False" and "moe_search probe 1 9223372036854775807 0 \<noteq> None"
  then obtain res where "moe_search probe 1 9223372036854775807 0 = Some res" by blast
  from moe_search_hangs_aux [OF this] p show False by (auto simp: stuck_at_def)
qed

section \<open>Properties\<close>

definition sample_caps :: runtime_capabilities where
  "sample_caps = \<lparr>rc_n_cpu_moe = True, rc_cpu_moe = True, rc_no_kv_offload = True,
     rc_gpu_layers = True, rc_layers_option = ''n-gpu-layers''\<rparr>"

text \<open>A launch on a host whose GPUs have the given free memory.\<close>

definition sample_runtime :: "demand_input \<Rightarrow> (string \<times> i64) list \<Rightarrow> bool \<Rightarrow> runtime_request" where
  "sample_runtime inp fs spill = \<lparr>rr_snapshot = sample_host fs, rr_idle = None, rr_demand = inp,
     rr_placement = sample_request [] 0 [] [], rr_allow_spill = spill, rr_caps = sample_caps\<rparr>"

lemma plan_for_caps [simp]: "plan_for (req\<lparr>rr_caps := c\<rparr>) base spill plan = plan_for req base spill plan"
  by (simp add: plan_for_def)

lemma plan_runtime_sound_aux:
  assumes "plan_runtime req = Some (Inr plan)" and "gpus (rr_snapshot req) \<noteq> []"
    and "gpu_layer_option_key (rr_caps req) = [] \<or> layer_key (gpu_layer_option_key (rr_caps req))"
  shows "rp_demand plan = estimate_demand ((rr_demand req)\<lparr>di_options := rp_options plan\<rparr>) \<and>
    plan_demand_placement (rr_placement req) (rr_snapshot req) (rp_demand plan) = Inr (rp_placement plan) \<and>
    (rp_fits plan \<longleftrightarrow> pl_fits (rp_placement plan) \<and>
      runtime_host_ram_fits (rr_snapshot req) (rd_host_ram (rp_demand plan))) \<and>
    di_options (rr_demand req) \<subseteq>\<^sub>m rp_options plan \<and>
    (rp_spill plan \<longrightarrow> rr_allow_spill req)"
proof -
  define caps where "caps = (rr_caps req)\<lparr>rc_n_cpu_moe := False, rc_cpu_moe := False\<rparr>"
  have key: "gpu_layer_option_key caps = gpu_layer_option_key (rr_caps req)"
    by (simp add: caps_def gpu_layer_option_key_def)
  have "plan_runtime_now req = Some (Inr plan) \<or> plan_runtime_now (req\<lparr>rr_caps := caps\<rparr>) = Some (Inr plan)"
    using assms(1) by (auto simp: plan_runtime_def caps_def split: if_splits option.splits sum.splits)
  then have "plan_for req (di_options (rr_demand req)) (rr_allow_spill req) plan"
    using plan_runtime_now_for [of req plan] plan_runtime_now_for [of "req\<lparr>rr_caps := caps\<rparr>" plan] assms(2,3)
    by (auto simp: key)
  then show ?thesis by (auto simp: plan_for_def demand_for_def)
qed

text \<open>
  C8. Soundness of the launch planner: on a host with GPUs, every plan carries the demand of its own
  options and the placement of that demand, and it claims to fit exactly when that placement fits
  and the host RAM above the reserve covers the rest; no option the user configured is removed
  or changed; and a plan spills to the host only when that is allowed.
\<close>

theorem plan_runtime_sound:
  assumes "plan_runtime req = Some (Inr plan)" and "gpus (rr_snapshot req) \<noteq> []"
    and "gpu_layer_option_key (rr_caps req) = [] \<or> layer_key (gpu_layer_option_key (rr_caps req))"
  shows "rp_demand plan = estimate_demand ((rr_demand req)\<lparr>di_options := rp_options plan\<rparr>) \<and>
    plan_demand_placement (rr_placement req) (rr_snapshot req) (rp_demand plan) = Inr (rp_placement plan) \<and>
    (rp_fits plan \<longleftrightarrow> pl_fits (rp_placement plan) \<and>
      runtime_host_ram_fits (rr_snapshot req) (rd_host_ram (rp_demand plan))) \<and>
    di_options (rr_demand req) \<subseteq>\<^sub>m rp_options plan \<and>
    (rp_spill plan \<longrightarrow> rr_allow_spill req)"
  by (rule plan_runtime_sound_aux [OF assms])

lemma sample_runtime_sel [simp]:
  "rr_snapshot (sample_runtime inp fs spill) = sample_host fs" "rr_demand (sample_runtime inp fs spill) = inp"
  "rr_caps (sample_runtime inp fs spill) = sample_caps" "rr_allow_spill (sample_runtime inp fs spill) = spill"
  "rr_placement (sample_runtime inp fs spill) = sample_request [] 0 [] []" "rr_idle (sample_runtime inp fs spill) = None"
  by (simp_all add: sample_runtime_def)

lemma sample_input_sel [simp]:
  "di_options (sample_input e opts) = opts" "km_expert_count (di_metadata (sample_input e opts)) = e"
  "km_block_count (di_metadata (sample_input e opts)) = 32"
  by (simp_all add: sample_input_def)

lemma sample_host_gpus: "gpus (sample_host (f # fs)) \<noteq> []"
  by (simp add: sample_host_def)

lemma sample_caps_key: "gpu_layer_option_key sample_caps = ''n-gpu-layers''"
  by code_simp

text \<open>When the configured options fit, they are the plan.\<close>

lemma plan_runtime_full:
  "evaluate_runtime_candidate req (di_options (rr_demand req)) False = Inr full \<Longrightarrow> rp_fits full \<Longrightarrow>
    gpus (rr_snapshot req) \<noteq> [] \<Longrightarrow> \<not> idle_request req \<Longrightarrow> plan_runtime req = Some (Inr full)"
  by (simp add: plan_runtime_def plan_runtime_now_def Let_def)

theorem plan_runtime_sound_witness:
  "\<exists>plan. plan_runtime (sample_runtime (sample_input 0 [''n-gpu-layers'' \<mapsto> ''16'']) [(''CUDA0'', 6000000000)] True) = Some (Inr plan) \<and>
    rp_fits plan \<and> [''n-gpu-layers'' \<mapsto> ''16''] \<subseteq>\<^sub>m rp_options plan \<and> pl_fits (rp_placement plan) \<and>
    runtime_host_ram_fits (sample_host [(''CUDA0'', 6000000000)]) (rd_host_ram (rp_demand plan))"
proof -
  let ?r = "sample_runtime (sample_input 0 [''n-gpu-layers'' \<mapsto> ''16'']) [(''CUDA0'', 6000000000)] True"
  have g: "gpus (rr_snapshot ?r) \<noteq> []" by (simp add: sample_host_gpus)
  have "case evaluate_runtime_candidate ?r [''n-gpu-layers'' \<mapsto> ''16''] False of
      Inl e \<Rightarrow> False | Inr plan \<Rightarrow> rp_fits plan"
    by code_simp
  then obtain plan where e: "evaluate_runtime_candidate ?r [''n-gpu-layers'' \<mapsto> ''16''] False = Inr plan"
    "rp_fits plan"
    by (auto split: sum.splits)
  then have p: "plan_runtime ?r = Some (Inr plan)" "rp_fits plan"
    using plan_runtime_full [OF _ e(2) g] by (simp_all add: idle_request_def sample_input_def)
  have k: "gpu_layer_option_key (rr_caps ?r) = [] \<or> layer_key (gpu_layer_option_key (rr_caps ?r))"
    by (simp add: sample_caps_key layer_key_def)
  show ?thesis
    using plan_runtime_sound [OF p(1) g k] p unfolding sample_runtime_sel sample_input_sel by blast
qed

text \<open>
  C28. The planner always returns, an error or a plan, provided that the model's number of blocks is
  below the greatest \<open>int64\<close>: both binary searches end.
\<close>

theorem plan_runtime_returns:
  assumes "km_block_count (di_metadata (rr_demand req)) < 9223372036854775807"
  shows "\<exists>res. plan_runtime req = Some res"
  using plan_runtime_total [of req] assms by (simp add: blocks_below_max_def)

theorem plan_runtime_returns_witness:
  "\<exists>res. plan_runtime (sample_runtime (sample_input 8 Map.empty) [(''CUDA0'', 6000000000)] True) = Some res"
proof -
  have "km_block_count (di_metadata (rr_demand (sample_runtime (sample_input 8 Map.empty) [(''CUDA0'', 6000000000)] True)))
      < 9223372036854775807"
    by (simp add: sample_input_def)
  from plan_runtime_returns [OF this] show ?thesis .
qed

text \<open>
  The demand of a launch with something on the GPUs is positive, and automatic placement of a
  positive demand is a comparison with the usable memory.
\<close>

lemma vram_positive:
  assumes "demand_bounded inp" and "\<not> cpu_only_input inp"
  shows "0 < vram_bytes (estimate_demand inp)"
proof -
  let ?w = "pos_part (di_weights inp)" and ?c = "pos_part (di_companion inp)"
  have b: "0 \<le> ?w" "is_i64 ?w" "0 \<le> ?c" "0 \<le> ?w + ?c" "?w + ?c \<le> 2 ^ 61" "0 \<le> estimated_kv inp"
    using assms(1) by (auto simp: demand_bounded_def is_i64_def pos_part_def)
  show ?thesis
    using gpu_weights_bounds [OF b(1,2), of inp] runtime_overhead_bounds(1) [OF b(4,5)] b(3,6) assms(2)
    unfolding estimate_demand_fields [OF assms(1)] by auto
qed

definition auto_host :: "runtime_request \<Rightarrow> bool" where
  "auto_host req \<longleftrightarrow> effective_mode (pr_mode (rr_placement req)) = ''auto'' \<and> gpus (rr_snapshot req) \<noteq> [] \<and>
     usable_sum (request_reserve (rr_placement req)) (gpus (rr_snapshot req)) < 2 ^ 63"

abbreviation host_usable :: "runtime_request \<Rightarrow> int" where
  "host_usable req \<equiv> usable_sum (request_reserve (rr_placement req)) (gpus (rr_snapshot req))"

lemma demand_placement_auto:
  assumes "auto_host req" and "0 < vram_bytes d"
  shows "\<exists>p. plan_demand_placement (rr_placement req) (rr_snapshot req) d = Inr p \<and>
    (pl_fits p \<longleftrightarrow> vram_bytes d \<le> host_usable req)"
proof -
  let ?q = "(rr_placement req)\<lparr>pr_required := vram_bytes d, pr_host_ram := rd_host_ram d,
      pr_splittable := rd_splittable d, pr_fixed := rd_fixed d\<rparr>"
  have "auto_request (rr_snapshot req) ?q" "0 < pr_required ?q" "usable_sum (request_reserve ?q) (gpus (rr_snapshot req)) < 2 ^ 63"
    using assms by (auto simp: auto_request_def auto_host_def)
  from plan_auto_minimal [OF this] obtain p where
    "plan_placement (rr_snapshot req) ?q = Inr p" "pl_fits p \<longleftrightarrow> pr_required ?q \<le> usable_sum (request_reserve ?q) (gpus (rr_snapshot req))"
    by blast
  then show ?thesis using assms(2) by (auto simp: plan_demand_placement_def Let_def)
qed

lemma demand_fits_auto:
  "auto_host req \<Longrightarrow> 0 < vram_bytes d \<Longrightarrow>
    demand_fits req d = Inr (vram_bytes d \<le> host_usable req \<and>
      runtime_host_ram_fits (rr_snapshot req) (rd_host_ram d))"
  using demand_placement_auto [of req d] by (auto simp: demand_fits_def)

text \<open>
  The model of the next theorem: a mixture of experts whose metadata gives the greatest \<open>int64\<close>
  as the number of blocks (and no embedding length, so that no key-value cache is estimated).
\<close>

definition endless_input :: "options \<Rightarrow> demand_input" where
  "endless_input opts = (sample_input 8 opts)\<lparr>di_metadata :=
     (di_metadata (sample_input 8 opts))\<lparr>km_block_count := 9223372036854775807, km_embedding := 0\<rparr>\<rparr>"

lemma endless_demand:
  assumes "opts ''gpu-layers'' = None" "opts ''n-gpu-layers'' = None" "opts ''--gpu-layers'' = None" "opts ''--n-gpu-layers'' = None"
  shows "0 < vram_bytes (estimate_demand (endless_input opts))"
proof (rule vram_positive)
  show "demand_bounded (endless_input opts)"
    by (simp add: demand_bounded_def endless_input_def sample_input_def is_i64_def estimate_kv_bytes_def)
  show "\<not> cpu_only_input (endless_input opts)"
    using assms by (simp add: gpu_offload_fraction_def endless_input_def sample_input_def option_value_def)
qed

text \<open>
  C29. Where the bound of the previous theorem is missed the planner does not return: for a mixture
  model whose metadata says \<open>2^63 - 1\<close> blocks, on a host whose only GPU is full, the search for
  the number of expert layers wraps around and never ends.
\<close>

theorem plan_runtime_endless:
  "plan_runtime (sample_runtime (endless_input Map.empty) [(''CUDA0'', 0)] False) = None"
proof -
  let ?r = "sample_runtime (endless_input Map.empty) [(''CUDA0'', 0)] False"
  have h: "auto_host ?r" "host_usable ?r = 0" by code_simp+
  have inp: "(endless_input Map.empty)\<lparr>di_options := opts\<rparr> = endless_input opts" for opts
    by (simp add: endless_input_def sample_input_def)
  have o: "di_options (endless_input Map.empty) = Map.empty" "km_expert_count (di_metadata (endless_input Map.empty)) = 8"
    "km_block_count (di_metadata (endless_input Map.empty)) = 9223372036854775807"
    by (simp_all add: endless_input_def)
  have "probe_count ?r Map.empty ''n-cpu-moe'' k = Inr False" for k
    using endless_demand [of "[''n-cpu-moe'' \<mapsto> format_int k]"] h
    by (simp add: probe_count_code demand_fits_auto demand_for_def inp)
  then have search: "moe_search (probe_count ?r Map.empty ''n-cpu-moe'') 1 9223372036854775807 0 = None"
    by (rule moe_search_hangs)
  have v: "0 < vram_bytes (demand_for (rr_demand ?r) Map.empty)"
    using endless_demand [of Map.empty] by (simp add: demand_for_def inp)
  obtain full where "evaluate_runtime_candidate ?r Map.empty False = Inr full" "\<not> rp_fits full"
    using demand_placement_auto [OF h(1) v] v h(2)
    by (auto simp: evaluate_runtime_candidate_code candidate_of_def)
  then show ?thesis
    using search
    by (simp add: plan_runtime_def idle_request_def plan_runtime_now_def Let_def o sample_host_gpus
        sample_caps_def option_locks_for_def option_present_def plan_automatic_moe_def or_next_def)
qed

lemma host_ram_fits_antitone:
  "runtime_host_ram_fits snap b \<Longrightarrow> a \<le> b \<Longrightarrow> runtime_host_ram_fits snap a"
  by (auto simp: runtime_host_ram_fits_def split: if_splits)

text \<open>The launches the next property is about: dense models whose layers are not configured.\<close>

definition dense_launch :: "runtime_request \<Rightarrow> bool" where
  "dense_launch req \<longleftrightarrow>
     auto_host req \<and> demand_bounded (rr_demand req) \<and> layer_key (gpu_layer_option_key (rr_caps req)) \<and>
     layers_free (di_options (rr_demand req)) \<and> km_expert_count (di_metadata (rr_demand req)) \<le> 0 \<and>
     0 < km_block_count (di_metadata (rr_demand req)) \<and> blocks_below_max req"

abbreviation layer_probe :: "runtime_request \<Rightarrow> i64 \<Rightarrow> sched_error + bool" where
  "layer_probe req \<equiv> probe_count req (di_options (rr_demand req)) (gpu_layer_option_key (rr_caps req))"

abbreviation layer_demand :: "runtime_request \<Rightarrow> i64 \<Rightarrow> resource_demand" where
  "layer_demand req k \<equiv> estimate_demand ((rr_demand req)\<lparr>di_options :=
     (di_options (rr_demand req))(gpu_layer_option_key (rr_caps req) \<mapsto> format_int k)\<rparr>)"

lemma dense_launchD:
  assumes "dense_launch req"
  shows "demand_bounded (rr_demand req)" and "layer_key (gpu_layer_option_key (rr_caps req))"
    and "layers_free (di_options (rr_demand req))" and "km_expert_count (di_metadata (rr_demand req)) \<le> 0"
    and "0 < km_block_count (di_metadata (rr_demand req))"
    and "is_i64 (km_block_count (di_metadata (rr_demand req)))" and "auto_host req"
  using assms by (auto simp: dense_launch_def demand_bounded_def)

lemma layer_probe_eq:
  assumes "dense_launch req" and "0 < k" and "is_i64 k"
  shows "layer_probe req k = Inr (vram_bytes (layer_demand req k) \<le> host_usable req \<and>
    runtime_host_ram_fits (rr_snapshot req) (rd_host_ram (layer_demand req k)))"
proof -
  note b = dense_launchD [OF assms(1)]
  have "0 < vram_bytes (layer_demand req k)"
    by (rule vram_positive [OF demand_bounded_layers [OF b(2,1)]])
      (simp add: offload_fraction_layer_fraction [OF b(2,3) assms(3,2) b(6,5)] del: fun_upd_apply)
  then show ?thesis using b(7) by (simp add: probe_count_code demand_fits_auto demand_for_def)
qed

lemma layer_probe_antitone:
  assumes "dense_launch req"
    and "runtime_host_ram_fits (rr_snapshot req) (rd_host_ram (layer_demand req 1))"
  shows "probe_antitone (layer_probe req) 1 (km_block_count (di_metadata (rr_demand req)))"
  unfolding probe_antitone_def
proof (intro conjI allI impI)
  note b = dense_launchD [OF assms(1)]
  fix k
  assume k: "1 \<le> k" "k \<le> km_block_count (di_metadata (rr_demand req))"
  then show "\<exists>v. layer_probe req k = Inr v"
    using layer_probe_eq [OF assms(1), of k] b(6) by (auto simp: is_i64_def)
next
  note b = dense_launchD [OF assms(1)]
  note mono = demand_layers_mono [OF b(1-5)]
  fix k m
  assume k: "1 \<le> k" "k \<le> m" "m \<le> km_block_count (di_metadata (rr_demand req))"
    and m: "layer_probe req m = Inr True"
  have i: "is_i64 k" "is_i64 m" "0 < k" "0 < m" using k b(6) by (auto simp: is_i64_def)
  have "vram_bytes (layer_demand req k) \<le> vram_bytes (layer_demand req m)"
    using mono [of k m] i k(2) by blast
  moreover have "rd_host_ram (layer_demand req k) \<le> rd_host_ram (layer_demand req 1)"
    by (rule conjunct2 [OF mono [OF zero_less_one k(1) i(1)]])
  ultimately show "layer_probe req k = Inr True"
    using m layer_probe_eq [OF assms(1) i(3,1)] layer_probe_eq [OF assms(1) i(4,2)]
      host_ram_fits_antitone [OF assms(2)] by auto
qed

lemma probe_evaluate:
  "probe_count req opts key m = Inr True \<Longrightarrow>
    \<exists>plan. evaluate_runtime_candidate req (opts(key \<mapsto> format_int m)) s = Inr plan \<and> rp_fits plan \<and>
      rp_options plan = opts(key \<mapsto> format_int m)"
  by (auto simp: probe_count_def evaluate_runtime_candidate_def Let_def split: sum.splits)

text \<open>
  Partial offload is maximal: for a dense model on automatic placement whose layers are not
  configured, when the host RAM is enough even for a single layer on the GPUs, the planner finds
  the greatest number of layers that fits, and gives up only if not even one layer fits.
\<close>

theorem dense_partial_maximal:
  assumes "dense_launch req"
    and "runtime_host_ram_fits (rr_snapshot req) (rd_host_ram (layer_demand req 1))"
  shows "\<exists>m. 0 \<le> m \<and> m \<le> km_block_count (di_metadata (rr_demand req)) \<and>
    (\<forall>k. m < k \<longrightarrow> k \<le> km_block_count (di_metadata (rr_demand req)) \<longrightarrow> layer_probe req k \<noteq> Inr True) \<and>
    (if m = 0 then plan_dense_partial req (di_options (rr_demand req)) False = Some (Inr None)
     else \<exists>plan. plan_dense_partial req (di_options (rr_demand req)) False = Some (Inr (Some plan)) \<and>
       rp_fits plan \<and> rp_spill plan \<and>
       rp_options plan = (di_options (rr_demand req))(gpu_layer_option_key (rr_caps req) \<mapsto> format_int m))"
proof -
  let ?bc = "km_block_count (di_metadata (rr_demand req))" and ?key = "gpu_layer_option_key (rr_caps req)"
  let ?base = "di_options (rr_demand req)"
  have b: "0 < ?bc" "?key \<noteq> []" "blocks_below_max req"
    using assms(1) by (auto simp: dense_launch_def layer_key_def)
  obtain m where m: "dense_search (layer_probe req) 1 ?bc 0 = Some (Inr m)"
    "m = 0 \<and> no_fit (layer_probe req) 1 ?bc \<or>
     1 \<le> m \<and> m \<le> ?bc \<and> layer_probe req m = Inr True \<and> no_fit (layer_probe req) (m + 1) ?bc"
    using dense_search_greatest [OF search_range_blocks [OF b(3,1)] layer_probe_antitone [OF assms]] by blast
  show ?thesis
  proof (cases "m = 0")
    case True
    then show ?thesis
      using m b by (intro exI [of _ 0]) (auto simp: plan_dense_partial_def no_fit_def)
  next
    case False
    then have f: "1 \<le> m" "m \<le> ?bc" "layer_probe req m = Inr True" "no_fit (layer_probe req) (m + 1) ?bc"
      using m(2) by auto
    obtain plan where "evaluate_runtime_candidate req (?base(?key \<mapsto> format_int m)) True = Inr plan"
      "rp_fits plan" "rp_options plan = ?base(?key \<mapsto> format_int m)"
      using probe_evaluate [OF f(3), of True] by blast
    then show ?thesis
      using m(1) b f by (intro exI [of _ m]) (auto simp: plan_dense_partial_def no_fit_def)
  qed
qed

theorem dense_partial_maximal_witness:
  "\<exists>m. 0 \<le> m \<and> m \<le> 32 \<and> (\<forall>k. m < k \<longrightarrow> k \<le> 32 \<longrightarrow>
    layer_probe (sample_runtime (sample_input 0 Map.empty) [(''CUDA0'', 6000000000)] True) k \<noteq> Inr True)"
proof -
  let ?r = "sample_runtime (sample_input 0 Map.empty) [(''CUDA0'', 6000000000)] True"
  have a: "auto_host ?r" "demand_bounded (sample_input 0 Map.empty)" by code_simp+
  have d: "dense_launch ?r"
    using a by (simp add: dense_launch_def sample_caps_key layer_key_def layers_free_def blocks_below_max_def)
  have "runtime_host_ram_fits (rr_snapshot ?r) (rd_host_ram (layer_demand ?r 1))" by code_simp
  from dense_partial_maximal [OF d this] show ?thesis unfolding sample_runtime_sel sample_input_sel by blast
qed

text \<open>A model of 64 GB on two GPUs with 22 GB free each and 32 GB of free host RAM.\<close>

definition large_launch :: runtime_request where
  "large_launch = sample_runtime ((sample_input 0 Map.empty)\<lparr>di_weights := 64000000000\<rparr>)
     [(''CUDA0'', 22000000000), (''CUDA1'', 22000000000)] True"

lemma large_launch_sel:
  "di_options (rr_demand large_launch) = Map.empty" "gpu_layer_option_key (rr_caps large_launch) = ''n-gpu-layers''"
  "km_block_count (di_metadata (rr_demand large_launch)) = 32"
  "rr_snapshot large_launch = sample_host [(''CUDA0'', 22000000000), (''CUDA1'', 22000000000)]"
  by (simp_all add: large_launch_def sample_caps_key)

lemma large_launch_dense: "dense_launch large_launch"
proof -
  have "auto_host large_launch" "demand_bounded (rr_demand large_launch)" by code_simp+
  then show ?thesis
    by (simp add: dense_launch_def large_launch_def sample_caps_key layer_key_def layers_free_def blocks_below_max_def)
qed

lemma large_launch_host: "\<not> runtime_host_ram_fits (rr_snapshot large_launch) (rd_host_ram (layer_demand large_launch 16))"
  by code_simp

lemma large_launch_19: "layer_probe large_launch 19 = Inr True"
  by code_simp

lemma large_launch_low:
  assumes "1 \<le> k" and "k \<le> 16"
  shows "layer_probe large_launch k = Inr False"
proof -
  note b = dense_launchD [OF large_launch_dense]
  have i: "is_i64 k" "0 < k" "is_i64 16" using assms by (simp_all add: is_i64_def)
  have "rd_host_ram (layer_demand large_launch 16) \<le> rd_host_ram (layer_demand large_launch k)"
    by (rule conjunct2 [OF demand_layers_mono [OF b(1-5) i(2) assms(2) i(3)]])
  then have "\<not> runtime_host_ram_fits (rr_snapshot large_launch) (rd_host_ram (layer_demand large_launch k))"
    using large_launch_host host_ram_fits_antitone by blast
  then show ?thesis by (simp only: layer_probe_eq [OF large_launch_dense i(2,1)] simp_thms)
qed

text \<open>
  C30. When the host RAM is what limits a launch, the search goes the wrong way: 19 layers on the
  GPUs would fit, yet the first probe, at 16 layers, fails for want of host RAM, the search turns to
  fewer layers, which need still more, and reports that no partial offload fits.
\<close>

theorem dense_partial_misses:
  "layer_probe large_launch 19 = Inr True \<and>
   plan_dense_partial large_launch (di_options (rr_demand large_launch)) False = Some (Inr None)"
proof -
  let ?p = "layer_probe large_launch"
  have r: "search_range 1 32" "search_range 1 15" by (simp_all add: search_range_def)
  have mid: "mid_of 1 32 = 16" by (simp add: mid_of_def go_div_def wrap64_def)
  have "search_ok ?p 1 15 0 (dense_search ?p 1 15 0)" by (rule dense_search_ok [OF r(2)])
  then have "dense_search ?p 1 15 0 = Some (Inr 0)"
    unfolding search_ok_def using large_launch_low by fastforce
  then have "dense_search ?p 1 32 0 = Some (Inr 0)"
    using large_launch_low [of 16] by (simp add: dense_search_step [OF r(1)] mid)
  then show ?thesis
    using large_launch_19 by (simp add: plan_dense_partial_def Let_def large_launch_sel)
qed

end
