(* ===== verification/Ledger.thy ===== *)
theory Ledger
  imports Runtime_Plan
begin

text \<open>
  \<open>backend/internal/scheduler/reservation.go\<close>: the ledger of resource leases. A start acquires a
  pending lease against the hardware snapshot minus all other leases, commits it when the worker
  is ready and releases it at the end; a pending lease expires. Eviction passes credits: leases
  of victims that count as free for one start only.

  All operations of the source hold one mutex, so an operation is one step. The two clock
  readings of an acquisition, the new id and the iteration order of the maps are arguments or
  left open: leases are an association list in any order.
\<close>

section \<open>Data\<close>

record resource_owner =
  ow_kind :: string
  ow_id :: string

text \<open>The state string; \<open>NoState\<close> is the empty one of a lease that was not granted.\<close>

datatype lease_state = Pending | Committed | NoState

record resource_lease =
  ls_id :: string
  ls_owner :: resource_owner
  ls_instance :: string
  ls_placement :: placement
  ls_gpus :: "device_bytes list"
  ls_host_ram :: i64
  ls_state :: lease_state
  ls_expires :: i64

record credit =
  cr_instance :: string
  cr_bytes :: i64
  cr_gpus :: "device_bytes list"
  cr_host_ram :: i64

record acquire_request =
  aq_owner :: resource_owner
  aq_instance :: string
  aq_snapshot :: snapshot
  aq_placement :: placement_request
  aq_credits :: "credit list"
  aq_host_ram :: i64

record runtime_acquire_request =
  ra_instance :: string
  ra_snapshot :: snapshot
  ra_plan :: runtime_request
  ra_credits :: "credit list"

record ledger =
  lg_ttl :: i64
  lg_leases :: "(string \<times> resource_lease) list"
  lg_by_owner :: "string \<rightharpoonup> string"
  lg_claimed :: "string \<rightharpoonup> string"

datatype ledger_error =
    InstanceIdRequired
  | OwnerIdRequired
  | OwnerKindInvalid
  | OwnerConflict
  | UnknownLease
  | LeaseNotPending
  | PlanError sched_error

section \<open>Owners\<close>

definition owner_instance :: string where "owner_instance = ''instance''"

definition owner_benchmark :: string where "owner_benchmark = ''benchmark''"

definition normalize_owner :: "resource_owner \<Rightarrow> string \<Rightarrow> ledger_error + resource_owner" where
  "normalize_owner owner0 legacy0 =
     (let kind = to_lower (trim_space (ow_kind owner0));
          i = trim_space (ow_id owner0);
          legacy = trim_space legacy0;
          owner = (if kind = [] \<and> i = [] \<and> legacy \<noteq> []
                   then \<lparr>ow_kind = owner_instance, ow_id = legacy\<rparr> else \<lparr>ow_kind = kind, ow_id = i\<rparr>)
      in if ow_id owner = [] then Inl OwnerIdRequired
         else if ow_kind owner \<noteq> owner_instance \<and> ow_kind owner \<noteq> owner_benchmark then Inl OwnerKindInvalid
         else if legacy \<noteq> [] \<and> (ow_kind owner \<noteq> owner_instance \<or> ow_id owner \<noteq> legacy) then Inl OwnerConflict
         else Inr owner)"

definition resource_owner_key :: "resource_owner \<Rightarrow> string" where
  "resource_owner_key owner = ow_kind owner @ CHR 0x00 # ow_id owner"

section \<open>Release and expiry\<close>

definition release_locked :: "string \<Rightarrow> ledger \<Rightarrow> ledger" where
  "release_locked k l =
     (case map_of (lg_leases l) k of
        None \<Rightarrow> l
      | Some lease \<Rightarrow>
          let key = resource_owner_key (ls_owner lease)
          in l\<lparr>lg_leases := AList.delete k (lg_leases l),
               lg_by_owner := (if lookup_string (lg_by_owner l) key = k
                               then (lg_by_owner l)(key := None) else lg_by_owner l),
               lg_claimed := (\<lambda>v. if lg_claimed l v = Some k then None else lg_claimed l v)\<rparr>)"

definition release_owner_locked :: "resource_owner \<Rightarrow> ledger \<Rightarrow> ledger" where
  "release_owner_locked owner l =
     (let k = lookup_string (lg_by_owner l) (resource_owner_key owner)
      in if k \<noteq> [] then release_locked k l else l)"

definition lease_expired :: "i64 \<Rightarrow> resource_lease \<Rightarrow> bool" where
  "lease_expired now lease \<longleftrightarrow>
     ls_state lease = Pending \<and> ls_expires lease \<noteq> 0 \<and> ls_expires lease < now"

definition sweep_expired :: "i64 \<Rightarrow> ledger \<Rightarrow> ledger" where
  "sweep_expired now l =
     fold (\<lambda>(k, lease) l. if lease_expired now lease then release_locked k l else l) (lg_leases l) l"

section \<open>Credits and occupancy\<close>

definition lease_by_instance :: "ledger \<Rightarrow> string \<Rightarrow> resource_lease option" where
  "lease_by_instance l i =
     (let k = lookup_string (lg_by_owner l) (resource_owner_key \<lparr>ow_kind = owner_instance, ow_id = i\<rparr>)
      in if k = [] then None else map_of (lg_leases l) k)"

text \<open>A \<open>map[string]int64\<close> that is only read by key is a function with default 0.\<close>

fun add_device_bytes :: "device_bytes list \<Rightarrow> (string \<Rightarrow> i64) \<Rightarrow> string \<Rightarrow> i64" where
  "add_device_bytes [] m = m"
| "add_device_bytes (g # gs) m =
     (let d = trim_space (device g)
      in if d = [] \<or> amount g \<le> 0 then add_device_bytes gs m
         else add_device_bytes gs (m(d := wrap64 (m d + amount g))))"

record usable_credits =
  uc_usable :: "string list"
  uc_bytes :: "string \<Rightarrow> i64"
  uc_host :: i64

fun usable_credits_locked :: "ledger \<Rightarrow> string \<Rightarrow> credit list \<Rightarrow> usable_credits \<Rightarrow> usable_credits" where
  "usable_credits_locked l requester [] uc = uc"
| "usable_credits_locked l requester (c # cs) uc =
     (let victim = cr_instance c
      in if victim = [] \<or> victim = requester then usable_credits_locked l requester cs uc
         else if lookup_string (lg_claimed l) victim \<noteq> [] then usable_credits_locked l requester cs uc
         else case lease_by_instance l victim of
           None \<Rightarrow> usable_credits_locked l requester cs uc
         | Some existing \<Rightarrow>
             usable_credits_locked l requester cs
               \<lparr>uc_usable = victim # uc_usable uc,
                uc_bytes = add_device_bytes (if cr_gpus c \<noteq> [] then cr_gpus c else ls_gpus existing) (uc_bytes uc),
                uc_host = (if 0 < ls_host_ram existing then wrap64 (uc_host uc + ls_host_ram existing)
                           else uc_host uc)\<rparr>)"

definition no_credits :: usable_credits where
  "no_credits = \<lparr>uc_usable = [], uc_bytes = (\<lambda>d. 0), uc_host = 0\<rparr>"

record occupied =
  oc_pending :: i64
  oc_committed :: i64

text \<open>
  \<open>occupancyLocked\<close>: what the leases hold on each device and of the host RAM, without those of
  the owner and of the credited Instances. The record serves both \<open>deviceOccupancy\<close> and
  \<open>hostOccupancy\<close>.
\<close>

definition no_occupied :: occupied where
  "no_occupied = \<lparr>oc_pending = 0, oc_committed = 0\<rparr>"

definition occupy :: "lease_state \<Rightarrow> i64 \<Rightarrow> occupied \<Rightarrow> occupied" where
  "occupy st n oc =
     (if st = Pending then oc\<lparr>oc_pending := wrap64 (oc_pending oc + n)\<rparr>
      else oc\<lparr>oc_committed := wrap64 (oc_committed oc + n)\<rparr>)"

fun occupy_devices :: "lease_state \<Rightarrow> device_bytes list \<Rightarrow> (string \<Rightarrow> occupied) \<Rightarrow> string \<Rightarrow> occupied" where
  "occupy_devices st [] m = m"
| "occupy_devices st (g # gs) m =
     occupy_devices st gs (m(device g := occupy st (amount g) (m (device g))))"

definition lease_ignored :: "string \<Rightarrow> string list \<Rightarrow> resource_lease \<Rightarrow> bool" where
  "lease_ignored ignore_owner credited lease \<longleftrightarrow>
     resource_owner_key (ls_owner lease) = ignore_owner \<or>
     ls_instance lease \<noteq> [] \<and> ls_instance lease \<in> set credited"

fun occupancy_of ::
    "string \<Rightarrow> string list \<Rightarrow> (string \<times> resource_lease) list \<Rightarrow>
     (string \<Rightarrow> occupied) \<times> occupied \<Rightarrow> (string \<Rightarrow> occupied) \<times> occupied" where
  "occupancy_of ignore_owner credited [] acc = acc"
| "occupancy_of ignore_owner credited ((k, lease) # rest) acc =
     (if lease_ignored ignore_owner credited lease then occupancy_of ignore_owner credited rest acc
      else occupancy_of ignore_owner credited rest
        (occupy_devices (ls_state lease) (ls_gpus lease) (fst acc),
         occupy (ls_state lease) (ls_host_ram lease) (snd acc)))"

definition occupancy_locked :: "ledger \<Rightarrow> string \<Rightarrow> string list \<Rightarrow> (string \<Rightarrow> occupied) \<times> occupied" where
  "occupancy_locked l ignore_owner credited =
     occupancy_of ignore_owner credited (lg_leases l) (\<lambda>d. no_occupied, no_occupied)"

section \<open>The adjusted snapshot\<close>

definition adjust_ram :: "snapshot \<Rightarrow> occupied \<Rightarrow> i64 \<Rightarrow> i64" where
  "adjust_ram s host host_credit =
     (if 0 < ram_total s then
        let used = wrap64 (ram_total s - ram_available s);
            used' = (if used < 0 then 0 else used);
            unmanaged = wrap64 (used' - oc_committed host - host_credit);
            unmanaged' = (if unmanaged < 0 then 0 else unmanaged);
            available = wrap64 (ram_total s - oc_pending host - oc_committed host - unmanaged')
        in if available < 0 then 0 else available
      else if 0 < ram_available s then
        let available = wrap64 (ram_available s - oc_pending host - oc_committed host + host_credit)
        in if available < 0 then 0 else available
      else ram_available s)"

definition adjust_gpu :: "(string \<Rightarrow> occupied) \<Rightarrow> (string \<Rightarrow> i64) \<Rightarrow> gpu \<Rightarrow> gpu" where
  "adjust_gpu occupancy credit_bytes g =
     (let oc = occupancy (gpu_id g);
          cr = credit_bytes (gpu_id g);
          managed = wrap64 (oc_pending oc + oc_committed oc)
      in if 0 < gpu_total g then
           let unmanaged = wrap64 (gpu_used g - oc_committed oc - cr);
               unmanaged' = (if unmanaged < 0 then 0 else unmanaged);
               free = wrap64 (gpu_total g - managed - unmanaged');
               free' = (if free < 0 then 0 else free)
           in g\<lparr>gpu_free := free', gpu_used := wrap64 (gpu_total g - free')\<rparr>
         else
           let free = wrap64 (gpu_free g - oc_pending oc - oc_committed oc + cr)
           in g\<lparr>gpu_free := (if free < 0 then 0 else free)\<rparr>)"

definition adjust_snapshot ::
    "snapshot \<Rightarrow> (string \<Rightarrow> occupied) \<Rightarrow> occupied \<Rightarrow> (string \<Rightarrow> i64) \<Rightarrow> i64 \<Rightarrow> snapshot" where
  "adjust_snapshot s occupancy host credit_bytes host_credit =
     s\<lparr>ram_available := adjust_ram s host host_credit,
       gpus := map (adjust_gpu occupancy credit_bytes) (gpus s)\<rparr>"

section \<open>The reservation of a placement\<close>

fun spread_reservation :: "gpu list \<Rightarrow> i64 \<Rightarrow> string list \<Rightarrow> i64 \<Rightarrow> device_bytes list" where
  "spread_reservation gs reserve [] remaining = []"
| "spread_reservation gs reserve (d # ds) remaining =
     (let usable = usable_vram (gpu_or_zero gs d) reserve;
          take1 = (if remaining < usable then remaining else usable);
          take2 = (if take1 < 0 then 0 else take1);
          take3 = (if ds = [] \<and> take2 < remaining then remaining else take2);
          rest = wrap64 (remaining - take3)
      in \<lparr>device = d, amount = take3\<rparr>
         # spread_reservation gs reserve ds (if rest < 0 then 0 else rest))"

definition reservations_for :: "placement \<Rightarrow> snapshot \<Rightarrow> placement_request \<Rightarrow> device_bytes list" where
  "reservations_for p s req =
     (if pl_devices p = [] then []
      else if pl_demand p \<noteq> [] then
        filter (\<lambda>x. \<not> (trim_space (device x) = [] \<or> amount x < 0)) (pl_demand p)
      else
        let required = (if pr_required req < 0 then 0 else pr_required req)
        in case pl_devices p of
             [d] \<Rightarrow> [\<lparr>device = d, amount = required\<rparr>]
           | ds \<Rightarrow> spread_reservation (gpus s) (effective_reserve (pr_reserve req)) ds required)"

section \<open>Operations\<close>

definition default_lease_ttl :: i64 where
  "default_lease_ttl = 180 * 1000000000"

definition new_ledger :: "i64 \<Rightarrow> ledger" where
  "new_ledger ttl = \<lparr>lg_ttl = (if ttl \<le> 0 then default_lease_ttl else ttl), lg_leases = [],
     lg_by_owner = Map.empty, lg_claimed = Map.empty\<rparr>"

text \<open>
  The capacity an owner sees: the snapshot minus the other leases, plus its credits. \<open>Acquire\<close>,
  \<open>AcquireRuntime\<close> and the planning snapshots share these three calls.
\<close>

definition schedulable ::
    "ledger \<Rightarrow> string \<Rightarrow> string \<Rightarrow> credit list \<Rightarrow> snapshot \<Rightarrow> snapshot \<times> string list" where
  "schedulable l owner_key requester credits s =
     (let uc = usable_credits_locked l requester credits no_credits;
          (devs, host) = occupancy_locked l owner_key (uc_usable uc)
      in (adjust_snapshot s devs host (uc_bytes uc) (uc_host uc), uc_usable uc))"

text \<open>Recording a granted lease: the three maps.\<close>

definition record_lease :: "ledger \<Rightarrow> resource_lease \<Rightarrow> string list \<Rightarrow> ledger" where
  "record_lease l lease victims =
     l\<lparr>lg_leases := AList.update (ls_id lease) lease (lg_leases l),
       lg_by_owner := (lg_by_owner l)(resource_owner_key (ls_owner lease) \<mapsto> ls_id lease),
       lg_claimed := (\<lambda>v. if v \<in> set victims then Some (ls_id lease) else lg_claimed l v)\<rparr>"

text \<open>A lease with only some fields set, which a failed acquisition returns.\<close>

definition refused_lease :: "resource_owner \<Rightarrow> string \<Rightarrow> placement \<Rightarrow> resource_lease" where
  "refused_lease owner i p = \<lparr>ls_id = [], ls_owner = owner, ls_instance = i, ls_placement = p,
     ls_gpus = [], ls_host_ram = 0, ls_state = NoState, ls_expires = 0\<rparr>"

text \<open>The host RAM check of \<open>Acquire\<close> on the adjusted snapshot.\<close>

definition host_admits :: "snapshot \<Rightarrow> i64 \<Rightarrow> bool" where
  "host_admits s required \<longleftrightarrow>
     \<not> (0 < required \<and> (0 < ram_total s \<or> 0 < ram_available s) \<and> ram_available s < required)"

definition acquire_owner ::
    "ledger \<Rightarrow> i64 \<Rightarrow> string \<Rightarrow> resource_owner \<Rightarrow> acquire_request \<Rightarrow> ledger \<times> (ledger_error + resource_lease)" where
  "acquire_owner l0 now_expiry fresh owner req =
     (let key = resource_owner_key owner;
          l = release_owner_locked owner l0;
          is_instance = (ow_kind owner = owner_instance);
          (adjusted, victims) = schedulable l key (if is_instance then ow_id owner else [])
            (if is_instance then aq_credits req else []) (aq_snapshot req)
      in case plan_placement adjusted (aq_placement req) of
           Inl e \<Rightarrow> (l, Inl (PlanError e))
         | Inr p0 \<Rightarrow>
             let p = p0\<lparr>pl_fits := pl_fits p0 \<and> host_admits adjusted (aq_host_ram req)\<rparr>
             in if \<not> pl_fits p then (l, Inr (refused_lease owner [] p))
                else
                  let lease = \<lparr>ls_id = fresh, ls_owner = owner,
                        ls_instance = (if is_instance then ow_id owner else []), ls_placement = p,
                        ls_gpus = reservations_for p adjusted (aq_placement req),
                        ls_host_ram = aq_host_ram req, ls_state = Pending,
                        ls_expires = now_expiry + lg_ttl l\<rparr>
                  in (record_lease l lease victims, Inr lease))"

definition acquire ::
    "ledger \<Rightarrow> i64 \<Rightarrow> i64 \<Rightarrow> string \<Rightarrow> acquire_request \<Rightarrow> ledger \<times> (ledger_error + resource_lease)" where
  "acquire l0 now now_expiry fresh req =
     (let l = sweep_expired now l0
      in if trim_space (ow_kind (aq_owner req)) = [] \<and> trim_space (ow_id (aq_owner req)) = [] \<and>
            trim_space (aq_instance req) = []
         then (l, Inl InstanceIdRequired)
         else case normalize_owner (aq_owner req) (aq_instance req) of
           Inl e \<Rightarrow> (l, Inl e)
         | Inr owner \<Rightarrow> acquire_owner l now_expiry fresh owner req)"

text \<open>\<open>None\<close> when the planner does not return.\<close>

definition acquire_runtime ::
    "ledger \<Rightarrow> i64 \<Rightarrow> i64 \<Rightarrow> string \<Rightarrow> runtime_acquire_request \<Rightarrow>
     (ledger \<times> (ledger_error + resource_lease \<times> runtime_plan)) option" where
  "acquire_runtime l0 now now_expiry fresh req =
     (let l1 = sweep_expired now l0; i = trim_space (ra_instance req)
      in if i = [] then Some (l1, Inl InstanceIdRequired)
         else
           let owner = \<lparr>ow_kind = owner_instance, ow_id = i\<rparr>;
               l = release_owner_locked owner l1;
               (adjusted, victims) = schedulable l (resource_owner_key owner) i (ra_credits req) (ra_snapshot req)
           in case plan_runtime ((ra_plan req)\<lparr>rr_snapshot := adjusted\<rparr>) of
                None \<Rightarrow> None
              | Some (Inl e) \<Rightarrow> Some (l, Inl (PlanError e))
              | Some (Inr plan) \<Rightarrow>
                  if \<not> rp_fits plan then Some (l, Inr (refused_lease owner i (rp_placement plan), plan))
                  else
                    let request = (rr_placement (ra_plan req))\<lparr>pr_required := vram_bytes (rp_demand plan),
                          pr_host_ram := rd_host_ram (rp_demand plan)\<rparr>;
                        lease = \<lparr>ls_id = fresh, ls_owner = owner, ls_instance = i,
                          ls_placement = rp_placement plan,
                          ls_gpus = reservations_for (rp_placement plan) adjusted request,
                          ls_host_ram = rd_host_ram (rp_demand plan), ls_state = Pending,
                          ls_expires = now_expiry + lg_ttl l\<rparr>
                    in Some (record_lease l lease victims, Inr (lease, plan)))"

definition commit_lease :: "string \<Rightarrow> resource_lease \<Rightarrow> ledger \<Rightarrow> ledger" where
  "commit_lease k lease l =
     l\<lparr>lg_leases := AList.update k (lease\<lparr>ls_state := Committed, ls_expires := 0\<rparr>) (lg_leases l)\<rparr>"

text \<open>The error, or \<open>None\<close> for \<open>nil\<close>.\<close>

definition commit :: "string \<Rightarrow> ledger \<Rightarrow> ledger \<times> ledger_error option" where
  "commit k l =
     (case map_of (lg_leases l) k of
        None \<Rightarrow> (l, Some UnknownLease)
      | Some lease \<Rightarrow>
          if ls_state lease \<noteq> Pending then (l, Some LeaseNotPending) else (commit_lease k lease l, None))"

definition commit_owner :: "resource_owner \<Rightarrow> ledger \<Rightarrow> ledger \<times> ledger_error option" where
  "commit_owner owner0 l =
     (case normalize_owner owner0 [] of
        Inl e \<Rightarrow> (l, Some e)
      | Inr owner \<Rightarrow>
          let k = lookup_string (lg_by_owner l) (resource_owner_key owner)
          in if k = [] then (l, None)
             else case map_of (lg_leases l) k of
               None \<Rightarrow> (l, None)
             | Some lease \<Rightarrow>
                 if ls_state lease \<noteq> Pending then (l, Some LeaseNotPending)
                 else (commit_lease k lease l, None))"

definition commit_instance :: "string \<Rightarrow> ledger \<Rightarrow> ledger \<times> ledger_error option" where
  "commit_instance i l =
     (if trim_space i = [] then (l, None)
      else commit_owner \<lparr>ow_kind = owner_instance, ow_id = i\<rparr> l)"

definition release_owner :: "resource_owner \<Rightarrow> ledger \<Rightarrow> ledger" where
  "release_owner owner0 l =
     (case normalize_owner owner0 [] of Inl e \<Rightarrow> l | Inr owner \<Rightarrow> release_owner_locked owner l)"

definition release_instance :: "string \<Rightarrow> ledger \<Rightarrow> ledger" where
  "release_instance i l =
     (if trim_space i = [] then l else release_owner \<lparr>ow_kind = owner_instance, ow_id = i\<rparr> l)"

definition get_lease :: "i64 \<Rightarrow> string \<Rightarrow> ledger \<Rightarrow> ledger \<times> resource_lease option" where
  "get_lease now k l0 = (let l = sweep_expired now l0 in (l, map_of (lg_leases l) k))"

definition get_by_owner :: "i64 \<Rightarrow> resource_owner \<Rightarrow> ledger \<Rightarrow> ledger \<times> resource_lease option" where
  "get_by_owner now owner0 l0 =
     (case normalize_owner owner0 [] of
        Inl e \<Rightarrow> (l0, None)
      | Inr owner \<Rightarrow>
          let l = sweep_expired now l0;
              k = lookup_string (lg_by_owner l) (resource_owner_key owner)
          in (l, if k = [] then None else map_of (lg_leases l) k))"

definition get_by_instance :: "i64 \<Rightarrow> string \<Rightarrow> ledger \<Rightarrow> ledger \<times> resource_lease option" where
  "get_by_instance now i l =
     (if trim_space i = [] then (l, None)
      else get_by_owner now \<lparr>ow_kind = owner_instance, ow_id = i\<rparr> l)"

definition planning_snapshot_with_credits ::
    "i64 \<Rightarrow> snapshot \<Rightarrow> resource_owner \<Rightarrow> credit list \<Rightarrow> ledger \<Rightarrow> ledger \<times> snapshot" where
  "planning_snapshot_with_credits now s owner0 credits l0 =
     (let l = sweep_expired now l0;
          (key, requester, cs) =
            (case normalize_owner owner0 [] of
               Inl e \<Rightarrow> ([], [], [])
             | Inr owner \<Rightarrow>
                 if ow_kind owner = owner_instance then (resource_owner_key owner, ow_id owner, credits)
                 else (resource_owner_key owner, [], []))
      in (l, fst (schedulable l key requester cs s)))"

definition planning_snapshot :: "i64 \<Rightarrow> snapshot \<Rightarrow> resource_owner \<Rightarrow> ledger \<Rightarrow> ledger \<times> snapshot" where
  "planning_snapshot now s owner l = planning_snapshot_with_credits now s owner [] l"

text \<open>\<open>Pending\<close> and \<open>All\<close>, up to the order of the map.\<close>

definition pending_leases :: "i64 \<Rightarrow> ledger \<Rightarrow> ledger \<times> resource_lease list" where
  "pending_leases now l0 =
     (let l = sweep_expired now l0
      in (l, filter (\<lambda>lease. ls_state lease = Pending) (map snd (lg_leases l))))"

definition all_leases :: "i64 \<Rightarrow> ledger \<Rightarrow> ledger \<times> resource_lease list" where
  "all_leases now l0 = (let l = sweep_expired now l0 in (l, map snd (lg_leases l)))"

section \<open>Owners and their keys\<close>

definition valid_owner :: "resource_owner \<Rightarrow> bool" where
  "valid_owner owner \<longleftrightarrow>
     (ow_kind owner = owner_instance \<or> ow_kind owner = owner_benchmark) \<and> ow_id owner \<noteq> []"

lemma normalize_owner_valid: "normalize_owner o0 legacy = Inr owner \<Longrightarrow> valid_owner owner"
  by (auto simp: normalize_owner_def valid_owner_def Let_def split: if_splits)

text \<open>The NUL byte keeps the key injective: no kind contains it.\<close>

lemma owner_key_inj:
  assumes "valid_owner a" and "valid_owner b" and "resource_owner_key a = resource_owner_key b"
  shows "a = b"
proof -
  have "ow_kind a = ow_kind b \<and> ow_id a = ow_id b"
    using assms by (auto simp: valid_owner_def resource_owner_key_def owner_instance_def owner_benchmark_def)
  then show ?thesis by simp
qed

lemma owner_key_nonempty [simp]: "resource_owner_key owner \<noteq> []"
  by (simp add: resource_owner_key_def)

section \<open>The invariant\<close>

abbreviation leases_of :: "ledger \<Rightarrow> string \<rightharpoonup> resource_lease" where
  "leases_of l \<equiv> map_of (lg_leases l)"

text \<open>What holds of one stored lease: its id is its key, its owner is normalized and indexed.\<close>

definition lease_ok :: "ledger \<Rightarrow> string \<Rightarrow> resource_lease \<Rightarrow> bool" where
  "lease_ok l k x \<longleftrightarrow>
     k \<noteq> [] \<and> ls_id x = k \<and> valid_owner (ls_owner x) \<and>
     ls_instance x = (if ow_kind (ls_owner x) = owner_instance then ow_id (ls_owner x) else []) \<and>
     lg_by_owner l (resource_owner_key (ls_owner x)) = Some k \<and>
     (ls_state x = Pending \<or> ls_state x = Committed \<and> ls_expires x = 0) \<and>
     (\<forall>g \<in> set (ls_gpus x). 0 \<le> amount g)"

definition ledger_inv :: "ledger \<Rightarrow> bool" where
  "ledger_inv l \<longleftrightarrow>
     distinct (map fst (lg_leases l)) \<and>
     (\<forall>k x. leases_of l k = Some x \<longrightarrow> lease_ok l k x) \<and>
     (\<forall>key k. lg_by_owner l key = Some k \<longrightarrow>
        (\<exists>x. leases_of l k = Some x \<and> resource_owner_key (ls_owner x) = key)) \<and>
     (\<forall>v k. lg_claimed l v = Some k \<longrightarrow> leases_of l k \<noteq> None)"

text \<open>The abstract state: the lease of each owner key.\<close>

definition lease_at :: "ledger \<Rightarrow> string \<Rightarrow> resource_lease option" where
  "lease_at l key = (case lg_by_owner l key of None \<Rightarrow> None | Some k \<Rightarrow> leases_of l k)"

lemma lease_at_iff:
  assumes "ledger_inv l"
  shows "lease_at l key = Some x \<longleftrightarrow>
    (\<exists>k. leases_of l k = Some x \<and> resource_owner_key (ls_owner x) = key)"
proof
  assume "lease_at l key = Some x"
  then obtain k where k: "lg_by_owner l key = Some k" "leases_of l k = Some x"
    by (auto simp: lease_at_def split: option.splits)
  then show "\<exists>k. leases_of l k = Some x \<and> resource_owner_key (ls_owner x) = key"
    using assms unfolding ledger_inv_def by (metis option.inject)
next
  assume "\<exists>k. leases_of l k = Some x \<and> resource_owner_key (ls_owner x) = key"
  then obtain k where k: "leases_of l k = Some x" "resource_owner_key (ls_owner x) = key" by blast
  then have "lg_by_owner l key = Some k"
    using assms unfolding ledger_inv_def lease_ok_def by blast
  then show "lease_at l key = Some x" using k by (simp add: lease_at_def)
qed

lemma ledger_invD:
  assumes "ledger_inv l" and "leases_of l k = Some x"
  shows "lease_ok l k x" and "lookup_string (lg_by_owner l) (resource_owner_key (ls_owner x)) = k"
  using assms by (auto simp: ledger_inv_def lease_ok_def lookup_string_def)

lemma lookup_owner:
  assumes "ledger_inv l"
  shows "lookup_string (lg_by_owner l) key \<noteq> [] \<longleftrightarrow> lease_at l key \<noteq> None"
    and "lookup_string (lg_by_owner l) key \<noteq> [] \<Longrightarrow> leases_of l (lookup_string (lg_by_owner l) key) = lease_at l key"
  using assms unfolding ledger_inv_def lease_ok_def lookup_string_def lease_at_def
  by (force split: option.splits)+

lemma ledger_inv_claimed: "ledger_inv l \<Longrightarrow> lg_claimed l v = Some k \<Longrightarrow> leases_of l k \<noteq> None"
  unfolding ledger_inv_def by blast

lemma new_ledger_inv: "ledger_inv (new_ledger ttl)"
  by (simp add: ledger_inv_def new_ledger_def)

section \<open>Release\<close>

text \<open>Under the invariant a release does exactly this.\<close>

lemma release_locked_eq:
  assumes "ledger_inv l" and "leases_of l k = Some x"
  shows "release_locked k l = l\<lparr>lg_leases := AList.delete k (lg_leases l),
    lg_by_owner := (lg_by_owner l)(resource_owner_key (ls_owner x) := None),
    lg_claimed := (\<lambda>v. if lg_claimed l v = Some k then None else lg_claimed l v)\<rparr>"
  using assms ledger_invD(2) [OF assms] by (simp add: release_locked_def Let_def)

lemma release_locked_none: "leases_of l k = None \<Longrightarrow> release_locked k l = l"
  by (simp add: release_locked_def)

lemma release_leases [simp]: "leases_of (release_locked k l) = (leases_of l)(k := None)"
  by (cases "leases_of l k") (auto simp: release_locked_def Let_def delete_conv fun_upd_idem)

lemma release_inv: "ledger_inv l \<Longrightarrow> ledger_inv (release_locked k l)"
proof (cases "leases_of l k")
  case None
  then show "ledger_inv l \<Longrightarrow> ?thesis" by (simp add: release_locked_none)
next
  case (Some x)
  assume inv: "ledger_inv l"
  let ?l = "release_locked k l"
  note eq = release_locked_eq [OF inv Some]
  have other: "resource_owner_key (ls_owner y) \<noteq> resource_owner_key (ls_owner x)"
    if "leases_of l k' = Some y" "k' \<noteq> k" for k' y
    using that Some ledger_invD(1) [OF inv] unfolding lease_ok_def by (metis option.inject)
  have "distinct (map fst (lg_leases ?l))"
    using inv by (simp add: eq ledger_inv_def distinct_delete)
  moreover have "lease_ok ?l k' y" if "leases_of ?l k' = Some y" for k' y
  proof -
    have y: "k' \<noteq> k" "leases_of l k' = Some y" using that by (auto split: if_splits)
    then show ?thesis using ledger_invD(1) [OF inv y(2)] other [OF y(2,1)] by (simp add: lease_ok_def eq)
  qed
  moreover have "\<exists>y. leases_of ?l k' = Some y \<and> resource_owner_key (ls_owner y) = key"
    if "lg_by_owner ?l key = Some k'" for key k'
  proof -
    have b: "lg_by_owner l key = Some k'" "key \<noteq> resource_owner_key (ls_owner x)"
      using that by (auto simp: eq split: if_splits)
    then obtain y where "leases_of l k' = Some y" "resource_owner_key (ls_owner y) = key"
      using inv unfolding ledger_inv_def by blast
    then show ?thesis using b Some by auto
  qed
  moreover have "leases_of ?l k' \<noteq> None" if "lg_claimed ?l v = Some k'" for v k'
    using that inv by (auto simp: eq ledger_inv_def delete_conv split: if_splits)
  ultimately show ?thesis unfolding ledger_inv_def by blast
qed

lemma lease_at_release:
  assumes "ledger_inv l" and "leases_of l k = Some x"
  shows "lease_at (release_locked k l) = (lease_at l)(resource_owner_key (ls_owner x) := None)"
proof
  fix key
  note inv' = release_inv [OF assms(1), of k]
  have x: "lg_by_owner l (resource_owner_key (ls_owner x)) = Some k"
    using ledger_invD(1) [OF assms] by (simp add: lease_ok_def)
  show "lease_at (release_locked k l) key = ((lease_at l)(resource_owner_key (ls_owner x) := None)) key"
  proof (cases "key = resource_owner_key (ls_owner x)")
    case True
    then show ?thesis by (simp add: lease_at_def release_locked_eq [OF assms])
  next
    case False
    have "k' \<noteq> k" if "lg_by_owner l key = Some k'" for k'
      using that False assms unfolding ledger_inv_def by (metis option.inject)
    then show ?thesis
      using False by (auto simp: lease_at_def release_locked_eq [OF assms] delete_conv split: option.split)
  qed
qed

lemma release_owner_inv: "ledger_inv l \<Longrightarrow> ledger_inv (release_owner_locked owner l)"
  by (simp add: release_owner_locked_def Let_def release_inv)

lemma lease_at_release_owner:
  assumes "ledger_inv l"
  shows "lease_at (release_owner_locked owner l) = (lease_at l)(resource_owner_key owner := None)"
proof (cases "lease_at l (resource_owner_key owner)")
  case None
  then have "lookup_string (lg_by_owner l) (resource_owner_key owner) = []"
    using lookup_owner(1) [OF assms] by blast
  then show ?thesis using None by (simp add: release_owner_locked_def fun_upd_idem)
next
  case (Some x)
  let ?k = "lookup_string (lg_by_owner l) (resource_owner_key owner)"
  have k: "?k \<noteq> []" using lookup_owner(1) [OF assms, of "resource_owner_key owner"] Some by auto
  then have "leases_of l ?k = Some x"
    using lookup_owner(2) [OF assms, of "resource_owner_key owner"] Some by simp
  moreover have "resource_owner_key (ls_owner x) = resource_owner_key owner"
    using Some lease_at_iff [OF assms] by blast
  ultimately show ?thesis using k lease_at_release [OF assms] by (simp add: release_owner_locked_def)
qed

section \<open>Expiry\<close>

definition sweep_one :: "i64 \<Rightarrow> string \<times> resource_lease \<Rightarrow> ledger \<Rightarrow> ledger" where
  "sweep_one now e l = (if lease_expired now (snd e) then release_locked (fst e) l else l)"

lemma sweep_expired_fold: "sweep_expired now l = fold (sweep_one now) (lg_leases l) l"
proof -
  have "(\<lambda>(k, lease) l. if lease_expired now lease then release_locked k l else l) = sweep_one now"
    by (simp add: fun_eq_iff sweep_one_def)
  then show ?thesis by (simp add: sweep_expired_def)
qed

lemma sweep_fold:
  assumes "ledger_inv l" and "distinct (map fst xs)" and "\<forall>(k, x) \<in> set xs. leases_of l k = Some x"
  shows "ledger_inv (fold (sweep_one now) xs l) \<and>
    (\<forall>k. leases_of (fold (sweep_one now) xs l) k =
      (if \<exists>x. (k, x) \<in> set xs \<and> lease_expired now x then None else leases_of l k)) \<and>
    (\<forall>v k. lg_claimed (fold (sweep_one now) xs l) v = Some k \<longrightarrow> lg_claimed l v = Some k) \<and>
    lg_ttl (fold (sweep_one now) xs l) = lg_ttl l"
  using assms
proof (induction xs arbitrary: l)
  case Nil
  then show ?case by simp
next
  case (Cons e xs)
  obtain k0 x0 where e: "e = (k0, x0)" by (cases e)
  let ?l = "sweep_one now e l"
  have inv: "ledger_inv ?l" using Cons.prems(1) by (simp add: sweep_one_def release_inv)
  have lo: "leases_of ?l k = (if k = k0 \<and> lease_expired now x0 then None else leases_of l k)" for k
    by (simp add: sweep_one_def e)
  have cl: "lg_claimed ?l v = Some k \<Longrightarrow> lg_claimed l v = Some k" for v k
    by (auto simp: sweep_one_def release_locked_def Let_def split: if_splits option.splits)
  have ttl: "lg_ttl ?l = lg_ttl l"
    by (simp add: sweep_one_def release_locked_def Let_def split: option.split)
  have "distinct (map fst xs)" "k0 \<notin> fst ` set xs" using Cons.prems(2) by (simp_all add: e)
  moreover have "\<forall>(k, x) \<in> set xs. leases_of ?l k = Some x"
    using Cons.prems(3) \<open>k0 \<notin> fst ` set xs\<close> unfolding lo by force
  ultimately show ?case
    using Cons.IH [OF inv] lo cl ttl by (auto simp: e)
qed

lemma sweep_inv: "ledger_inv l \<Longrightarrow> ledger_inv (sweep_expired now l)"
  and sweep_leases: "ledger_inv l \<Longrightarrow> leases_of (sweep_expired now l) k =
    (case leases_of l k of None \<Rightarrow> None | Some x \<Rightarrow> if lease_expired now x then None else Some x)"
  and sweep_claimed: "ledger_inv l \<Longrightarrow> lg_claimed (sweep_expired now l) v = Some k \<Longrightarrow> lg_claimed l v = Some k"
  and sweep_ttl: "ledger_inv l \<Longrightarrow> lg_ttl (sweep_expired now l) = lg_ttl l"
proof -
  assume inv: "ledger_inv l"
  have d: "distinct (map fst (lg_leases l))" using inv by (simp add: ledger_inv_def)
  have m: "\<forall>(k, x) \<in> set (lg_leases l). leases_of l k = Some x" using d by auto
  note f = sweep_fold [OF inv d m, of now, folded sweep_expired_fold]
  show "ledger_inv (sweep_expired now l)" "lg_ttl (sweep_expired now l) = lg_ttl l" using f by blast+
  show "leases_of (sweep_expired now l) k =
    (case leases_of l k of None \<Rightarrow> None | Some x \<Rightarrow> if lease_expired now x then None else Some x)"
  proof -
    have "(\<exists>x. (k, x) \<in> set (lg_leases l) \<and> lease_expired now x) \<longleftrightarrow>
        (\<exists>x. leases_of l k = Some x \<and> lease_expired now x)"
      using d by simp
    then show ?thesis using f by (auto split: option.split)
  qed
  show "lg_claimed (sweep_expired now l) v = Some k \<Longrightarrow> lg_claimed l v = Some k" using f by blast
qed

lemma lease_at_sweep:
  assumes "ledger_inv l"
  shows "lease_at (sweep_expired now l) key =
    (case lease_at l key of None \<Rightarrow> None | Some x \<Rightarrow> if lease_expired now x then None else Some x)"
proof -
  have "lease_at (sweep_expired now l) key = Some x \<longleftrightarrow> lease_at l key = Some x \<and> \<not> lease_expired now x" for x
    unfolding lease_at_iff [OF sweep_inv [OF assms]] lease_at_iff [OF assms]
    using sweep_leases [OF assms] by (auto split: option.splits if_splits)
  then show ?thesis by (intro option_eqI_Some) (auto split: option.split)
qed

section \<open>Recording and committing a lease\<close>

lemma record_sel [simp]:
  "leases_of (record_lease l x vs) = (leases_of l)(ls_id x \<mapsto> x)"
  "lg_by_owner (record_lease l x vs) = (lg_by_owner l)(resource_owner_key (ls_owner x) \<mapsto> ls_id x)"
  "lg_claimed (record_lease l x vs) v = (if v \<in> set vs then Some (ls_id x) else lg_claimed l v)"
  "distinct (map fst (lg_leases l)) \<Longrightarrow> distinct (map fst (lg_leases (record_lease l x vs)))"
  by (simp_all add: record_lease_def update_conv' distinct_update)

lemma commit_sel [simp]:
  "leases_of (commit_lease k x l) = (leases_of l)(k \<mapsto> x\<lparr>ls_state := Committed, ls_expires := 0\<rparr>)"
  "lg_by_owner (commit_lease k x l) = lg_by_owner l" "lg_claimed (commit_lease k x l) = lg_claimed l"
  "distinct (map fst (lg_leases l)) \<Longrightarrow> distinct (map fst (lg_leases (commit_lease k x l)))"
  by (simp_all add: commit_lease_def update_conv' distinct_update)

lemma record_inv:
  assumes "ledger_inv l" and "leases_of l (ls_id x) = None" and "lease_at l (resource_owner_key (ls_owner x)) = None"
    and "lease_ok (record_lease l x vs) (ls_id x) x"
  shows "ledger_inv (record_lease l x vs)"
proof -
  let ?l = "record_lease l x vs"
  have new: "resource_owner_key (ls_owner y) \<noteq> resource_owner_key (ls_owner x)" if "leases_of l k = Some y" for k y
    using that assms(3) lease_at_iff [OF assms(1)] by (metis option.distinct(1))
  have "distinct (map fst (lg_leases ?l))"
    using assms(1) by (intro record_sel) (simp add: ledger_inv_def)
  moreover have "lease_ok ?l k y" if y: "leases_of ?l k = Some y" for k y
  proof (cases "k = ls_id x")
    case True
    then show ?thesis using y assms(4) by simp
  next
    case False
    then have "leases_of l k = Some y" using y by simp
    then show ?thesis using ledger_invD(1) [OF assms(1)] new by (auto simp: lease_ok_def)
  qed
  moreover have "\<exists>y. leases_of ?l k = Some y \<and> resource_owner_key (ls_owner y) = key"
    if k: "lg_by_owner ?l key = Some k" for key k
  proof (cases "key = resource_owner_key (ls_owner x)")
    case True
    then show ?thesis using k by auto
  next
    case False
    then have "lg_by_owner l key = Some k" using k by simp
    then obtain y where "leases_of l k = Some y" "resource_owner_key (ls_owner y) = key"
      using assms(1) unfolding ledger_inv_def by blast
    then show ?thesis using assms(2) by (intro exI [of _ y]) auto
  qed
  moreover have "leases_of ?l k \<noteq> None" if "lg_claimed ?l v = Some k" for v k
    using that ledger_inv_claimed [OF assms(1), of v k]
    by (cases "v \<in> set vs") auto
  ultimately show ?thesis unfolding ledger_inv_def by blast
qed

lemma lease_at_record:
  assumes "ledger_inv l" and "leases_of l (ls_id x) = None"
  shows "lease_at (record_lease l x vs) = (lease_at l)(resource_owner_key (ls_owner x) \<mapsto> x)"
proof
  fix key
  have "k \<noteq> ls_id x" if "lg_by_owner l key = Some k" for k
    using that assms unfolding ledger_inv_def by (metis option.distinct(1))
  then show "lease_at (record_lease l x vs) key = ((lease_at l)(resource_owner_key (ls_owner x) \<mapsto> x)) key"
    by (auto simp: lease_at_def split: option.split)
qed

lemma commit_lease_inv:
  assumes "ledger_inv l" and "leases_of l k = Some x"
  shows "ledger_inv (commit_lease k x l)"
    and "lease_at (commit_lease k x l) =
      (lease_at l)(resource_owner_key (ls_owner x) \<mapsto> x\<lparr>ls_state := Committed, ls_expires := 0\<rparr>)"
proof -
  let ?l = "commit_lease k x l" and ?x = "x\<lparr>ls_state := Committed, ls_expires := 0\<rparr>"
  have "distinct (map fst (lg_leases ?l))"
    using assms(1) by (intro commit_sel) (simp add: ledger_inv_def)
  moreover have "lease_ok ?l k' y" if "leases_of ?l k' = Some y" for k' y
    using that ledger_invD(1) [OF assms(1)] assms(2) by (auto simp: lease_ok_def split: if_splits)
  moreover have "\<exists>y. leases_of ?l k' = Some y \<and> resource_owner_key (ls_owner y) = key"
    if k': "lg_by_owner ?l key = Some k'" for key k'
  proof -
    obtain y where "leases_of l k' = Some y" "resource_owner_key (ls_owner y) = key"
      using k' assms(1) unfolding commit_sel ledger_inv_def by blast
    then show ?thesis using assms(2) by (cases "k' = k") auto
  qed
  moreover have "leases_of ?l k' \<noteq> None" if "lg_claimed ?l v = Some k'" for v k'
    using that ledger_inv_claimed [OF assms(1), of v k'] by auto
  ultimately show inv: "ledger_inv ?l" unfolding ledger_inv_def by blast
  have k: "lg_by_owner l (resource_owner_key (ls_owner x)) = Some k"
    using ledger_invD(1) [OF assms] by (simp add: lease_ok_def)
  show "lease_at ?l = (lease_at l)(resource_owner_key (ls_owner x) \<mapsto> ?x)"
  proof
    fix key
    have "k' \<noteq> k" if "lg_by_owner l key = Some k'" "key \<noteq> resource_owner_key (ls_owner x)" for k'
      using that assms unfolding ledger_inv_def by (metis option.inject)
    then show "lease_at ?l key = ((lease_at l)(resource_owner_key (ls_owner x) \<mapsto> ?x)) key"
      using k by (auto simp: lease_at_def split: option.split)
  qed
qed

section \<open>Acquisition keeps the invariant\<close>

lemma spread_reservation_nonneg: "x \<in> set (spread_reservation gs r ds rem) \<Longrightarrow> 0 \<le> amount x"
  by (induction gs r ds rem rule: spread_reservation.induct) (auto simp: Let_def split: if_splits)

lemma reservations_nonneg: "x \<in> set (reservations_for p s req) \<Longrightarrow> 0 \<le> amount x"
  by (auto simp: reservations_for_def Let_def dest: spread_reservation_nonneg split: if_splits list.splits)

definition fresh_id :: "string \<Rightarrow> ledger \<Rightarrow> bool" where
  "fresh_id k l \<longleftrightarrow> k \<noteq> [] \<and> leases_of l k = None"

lemma fresh_sweep: "ledger_inv l \<Longrightarrow> fresh_id k l \<Longrightarrow> fresh_id k (sweep_expired now l)"
  by (simp add: fresh_id_def sweep_leases)

lemma fresh_release_owner: "fresh_id k l \<Longrightarrow> fresh_id k (release_owner_locked owner l)"
  by (simp add: fresh_id_def release_owner_locked_def Let_def)

text \<open>A pending lease of an owner under a new id, recorded after the owner's old one is gone.\<close>

definition new_lease :: "resource_owner \<Rightarrow> string \<Rightarrow> resource_lease \<Rightarrow> bool" where
  "new_lease owner k x \<longleftrightarrow>
     ls_id x = k \<and> ls_owner x = owner \<and> ls_state x = Pending \<and>
     ls_instance x = (if ow_kind owner = owner_instance then ow_id owner else []) \<and>
     (\<forall>g \<in> set (ls_gpus x). 0 \<le> amount g)"

lemma grant_inv:
  assumes "ledger_inv l" and "fresh_id k l" and "valid_owner owner" and "new_lease owner k x"
  shows "ledger_inv (record_lease (release_owner_locked owner l) x vs)"
    and "lease_at (record_lease (release_owner_locked owner l) x vs) =
      (lease_at l)(resource_owner_key owner \<mapsto> x)"
proof -
  let ?l = "release_owner_locked owner l"
  have inv: "ledger_inv ?l" using assms(1) by (rule release_owner_inv)
  have f: "leases_of ?l (ls_id x) = None" "k \<noteq> []"
    using fresh_release_owner [OF assms(2), of owner] assms(4) by (auto simp: fresh_id_def new_lease_def)
  have at: "lease_at ?l (resource_owner_key (ls_owner x)) = None"
    using assms(4) by (simp add: lease_at_release_owner [OF assms(1)] new_lease_def)
  have ok: "lease_ok (record_lease ?l x vs) (ls_id x) x"
    using assms(3,4) f(2) by (simp add: lease_ok_def new_lease_def)
  show "ledger_inv (record_lease ?l x vs)" by (rule record_inv [OF inv f(1) at ok])
  show "lease_at (record_lease ?l x vs) = (lease_at l)(resource_owner_key owner \<mapsto> x)"
    using assms(4) by (simp add: lease_at_record [OF inv f(1)] lease_at_release_owner [OF assms(1)] new_lease_def)
qed

text \<open>The two outcomes of an acquisition that is not an error.\<close>

lemma acquire_owner_cases:
  assumes "acquire_owner l now fresh owner req = (l', res)"
  obtains (failed) "l' = release_owner_locked owner l" "\<And>x. res = Inr x \<Longrightarrow> \<not> pl_fits (ls_placement x)"
  | (granted) x vs where "l' = record_lease (release_owner_locked owner l) x vs" "res = Inr x"
      "new_lease owner fresh x" "pl_fits (ls_placement x)"
proof -
  let ?l = "release_owner_locked owner l" and ?i = "ow_kind owner = owner_instance"
  obtain adjusted vs where sched: "schedulable ?l (resource_owner_key owner) (if ?i then ow_id owner else [])
      (if ?i then aq_credits req else []) (aq_snapshot req) = (adjusted, vs)"
    by (cases "schedulable ?l (resource_owner_key owner) (if ?i then ow_id owner else [])
      (if ?i then aq_credits req else []) (aq_snapshot req)")
  show thesis
  proof (cases "plan_placement adjusted (aq_placement req)")
    case (Inl e)
    then show ?thesis using assms sched by (intro failed) (auto simp: acquire_owner_def Let_def)
  next
    case (Inr p0)
    define p where "p = p0\<lparr>pl_fits := pl_fits p0 \<and> host_admits adjusted (aq_host_ram req)\<rparr>"
    define x where "x = \<lparr>ls_id = fresh, ls_owner = owner, ls_instance = (if ?i then ow_id owner else []),
      ls_placement = p, ls_gpus = reservations_for p adjusted (aq_placement req),
      ls_host_ram = aq_host_ram req, ls_state = Pending, ls_expires = now + lg_ttl ?l\<rparr>"
    have eq: "(l', res) = (if \<not> pl_fits p then (?l, Inr (refused_lease owner [] p))
        else (record_lease ?l x vs, Inr x))"
      unfolding assms [symmetric] acquire_owner_def Let_def sched Inr sum.case prod.case p_def x_def by (rule refl)
    show ?thesis
    proof (cases "pl_fits p")
      case True
      then show ?thesis
        using eq by (intro granted [of x vs]) (auto simp: new_lease_def x_def dest: reservations_nonneg)
    next
      case False
      then show ?thesis using eq by (intro failed) (auto simp: refused_lease_def)
    qed
  qed
qed

lemma acquire_runtime_cases:
  assumes "acquire_runtime l0 now now' fresh req = Some (l', res)"
  obtains (no_owner) "l' = sweep_expired now l0" "res = Inl InstanceIdRequired"
  | (failed) owner where "valid_owner owner" "l' = release_owner_locked owner (sweep_expired now l0)"
      "\<And>x plan. res = Inr (x, plan) \<Longrightarrow> \<not> rp_fits plan"
  | (granted) owner x vs plan where "valid_owner owner" "res = Inr (x, plan)" "rp_fits plan" "new_lease owner fresh x"
      "l' = record_lease (release_owner_locked owner (sweep_expired now l0)) x vs"
proof (cases "trim_space (ra_instance req) = []")
  case True
  then show thesis using assms by (intro no_owner) (auto simp: acquire_runtime_def Let_def)
next
  case False
  define owner where "owner = \<lparr>ow_kind = owner_instance, ow_id = trim_space (ra_instance req)\<rparr>"
  have v: "valid_owner owner" using False by (simp add: owner_def valid_owner_def)
  let ?l = "release_owner_locked owner (sweep_expired now l0)"
  obtain adjusted vs where sched: "schedulable ?l (resource_owner_key owner) (trim_space (ra_instance req))
      (ra_credits req) (ra_snapshot req) = (adjusted, vs)"
    by (cases "schedulable ?l (resource_owner_key owner) (trim_space (ra_instance req))
      (ra_credits req) (ra_snapshot req)")
  obtain planned where plan: "plan_runtime ((ra_plan req)\<lparr>rr_snapshot := adjusted\<rparr>) = Some planned"
    using assms sched False
    by (auto simp: acquire_runtime_def Let_def owner_def [symmetric] split: option.splits)
  show thesis
  proof (cases planned)
    case (Inl e)
    then show ?thesis using assms sched plan False v
      by (intro failed [of owner]) (auto simp: acquire_runtime_def Let_def owner_def [symmetric])
  next
    case (Inr p)
    define x where "x = \<lparr>ls_id = fresh, ls_owner = owner, ls_instance = trim_space (ra_instance req),
      ls_placement = rp_placement p,
      ls_gpus = reservations_for (rp_placement p) adjusted
        ((rr_placement (ra_plan req))\<lparr>pr_required := vram_bytes (rp_demand p), pr_host_ram := rd_host_ram (rp_demand p)\<rparr>),
      ls_host_ram = rd_host_ram (rp_demand p), ls_state = Pending, ls_expires = now' + lg_ttl ?l\<rparr>"
    have eq: "(l', res) = (if \<not> rp_fits p
        then (?l, Inr (refused_lease owner (trim_space (ra_instance req)) (rp_placement p), p))
        else (record_lease ?l x vs, Inr (x, p)))"
    proof -
      have "acquire_runtime l0 now now' fresh req = Some (if \<not> rp_fits p
        then (?l, Inr (refused_lease owner (trim_space (ra_instance req)) (rp_placement p), p))
        else (record_lease ?l x vs, Inr (x, p)))"
        unfolding acquire_runtime_def Let_def owner_def [symmetric] sched prod.case plan option.case Inr sum.case x_def
        using False by simp
      then show ?thesis using assms by simp
    qed
    have "new_lease owner fresh x"
      by (auto simp: new_lease_def x_def owner_def dest: reservations_nonneg)
    then show ?thesis
      using eq v by (cases "rp_fits p") (auto intro: failed [of owner] granted [of owner x p vs])
  qed
qed

lemma acquire_owner_inv:
  assumes "ledger_inv l" and "fresh_id k l" and "valid_owner owner" and "acquire_owner l now k owner req = (l', res)"
  shows "ledger_inv l'"
  using assms(4)
proof (cases rule: acquire_owner_cases)
  case failed
  then show ?thesis using assms(1) by (simp add: release_owner_inv)
next
  case (granted x vs)
  then show ?thesis using grant_inv(1) [OF assms(1-3)] by simp
qed

lemma acquire_inv:
  assumes "ledger_inv l" and "fresh_id k l" and "acquire l now now' k req = (l', res)"
  shows "ledger_inv l'"
proof -
  note s = sweep_inv [OF assms(1), of now] fresh_sweep [OF assms(1,2), of now]
  show ?thesis
    using assms(3) s acquire_owner_inv [OF s normalize_owner_valid]
    by (auto simp: acquire_def Let_def split: if_splits sum.splits)
qed

lemma acquire_runtime_inv:
  assumes "ledger_inv l" and "fresh_id k l" and "acquire_runtime l now now' k req = Some (l', res)"
  shows "ledger_inv l'"
  using assms(3)
proof (cases rule: acquire_runtime_cases)
  case no_owner
  then show ?thesis using assms(1) by (simp add: sweep_inv)
next
  case (failed owner)
  then show ?thesis using assms(1) by (simp add: sweep_inv release_owner_inv)
next
  case (granted owner x vs plan)
  then show ?thesis
    using grant_inv(1) [OF sweep_inv [OF assms(1)] fresh_sweep [OF assms(1,2)]] by simp
qed

lemma commit_inv: "ledger_inv l \<Longrightarrow> ledger_inv (fst (commit k l))"
  by (auto simp: commit_def commit_lease_inv split: option.split)

lemma commit_owner_inv: "ledger_inv l \<Longrightarrow> ledger_inv (fst (commit_owner owner l))"
  by (auto simp: commit_owner_def Let_def commit_lease_inv split: option.split sum.split)

lemma commit_instance_inv: "ledger_inv l \<Longrightarrow> ledger_inv (fst (commit_instance i l))"
  by (simp add: commit_instance_def commit_owner_inv)

lemma release_owner_op_inv: "ledger_inv l \<Longrightarrow> ledger_inv (release_owner owner l)"
  by (simp add: release_owner_def release_owner_inv split: sum.split)

lemma release_instance_inv: "ledger_inv l \<Longrightarrow> ledger_inv (release_instance i l)"
  by (simp add: release_instance_def release_owner_op_inv)

section \<open>The ledger as a transition system\<close>

text \<open>
  One step is one call under the mutex. The reads (\<open>Get\<close>, \<open>GetByOwner\<close>, \<open>GetByInstance\<close>, the planning
  snapshots, \<open>Pending\<close>, \<open>All\<close>) change the ledger only by the sweep they begin with.
\<close>

inductive ledger_step :: "ledger \<Rightarrow> ledger \<Rightarrow> bool" where
  step_acquire: "fresh_id k l \<Longrightarrow> acquire l now now' k req = (l', res) \<Longrightarrow> ledger_step l l'"
| step_acquire_runtime:
    "fresh_id k l \<Longrightarrow> acquire_runtime l now now' k rreq = Some (l', rres) \<Longrightarrow> ledger_step l l'"
| step_commit: "ledger_step l (fst (commit k l))"
| step_commit_owner: "ledger_step l (fst (commit_owner owner l))"
| step_commit_instance: "ledger_step l (fst (commit_instance i l))"
| step_release: "ledger_step l (release_locked k l)"
| step_release_owner: "ledger_step l (release_owner owner l)"
| step_release_instance: "ledger_step l (release_instance i l)"
| step_sweep: "ledger_step l (sweep_expired now l)"

inductive ledger_reachable :: "ledger \<Rightarrow> bool" where
  reach_new: "ledger_reachable (new_ledger ttl)"
| reach_step: "ledger_reachable l \<Longrightarrow> ledger_step l l' \<Longrightarrow> ledger_reachable l'"

lemma reads_sweep:
  "fst (get_lease now k l) = sweep_expired now l"
  "fst (get_by_owner now owner l) \<in> {l, sweep_expired now l}"
  "fst (get_by_instance now i l) \<in> {l, sweep_expired now l}"
  "fst (planning_snapshot_with_credits now s owner cs l) = sweep_expired now l"
  "fst (pending_leases now l) = sweep_expired now l"
  "fst (all_leases now l) = sweep_expired now l"
  by (auto simp: get_lease_def get_by_owner_def get_by_instance_def planning_snapshot_with_credits_def
      pending_leases_def all_leases_def Let_def split: sum.split prod.split)

lemma ledger_step_inv: "ledger_step l l' \<Longrightarrow> ledger_inv l \<Longrightarrow> ledger_inv l'"
proof (induction rule: ledger_step.induct)
  case (step_acquire k l now now' req l' res)
  then show ?case using acquire_inv by blast
next
  case (step_acquire_runtime k l now now' rreq l' rres)
  then show ?case using acquire_runtime_inv by blast
qed (simp_all add: commit_inv commit_owner_inv commit_instance_inv release_inv release_owner_op_inv
    release_instance_inv sweep_inv)

lemma reachable_inv: "ledger_reachable l \<Longrightarrow> ledger_inv l"
  by (induction rule: ledger_reachable.induct) (auto simp: new_ledger_inv intro: ledger_step_inv)

section \<open>The lease store as an interface\<close>

text \<open>
  What the clients of the ledger rely on: a lease per owner, which only the operations on that
  owner change, and which expires unless it was committed.
\<close>

locale lease_store =
  fixes inv :: "'s \<Rightarrow> bool"
    and ok :: "'o \<Rightarrow> bool"
    and lookup :: "'s \<Rightarrow> 'o \<Rightarrow> 'x option"
    and dead :: "i64 \<Rightarrow> 'x \<Rightarrow> bool"
    and expire :: "i64 \<Rightarrow> 's \<Rightarrow> 's"
    and give_up :: "'o \<Rightarrow> 's \<Rightarrow> 's"
    and settle :: "'o \<Rightarrow> 's \<Rightarrow> 's"
    and settled :: "'x \<Rightarrow> 'x"
  assumes inv_expire: "inv s \<Longrightarrow> inv (expire t s)"
    and inv_give_up: "inv s \<Longrightarrow> inv (give_up p s)"
    and inv_settle: "inv s \<Longrightarrow> inv (settle p s)"
    and lookup_expire: "inv s \<Longrightarrow> lookup (expire t s) p =
      (case lookup s p of None \<Rightarrow> None | Some x \<Rightarrow> if dead t x then None else Some x)"
    and lookup_give_up: "inv s \<Longrightarrow> ok p \<Longrightarrow> ok q \<Longrightarrow>
      lookup (give_up p s) q = (if q = p then None else lookup s q)"
    and lookup_settle: "inv s \<Longrightarrow> ok p \<Longrightarrow> ok q \<Longrightarrow>
      lookup (settle p s) q = (if q = p then map_option settled (lookup s q) else lookup s q)"
    and settled_alive: "\<not> dead t (settled x)"
begin

lemma settled_survives:
  assumes "inv s" and "ok p" and "lookup s p = Some x"
  shows "lookup (expire t (settle p s)) p = Some (settled x)"
  using assms by (simp add: lookup_expire inv_settle lookup_settle settled_alive)

lemma others_unchanged:
  assumes "inv s" and "ok p" and "ok q" and "q \<noteq> p" and "lookup s q = Some x" and "\<not> dead t x"
  shows "lookup (expire t (give_up p s)) q = Some x" and "lookup (expire t (settle p s)) q = Some x"
  using assms by (simp_all add: lookup_expire inv_settle inv_give_up lookup_settle lookup_give_up)

lemma given_up: "inv s \<Longrightarrow> ok p \<Longrightarrow> lookup (expire t (give_up p s)) p = None"
  by (simp add: lookup_expire inv_give_up lookup_give_up)

lemma expiry_final:
  assumes "inv s" and "\<And>x. dead t x \<Longrightarrow> dead t' x"
  shows "lookup (expire t' (expire t s)) p = lookup (expire t' s) p"
  using assms by (simp add: lookup_expire inv_expire split: option.split)

end

text \<open>The ledger is such a store, with its normalized owners and its abstract state.\<close>

definition normal_owner :: "resource_owner \<Rightarrow> bool" where
  "normal_owner owner \<longleftrightarrow> normalize_owner owner [] = Inr owner"

lemma normal_owner_valid: "normal_owner owner \<Longrightarrow> valid_owner owner"
  unfolding normal_owner_def by (rule normalize_owner_valid)

definition committed :: "resource_lease \<Rightarrow> resource_lease" where
  "committed x = x\<lparr>ls_state := Committed, ls_expires := 0\<rparr>"

lemma commit_owner_lease_at:
  assumes "ledger_inv l" and "normal_owner owner"
  shows "lease_at (fst (commit_owner owner l)) key =
    (if key = resource_owner_key owner then map_option committed (lease_at l key) else lease_at l key)"
proof -
  let ?key = "resource_owner_key owner"
  let ?k = "lookup_string (lg_by_owner l) ?key"
  have n: "normalize_owner owner [] = Inr owner" using assms(2) by (simp add: normal_owner_def)
  show ?thesis
  proof (cases "lease_at l ?key")
    case None
    then have "?k = []" using lookup_owner(1) [OF assms(1)] by blast
    then show ?thesis using None by (simp add: commit_owner_def n)
  next
    case (Some x)
    then have k: "?k \<noteq> []" using lookup_owner(1) [OF assms(1), of ?key] by auto
    then have x: "leases_of l ?k = Some x" using lookup_owner(2) [OF assms(1) k] Some by simp
    have key: "resource_owner_key (ls_owner x) = ?key" using Some lease_at_iff [OF assms(1)] by blast
    show ?thesis
    proof (cases "ls_state x = Pending")
      case True
      then show ?thesis
        using k x Some key commit_lease_inv(2) [OF assms(1) x]
        by (simp add: commit_owner_def n committed_def)
    next
      case False
      then have "committed x = x"
        using ledger_invD(1) [OF assms(1) x] by (simp add: lease_ok_def committed_def)
      then show ?thesis using False k x Some by (auto simp: commit_owner_def n)
    qed
  qed
qed

interpretation ledger_store: lease_store ledger_inv normal_owner
  "\<lambda>l owner. lease_at l (resource_owner_key owner)" lease_expired sweep_expired release_owner_locked
  "\<lambda>owner l. fst (commit_owner owner l)" committed
proof
  show "lease_at (sweep_expired t s) (resource_owner_key p) =
      (case lease_at s (resource_owner_key p) of None \<Rightarrow> None | Some x \<Rightarrow> if lease_expired t x then None else Some x)"
    if "ledger_inv s" for s t p
    by (rule lease_at_sweep [OF that])
  show "lease_at (release_owner_locked p s) (resource_owner_key q) =
      (if q = p then None else lease_at s (resource_owner_key q))"
    if "ledger_inv s" "normal_owner p" "normal_owner q" for s p q
    using lease_at_release_owner [OF that(1), of p] owner_key_inj [OF normal_owner_valid normal_owner_valid] that
    by auto
  show "lease_at (fst (commit_owner p s)) (resource_owner_key q) =
      (if q = p then map_option committed (lease_at s (resource_owner_key q)) else lease_at s (resource_owner_key q))"
    if "ledger_inv s" "normal_owner p" "normal_owner q" for s p q
    using commit_owner_lease_at [OF that(1,2)] owner_key_inj [OF normal_owner_valid normal_owner_valid] that
    by auto
qed (simp_all add: sweep_inv release_owner_inv commit_owner_inv lease_expired_def committed_def)

end
