(* ===== verification/Capacity.thy ===== *)
theory Capacity
  imports Ledger
begin

text \<open>
  What the ledger guarantees of the hardware: a granted lease asks of no device more than the
  snapshot minus all other leases leaves above the reserve, so that the leases of a device never
  add up to more than its memory; and what it holds is what the placement asked for.
\<close>

section \<open>Reservations of a placement that fits\<close>

lemma gpu_or_zero_distinct: "distinct (map gpu_id gs) \<Longrightarrow> g \<in> set gs \<Longrightarrow> gpu_or_zero gs (gpu_id g) = g"
  by (simp add: gpu_or_zero_def gpu_by_id_distinct)

lemma effective_reserve_pos: "0 < effective_reserve r"
  by (simp add: effective_reserve_def default_vram_reserve_def)

lemma plan_auto_devices:
  assumes "pl_fits (plan_auto s req r)" and "0 \<le> pr_required req" and "usable_sum r (gpus s) < 2 ^ 63"
    and "distinct (map gpu_id (gpus s))"
  shows "\<exists>hs. pl_devices (plan_auto s req r) = map gpu_id hs \<and> pl_demand (plan_auto s req r) = [] \<and>
    hs \<noteq> [] \<and> set hs \<subseteq> set (gpus s) \<and> distinct (map gpu_id hs) \<and> pr_required req \<le> usable_sum r hs \<and>
    usable_sum r hs < 2 ^ 63"
proof (cases "find (\<lambda>g. pr_required req = 0 \<or> pr_required req \<le> usable_vram g r) (sorted_gpus_by_usable s r)")
  case (Some g)
  then have g: "g \<in> set (gpus s)" "pr_required req \<le> usable_vram g r"
    using set_sorted_gpus [of s r] by (auto simp: find_Some_iff dest: nth_mem)
  have "usable_vram g r \<le> usable_sum r (gpus s)" using g(1) by (intro member_le_sum_list) auto
  then show ?thesis
    using Some g assms(3) by (intro exI [of _ "[g]"]) (auto simp: plan_auto_def Let_def no_placement_def)
next
  case None
  obtain devs avail ws fits where sp:
    "spread_gpus r (pr_required req) (sorted_gpus_by_usable s r) [] 0 [] = (devs, avail, ws, fits)"
    by (metis prod_cases4)
  have total: "usable_sum r (sorted_gpus_by_usable s r) = usable_sum r (gpus s)"
    by (metis mset_map mset_sorted_gpus sum_mset_sum_list)
  have "0 + usable_sum r (sorted_gpus_by_usable s r) < 2 ^ 63" using assms(3) total by simp
  from spread_gpus_devices [OF order_refl this sp] obtain hs where hs:
    "devs = map gpu_id hs" "avail = usable_sum r hs" "subseq hs (sorted_gpus_by_usable s r)"
    "fits \<longrightarrow> hs \<noteq> [] \<and> pr_required req \<le> avail"
    by auto
  have fits: "fits" using assms(1) None sp by (simp add: plan_auto_def Let_def)
  have sub: "set hs \<subseteq> set (gpus s)" using set_subseq [OF hs(3)] by simp
  have "subseq (map gpu_id hs) (map gpu_id (sorted_gpus_by_usable s r))" using hs(3) by (rule subseq_map)
  moreover have "distinct (map gpu_id (sorted_gpus_by_usable s r))"
    using assms(4) by (simp add: sorted_gpus_by_usable_def)
  ultimately have d: "distinct (map gpu_id hs)" by (rule distinct_subseq)
  have "mset hs \<subseteq># mset (sorted_gpus_by_usable s r)" using hs(3) by (rule mset_subseq)
  then obtain M where "mset (sorted_gpus_by_usable s r) = mset hs + M" by (metis subset_mset.less_eqE)
  then have "usable_sum r (sorted_gpus_by_usable s r) = usable_sum r hs + (\<Sum>g \<in># M. usable_vram g r)"
    by (metis (no_types, lifting) image_mset_union mset_map sum_mset.union sum_mset_sum_list)
  moreover have "0 \<le> (\<Sum>g \<in># M. usable_vram g r)" by (induction M) auto
  ultimately have "usable_sum r hs < 2 ^ 63" using assms(3) total by simp
  then show ?thesis
    using None sp hs fits sub d
    by (intro exI [of _ hs]) (simp add: plan_auto_def Let_def no_placement_def)
qed

lemma spread_reservation_spec:
  assumes "hs \<noteq> []" and "\<forall>h \<in> set hs. gpu_or_zero gs (gpu_id h) = h"
    and "0 \<le> rem" and "rem \<le> usable_sum r hs" and "usable_sum r hs < 2 ^ 63"
  shows "map device (spread_reservation gs r (map gpu_id hs) rem) = map gpu_id hs \<and>
    (\<forall>x \<in> set (spread_reservation gs r (map gpu_id hs) rem).
       amount x \<le> usable_vram (gpu_or_zero gs (device x)) r) \<and>
    sum_list (map amount (spread_reservation gs r (map gpu_id hs) rem)) = rem"
  using assms
proof (induction hs arbitrary: rem)
  case Nil
  then show ?case by simp
next
  case (Cons h hs)
  let ?u = "usable_vram h r"
  have h: "gpu_or_zero gs (gpu_id h) = h" using Cons.prems(2) by simp
  show ?case
  proof (cases "hs = []")
    case True
    then show ?thesis using Cons.prems h by (auto simp: Let_def)
  next
    case False
    define t where "t = (if rem < ?u then rem else ?u)"
    have t: "0 \<le> t" "t \<le> ?u" "t \<le> rem" "rem - t \<le> usable_sum r hs"
      using Cons.prems(3,4) usable_sum_nonneg [of r hs] by (auto simp: t_def)
    have "usable_sum r hs < 2 ^ 63" 
    proof -
      have "0 \<le> ?u" by simp
      then show ?thesis using Cons.prems(5) unfolding list.map sum_list.Cons by linarith
    qed
    then have w: "wrap64 (rem - t) = rem - t"
      using t by (intro wrap64_nonneg) auto
    have IH: "map device (spread_reservation gs r (map gpu_id hs) (rem - t)) = map gpu_id hs \<and>
        (\<forall>x \<in> set (spread_reservation gs r (map gpu_id hs) (rem - t)).
           amount x \<le> usable_vram (gpu_or_zero gs (device x)) r) \<and>
        sum_list (map amount (spread_reservation gs r (map gpu_id hs) (rem - t))) = rem - t"
      using Cons.IH [OF False, of "rem - t"] Cons.prems(2) t \<open>usable_sum r hs < 2 ^ 63\<close> by simp
    have eq: "spread_reservation gs r (map gpu_id (h # hs)) rem =
        \<lparr>device = gpu_id h, amount = t\<rparr> # spread_reservation gs r (map gpu_id hs) (rem - t)"
      using False t w by (simp add: h Let_def flip: t_def)
    show ?thesis unfolding eq using IH h t by simp
  qed
qed

lemma reservations_for_fits [simp]: "reservations_for (p\<lparr>pl_fits := b\<rparr>) s req = reservations_for p s req"
  by (simp add: reservations_for_def)

text \<open>The hosts the guarantees are about: distinct GPUs, and a total that stays in \<open>int64\<close>.\<close>

definition sane_host :: "snapshot \<Rightarrow> placement_request \<Rightarrow> bool" where
  "sane_host s req \<longleftrightarrow> distinct (map gpu_id (gpus s)) \<and> usable_sum (request_reserve req) (gpus s) < 2 ^ 63 \<and>
     is_i64 (pr_required req)"

lemma reservations_within:
  assumes "plan_placement s req = Inr p" and "pl_fits p" and "sane_host s req"
    and "pr_required req2 = pr_required req" and "pr_reserve req2 = pr_reserve req"
  shows "distinct (map device (reservations_for p s req2)) \<and>
    (\<forall>x \<in> set (reservations_for p s req2).
      amount x \<le> usable_vram (gpu_or_zero (gpus s) (device x)) (request_reserve req))"
proof -
  let ?r = "request_reserve req"
  have d: "distinct (map gpu_id (gpus s))" and b: "usable_sum ?r (gpus s) < 2 ^ 63"
    and i: "is_i64 (pr_required req)"
    using assms(3) by (simp_all add: sane_host_def)
  have q: "0 \<le> pr_required req" using assms(1) by (auto simp: plan_placement_def split: if_splits)
  consider (none) "gpus s = []" | (manual) "gpus s \<noteq> []" "effective_mode (pr_mode req) = ''manual''"
    | (auto) "gpus s \<noteq> []" "effective_mode (pr_mode req) = ''auto''"
    using assms(1) by (auto simp: plan_placement_def Let_def split: if_splits)
  then show ?thesis
  proof cases
    case none
    then have "pl_devices p = []"
      using assms(1) by (auto simp: plan_placement_def Let_def no_placement_def split: if_splits)
    then show ?thesis by (simp add: reservations_for_def)
  next
    case manual
    note m = manual_exact [OF assms(1) manual(2,1) i]
    have "reservations_for p s req2 = filter (\<lambda>x. \<not> (trim_space (device x) = [] \<or> amount x < 0)) (pl_demand p)"
      using m by (cases "pl_demand p") (auto simp: reservations_for_def)
    then show ?thesis
      using m assms(2) by (auto simp: distinct_map_filter)
  next
    case auto
    then have p: "p = plan_auto s req ?r"
      using assms(1) by (auto simp: plan_placement_def Let_def split: if_splits)
    obtain hs where hs: "pl_devices p = map gpu_id hs" "pl_demand p = []" "hs \<noteq> []" "set hs \<subseteq> set (gpus s)"
      "distinct (map gpu_id hs)" "pr_required req \<le> usable_sum ?r hs" "usable_sum ?r hs < 2 ^ 63"
      using plan_auto_devices [of s req ?r] assms(2) q b d unfolding p by blast
    have look: "\<forall>h \<in> set hs. gpu_or_zero (gpus s) (gpu_id h) = h"
      using hs(4) d gpu_or_zero_distinct by blast
    show ?thesis
    proof (cases "\<exists>h. hs = [h]")
      case True
      then show ?thesis
        using hs look q assms(4) by (auto simp: reservations_for_def)
    next
      case False
      then have "\<exists>a b cs. hs = a # b # cs" using hs(3) by (metis list.exhaust)
      then have "reservations_for p s req2 = spread_reservation (gpus s) ?r (map gpu_id hs) (pr_required req)"
        using hs(1,2) q assms(4,5) by (auto simp: reservations_for_def simp del: spread_reservation.simps)
      then show ?thesis
        using spread_reservation_spec [OF hs(3) look q hs(6,7)] hs(5) by simp
    qed
  qed
qed


section \<open>What the leases hold\<close>

definition lease_bytes :: "resource_lease \<Rightarrow> string \<Rightarrow> int" where
  "lease_bytes x d = sum_list (map amount (filter (\<lambda>g. device g = d) (ls_gpus x)))"

definition held :: "(resource_lease \<Rightarrow> bool) \<Rightarrow> (string \<times> resource_lease) list \<Rightarrow> string \<Rightarrow> int" where
  "held P xs d = sum_list (map (\<lambda>e. lease_bytes (snd e) d) (filter (P \<circ> snd) xs))"

lemma lease_bytes_nonneg: "\<forall>g \<in> set (ls_gpus x). 0 \<le> amount g \<Longrightarrow> 0 \<le> lease_bytes x d"
  unfolding lease_bytes_def by (intro sum_list_nonneg) auto

lemma held_Nil [simp]: "held P [] d = 0"
  by (simp add: held_def)

lemma held_Cons [simp]: "held P (e # xs) d = (if P (snd e) then lease_bytes (snd e) d else 0) + held P xs d"
  by (simp add: held_def)

text \<open>Every lease the invariant admits holds a natural number of bytes.\<close>

definition solid :: "(string \<times> resource_lease) list \<Rightarrow> bool" where
  "solid xs \<longleftrightarrow> (\<forall>e \<in> set xs. \<forall>g \<in> set (ls_gpus (snd e)). 0 \<le> amount g)"

lemma solid_Cons [simp]: "solid (e # xs) \<longleftrightarrow> (\<forall>g \<in> set (ls_gpus (snd e)). 0 \<le> amount g) \<and> solid xs"
  by (simp add: solid_def)

lemma inv_solid: "ledger_inv l \<Longrightarrow> solid (lg_leases l)"
  unfolding solid_def ledger_inv_def lease_ok_def by (metis map_of_is_SomeI prod.collapse)

lemma held_nonneg: "solid xs \<Longrightarrow> 0 \<le> held P xs d"
  by (induction xs) (auto simp: lease_bytes_nonneg add_nonneg_nonneg solid_def held_def)

lemma held_mono: "solid xs \<Longrightarrow> (\<And>x. P x \<Longrightarrow> Q x) \<Longrightarrow> held P xs d \<le> held Q xs d"
proof (induction xs)
  case (Cons e xs)
  then have "held P xs d \<le> held Q xs d" "0 \<le> lease_bytes (snd e) d" by (simp_all add: lease_bytes_nonneg)
  then show ?case using Cons.prems(2) [of "snd e"] by auto
qed simp

lemma held_split: "held P xs d = held (\<lambda>x. P x \<and> Q x) xs d + held (\<lambda>x. P x \<and> \<not> Q x) xs d"
  by (induction xs) auto

lemma held_delete:
  "solid xs \<Longrightarrow> held P (AList.delete k xs) d \<le> held P xs d"
proof (induction xs)
  case (Cons e xs)
  then have "held P (AList.delete k xs) d \<le> held P xs d" "0 \<le> lease_bytes (snd e) d"
    by (simp_all add: lease_bytes_nonneg)
  then show ?case by (auto simp: AList.delete_eq)
qed (simp add: AList.delete_eq)

lemma held_update_fresh: "k \<notin> fst ` set xs \<Longrightarrow> held P (AList.update k x xs) d = held P xs d + held P [(k, x)] d"
  by (induction xs) auto

text \<open>The running totals wrap around like one sum.\<close>

lemma occupy_devices_sum:
  assumes "\<And>d. is_i64 (oc_pending (m d)) \<and> is_i64 (oc_committed (m d))"
  shows "oc_pending (occupy_devices st gs m d) = wrap64 (oc_pending (m d) +
      (if st = Pending then sum_list (map amount (filter (\<lambda>g. device g = d) gs)) else 0)) \<and>
    oc_committed (occupy_devices st gs m d) = wrap64 (oc_committed (m d) +
      (if st = Pending then 0 else sum_list (map amount (filter (\<lambda>g. device g = d) gs))))"
  using assms
proof (induction gs arbitrary: m)
  case Nil
  then show ?case by (simp add: wrap64_id)
next
  case (Cons g gs)
  define m' where "m' = m(device g := occupy st (amount g) (m (device g)))"
  have m': "m' d = (if d = device g then occupy st (amount g) (m d) else m d)" for d
    by (simp add: m'_def)
  have "is_i64 (oc_pending (m' d)) \<and> is_i64 (oc_committed (m' d))" for d
    using Cons.prems by (simp add: m' occupy_def)
  note IH = Cons.IH [of m', OF this]
  have step: "occupy_devices st (g # gs) m d = occupy_devices st gs m' d"
    by (simp add: m'_def)
  show ?case
    unfolding step
    using IH by (cases "st = Pending"; cases "device g = d") (simp_all add: m' [of d] occupy_def add.assoc)
qed

lemma occupancy_of_sum:
  assumes "\<And>d. is_i64 (oc_pending (fst acc d)) \<and> is_i64 (oc_committed (fst acc d))"
  shows "oc_pending (fst (occupancy_of key vs xs acc) d) = wrap64 (oc_pending (fst acc d) +
      held (\<lambda>x. \<not> lease_ignored key vs x \<and> ls_state x = Pending) xs d) \<and>
    oc_committed (fst (occupancy_of key vs xs acc) d) = wrap64 (oc_committed (fst acc d) +
      held (\<lambda>x. \<not> lease_ignored key vs x \<and> ls_state x \<noteq> Pending) xs d)"
  using assms
proof (induction xs arbitrary: acc)
  case Nil
  then show ?case by (simp add: wrap64_id)
next
  case (Cons e xs)
  obtain k x where e: "e = (k, x)" by (cases e)
  show ?case
  proof (cases "lease_ignored key vs x")
    case True
    then show ?thesis using Cons by (simp add: e)
  next
    case False
    let ?m = "occupy_devices (ls_state x) (ls_gpus x) (fst acc)"
    let ?acc = "(?m, occupy (ls_state x) (ls_host_ram x) (snd acc))"
    note m = occupy_devices_sum [OF Cons.prems, of "ls_state x" "ls_gpus x", folded lease_bytes_def]
    have "is_i64 (oc_pending (fst ?acc d)) \<and> is_i64 (oc_committed (fst ?acc d))" for d using m by simp
    from Cons.IH [of ?acc, OF this] show ?thesis
      using False m by (simp add: e algebra_simps)
  qed
qed


section \<open>What an adjusted device can still give\<close>

text \<open>Devices that report their memory, and amounts far from the ends of \<open>int64\<close>.\<close>

definition sane_gpu :: "gpu \<Rightarrow> bool" where
  "sane_gpu g \<longleftrightarrow> 0 < gpu_total g \<and> 0 \<le> gpu_used g \<and> gpu_used g \<le> gpu_total g \<and> gpu_total g < 2 ^ 62"

definition sane_gpus :: "gpu list \<Rightarrow> bool" where
  "sane_gpus gs \<longleftrightarrow> distinct (map gpu_id gs) \<and> (\<forall>g \<in> set gs. sane_gpu g) \<and> sum_list (map gpu_total gs) < 2 ^ 62"

definition small :: "int \<Rightarrow> bool" where
  "small n \<longleftrightarrow> 0 \<le> n \<and> n < 2 ^ 62"

lemma adjust_gpu_usable:
  assumes "sane_gpu g" and "0 \<le> oc_pending (oc (gpu_id g))" and "0 \<le> oc_committed (oc (gpu_id g))"
    and "small (oc_pending (oc (gpu_id g)) + oc_committed (oc (gpu_id g)))" and "small (cr (gpu_id g))" and "0 < r" and "is_i64 r"
  shows "usable_vram (adjust_gpu oc cr g) r \<le> gpu_total g"
    and "0 < usable_vram (adjust_gpu oc cr g) r \<Longrightarrow>
      usable_vram (adjust_gpu oc cr g) r + oc_pending (oc (gpu_id g)) + oc_committed (oc (gpu_id g)) +
        max 0 (gpu_used g - oc_committed (oc (gpu_id g)) - cr (gpu_id g)) + r \<le> gpu_total g"
proof -
  let ?p = "oc_pending (oc (gpu_id g))" and ?c = "oc_committed (oc (gpu_id g))" and ?k = "cr (gpu_id g)"
  define un where "un = max 0 (gpu_used g - ?c - ?k)"
  have un: "0 \<le> un" "un \<le> gpu_total g" using assms(1,3,5) by (auto simp: un_def sane_gpu_def small_def)
  have w1: "wrap64 (gpu_used g - ?c - ?k) = gpu_used g - ?c - ?k"
    using assms(1-5) by (intro wrap64_id) (simp add: is_i64_def sane_gpu_def small_def)
  have w2: "wrap64 (?p + ?c) = ?p + ?c"
    using assms(4) by (intro wrap64_id) (simp add: is_i64_def small_def)
  have w3: "wrap64 (gpu_total g - (?p + ?c) - un) = gpu_total g - (?p + ?c) - un"
    using assms(1,4) un by (intro wrap64_id) (simp add: is_i64_def sane_gpu_def small_def)
  have un': "(if gpu_used g - ?c - ?k < 0 then 0 else gpu_used g - ?c - ?k) = un"
    by (simp add: un_def)
  have free: "gpu_free (adjust_gpu oc cr g) = max 0 (gpu_total g - (?p + ?c) - un)"
  proof -
    have "gpu_free (adjust_gpu oc cr g) = (let f = wrap64 (gpu_total g - wrap64 (?p + ?c) -
        (if wrap64 (gpu_used g - ?c - ?k) < 0 then 0 else wrap64 (gpu_used g - ?c - ?k)))
      in if f < 0 then 0 else f)"
      using assms(1) unfolding adjust_gpu_def Let_def sane_gpu_def by (simp del: wrap64_diff_left wrap64_diff_right)
    then show ?thesis unfolding w1 w2 un' Let_def w3 by simp
  qed
  have b: "0 \<le> gpu_free (adjust_gpu oc cr g)" "gpu_free (adjust_gpu oc cr g) \<le> gpu_total g"
    using assms(1,4) un by (auto simp: free sane_gpu_def small_def)
  have usable: "usable_vram (adjust_gpu oc cr g) r = max 0 (gpu_free (adjust_gpu oc cr g) - r)"
    using b assms(1,6,7) by (simp add: usable_vram_def Let_def wrap64_id is_i64_def sane_gpu_def)
  show "usable_vram (adjust_gpu oc cr g) r \<le> gpu_total g"
    using b assms(1,6) by (auto simp: usable sane_gpu_def)
  show "0 < usable_vram (adjust_gpu oc cr g) r \<Longrightarrow>
      usable_vram (adjust_gpu oc cr g) r + ?p + ?c + max 0 (gpu_used g - ?c - ?k) + r \<le> gpu_total g"
    using assms(6) unfolding usable free un_def [symmetric] by (simp add: max_def split: if_splits)
qed

lemma gpu_id_adjust [simp]: "gpu_id (adjust_gpu oc cr g) = gpu_id g"
  by (simp add: adjust_gpu_def Let_def)

lemma adjust_snapshot_gpus [simp]: "gpus (adjust_snapshot s oc host cr hc) = map (adjust_gpu oc cr) (gpus s)"
  by (simp add: adjust_snapshot_def)

lemma sum_list_bound: "(\<And>x. x \<in> set xs \<Longrightarrow> f x \<le> g x) \<Longrightarrow> sum_list (map f xs) \<le> sum_list (map (g :: 'a \<Rightarrow> int) xs)"
  by (induction xs) (auto intro: add_mono)


definition small_ledger :: "ledger \<Rightarrow> bool" where
  "small_ledger l \<longleftrightarrow> (\<forall>d. held (\<lambda>x. True) (lg_leases l) d < 2 ^ 62)"

text \<open>What the credits of a request count on a device.\<close>

definition credited_bytes :: "ledger \<Rightarrow> string \<Rightarrow> credit list \<Rightarrow> string \<Rightarrow> int" where
  "credited_bytes l requester cs = uc_bytes (usable_credits_locked l requester cs no_credits)"

lemma schedulable_room:
  assumes "solid (lg_leases l)" and "small_ledger l" and "schedulable l key rq cs s = (adj, vs)"
    and "sane_gpus (gpus s)" and "\<And>d. small (credited_bytes l rq cs d)" and "0 < r" and "is_i64 r"
  shows "distinct (map gpu_id (gpus adj)) \<and> usable_sum r (gpus adj) < 2 ^ 63"
    and "g \<in> set (gpus s) \<Longrightarrow> 0 < usable_vram (gpu_or_zero (gpus adj) (gpu_id g)) r \<Longrightarrow>
      usable_vram (gpu_or_zero (gpus adj) (gpu_id g)) r +
        held (\<lambda>x. \<not> lease_ignored key vs x) (lg_leases l) (gpu_id g) +
        max 0 (gpu_used g - held (\<lambda>x. \<not> lease_ignored key vs x \<and> ls_state x \<noteq> Pending) (lg_leases l) (gpu_id g) -
          credited_bytes l rq cs (gpu_id g)) + r \<le> gpu_total g"
proof -
  let ?cr = "credited_bytes l rq cs"
  obtain oc host where occ: "occupancy_locked l key vs = (oc, host)" by (cases "occupancy_locked l key vs")
  have vs: "vs = uc_usable (usable_credits_locked l rq cs no_credits)"
    using assms(3) by (auto simp: schedulable_def Let_def split: prod.splits)
  have adj: "gpus adj = map (adjust_gpu oc ?cr) (gpus s)"
    using assms(3) occ unfolding vs by (auto simp: schedulable_def Let_def credited_bytes_def)
  let ?p = "\<lambda>d. held (\<lambda>x. \<not> lease_ignored key vs x \<and> ls_state x = Pending) (lg_leases l) d"
  let ?c = "\<lambda>d. held (\<lambda>x. \<not> lease_ignored key vs x \<and> ls_state x \<noteq> Pending) (lg_leases l) d"
  let ?h = "\<lambda>d. held (\<lambda>x. \<not> lease_ignored key vs x) (lg_leases l) d"
  have split: "?h d = ?p d + ?c d" for d by (rule held_split)
  have nn: "0 \<le> ?p d" "0 \<le> ?c d" for d using assms(1) by (auto intro: held_nonneg)
  have up: "?h d < 2 ^ 62" for d
    using held_mono [OF assms(1), of "\<lambda>x. \<not> lease_ignored key vs x" "\<lambda>x. True" d] assms(2)
    unfolding small_ledger_def by (meson TrueI le_less_trans)
  have oc: "oc_pending (oc d) = ?p d" "oc_committed (oc d) = ?c d" for d
  proof -
    have small: "is_i64 (?p d)" "is_i64 (?c d)"
      using nn [of d] split [of d] up [of d] by (simp_all add: is_i64_def)
    have "oc = fst (occupancy_of key vs (lg_leases l) (\<lambda>d. no_occupied, no_occupied))"
      using occ by (simp add: occupancy_locked_def)
    then show "oc_pending (oc d) = ?p d" "oc_committed (oc d) = ?c d"
      using occupancy_of_sum [of "(\<lambda>d. no_occupied, no_occupied)" key vs "lg_leases l" d] small
      by (simp_all add: no_occupied_def is_i64_def wrap64_id)
  qed
  have room: "usable_vram (adjust_gpu oc ?cr g) r \<le> gpu_total g"
    "0 < usable_vram (adjust_gpu oc ?cr g) r \<Longrightarrow> usable_vram (adjust_gpu oc ?cr g) r + ?p (gpu_id g) + ?c (gpu_id g) +
      max 0 (gpu_used g - ?c (gpu_id g) - ?cr (gpu_id g)) + r \<le> gpu_total g" if "g \<in> set (gpus s)" for g
  proof -
    have g: "sane_gpu g" using assms(4) that by (simp add: sane_gpus_def)
    have "small (?p (gpu_id g) + ?c (gpu_id g))"
      using nn [of "gpu_id g"] up [of "gpu_id g"] split [of "gpu_id g"] unfolding small_def by linarith
    then show "usable_vram (adjust_gpu oc ?cr g) r \<le> gpu_total g"
      "0 < usable_vram (adjust_gpu oc ?cr g) r \<Longrightarrow> usable_vram (adjust_gpu oc ?cr g) r + ?p (gpu_id g) +
        ?c (gpu_id g) + max 0 (gpu_used g - ?c (gpu_id g) - ?cr (gpu_id g)) + r \<le> gpu_total g"
      using adjust_gpu_usable [of g oc ?cr r] g nn [of "gpu_id g"] assms(5) [of "gpu_id g"] assms(6,7)
      unfolding oc by blast+
  qed
  have ids: "map gpu_id (gpus adj) = map gpu_id (gpus s)" by (simp add: adj comp_def)
  have "usable_sum r (gpus adj) \<le> sum_list (map gpu_total (gpus s))"
    unfolding adj using sum_list_bound [of "gpus s" "\<lambda>g. usable_vram (adjust_gpu oc ?cr g) r" gpu_total] room(1)
    by (simp add: comp_def)
  then show d: "distinct (map gpu_id (gpus adj)) \<and> usable_sum r (gpus adj) < 2 ^ 63"
    using assms(4) unfolding ids by (simp add: sane_gpus_def)
  assume g: "g \<in> set (gpus s)"
  have "gpu_or_zero (gpus adj) (gpu_id (adjust_gpu oc ?cr g)) = adjust_gpu oc ?cr g"
    using d g by (intro gpu_or_zero_distinct) (auto simp: adj)
  then have look: "gpu_or_zero (gpus adj) (gpu_id g) = adjust_gpu oc ?cr g" by simp
  show "0 < usable_vram (gpu_or_zero (gpus adj) (gpu_id g)) r \<Longrightarrow>
      usable_vram (gpu_or_zero (gpus adj) (gpu_id g)) r + ?h (gpu_id g) +
        max 0 (gpu_used g - ?c (gpu_id g) - ?cr (gpu_id g)) + r \<le> gpu_total g"
    unfolding look split using room(2) [OF g] by (simp add: add.assoc)
qed


section \<open>A grant stays within the devices\<close>

lemma usable_credits_set:
  "v \<in> set (uc_usable (usable_credits_locked l rq cs uc)) \<Longrightarrow> v \<in> set (uc_usable uc) \<or>
    v \<noteq> [] \<and> v \<noteq> rq \<and> lookup_string (lg_claimed l) v = [] \<and> lease_by_instance l v \<noteq> None \<and> v \<in> cr_instance ` set cs"
  by (induction cs arbitrary: uc)
    (force simp: Let_def split: if_split_asm option.split_asm)+

lemma schedulable_victims:
  "schedulable l key rq cs s = (adj, vs) \<Longrightarrow> v \<in> set vs \<Longrightarrow>
    v \<noteq> [] \<and> v \<noteq> rq \<and> lookup_string (lg_claimed l) v = [] \<and> lease_by_instance l v \<noteq> None \<and> v \<in> cr_instance ` set cs"
  using usable_credits_set [of v l rq cs no_credits]
  by (auto simp: schedulable_def Let_def no_credits_def split: prod.splits)

lemma distinct_devices_bytes:
  assumes "distinct (map device gs)" and "\<forall>x \<in> set gs. amount x \<le> f (device x)"
    and "0 < sum_list (map amount (filter (\<lambda>g. device g = d) gs))"
  shows "sum_list (map amount (filter (\<lambda>g. device g = d) gs)) \<le> f d"
  using assms
proof (induction gs)
  case (Cons g gs)
  show ?case
  proof (cases "device g = d")
    case True
    then have "filter (\<lambda>g. device g = d) gs = []"
      using Cons.prems(1) by (simp add: filter_empty_conv) (metis image_eqI)
    then show ?thesis using Cons.prems(2) True by simp
  next
    case False
    then show ?thesis using Cons by simp
  qed
qed simp

lemma held_cong: "(\<And>e. e \<in> set xs \<Longrightarrow> P (snd e) = Q (snd e)) \<Longrightarrow> held P xs d = held Q xs d"
  by (induction xs) auto

lemma grant_within:
  fixes k x
  defines "free_of \<equiv> \<lambda>l y. lg_claimed l (ls_instance y) \<noteq> Some k"
  assumes inv: "ledger_inv l" and small: "small_ledger l" and k: "leases_of l k = None"
    and none: "lease_at l (resource_owner_key owner) = None"
    and sched: "schedulable l (resource_owner_key owner) rq cs s = (adj, vs)"
    and sane: "sane_gpus (gpus s)" "\<And>d. small (credited_bytes l rq cs d)" "is_i64 (pr_reserve req)"
      "is_i64 (pr_required req)"
    and plan: "plan_placement adj req = Inr p" "pl_fits p" "pr_required req2 = pr_required req" "pr_reserve req2 = pr_reserve req"
    and x: "ls_id x = k" "ls_gpus x = reservations_for p adj req2" "ls_instance x = [] \<or> ls_instance x = rq"
      "ls_state x = Pending"
    and g: "g \<in> set (gpus s)" "0 < lease_bytes x (gpu_id g)"
  shows "held (free_of (record_lease l x vs)) (lg_leases (record_lease l x vs)) (gpu_id g) +
      max 0 (gpu_used g - held (\<lambda>y. free_of (record_lease l x vs) y \<and> ls_state y \<noteq> Pending)
        (lg_leases (record_lease l x vs)) (gpu_id g) - credited_bytes l rq cs (gpu_id g)) +
      request_reserve req \<le> gpu_total g"
proof -
  let ?key = "resource_owner_key owner" and ?l = "record_lease l x vs" and ?r = "request_reserve req"
  let ?d = "gpu_id g"
  have r: "0 < ?r" "is_i64 ?r"
    using sane(3) effective_reserve_pos by (auto simp: effective_reserve_def default_vram_reserve_def is_i64_def)
  note room = schedulable_room [OF inv_solid [OF inv] small sched sane(1,2) r]
  have host: "sane_host adj req" using room(1) sane(4) by (simp add: sane_host_def)
  note within = reservations_within [OF plan(1,2) host plan(3,4), folded x(2)]
  have bytes: "lease_bytes x ?d \<le> usable_vram (gpu_or_zero (gpus adj) ?d) ?r"
    unfolding lease_bytes_def
    by (rule distinct_devices_bytes [where f = "\<lambda>d. usable_vram (gpu_or_zero (gpus adj) d) ?r"])
      (use within g(2) in \<open>auto simp: lease_bytes_def\<close>)
  have claimed: "lg_claimed ?l v = Some k \<longleftrightarrow> v \<in> set vs" for v
    using ledger_inv_claimed [OF inv, of v k] k x(1) by auto
  have vs: "v \<in> set vs \<Longrightarrow> v \<noteq> [] \<and> v \<noteq> rq" for v using schedulable_victims [OF sched] by blast
  have fx: "free_of ?l x" unfolding free_of_def claimed using vs x(3) by blast
  have same: "(\<not> lease_ignored ?key vs (snd e)) = free_of ?l (snd e)" if "e \<in> set (lg_leases l)" for e
  proof -
    have "leases_of l (fst e) = Some (snd e)" using that inv by (simp add: ledger_inv_def)
    then have "resource_owner_key (ls_owner (snd e)) \<noteq> ?key"
      using none lease_at_iff [OF inv, of ?key "snd e"] by auto
    then show ?thesis unfolding free_of_def claimed lease_ignored_def using vs by blast
  qed
  have upd: "lg_leases ?l = AList.update k x (lg_leases l)" "k \<notin> fst ` set (lg_leases l)"
    using k by (simp_all add: record_lease_def x(1) map_of_eq_None_iff)
  have h1: "held (free_of ?l) (lg_leases ?l) ?d =
      held (\<lambda>y. \<not> lease_ignored ?key vs y) (lg_leases l) ?d + lease_bytes x ?d"
    unfolding upd(1) held_update_fresh [OF upd(2)] using fx held_cong [of "lg_leases l" "\<lambda>y. \<not> lease_ignored ?key vs y" "free_of ?l"] same by simp
  have h2: "held (\<lambda>y. free_of ?l y \<and> ls_state y \<noteq> Pending) (lg_leases ?l) ?d =
      held (\<lambda>y. \<not> lease_ignored ?key vs y \<and> ls_state y \<noteq> Pending) (lg_leases l) ?d"
    unfolding upd(1) held_update_fresh [OF upd(2)] using x(4)
    by (simp, intro held_cong) (simp add: same)
  show ?thesis
    unfolding h1 h2 using room(2) [OF g(1)] bytes g(2) by linarith
qed


lemma credited_Nil [simp]: "credited_bytes l rq [] d = 0"
  by (simp add: credited_bytes_def no_credits_def)

lemma small_0 [simp]: "small 0"
  by (simp add: small_def)

lemma solid_delete: "solid xs \<Longrightarrow> solid (AList.delete k xs)"
  by (auto simp: solid_def AList.delete_eq)

lemma small_release: "ledger_inv l \<Longrightarrow> small_ledger l \<Longrightarrow> small_ledger (release_locked k l)"
  by (auto simp: small_ledger_def release_locked_def Let_def split: option.split
      intro: le_less_trans [OF held_delete [OF inv_solid]])

lemma small_release_owner: "ledger_inv l \<Longrightarrow> small_ledger l \<Longrightarrow> small_ledger (release_owner_locked owner l)"
  by (simp add: release_owner_locked_def Let_def small_release)

lemma small_sweep: "ledger_inv l \<Longrightarrow> small_ledger l \<Longrightarrow> small_ledger (sweep_expired now l)"
proof -
  have "ledger_inv l \<Longrightarrow> small_ledger l \<Longrightarrow> small_ledger (fold (sweep_one now) xs l)" for xs
    by (induction xs arbitrary: l) (simp_all add: sweep_one_def small_release release_inv)
  then show "ledger_inv l \<Longrightarrow> small_ledger l \<Longrightarrow> small_ledger (sweep_expired now l)"
    by (simp add: sweep_expired_fold)
qed

lemma released_owner_none: "ledger_inv l \<Longrightarrow> lease_at (release_owner_locked owner l) (resource_owner_key owner) = None"
  by (simp add: lease_at_release_owner)

text \<open>What a granted acquisition has checked.\<close>

definition credits_of :: "resource_owner \<Rightarrow> acquire_request \<Rightarrow> credit list" where
  "credits_of owner req = (if ow_kind owner = owner_instance then aq_credits req else [])"

definition requester_of :: "resource_owner \<Rightarrow> string" where
  "requester_of owner = (if ow_kind owner = owner_instance then ow_id owner else [])"

lemma acquire_owner_granted:
  assumes "acquire_owner l now k owner req = (l', Inr x)" and "ls_state x = Pending"
  obtains adj vs p0 where
    "schedulable (release_owner_locked owner l) (resource_owner_key owner) (requester_of owner) (credits_of owner req)
       (aq_snapshot req) = (adj, vs)"
    "l' = record_lease (release_owner_locked owner l) x vs" "ls_id x = k" "ls_owner x = owner"
    "ls_instance x = requester_of owner" "plan_placement adj (aq_placement req) = Inr p0" "pl_fits p0"
    "ls_gpus x = reservations_for p0 adj (aq_placement req)" "host_admits adj (aq_host_ram req)"
    "ls_host_ram x = aq_host_ram req"
proof -
  let ?l = "release_owner_locked owner l"
  obtain adj vs where sched: "schedulable ?l (resource_owner_key owner) (requester_of owner) (credits_of owner req)
      (aq_snapshot req) = (adj, vs)"
    by fastforce
  show thesis
  proof (cases "plan_placement adj (aq_placement req)")
    case (Inl e)
    then show ?thesis using assms sched by (simp add: acquire_owner_def Let_def credits_of_def requester_of_def)
  next
    case (Inr p0)
    have "l' = record_lease ?l x vs \<and> ls_id x = k \<and> ls_owner x = owner \<and> ls_instance x = requester_of owner \<and>
      pl_fits p0 \<and> ls_gpus x = reservations_for p0 adj (aq_placement req) \<and> host_admits adj (aq_host_ram req) \<and>
      ls_host_ram x = aq_host_ram req"
      using assms sched Inr
      by (auto simp: acquire_owner_def Let_def credits_of_def requester_of_def refused_lease_def split: if_splits)
    then show ?thesis using that sched Inr by blast
  qed
qed

lemma acquire_granted:
  assumes "acquire l now now' k req = (l', Inr x)"
  obtains owner where "valid_owner owner" "acquire_owner (sweep_expired now l) now' k owner req = (l', Inr x)"
  using assms by (auto simp: acquire_def Let_def split: if_splits sum.splits dest!: normalize_owner_valid)


text \<open>
  C1. No overcommitment: whenever the ledger grants a start, then on every device the new lease
  uses, the bytes of all leases, except those of the victims the start itself has claimed, together
  with the VRAM reserve fit in the memory of the device.
\<close>

theorem acquire_no_overcommit:
  assumes "ledger_reachable l" and "fresh_id k l" and "small_ledger l"
    and "acquire l now now' k req = (l', Inr x)" and "ls_state x = Pending"
    and "sane_gpus (gpus (aq_snapshot req))"
    and "is_i64 (pr_required (aq_placement req)) \<and> is_i64 (pr_reserve (aq_placement req))"
    and "\<And>owner d. small (credited_bytes (release_owner_locked owner (sweep_expired now l)) (requester_of owner)
      (credits_of owner req) d)"
    and "g \<in> set (gpus (aq_snapshot req))" and "0 < lease_bytes x (gpu_id g)"
  shows "held (\<lambda>y. lg_claimed l' (ls_instance y) \<noteq> Some k) (lg_leases l') (gpu_id g) +
    request_reserve (aq_placement req) \<le> gpu_total g"
proof -
  have inv: "ledger_inv (sweep_expired now l)"
    using assms(1) by (intro sweep_inv reachable_inv)
  have k: "fresh_id k (sweep_expired now l)" and small: "small_ledger (sweep_expired now l)"
    using assms(1-3) reachable_inv by (auto intro: fresh_sweep small_sweep)
  obtain owner where owner: "acquire_owner (sweep_expired now l) now' k owner req = (l', Inr x)"
    using acquire_granted [OF assms(4)] by blast
  let ?l = "release_owner_locked owner (sweep_expired now l)"
  have inv': "ledger_inv ?l" and small': "small_ledger ?l" and k': "leases_of ?l k = None"
    using inv small fresh_release_owner [OF k] by (auto intro: release_owner_inv small_release_owner simp: fresh_id_def)
  obtain adj vs p0 where a:
    "schedulable ?l (resource_owner_key owner) (requester_of owner) (credits_of owner req) (aq_snapshot req) = (adj, vs)"
    "l' = record_lease ?l x vs" "ls_id x = k" "ls_instance x = requester_of owner"
    "plan_placement adj (aq_placement req) = Inr p0" "pl_fits p0"
    "ls_gpus x = reservations_for p0 adj (aq_placement req)"
    using acquire_owner_granted [OF owner assms(5)] by metis
  have i: "is_i64 (pr_required (aq_placement req))" "is_i64 (pr_reserve (aq_placement req))" using assms(7) by blast+
  show ?thesis
    using grant_within [OF inv' small' k' released_owner_none [OF inv] a(1) assms(6,8) i(2,1) a(5,6) refl refl a(3,7)
      disjI2 [OF a(4)] assms(5,9,10)]
    unfolding a(2) by simp
qed

theorem acquire_no_overcommit_witness:
  "\<exists>l' x. acquire (new_ledger 0) 1 2 ''r1''
      \<lparr>aq_owner = \<lparr>ow_kind = [], ow_id = []\<rparr>, aq_instance = ''qwen'', aq_snapshot = sample_host [(''CUDA0'', 6000000000), (''CUDA1'', 9000000000)],
       aq_placement = sample_request [] 12000000000 [] [], aq_credits = [], aq_host_ram = 0\<rparr> = (l', Inr x) \<and>
    0 < lease_bytes x ''CUDA1'' \<and>
    held (\<lambda>y. lg_claimed l' (ls_instance y) \<noteq> Some ''r1'') (lg_leases l') ''CUDA1'' + default_vram_reserve \<le> 24000000000"
proof -
  let ?req = "\<lparr>aq_owner = \<lparr>ow_kind = [], ow_id = []\<rparr>, aq_instance = ''qwen'', aq_snapshot = sample_host [(''CUDA0'', 6000000000), (''CUDA1'', 9000000000)],
       aq_placement = sample_request [] 12000000000 [] [], aq_credits = [], aq_host_ram = 0\<rparr>"
  have e: "case snd (acquire (new_ledger 0) 1 2 ''r1'' ?req) of Inl e \<Rightarrow> False
      | Inr x \<Rightarrow> ls_state x = Pending \<and> 0 < lease_bytes x ''CUDA1''"
    by code_simp
  obtain l' x where x: "acquire (new_ledger 0) 1 2 ''r1'' ?req = (l', Inr x)" "ls_state x = Pending" "0 < lease_bytes x ''CUDA1''"
    using e by (cases "acquire (new_ledger 0) 1 2 ''r1'' ?req") (auto split: sum.splits)
  let ?g = "\<lparr>gpu_id = ''CUDA1'', gpu_total = 24000000000, gpu_used = 15000000000, gpu_free = 9000000000\<rparr>"
  have f: "fresh_id ''r1'' (new_ledger 0)" "small_ledger (new_ledger 0)"
    by (simp_all add: fresh_id_def small_ledger_def new_ledger_def)
  have s: "sane_gpus (gpus (aq_snapshot ?req))" "?g \<in> set (gpus (aq_snapshot ?req))"
    by (simp_all add: sane_gpus_def sane_gpu_def sample_host_def)
  have i: "is_i64 (pr_required (aq_placement ?req)) \<and> is_i64 (pr_reserve (aq_placement ?req))"
    by (simp add: sample_request_def is_i64_def)
  have c: "small (credited_bytes (release_owner_locked owner (sweep_expired 1 (new_ledger 0))) (requester_of owner)
      (credits_of owner ?req) d)" for owner d
    by (simp add: credits_of_def)
  have r: "request_reserve (aq_placement ?req) = default_vram_reserve"
    by (simp add: sample_request_def effective_reserve_def)
  show ?thesis
    using acquire_no_overcommit [OF reach_new f x(1,2) s(1) i c s(2)] x r by auto
qed


lemma vram_bytes_i64 [simp]: "is_i64 (vram_bytes d)"
proof -
  have "is_i64 t \<Longrightarrow> is_i64 (foldl (\<lambda>t g. wrap64 (t + amount g)) t gs)" for t gs
    by (induction gs arbitrary: t) simp_all
  moreover have "is_i64 0" by (simp add: is_i64_def)
  ultimately show ?thesis unfolding vram_bytes_def by blast
qed

lemma acquire_runtime_granted:
  assumes "acquire_runtime l0 now now' k req = Some (l', Inr (x, plan))" and "ls_state x = Pending"
  defines "owner \<equiv> \<lparr>ow_kind = owner_instance, ow_id = trim_space (ra_instance req)\<rparr>"
  defines "l \<equiv> release_owner_locked owner (sweep_expired now l0)"
  obtains adj vs where
    "schedulable l (resource_owner_key owner) (trim_space (ra_instance req)) (ra_credits req) (ra_snapshot req) = (adj, vs)"
    "l' = record_lease l x vs" "ls_id x = k" "ls_instance x = trim_space (ra_instance req)"
    "plan_runtime ((ra_plan req)\<lparr>rr_snapshot := adj\<rparr>) = Some (Inr plan)" "rp_fits plan"
    "ls_gpus x = reservations_for (rp_placement plan) adj
       ((rr_placement (ra_plan req))\<lparr>pr_required := vram_bytes (rp_demand plan), pr_host_ram := rd_host_ram (rp_demand plan)\<rparr>)"
proof -
  obtain adj vs where sched: "schedulable l (resource_owner_key owner) (trim_space (ra_instance req)) (ra_credits req)
      (ra_snapshot req) = (adj, vs)"
    by fastforce
  have i: "trim_space (ra_instance req) \<noteq> []" using assms(1) by (auto simp: acquire_runtime_def Let_def)
  obtain planned where plan: "plan_runtime ((ra_plan req)\<lparr>rr_snapshot := adj\<rparr>) = Some planned"
    using assms(1) sched i
    by (auto simp: acquire_runtime_def Let_def owner_def [symmetric] l_def [symmetric] split: option.splits)
  show thesis
  proof (cases planned)
    case (Inl e)
    then show ?thesis using assms(1) sched i plan
      by (auto simp: acquire_runtime_def Let_def owner_def [symmetric] l_def [symmetric])
  next
    case (Inr p)
    have "p = plan \<and> l' = record_lease l x vs \<and> ls_id x = k \<and> ls_instance x = trim_space (ra_instance req) \<and>
      rp_fits plan \<and> ls_gpus x = reservations_for (rp_placement plan) adj
       ((rr_placement (ra_plan req))\<lparr>pr_required := vram_bytes (rp_demand plan), pr_host_ram := rd_host_ram (rp_demand plan)\<rparr>)"
      using assms(1,2) i unfolding acquire_runtime_def Let_def owner_def [symmetric] l_def [symmetric] sched prod.case
        plan option.case Inr sum.case
      by (auto simp: refused_lease_def split: if_splits)
    then show ?thesis using that sched plan Inr by blast
  qed
qed

text \<open>
  C4. The same for the launch of an Instance, where the demand is the planner's own, and counting
  what other programs use: the leases that are left, the memory in use beyond the committed
  leases and the credits, and the reserve fit together in every device of the new lease.
\<close>

theorem acquire_runtime_no_overcommit:
  assumes "ledger_reachable l0" and "fresh_id k l0" and "small_ledger l0"
    and "acquire_runtime l0 now now' k req = Some (l', Inr (x, plan))" and "ls_state x = Pending"
    and "sane_gpus (gpus (ra_snapshot req))" and "is_i64 (pr_reserve (rr_placement (ra_plan req)))"
    and "gpu_layer_option_key (rr_caps (ra_plan req)) = [] \<or> layer_key (gpu_layer_option_key (rr_caps (ra_plan req)))"
    and "l = release_owner_locked \<lparr>ow_kind = owner_instance, ow_id = trim_space (ra_instance req)\<rparr> (sweep_expired now l0)"
    and "\<And>d. small (credited_bytes l (trim_space (ra_instance req)) (ra_credits req) d)"
    and "g \<in> set (gpus (ra_snapshot req))" and "0 < lease_bytes x (gpu_id g)"
  shows "held (\<lambda>y. lg_claimed l' (ls_instance y) \<noteq> Some k) (lg_leases l') (gpu_id g) +
    max 0 (gpu_used g - held (\<lambda>y. lg_claimed l' (ls_instance y) \<noteq> Some k \<and> ls_state y \<noteq> Pending) (lg_leases l') (gpu_id g) -
      credited_bytes l (trim_space (ra_instance req)) (ra_credits req) (gpu_id g)) +
    request_reserve (rr_placement (ra_plan req)) \<le> gpu_total g"
proof -
  let ?owner = "\<lparr>ow_kind = owner_instance, ow_id = trim_space (ra_instance req)\<rparr>"
  have inv: "ledger_inv (sweep_expired now l0)" using assms(1) by (intro sweep_inv reachable_inv)
  have k: "fresh_id k (sweep_expired now l0)" and small: "small_ledger (sweep_expired now l0)"
    using assms(1-3) reachable_inv by (auto intro: fresh_sweep small_sweep)
  have inv': "ledger_inv l" and small': "small_ledger l" and k': "leases_of l k = None"
    using inv small fresh_release_owner [OF k] unfolding assms(9)
    by (auto intro: release_owner_inv small_release_owner simp: fresh_id_def)
  obtain adj vs where a:
    "schedulable l (resource_owner_key ?owner) (trim_space (ra_instance req)) (ra_credits req) (ra_snapshot req) = (adj, vs)"
    "l' = record_lease l x vs" "ls_id x = k" "ls_instance x = trim_space (ra_instance req)"
    "plan_runtime ((ra_plan req)\<lparr>rr_snapshot := adj\<rparr>) = Some (Inr plan)" "rp_fits plan"
    "ls_gpus x = reservations_for (rp_placement plan) adj
       ((rr_placement (ra_plan req))\<lparr>pr_required := vram_bytes (rp_demand plan), pr_host_ram := rd_host_ram (rp_demand plan)\<rparr>)"
    using acquire_runtime_granted [OF assms(4,5)] unfolding assms(9) by metis
  have "length (gpus adj) = length (gpus (ra_snapshot req))"
    using a(1) by (auto simp: schedulable_def Let_def split: prod.splits)
  then have "gpus adj \<noteq> []" using assms(11) by auto
  then have sound: "plan_demand_placement (rr_placement (ra_plan req)) adj (rp_demand plan) = Inr (rp_placement plan)"
    "pl_fits (rp_placement plan)"
    using plan_runtime_sound_aux [OF a(5), simplified, OF _ assms(8)] a(6) by blast+
  define preq where "preq = (rr_placement (ra_plan req))\<lparr>pr_required := vram_bytes (rp_demand plan),
    pr_host_ram := rd_host_ram (rp_demand plan), pr_splittable := rd_splittable (rp_demand plan), pr_fixed := rd_fixed (rp_demand plan)\<rparr>"
  have "pl_devices (rp_placement plan) \<noteq> []"
    using assms(12) a(7) by (auto simp: lease_bytes_def reservations_for_def)
  then have "vram_bytes (rp_demand plan) \<noteq> 0"
    using sound(1) by (cases "rp_placement plan") (auto simp: plan_demand_placement_def no_placement_def)
  then have place: "plan_placement adj preq = Inr (rp_placement plan)"
    using sound(1) by (simp add: plan_demand_placement_def preq_def)
  have i: "is_i64 (pr_reserve preq)" "is_i64 (pr_required preq)" using assms(7) by (simp_all add: preq_def)
  have r: "request_reserve preq = request_reserve (rr_placement (ra_plan req))" by (simp add: preq_def)
  note gw = grant_within [OF inv' small' k' _ a(1) assms(6,10) i place sound(2) _ _ a(3,7) disjI2 [OF a(4)] assms(5,11,12)]
  show ?thesis
    unfolding a(2) r [symmetric]
    by (rule gw) (simp_all add: preq_def assms(9) released_owner_none [OF inv])
qed

theorem acquire_runtime_no_overcommit_witness:
  "\<exists>l' x plan. acquire_runtime (new_ledger 0) 1 2 ''r1'' \<lparr>ra_instance = ''qwen'', ra_snapshot = sample_host [(''CUDA0'', 6000000000)],
      ra_plan = sample_runtime (sample_input 0 [''n-gpu-layers'' \<mapsto> ''16'']) [] True, ra_credits = []\<rparr> = Some (l', Inr (x, plan)) \<and>
    0 < lease_bytes x ''CUDA0'' \<and>
    held (\<lambda>y. lg_claimed l' (ls_instance y) \<noteq> Some ''r1'') (lg_leases l') ''CUDA0'' +
      max 0 (18000000000 - held (\<lambda>y. lg_claimed l' (ls_instance y) \<noteq> Some ''r1'' \<and> ls_state y \<noteq> Pending) (lg_leases l') ''CUDA0'') +
      default_vram_reserve \<le> 24000000000"
proof -
  let ?plan = "sample_runtime (sample_input 0 [''n-gpu-layers'' \<mapsto> ''16'']) [] True"
  let ?host = "sample_host [(''CUDA0'', 6000000000)]"
  let ?req = "\<lparr>ra_instance = ''qwen'', ra_snapshot = ?host, ra_plan = ?plan, ra_credits = []\<rparr>"
  let ?r = "?plan\<lparr>rr_snapshot := ?host\<rparr>"
  let ?bytes = "\<lambda>p. sum_list (map amount (filter (\<lambda>g. device g = ''CUDA0'') (reservations_for (rp_placement p) ?host
    ((rr_placement ?plan)\<lparr>pr_required := vram_bytes (rp_demand p), pr_host_ram := rd_host_ram (rp_demand p)\<rparr>))))"
  have "case evaluate_runtime_candidate ?r [''n-gpu-layers'' \<mapsto> ''16''] False of
      Inl e \<Rightarrow> False | Inr p \<Rightarrow> rp_fits p \<and> 0 < ?bytes p"
    by code_simp
  then obtain p where p: "evaluate_runtime_candidate ?r [''n-gpu-layers'' \<mapsto> ''16''] False = Inr p" "rp_fits p" "0 < ?bytes p"
    by (auto split: sum.splits)
  have plan: "plan_runtime ?r = Some (Inr p)"
    using p(1,2) by (intro plan_runtime_full) (simp_all add: idle_request_def sample_input_def sample_host_def)
  have empty: "sweep_expired 1 (new_ledger 0) = new_ledger 0" "release_owner_locked owner (new_ledger 0) = new_ledger 0" for owner
    by (simp_all add: sweep_expired_def new_ledger_def release_owner_locked_def lookup_string_def)
  have trim: "trim_space ''qwen'' = ''qwen''" by code_simp
  have sched: "schedulable (new_ledger 0) key rq [] ?host = (?host, [])" for key rq
  proof -
    have "adjust_snapshot ?host (\<lambda>d. no_occupied) no_occupied (\<lambda>d. 0) 0 = ?host" by code_simp
    then show ?thesis by (simp add: schedulable_def no_credits_def occupancy_locked_def new_ledger_def)
  qed
  obtain l' x where x: "acquire_runtime (new_ledger 0) 1 2 ''r1'' ?req = Some (l', Inr (x, p))" "ls_state x = Pending"
    "lease_bytes x ''CUDA0'' = ?bytes p"
  proof -
    have "trim_space (ra_instance ?req) = ''qwen''" using trim by simp
    then show ?thesis
      using p(2) sched plan that
      unfolding acquire_runtime_def Let_def empty resource_lease.select_convs lease_bytes_def
      by (simp del: sample_runtime_sel)
  qed
  let ?g = "\<lparr>gpu_id = ''CUDA0'', gpu_total = 24000000000, gpu_used = 18000000000, gpu_free = 6000000000\<rparr>"
  have f: "fresh_id ''r1'' (new_ledger 0)" "small_ledger (new_ledger 0)"
    by (simp_all add: fresh_id_def small_ledger_def new_ledger_def)
  have s: "sane_gpus (gpus (ra_snapshot ?req))" "?g \<in> set (gpus (ra_snapshot ?req))"
    by (simp_all add: sane_gpus_def sane_gpu_def sample_host_def)
  have i: "is_i64 (pr_reserve (rr_placement (ra_plan ?req)))" by (simp add: sample_request_def is_i64_def)
  have c: "gpu_layer_option_key (rr_caps (ra_plan ?req)) = [] \<or> layer_key (gpu_layer_option_key (rr_caps (ra_plan ?req)))"
    by (simp add: sample_caps_key layer_key_def)
  have cr: "small (credited_bytes (new_ledger 0) (trim_space (ra_instance ?req)) (ra_credits ?req) d)" for d by simp
  have r: "request_reserve (rr_placement (ra_plan ?req)) = default_vram_reserve"
    by (simp add: sample_request_def effective_reserve_def)
  have "0 < lease_bytes x (gpu_id ?g)" using x(3) p(3) by simp
  from acquire_runtime_no_overcommit [OF reach_new f x(1,2) s(1) i c _ cr s(2) this]
  show ?thesis using x(1) \<open>0 < lease_bytes x (gpu_id ?g)\<close> r by (simp add: empty)
qed

end
