(* ===== verification/Ledger_Safety.thy ===== *)
theory Ledger_Safety
  imports Capacity
begin

text \<open>
  The guarantees of the ledger over all its operations: consistency of its indexes, the refinement
  to one lease per owner, exclusive claims on victims, and what commit and expiry do to a lease.
\<close>

section \<open>The ledger as one lease per owner\<close>

text \<open>The leases that are left after the sweep an operation begins with.\<close>

definition live :: "i64 \<Rightarrow> (string \<Rightarrow> resource_lease option) \<Rightarrow> string \<Rightarrow> resource_lease option" where
  "live now m key = (case m key of None \<Rightarrow> None | Some x \<Rightarrow> if lease_expired now x then None else Some x)"

text \<open>
  C10. The ledger stays consistent under every sequence of operations: ids are distinct, every
  lease is stored under its own id with a valid owner and found through that owner, committed
  leases do not expire, reservations are not negative, the owner index names only
  existing leases of that owner, and a victim is claimed only by a lease that exists.
\<close>

theorem ledger_reachable_consistent:
  assumes "ledger_reachable l"
  shows "distinct (map fst (lg_leases l)) \<and>
    (\<forall>k x. leases_of l k = Some x \<longrightarrow> k \<noteq> [] \<and> ls_id x = k \<and> valid_owner (ls_owner x) \<and>
       lg_by_owner l (resource_owner_key (ls_owner x)) = Some k \<and>
       (ls_state x = Pending \<or> ls_state x = Committed \<and> ls_expires x = 0) \<and> (\<forall>g \<in> set (ls_gpus x). 0 \<le> amount g)) \<and>
    (\<forall>key k. lg_by_owner l key = Some k \<longrightarrow> (\<exists>x. leases_of l k = Some x \<and> resource_owner_key (ls_owner x) = key)) \<and>
    (\<forall>v k. lg_claimed l v = Some k \<longrightarrow> leases_of l k \<noteq> None)"
  using reachable_inv [OF assms] unfolding ledger_inv_def lease_ok_def by blast

theorem ledger_reachable_consistent_witness:
  "\<exists>l k x. ledger_reachable l \<and> lg_leases l = [(k, x)] \<and> k \<noteq> [] \<and> ls_id x = k \<and> valid_owner (ls_owner x)"
proof -
  let ?req = "\<lparr>aq_owner = \<lparr>ow_kind = [], ow_id = []\<rparr>, aq_instance = ''qwen'', aq_snapshot = sample_host [(''CUDA0'', 6000000000)],
       aq_placement = sample_request [] 1000000000 [] [], aq_credits = [], aq_host_ram = 0\<rparr>"
  let ?l = "fst (acquire (new_ledger 0) 1 2 ''r1'' ?req)"
  have "fresh_id ''r1'' (new_ledger 0)" by (simp add: fresh_id_def new_ledger_def)
  then have l: "ledger_reachable ?l"
    by (intro reach_step [OF reach_new step_acquire [of "''r1''" _ 1 2 ?req _ "snd (acquire (new_ledger 0) 1 2 ''r1'' ?req)"]]) auto
  have "map fst (lg_leases ?l) = [''r1'']" by code_simp
  then obtain x where x: "lg_leases ?l = [(''r1'', x)]" by auto
  show ?thesis
    using ledger_reachable_consistent [OF l] x l by (intro exI [of _ ?l] exI [of _ "''r1''"] exI [of _ x]) auto
qed

lemma acquire_owner_lease_at:
  assumes "ledger_inv l" and "fresh_id k l" and "valid_owner owner" and "acquire_owner l now k owner req = (l', res)"
  shows "lease_at l' = (lease_at l)(resource_owner_key owner :=
    (case res of Inl e \<Rightarrow> None | Inr x \<Rightarrow> if pl_fits (ls_placement x) then Some x else None))"
  using assms(4)
proof (cases rule: acquire_owner_cases)
  case failed
  then show ?thesis using lease_at_release_owner [OF assms(1)] by (simp split: sum.split)
next
  case (granted x vs)
  then show ?thesis using grant_inv(2) [OF assms(1-3)] by simp
qed

lemma lease_at_live: "ledger_inv l \<Longrightarrow> lease_at (sweep_expired now l) = live now (lease_at l)"
  by (rule ext) (simp add: lease_at_sweep live_def)

text \<open>
  C23. Refinement: on the abstract state, one optional lease per owner, an acquisition drops the
  expired leases and replaces the lease of its owner, by the new lease when the
  placement fits and by none otherwise; no other owner is affected.
\<close>

theorem acquire_refines:
  assumes "ledger_reachable l" and "fresh_id k l" and "normalize_owner (aq_owner req) (aq_instance req) = Inr owner"
    and "acquire l now now' k req = (l', res)"
  shows "lease_at l' = (live now (lease_at l))(resource_owner_key owner :=
    (case res of Inl e \<Rightarrow> None | Inr x \<Rightarrow> if pl_fits (ls_placement x) then Some x else None))"
proof -
  have inv: "ledger_inv l" by (rule reachable_inv [OF assms(1)])
  have "\<not> (trim_space (ow_kind (aq_owner req)) = [] \<and> trim_space (ow_id (aq_owner req)) = [] \<and>
      trim_space (aq_instance req) = [])"
    using assms(3) by (auto simp: normalize_owner_def Let_def split: if_splits)
  then have "acquire_owner (sweep_expired now l) now' k owner req = (l', res)"
    using assms(3,4) by (auto simp: acquire_def Let_def)
  from acquire_owner_lease_at [OF sweep_inv [OF inv] fresh_sweep [OF inv assms(2)] normalize_owner_valid [OF assms(3)] this]
  show ?thesis by (simp add: lease_at_live [OF inv])
qed

theorem acquire_refines_witness:
  "\<exists>l' x. acquire (new_ledger 0) 1 2 ''r1''
      \<lparr>aq_owner = \<lparr>ow_kind = [], ow_id = []\<rparr>, aq_instance = ''qwen'', aq_snapshot = sample_host [(''CUDA0'', 6000000000)],
       aq_placement = sample_request [] 1000000000 [] [], aq_credits = [], aq_host_ram = 0\<rparr> = (l', Inr x) \<and>
    pl_fits (ls_placement x) \<and>
    lease_at l' = (live 1 (lease_at (new_ledger 0)))(resource_owner_key \<lparr>ow_kind = owner_instance, ow_id = ''qwen''\<rparr> := Some x)"
proof -
  let ?req = "\<lparr>aq_owner = \<lparr>ow_kind = [], ow_id = []\<rparr>, aq_instance = ''qwen'', aq_snapshot = sample_host [(''CUDA0'', 6000000000)],
       aq_placement = sample_request [] 1000000000 [] [], aq_credits = [], aq_host_ram = 0\<rparr>"
  have "case snd (acquire (new_ledger 0) 1 2 ''r1'' ?req) of Inl e \<Rightarrow> False | Inr x \<Rightarrow> pl_fits (ls_placement x)"
    by code_simp
  then obtain l' x where x: "acquire (new_ledger 0) 1 2 ''r1'' ?req = (l', Inr x)" "pl_fits (ls_placement x)"
    by (cases "acquire (new_ledger 0) 1 2 ''r1'' ?req") (auto split: sum.splits)
  have f: "fresh_id ''r1'' (new_ledger 0)" by (simp add: fresh_id_def new_ledger_def)
  have "normalize_owner (aq_owner ?req) (aq_instance ?req) = Inr \<lparr>ow_kind = owner_instance, ow_id = ''qwen''\<rparr>" by code_simp
  from acquire_refines [OF reach_new f this x(1)] show ?thesis using x by auto
qed

text \<open>A claim lasts as long as the lease that made it.\<close>

lemma release_keeps_claim: "lg_claimed l v = Some k' \<Longrightarrow> k' \<noteq> k \<Longrightarrow> lg_claimed (release_locked k l) v = Some k'"
  by (simp add: release_locked_def Let_def split: option.split)

lemma sweep_keeps_claim:
  assumes "lg_claimed l v = Some k'" and "\<And>x. (k', x) \<in> set (lg_leases l) \<Longrightarrow> \<not> lease_expired now x"
  shows "lg_claimed (sweep_expired now l) v = Some k'"
proof -
  have "lg_claimed l v = Some k' \<Longrightarrow> (\<And>x. (k', x) \<in> set xs \<Longrightarrow> \<not> lease_expired now x) \<Longrightarrow>
    lg_claimed (fold (sweep_one now) xs l) v = Some k'" for xs
  proof (induction xs arbitrary: l)
    case (Cons e xs)
    have "lg_claimed (sweep_one now e l) v = Some k'"
      using Cons.prems by (cases e) (auto simp: sweep_one_def intro: release_keeps_claim)
    then show ?case using Cons by simp
  qed simp
  then show ?thesis using assms by (simp add: sweep_expired_fold)
qed



text \<open>
  A committed lease is kept: once the start of an owner is committed, its lease stays, marked
  committed, through every later sweep, whatever the clock says, and whatever the other owners release.
\<close>

theorem committed_lease_survives:
  assumes "ledger_reachable l" and "normal_owner owner" and "normal_owner other" and "other \<noteq> owner"
    and "lease_at l (resource_owner_key owner) = Some x"
  shows "lease_at (sweep_expired now (release_owner_locked other (fst (commit_owner owner l)))) (resource_owner_key owner) =
    Some (x\<lparr>ls_state := Committed, ls_expires := 0\<rparr>)"
proof -
  have inv: "ledger_inv l" by (rule reachable_inv [OF assms(1)])
  have "lease_at (fst (commit_owner owner l)) (resource_owner_key owner) = Some (committed x)"
    using commit_owner_lease_at [OF inv assms(2)] assms(5) by simp
  then show ?thesis
    using ledger_store.others_unchanged(1) [of "fst (commit_owner owner l)" other owner "committed x" now]
      commit_owner_inv [OF inv] assms(2-4)
    by (simp add: committed_def lease_expired_def)
qed

text \<open>
  C31. A start that takes longer than the time to live loses its lease: when the clock passes the
  expiry of a pending lease, the next sweep drops it, committing the Instance afterwards reports
  success, and no lease protects the worker. (The time to live is 180 seconds, while the
  start-up time limit can be set up to 3600.)
\<close>

theorem slow_start_commits_nothing:
  assumes "ledger_reachable l" and "normal_owner owner" and "ow_kind owner = owner_instance"
    and "lease_at l (resource_owner_key owner) = Some x" and "ls_state x = Pending"
    and "ls_expires x \<noteq> 0" and "ls_expires x < now"
  shows "snd (commit_instance (ow_id owner) (sweep_expired now l)) = None \<and>
    lease_at (fst (commit_instance (ow_id owner) (sweep_expired now l))) (resource_owner_key owner) = None"
proof -
  have inv: "ledger_inv l" by (rule reachable_inv [OF assms(1)])
  let ?s = "sweep_expired now l"
  have none: "lease_at ?s (resource_owner_key owner) = None"
    using assms(4-7) by (simp add: lease_at_sweep [OF inv] lease_expired_def)
  then have k: "lookup_string (lg_by_owner ?s) (resource_owner_key owner) = []"
    using lookup_owner(1) [OF sweep_inv [OF inv]] by blast
  have n: "normalize_owner owner [] = Inr owner" using assms(2) by (simp add: normal_owner_def)
  have "owner = \<lparr>ow_kind = owner_instance, ow_id = ow_id owner\<rparr>" using assms(3) by simp
  then have "commit_instance (ow_id owner) ?s = (?s, None)"
    using n k by (auto simp: commit_instance_def commit_owner_def)
  then show ?thesis using none by simp
qed

lemma sample_started:
  fixes i
  defines "req \<equiv> \<lparr>aq_owner = \<lparr>ow_kind = [], ow_id = []\<rparr>, aq_instance = ''qwen'', aq_snapshot = sample_host [(''CUDA0'', 6000000000)],
       aq_placement = sample_request [] 1000000000 [] [], aq_credits = [], aq_host_ram = 0\<rparr>"
  defines "l \<equiv> fst (acquire (new_ledger 0) 1 2 ''r1'' req)" and "owner \<equiv> \<lparr>ow_kind = owner_instance, ow_id = ''qwen''\<rparr>"
  shows "ledger_reachable l \<and> normal_owner owner \<and>
    (\<exists>x. lease_at l (resource_owner_key owner) = Some x \<and> ls_state x = Pending \<and> ls_expires x = 180000000002)"
proof -
  have "fresh_id ''r1'' (new_ledger 0)" by (simp add: fresh_id_def new_ledger_def)
  then have l: "ledger_reachable l"
    unfolding l_def
    by (intro reach_step [OF reach_new step_acquire [of "''r1''" _ 1 2 req _ "snd (acquire (new_ledger 0) 1 2 ''r1'' req)"]]) auto
  have "case lease_at l (resource_owner_key owner) of None \<Rightarrow> False
      | Some x \<Rightarrow> ls_state x = Pending \<and> ls_expires x = 180000000002"
    unfolding l_def owner_def req_def by code_simp
  moreover have "normal_owner owner" unfolding owner_def normal_owner_def by code_simp
  ultimately show ?thesis using l by (auto split: option.splits)
qed

theorem committed_lease_survives_witness:
  "\<exists>l x. ledger_reachable l \<and> lease_at l (resource_owner_key \<lparr>ow_kind = owner_instance, ow_id = ''qwen''\<rparr>) = Some x \<and>
    lease_at (sweep_expired 1000000000000 (release_owner_locked \<lparr>ow_kind = owner_instance, ow_id = ''old''\<rparr>
      (fst (commit_owner \<lparr>ow_kind = owner_instance, ow_id = ''qwen''\<rparr> l)))) (resource_owner_key \<lparr>ow_kind = owner_instance, ow_id = ''qwen''\<rparr>) =
    Some (x\<lparr>ls_state := Committed, ls_expires := 0\<rparr>)"
proof -
  have n: "normal_owner \<lparr>ow_kind = owner_instance, ow_id = ''old''\<rparr>" unfolding normal_owner_def by code_simp
  have ne: "\<lparr>ow_kind = owner_instance, ow_id = ''old''\<rparr> \<noteq> \<lparr>ow_kind = owner_instance, ow_id = ''qwen''\<rparr>" by simp
  show ?thesis using sample_started committed_lease_survives [OF _ _ n ne] by blast
qed

theorem slow_start_commits_nothing_witness:
  "\<exists>l. ledger_reachable l \<and> lease_at l (resource_owner_key \<lparr>ow_kind = owner_instance, ow_id = ''qwen''\<rparr>) \<noteq> None \<and>
    snd (commit_instance ''qwen'' (sweep_expired 200000000000 l)) = None \<and>
    lease_at (fst (commit_instance ''qwen'' (sweep_expired 200000000000 l)))
      (resource_owner_key \<lparr>ow_kind = owner_instance, ow_id = ''qwen''\<rparr>) = None"
proof -
  obtain l x where l: "ledger_reachable l" "normal_owner \<lparr>ow_kind = owner_instance, ow_id = ''qwen''\<rparr>"
    "lease_at l (resource_owner_key \<lparr>ow_kind = owner_instance, ow_id = ''qwen''\<rparr>) = Some x" "ls_state x = Pending"
    "ls_expires x = 180000000002"
    using sample_started by blast
  have k: "ow_kind \<lparr>ow_kind = owner_instance, ow_id = ''qwen''\<rparr> = owner_instance" by simp
  have t: "ls_expires x \<noteq> 0" "ls_expires x < 200000000000" using l(5) by simp_all
  show ?thesis using slow_start_commits_nothing [OF l(1,2) k l(3,4) t] l(1,3) by auto
qed

end
