(* ===== verification/Go_Format.thy ===== *)
theory Go_Format
  imports Go_Sort Complex_Main
begin

text \<open>
  Text the Go standard library makes of values: \<open>strconv.FormatFloat\<close> with the shortest digits
  in the \<open>g\<close> format, and \<open>strconv.Quote\<close>. Which code points above ASCII are printable is a
  table of the \<open>unicode\<close> package; the function \<open>printable\<close> stands for it.
\<close>

section \<open>Shortest decimals\<close>

definition pow10 :: "int \<Rightarrow> rat" where
  "pow10 k = (if 0 \<le> k then 10 ^ nat k else 1 / 10 ^ nat (- k))"

text \<open>
  The interval of the reals that round to the float, with its ends when the mantissa is even. The
  multiples of \<open>10^q\<close> in it: the largest \<open>q\<close> with one gives the shortest digits, and of the
  multiples the one next to the value is taken.
\<close>

definition multiple_in :: "rat \<Rightarrow> rat \<Rightarrow> bool \<Rightarrow> int \<Rightarrow> int \<Rightarrow> bool" where
  "multiple_in lo hi incl q d \<longleftrightarrow>
     (let v = of_int d * pow10 q in if incl then lo \<le> v \<and> v \<le> hi else lo < v \<and> v < hi)"

fun shortest_from :: "nat \<Rightarrow> rat \<Rightarrow> rat \<Rightarrow> rat \<Rightarrow> bool \<Rightarrow> int \<Rightarrow> int \<times> int" where
  "shortest_from 0 x lo hi incl q = (0, q)"
| "shortest_from (Suc n) x lo hi incl q =
     (let f = \<lfloor>x / pow10 q\<rfloor>;
          down = multiple_in lo hi incl q f; up = multiple_in lo hi incl q (f + 1);
          below = x - of_int f * pow10 q; above = of_int (f + 1) * pow10 q - x
      in if down \<and> 0 < f \<and> (\<not> up \<or> below < above \<or> below = above \<and> even f) then (f, q)
         else if up then (f + 1, q)
         else shortest_from n x lo hi incl (q - 1))"

text \<open>A power of ten above the value, at most \<open>n\<close> places from the start.\<close>

fun scale_up :: "nat \<Rightarrow> rat \<Rightarrow> int \<Rightarrow> int" where
  "scale_up 0 x k = k"
| "scale_up (Suc n) x k = (if pow10 k \<le> x then scale_up n x (k + 1) else k)"

fun scale_down :: "nat \<Rightarrow> rat \<Rightarrow> int \<Rightarrow> int" where
  "scale_down 0 x k = k"
| "scale_down (Suc n) x k = (if x < pow10 (k - 1) then scale_down n x (k - 1) else k)"

text \<open>\<open>%e\<close> and \<open>%f\<close> of the digits \<open>ds\<close> with the decimal point after the first \<open>dp\<close>.\<close>

definition format_e :: "string \<Rightarrow> int \<Rightarrow> string" where
  "format_e ds dp =
     (let ex = dp - 1; a = dec_string \<bar>ex\<bar>
      in take 1 ds @ (if 1 < length ds then CHR ''.'' # drop 1 ds else []) @ ''e'' @
         (if ex < 0 then ''-'' else ''+'') @ (if \<bar>ex\<bar> < 10 then CHR ''0'' # a else a))"

definition format_f :: "string \<Rightarrow> int \<Rightarrow> string" where
  "format_f ds dp =
     (if dp \<le> 0 then ''0.'' @ replicate (nat (- dp)) (CHR ''0'') @ ds
      else if int (length ds) \<le> dp then ds @ replicate (nat dp - length ds) (CHR ''0'')
      else take (nat dp) ds @ CHR ''.'' # drop (nat dp) ds)"

definition format_g :: "string \<Rightarrow> int \<Rightarrow> string" where
  "format_g ds dp = (if dp - 1 < - 4 \<or> 6 \<le> dp - 1 then format_e ds dp else format_f ds dp)"

text \<open>The float with \<open>mb\<close> mantissa bits and \<open>eb\<close> exponent bits, given as its bits.\<close>

definition format_float :: "nat \<Rightarrow> nat \<Rightarrow> int \<Rightarrow> string" where
  "format_float mb eb bits =
     (let mant = bits mod 2 ^ mb; ex = (bits div 2 ^ mb) mod 2 ^ eb;
          sign = (if (bits div 2 ^ (mb + eb)) mod 2 = 1 then ''-'' else []);
          bias = 2 ^ (eb - 1) - 1 :: int
      in if ex = 2 ^ eb - 1 then
           (if mant \<noteq> 0 then ''NaN'' else if sign = [] then ''+Inf'' else ''-Inf'')
         else if ex = 0 \<and> mant = 0 then sign @ ''0''
         else
           let m = (if ex = 0 then mant else mant + 2 ^ mb);
               e = (if ex = 0 then 1 else ex) - bias - int mb;
               ulp = (if 0 \<le> e then 2 ^ nat e else 1 / 2 ^ nat (- e)) :: rat;
               x = of_int m * ulp;
               hi = x + ulp / 2;
               lo = x - (if mant = 0 \<and> 1 < ex then ulp / 4 else ulp / 2);
               k = scale_down 400 x (scale_up 400 x 0);
               (d, q) = shortest_from 800 x lo hi (even m) k;
               ds = dec_string d
           in sign @ format_g ds (int (length ds) + q))"

section \<open>Quoting\<close>

text \<open>\<open>utf8.DecodeRuneInString\<close>: the code point and its width; \<open>None\<close> for an invalid byte.\<close>

definition cont_byte :: "int \<Rightarrow> bool" where
  "cont_byte b \<longleftrightarrow> 128 \<le> b \<and> b < 192"

definition decode_rune :: "string \<Rightarrow> (int \<times> nat) option" where
  "decode_rune s =
     (case map of_char (take 4 s) of
        [] \<Rightarrow> None
      | b0 # bs \<Rightarrow>
          if b0 < 128 then Some (b0, 1)
          else if 194 \<le> b0 \<and> b0 < 224 then
            (case bs of b1 # _ \<Rightarrow> if cont_byte b1 then Some ((b0 - 192) * 64 + (b1 - 128), 2) else None | [] \<Rightarrow> None)
          else if 224 \<le> b0 \<and> b0 < 240 then
            (case bs of b1 # b2 # _ \<Rightarrow>
               if cont_byte b1 \<and> cont_byte b2 \<and> (b0 = 224 \<longrightarrow> 160 \<le> b1) \<and> (b0 = 237 \<longrightarrow> b1 < 160)
               then Some ((b0 - 224) * 4096 + (b1 - 128) * 64 + (b2 - 128), 3) else None
             | _ \<Rightarrow> None)
          else if 240 \<le> b0 \<and> b0 < 245 then
            (case bs of b1 # b2 # b3 # _ \<Rightarrow>
               if cont_byte b1 \<and> cont_byte b2 \<and> cont_byte b3 \<and> (b0 = 240 \<longrightarrow> 144 \<le> b1) \<and> (b0 = 244 \<longrightarrow> b1 < 144)
               then Some ((b0 - 240) * 262144 + (b1 - 128) * 4096 + (b2 - 128) * 64 + (b3 - 128), 4) else None
             | _ \<Rightarrow> None)
          else None)"

definition hex_char :: "int \<Rightarrow> char" where
  "hex_char d = ''0123456789abcdef'' ! nat d"

fun hex_digits :: "nat \<Rightarrow> int \<Rightarrow> string" where
  "hex_digits 0 n = []"
| "hex_digits (Suc k) n = hex_digits k (n div 16) @ [hex_char (n mod 16)]"

definition quote_rune :: "(int \<Rightarrow> bool) \<Rightarrow> int \<Rightarrow> string \<Rightarrow> string" where
  "quote_rune printable r raw =
     (if r = 34 \<or> r = 92 then CHR 0x5C # raw
      else if (32 \<le> r \<and> r < 127) \<or> 128 \<le> r \<and> printable r then raw
      else if r = 7 then CHR 0x5C # ''a'' else if r = 8 then CHR 0x5C # ''b''
      else if r = 12 then CHR 0x5C # ''f'' else if r = 10 then CHR 0x5C # ''n''
      else if r = 13 then CHR 0x5C # ''r'' else if r = 9 then CHR 0x5C # ''t''
      else if r = 11 then CHR 0x5C # ''v''
      else if r < 32 \<or> r = 127 then CHR 0x5C # CHR ''x'' # hex_digits 2 r
      else if r < 65536 then CHR 0x5C # CHR ''u'' # hex_digits 4 r
      else CHR 0x5C # CHR ''U'' # hex_digits 8 r)"

function quote_body :: "(int \<Rightarrow> bool) \<Rightarrow> string \<Rightarrow> string" where
  "quote_body printable [] = []"
| "quote_body printable (c # s) =
     (case decode_rune (c # s) of
        None \<Rightarrow> (CHR 0x5C # CHR ''x'' # hex_digits 2 (of_char c)) @ quote_body printable s
      | Some (r, w) \<Rightarrow> quote_rune printable r (take w (c # s)) @ quote_body printable (drop (w - 1) s))"
  by pat_completeness auto
termination
  by (relation "measure (\<lambda>(p, s). length s)") auto

definition quote :: "(int \<Rightarrow> bool) \<Rightarrow> string \<Rightarrow> string" where
  "quote printable s = CHR 0x22 # quote_body printable s @ [CHR 0x22]"

end
