(* ===== verification/Gguf.thy ===== *)
theory Gguf
  imports Go_Format
begin

text \<open>
  \<open>backend/internal/ggufmeta\<close>: the reader of GGUF metadata, with the budgets that bound what a
  hostile file can make it read and keep. A reader is the bytes that are left; behind the
  counting reader of \<open>budget.go\<close> it also counts. The functions take \<open>printable\<close>, the
  Unicode table behind \<open>strconv.Quote\<close>. Opening the file is not modelled.
\<close>

section \<open>Bounds and errors\<close>

definition max_metadata_count :: int where "max_metadata_count = 4096"
definition max_array_count :: int where "max_array_count = 10000000"
definition max_string_bytes :: int where "max_string_bytes = 16 * 1024 * 1024"
definition max_display_bytes :: int where "max_display_bytes = 4096"
definition max_key_bytes :: int where "max_key_bytes = 64 * 1024"
definition max_array_preview :: int where "max_array_preview = 16"
definition max_retained :: int where "max_retained = 2 * 1024 * 1024"
definition max_section :: int where "max_section = 64 * 1024 * 1024"
definition max_tensor_dimensions :: int where "max_tensor_dimensions = 8"

datatype gguf_error =
    Eof
  | UnexpectedEof
  | BudgetExceeded
  | UnreasonableCount
  | InvalidMagic
  | UnsupportedVersion int
  | EmptyReader
  | Incomplete
  | UnsupportedType int
  | UnsupportedElement int
  | ArrayUnreasonable
  | NestedArray
  | ArrayTooLarge
  | StringUnreasonable
  | StringTooLarge
  | KeyUnreasonable
  | DimensionsUnreasonable
  | InKey string gguf_error
  | KeyRequired
  | KeyNotFound

section \<open>Readers\<close>

record reader =
  rd_bytes :: string
  rd_counted :: bool
  rd_consumed :: int
  rd_retained :: int

type_synonym 'a parser = "reader \<Rightarrow> gguf_error + 'a \<times> reader"

definition give :: "'a \<Rightarrow> 'a parser" where
  "give x s = Inr (x, s)"

definition fail :: "gguf_error \<Rightarrow> 'a parser" where
  "fail e s = Inl e"

definition andthen :: "'a parser \<Rightarrow> ('a \<Rightarrow> 'b parser) \<Rightarrow> 'b parser" where
  "andthen p f s = (case p s of Inl e \<Rightarrow> Inl e | Inr (x, s') \<Rightarrow> f x s')"

definition wrap_error :: "(gguf_error \<Rightarrow> gguf_error) \<Rightarrow> 'a parser \<Rightarrow> 'a parser" where
  "wrap_error w p s = (case p s of Inl e \<Rightarrow> Inl (w e) | Inr r \<Rightarrow> Inr r)"

text \<open>\<open>n\<close> bytes, or the error of a stream that ends after none or some of them.\<close>

definition take_bytes :: "int \<Rightarrow> gguf_error \<Rightarrow> gguf_error \<Rightarrow> string parser" where
  "take_bytes n none some s =
     (let have = int (length (rd_bytes s)); room = max_section - rd_consumed s
      in if n \<le> 0 then Inr ([], s)
         else if rd_counted s \<and> room < n \<and> room \<le> have then Inl BudgetExceeded
         else if have < n then Inl (if have = 0 then none else some)
         else Inr (take (nat n) (rd_bytes s),
           s\<lparr>rd_bytes := drop (nat n) (rd_bytes s),
             rd_consumed := (if rd_counted s then rd_consumed s + n else rd_consumed s)\<rparr>))"

text \<open>\<open>io.ReadFull\<close>.\<close>

definition read_full :: "int \<Rightarrow> string parser" where
  "read_full n = take_bytes n Eof UnexpectedEof"

text \<open>The number of little-endian bytes.\<close>

fun le_value :: "string \<Rightarrow> int" where
  "le_value [] = 0"
| "le_value (c # cs) = of_char c + 256 * le_value cs"

definition read_uint :: "int \<Rightarrow> int parser" where
  "read_uint width = andthen (read_full width) (\<lambda>bs. give (le_value bs))"

definition read_int :: "int \<Rightarrow> int parser" where
  "read_int width = andthen (read_uint width)
     (\<lambda>u. give (if 2 ^ (8 * nat width - 1) \<le> u then u - 2 ^ (8 * nat width) else u))"

text \<open>On the plain reader \<open>Peek\<close> fails with \<open>EOF\<close> however many bytes are missing.\<close>

definition read_u :: "int \<Rightarrow> int parser" where
  "read_u width s =
     (if rd_counted s then read_uint width s
      else andthen (take_bytes width Eof Eof) (\<lambda>bs. give (le_value bs)) s)"

definition read_u32 :: "int parser" where "read_u32 = read_u 4"
definition read_u64 :: "int parser" where "read_u64 = read_u 8"

text \<open>\<open>skipBytes\<close>: \<open>Discard\<close> on the plain reader, \<open>io.CopyN\<close> on the counting one.\<close>

definition skip_bytes :: "int \<Rightarrow> unit parser" where
  "skip_bytes n = andthen (take_bytes n Eof Eof) (\<lambda>bs. give ())"

definition add_retained :: "int \<Rightarrow> unit parser" where
  "add_retained n s =
     (if max_retained < n \<or> max_retained - n < rd_retained s then Inl BudgetExceeded
      else Inr ((), s\<lparr>rd_retained := rd_retained s + n\<rparr>))"

definition retain :: "string list \<Rightarrow> unit parser" where
  "retain parts = add_retained (sum_list (map (\<lambda>p. int (length p)) parts))"

definition bound_metadata_reader :: "unit parser" where
  "bound_metadata_reader s = Inr ((), s\<lparr>rd_counted := True, rd_consumed := 0, rd_retained := 0\<rparr>)"

text \<open>Back from the counting reader to the plain one under it.\<close>

definition plain_reader :: "unit parser" where
  "plain_reader s = Inr ((), s\<lparr>rd_counted := False\<rparr>)"

text \<open>A loop of \<open>n\<close> rounds.\<close>

fun repeat_parse :: "nat \<Rightarrow> 'a parser \<Rightarrow> 'a list parser" where
  "repeat_parse 0 p = give []"
| "repeat_parse (Suc n) p = andthen p (\<lambda>x. andthen (repeat_parse n p) (\<lambda>xs. give (x # xs)))"

section \<open>Values\<close>

record value_result =
  vr_type :: string
  vr_display :: string
  vr_truncated :: bool
  vr_length :: int
  vr_scalar :: bool

definition scalar_result :: "string \<Rightarrow> string \<Rightarrow> value_result" where
  "scalar_result name display =
     \<lparr>vr_type = name, vr_display = display, vr_truncated = False, vr_length = 0, vr_scalar = True\<rparr>"

definition fixed_size :: "int \<Rightarrow> int option" where
  "fixed_size t =
     (if t \<in> {0, 1, 7} then Some 1 else if t \<in> {2, 3} then Some 2 else if t \<in> {4, 5, 6} then Some 4
      else if t \<in> {10, 11, 12} then Some 8 else None)"

definition type_name :: "int \<Rightarrow> string option" where
  "type_name t = map_of [(0, ''uint8''), (1, ''int8''), (2, ''uint16''), (3, ''int16''), (4, ''uint32''),
     (5, ''int32''), (6, ''float32''), (7, ''bool''), (8, ''string''), (10, ''uint64''), (11, ''int64''),
     (12, ''float64'')] t"

text \<open>The bytes of the ellipsis in UTF-8.\<close>

definition ellipsis :: string where
  "ellipsis = [CHR 0xE2, CHR 0x80, CHR 0xA6]"

text \<open>The bytes of a string of length \<open>n\<close>: at most \<open>max_display_bytes\<close> are kept.\<close>

definition string_body :: "int \<Rightarrow> (string \<times> bool) parser" where
  "string_body n =
     (let truncated = (max_display_bytes < n); k = (if truncated then max_display_bytes else n)
      in andthen (read_full k) (\<lambda>buf.
         andthen (if k < n then skip_bytes (n - k) else give ()) (\<lambda>u.
           give (if truncated then buf @ ellipsis else buf, truncated))))"

definition read_string :: "(string \<times> bool) parser" where
  "read_string = andthen read_u64 (\<lambda>n.
     if max_string_bytes < n then fail StringUnreasonable else string_body n)"

text \<open>\<open>readValue\<close> of every type but arrays, which are not nested.\<close>

definition read_scalar :: "int \<Rightarrow> value_result parser" where
  "read_scalar t =
     (let unsigned = (\<lambda>name width. andthen (read_uint width) (\<lambda>v. give (scalar_result name (dec_string v))));
          signed = (\<lambda>name width. andthen (read_int width) (\<lambda>v. give (scalar_result name (format_int v))))
      in if t = 0 then unsigned ''uint8'' 1
         else if t = 1 then signed ''int8'' 1
         else if t = 2 then unsigned ''uint16'' 2
         else if t = 3 then signed ''int16'' 2
         else if t = 4 then unsigned ''uint32'' 4
         else if t = 5 then signed ''int32'' 4
         else if t = 6 then andthen (read_uint 4) (\<lambda>b. give (scalar_result ''float32'' (format_float 23 8 b)))
         else if t = 7 then andthen (read_uint 1)
           (\<lambda>v. give (scalar_result ''bool'' (if v \<noteq> 0 then ''true'' else ''false'')))
         else if t = 8 then andthen read_string
           (\<lambda>(v, truncated). give ((scalar_result ''string'' v)\<lparr>vr_truncated := truncated\<rparr>))
         else if t = 10 then unsigned ''uint64'' 8
         else if t = 11 then signed ''int64'' 8
         else if t = 12 then andthen (read_uint 8) (\<lambda>b. give (scalar_result ''float64'' (format_float 52 11 b)))
         else fail (UnsupportedType t))"

definition skip_value :: "int \<Rightarrow> unit parser" where
  "skip_value t =
     (case fixed_size t of
        Some width \<Rightarrow> skip_bytes width
      | None \<Rightarrow>
          if t = 8 then andthen read_u64 (\<lambda>n.
            if max_string_bytes < n then fail StringUnreasonable else skip_bytes n)
          else fail (UnsupportedElement t))"

definition max_i64 :: int where "max_i64 = 9223372036854775807"

definition skip_array_remainder :: "int \<Rightarrow> int \<Rightarrow> unit parser" where
  "skip_array_remainder t remaining =
     (case fixed_size t of
        Some width \<Rightarrow> if max_i64 div width < remaining then fail ArrayTooLarge else skip_bytes (remaining * width)
      | None \<Rightarrow> andthen (repeat_parse (nat remaining) (skip_value t)) (\<lambda>us. give ()))"

definition element_text :: "(int \<Rightarrow> bool) \<Rightarrow> int \<Rightarrow> value_result \<Rightarrow> string" where
  "element_text printable t v = (if t = 8 then quote printable (vr_display v) else vr_display v)"

definition array_display :: "string list \<Rightarrow> int \<Rightarrow> int \<Rightarrow> string" where
  "array_display preview n k =
     ''['' @ join_with '', '' preview @
     (if k < n then (if preview \<noteq> [] then '', '' else []) @ ellipsis @ '' '' @ dec_string (n - k) @ '' more'' else []) @
     '']''"

text \<open>The head of an array: its element type and number of elements, checked.\<close>

definition read_array_head :: "(int \<times> int) parser" where
  "read_array_head = andthen read_u32 (\<lambda>t. andthen read_u64 (\<lambda>n.
     if max_array_count < n then fail ArrayUnreasonable
     else if t = 9 then fail NestedArray
     else give (t, n)))"

definition read_array :: "(int \<Rightarrow> bool) \<Rightarrow> value_result parser" where
  "read_array printable = andthen read_array_head (\<lambda>(t, n).
     case type_name t of
       None \<Rightarrow> fail (UnsupportedElement t)
     | Some name \<Rightarrow>
         let k = min n max_array_preview
         in andthen (repeat_parse (nat k) (read_scalar t)) (\<lambda>vs.
            andthen (if 0 < n - k then skip_array_remainder t (n - k) else give ()) (\<lambda>u.
              give \<lparr>vr_type = ''array<'' @ name @ ''>'',
                vr_display = array_display (map (element_text printable t) vs) n k,
                vr_truncated = k < n \<or> list_ex vr_truncated vs, vr_length = n, vr_scalar = False\<rparr>)))"

definition read_value :: "(int \<Rightarrow> bool) \<Rightarrow> int \<Rightarrow> value_result parser" where
  "read_value printable t = (if t = 9 then read_array printable else read_scalar t)"

definition read_key :: "string parser" where
  "read_key = andthen read_u64 (\<lambda>n. if max_key_bytes < n then fail KeyUnreasonable else read_full n)"

section \<open>Derived facts and features\<close>

record derived =
  dv_architecture :: string
  dv_context :: i64
  dv_blocks :: i64
  dv_embedding :: i64
  dv_heads :: i64
  dv_kv_heads :: i64
  dv_key_length :: i64
  dv_value_length :: i64
  dv_experts :: i64
  dv_experts_used :: i64

definition get_string :: "(string \<rightharpoonup> string) \<Rightarrow> string \<Rightarrow> string" where
  "get_string m k = (case m k of None \<Rightarrow> [] | Some v \<Rightarrow> v)"

definition exact_int :: "(string \<rightharpoonup> string) \<Rightarrow> string \<Rightarrow> i64" where
  "exact_int values key =
     (if key = ''.'' then 0
      else case values key of
        None \<Rightarrow> 0
      | Some raw \<Rightarrow>
          (case parse_int raw of
             Some n \<Rightarrow> n
           | None \<Rightarrow> (case parse_uint raw of None \<Rightarrow> 0 | Some u \<Rightarrow> if max_i64 < u then 0 else u)))"

definition derive :: "(string \<rightharpoonup> string) \<Rightarrow> derived" where
  "derive values =
     (let arch = trim_space (get_string values ''general.architecture'');
          field = (\<lambda>name. exact_int values (arch @ ''.'' @ name))
      in \<lparr>dv_architecture = arch, dv_context = field ''context_length'', dv_blocks = field ''block_count'',
          dv_embedding = field ''embedding_length'', dv_heads = field ''attention.head_count'',
          dv_kv_heads = field ''attention.head_count_kv'', dv_key_length = field ''attention.key_length'',
          dv_value_length = field ''attention.value_length'', dv_experts = field ''expert_count'',
          dv_experts_used = field ''expert_used_count''\<rparr>)"

record features =
  ft_architecture :: string
  ft_next_n :: i64
  ft_has_mtp :: bool
  ft_mtp_only :: bool
  ft_projector :: bool

definition is_standalone_mtp :: "string \<Rightarrow> bool" where
  "is_standalone_mtp arch \<longleftrightarrow> to_lower (trim_space arch) \<in> {''gemma4-assistant'', ''gemma4_assistant''}"

text \<open>The number of NextN layers a value names, as \<open>ParseInt\<close> or else \<open>ParseUint\<close> read it.\<close>

definition next_n :: "string \<Rightarrow> i64 option" where
  "next_n raw =
     (case parse_int raw of
        Some n \<Rightarrow> if 0 < n then Some n else
          (case parse_uint raw of Some u \<Rightarrow> if 0 < u \<and> u \<le> max_i64 then Some u else None | None \<Rightarrow> None)
      | None \<Rightarrow>
          (case parse_uint raw of Some u \<Rightarrow> if 0 < u \<and> u \<le> max_i64 then Some u else None | None \<Rightarrow> None))"

definition base_features :: "string \<Rightarrow> features" where
  "base_features arch = \<lparr>ft_architecture = arch, ft_next_n = 0, ft_has_mtp = is_standalone_mtp arch,
     ft_mtp_only = is_standalone_mtp arch, ft_projector = equal_fold arch ''clip''\<rparr>"

definition with_next_n :: "features \<Rightarrow> string \<Rightarrow> features" where
  "with_next_n f raw = (case next_n raw of None \<Rightarrow> f | Some n \<Rightarrow> f\<lparr>ft_next_n := n, ft_has_mtp := True\<rparr>)"

definition summary_features :: "derived \<Rightarrow> (string \<rightharpoonup> string) \<Rightarrow> features" where
  "summary_features d values =
     (let arch = trim_space (dv_architecture d); f = base_features arch
      in if arch = [] then f
         else
           let raw = trim_space (get_string values (arch @ ''.nextn_predict_layers''))
           in if raw = [] then f else with_next_n f raw)"

section \<open>The file\<close>

text \<open>Magic, version and the two counts, which every entry point reads first.\<close>

definition read_header :: "(int \<times> int \<times> int) parser" where
  "read_header = andthen (read_full 4) (\<lambda>magic.
     if magic \<noteq> ''GGUF'' then fail InvalidMagic
     else andthen read_u32 (\<lambda>version.
       if version < 2 \<or> 3 < version then fail (UnsupportedVersion version)
       else andthen read_u64 (\<lambda>tensors. andthen read_u64 (\<lambda>n.
         if max_metadata_count < n then fail UnreasonableCount else give (version, tensors, n)))))"

text \<open>One tensor descriptor: its name.\<close>

definition read_tensor :: "string parser" where
  "read_tensor = andthen read_string (\<lambda>(name, truncated). andthen read_u32 (\<lambda>dims.
     if max_tensor_dimensions < dims then fail DimensionsUnreasonable
     else andthen (repeat_parse (nat dims) read_u64) (\<lambda>ds. andthen read_u32 (\<lambda>kind. andthen read_u64 (\<lambda>off.
       give name)))))"

fun tensor_prefix_loop :: "nat \<Rightarrow> string \<Rightarrow> bool parser" where
  "tensor_prefix_loop 0 prefix_s = give False"
| "tensor_prefix_loop (Suc n) prefix_s = andthen read_tensor (\<lambda>name.
     if has_prefix name prefix_s then give True else tensor_prefix_loop n prefix_s)"

definition tensor_prefix_present :: "int \<Rightarrow> string \<Rightarrow> bool parser" where
  "tensor_prefix_present n prefix_s = tensor_prefix_loop (nat n) prefix_s"

text \<open>The refinement of \<open>MTPOnly\<close> that goes on into the tensor directory.\<close>

definition refine_mtp :: "int \<Rightarrow> features \<Rightarrow> features parser" where
  "refine_mtp tensors f =
     (if ft_has_mtp f \<and> \<not> ft_mtp_only f
      then andthen plain_reader (\<lambda>u. andthen (tensor_prefix_present tensors ''blk.0.'') (\<lambda>has_trunk.
        give (f\<lparr>ft_mtp_only := \<not> has_trunk\<rparr>)))
      else give f)"

record entry =
  en_key :: string
  en_type :: string
  en_value :: string
  en_truncated :: bool
  en_length :: int

record inspection =
  is_version :: int
  is_tensors :: int
  is_count :: int
  is_metadata :: "entry list"
  is_derived :: derived
  is_features :: features

definition read_entry :: "(int \<Rightarrow> bool) \<Rightarrow> (entry \<times> bool) parser" where
  "read_entry printable = andthen read_key (\<lambda>key. andthen read_u32 (\<lambda>t.
     andthen (wrap_error (InKey key) (read_value printable t)) (\<lambda>v.
     andthen (retain [key, vr_display v]) (\<lambda>u.
       give (\<lparr>en_key = key, en_type = vr_type v, en_value = vr_display v, en_truncated = vr_truncated v,
              en_length = vr_length v\<rparr>, vr_scalar v)))))"

text \<open>The map \<open>scalars\<close>: a later entry overwrites an earlier one of the same key.\<close>

definition scalars_of :: "(entry \<times> bool) list \<Rightarrow> string \<rightharpoonup> string" where
  "scalars_of es = map_of (rev (map (\<lambda>(e, scalar). (en_key e, en_value e)) (filter snd es)))"

definition inspect :: "(int \<Rightarrow> bool) \<Rightarrow> inspection parser" where
  "inspect printable = andthen read_header (\<lambda>(version, tensors, n).
     andthen bound_metadata_reader (\<lambda>u.
     andthen (repeat_parse (nat n) (read_entry printable)) (\<lambda>es.
       let scalars = scalars_of es; d = derive scalars
       in andthen (refine_mtp tensors (summary_features d scalars)) (\<lambda>f.
          give \<lparr>is_version = version, is_tensors = tensors, is_count = n,
            is_metadata = sort_by (\<lambda>a b. en_key a < en_key b) (map fst es), is_derived = d, is_features = f\<rparr>))))"

definition features_from_inspection :: "inspection \<Rightarrow> features" where
  "features_from_inspection i =
     (let arch = trim_space (dv_architecture (is_derived i)); f = base_features arch
      in if arch = [] then f
         else case find (\<lambda>e. en_key e = arch @ ''.nextn_predict_layers'') (is_metadata i) of
           None \<Rightarrow> f
         | Some e \<Rightarrow> with_next_n f (trim_space (en_value e)))"

definition new_reader :: "string \<Rightarrow> reader" where
  "new_reader bs = \<lparr>rd_bytes = bs, rd_counted = False, rd_consumed = 0, rd_retained = 0\<rparr>"

definition run :: "'a parser \<Rightarrow> string \<Rightarrow> gguf_error + 'a" where
  "run p bs = (case p (new_reader bs) of Inl e \<Rightarrow> Inl e | Inr (x, s) \<Rightarrow> Inr x)"

section \<open>The summary\<close>

record summary =
  sm_version :: int
  sm_tensors :: int
  sm_count :: int
  sm_derived :: derived
  sm_features :: features

definition summary_metadata_key :: "string \<Rightarrow> bool" where
  "summary_metadata_key key \<longleftrightarrow>
     key = ''general.architecture'' \<or>
     list_ex (\<lambda>s. suffix s key) [''.context_length'', ''.block_count'', ''.embedding_length'',
       ''.attention.head_count'', ''.attention.head_count_kv'', ''.attention.key_length'',
       ''.attention.value_length'', ''.expert_count'', ''.expert_used_count'', ''.nextn_predict_layers'']"

definition skip_summary_string :: "unit parser" where
  "skip_summary_string = andthen read_u64 (\<lambda>n.
     if max_string_bytes < n then fail StringUnreasonable
     else if max_i64 < n then fail StringTooLarge
     else skip_bytes n)"

definition skip_summary_value :: "int \<Rightarrow> unit parser" where
  "skip_summary_value t =
     (case fixed_size t of
        Some width \<Rightarrow> skip_bytes width
      | None \<Rightarrow>
          if t = 8 then skip_summary_string
          else if t \<noteq> 9 then fail (UnsupportedType t)
          else andthen read_array_head (\<lambda>(et, n).
            case fixed_size et of
              Some width \<Rightarrow> if max_i64 div width < n then fail ArrayTooLarge else skip_bytes (n * width)
            | None \<Rightarrow>
                if et = 8 then andthen (repeat_parse (nat n) skip_summary_string) (\<lambda>us. give ())
                else fail (UnsupportedElement et)))"

text \<open>One entry of the summary: the key with its display when it is a scalar of interest.\<close>

definition summary_entry :: "(int \<Rightarrow> bool) \<Rightarrow> (string \<times> string) option parser" where
  "summary_entry printable = andthen read_key (\<lambda>key. andthen (retain [key]) (\<lambda>u. andthen read_u32 (\<lambda>t.
     if summary_metadata_key key
     then andthen (wrap_error (InKey key) (read_value printable t)) (\<lambda>v.
       andthen (retain [vr_display v]) (\<lambda>u. give (if vr_scalar v then Some (key, vr_display v) else None)))
     else andthen (wrap_error (InKey key) (skip_summary_value t)) (\<lambda>u. give None))))"

fun keep_some :: "'a option list \<Rightarrow> 'a list" where
  "keep_some [] = []"
| "keep_some (None # xs) = keep_some xs"
| "keep_some (Some x # xs) = x # keep_some xs"

definition read_summary :: "(int \<Rightarrow> bool) \<Rightarrow> summary parser" where
  "read_summary printable = andthen read_header (\<lambda>(version, tensors, n).
     andthen bound_metadata_reader (\<lambda>u.
     andthen (repeat_parse (nat n) (summary_entry printable)) (\<lambda>es.
       let values = map_of (rev (keep_some es)); d = derive values
       in andthen (refine_mtp tensors (summary_features d values)) (\<lambda>f.
          give \<lparr>sm_version = version, sm_tensors = tensors, sm_count = n, sm_derived = d, sm_features = f\<rparr>))))"

section \<open>Derived facts of a remote file\<close>

definition derived_core_ready :: "derived \<Rightarrow> bool" where
  "derived_core_ready d \<longleftrightarrow> dv_architecture d \<noteq> [] \<and> 0 < dv_blocks d \<and> 0 < dv_embedding d \<and> 0 < dv_heads d"

definition derived_entry :: "(int \<Rightarrow> bool) \<Rightarrow> (string \<times> string) option parser" where
  "derived_entry printable = andthen read_key (\<lambda>key. andthen (retain [key]) (\<lambda>u. andthen read_u32 (\<lambda>t.
     andthen (read_value printable t) (\<lambda>v.
       if vr_scalar v then andthen (retain [vr_display v]) (\<lambda>u. give (Some (key, vr_display v))) else give None))))"

text \<open>The loop keeps what it has read when an entry fails: the map and the error, if any.\<close>

fun derived_loop ::
    "(int \<Rightarrow> bool) \<Rightarrow> nat \<Rightarrow> (string \<rightharpoonup> string) \<Rightarrow> reader \<Rightarrow> (string \<rightharpoonup> string) \<times> gguf_error option" where
  "derived_loop printable 0 m s = (m, None)"
| "derived_loop printable (Suc n) m s =
     (case derived_entry printable s of
        Inl e \<Rightarrow> (m, Some e)
      | Inr (None, s') \<Rightarrow> derived_loop printable n m s'
      | Inr (Some (k, v), s') \<Rightarrow> derived_loop printable n (m(k \<mapsto> v)) s')"

definition zero_derived :: derived where
  "zero_derived = \<lparr>dv_architecture = [], dv_context = 0, dv_blocks = 0, dv_embedding = 0, dv_heads = 0,
     dv_kv_heads = 0, dv_key_length = 0, dv_value_length = 0, dv_experts = 0, dv_experts_used = 0\<rparr>"

text \<open>\<open>None\<close> is the \<open>nil\<close> reader. The message for a bad version differs, not the condition.\<close>

definition inspect_derived_reader :: "(int \<Rightarrow> bool) \<Rightarrow> string option \<Rightarrow> derived \<times> gguf_error option" where
  "inspect_derived_reader printable input =
     (case input of
        None \<Rightarrow> (zero_derived, Some EmptyReader)
      | Some bs \<Rightarrow>
          case andthen read_header (\<lambda>h. andthen bound_metadata_reader (\<lambda>u. give h)) (new_reader bs) of
            Inl e \<Rightarrow> (zero_derived, Some e)
          | Inr ((version, tensors, n), s) \<Rightarrow>
              case derived_loop printable (nat n) Map.empty s of
                (m, Some e) \<Rightarrow> (derive m, Some e)
              | (m, None) \<Rightarrow> (derive m, if derived_core_ready (derive m) then None else Some Incomplete))"

section \<open>Pages of one value\<close>

definition max_page_items :: int where "max_page_items = 100"
definition max_page_bytes :: int where "max_page_bytes = 16 * 1024"

record value_page =
  vp_key :: string
  vp_type :: string
  vp_value :: string
  vp_items :: "string list"
  vp_offset :: int
  vp_limit :: int
  vp_total :: int
  vp_has_more :: bool

definition page_limit :: "int \<Rightarrow> int \<Rightarrow> int" where
  "page_limit bound limit = (if limit = 0 \<or> bound < limit then bound else limit)"

definition read_string_page :: "int \<Rightarrow> int \<Rightarrow> value_page parser" where
  "read_string_page offset limit = andthen read_u64 (\<lambda>total_b.
     if max_string_bytes < total_b then fail StringUnreasonable
     else
       let off = min offset total_b; lim = page_limit max_page_bytes limit; k = min lim (total_b - off)
       in andthen (skip_bytes off) (\<lambda>u. andthen (read_full k) (\<lambda>buf.
         give \<lparr>vp_key = [], vp_type = ''string'', vp_value = buf, vp_items = [], vp_offset = off, vp_limit = lim,
           vp_total = total_b, vp_has_more = off + k < total_b\<rparr>)))"

definition read_array_page :: "(int \<Rightarrow> bool) \<Rightarrow> int \<Rightarrow> int \<Rightarrow> value_page parser" where
  "read_array_page printable offset limit = andthen read_array_head (\<lambda>(t, n).
     case type_name t of
       None \<Rightarrow> fail (UnsupportedElement t)
     | Some name \<Rightarrow>
         let off = min offset n; lim = page_limit max_page_items limit; k = min lim (n - off)
         in andthen (repeat_parse (nat off) (skip_value t)) (\<lambda>us.
            andthen (repeat_parse (nat k) (read_scalar t)) (\<lambda>vs.
              give \<lparr>vp_key = [], vp_type = ''array<'' @ name @ ''>'', vp_value = [],
                vp_items = map (element_text printable t) vs, vp_offset = off, vp_limit = lim, vp_total = n,
                vp_has_more = off + int (length vs) < n\<rparr>)))"

definition read_value_page_at :: "(int \<Rightarrow> bool) \<Rightarrow> int \<Rightarrow> int \<Rightarrow> int \<Rightarrow> value_page parser" where
  "read_value_page_at printable t offset limit =
     (if t = 8 then read_string_page offset limit
      else if t = 9 then read_array_page printable offset limit
      else andthen (read_value printable t) (\<lambda>v.
        give \<lparr>vp_key = [], vp_type = vr_type v, vp_value = vr_display v, vp_items = [], vp_offset = 0,
          vp_limit = 1, vp_total = 1, vp_has_more = False\<rparr>))"

fun find_page :: "(int \<Rightarrow> bool) \<Rightarrow> nat \<Rightarrow> string \<Rightarrow> int \<Rightarrow> int \<Rightarrow> value_page parser" where
  "find_page printable 0 key offset limit = fail KeyNotFound"
| "find_page printable (Suc n) key offset limit =
     andthen read_key (\<lambda>candidate. andthen (retain [candidate]) (\<lambda>u. andthen read_u32 (\<lambda>t.
       if candidate = key
       then andthen (wrap_error (InKey key) (read_value_page_at printable t offset limit)) (\<lambda>page.
         andthen (retain [vp_value page]) (\<lambda>u. andthen (foldr (\<lambda>item p. andthen (retain [item]) (\<lambda>u. p)) (vp_items page) (give ())) (\<lambda>u.
           give (page\<lparr>vp_key := key\<rparr>))))
       else andthen (wrap_error (InKey candidate) (skip_summary_value t)) (\<lambda>u.
         find_page printable n key offset limit))))"

definition read_value_page :: "(int \<Rightarrow> bool) \<Rightarrow> string \<Rightarrow> int \<Rightarrow> int \<Rightarrow> value_page parser" where
  "read_value_page printable key0 offset limit =
     (let key = trim_space key0
      in if key = [] then fail KeyRequired
         else andthen read_header (\<lambda>(version, tensors, n). andthen bound_metadata_reader (\<lambda>u.
           find_page printable (nat n) key offset limit)))"

end
