(* ===== verification/Gguf_Facts.thy ===== *)
theory Gguf_Facts
  imports Gguf
begin

text \<open>
  What the GGUF reader does on well-formed files, written by an encoder of the format, and on
  arbitrary ones: the round trip, the budgets, and that the summary agrees with the full inspection.
\<close>

section \<open>Parsers that read a known text\<close>

text \<open>
  \<open>reads p x bs r\<close>: on input that starts with \<open>bs\<close>, as long as the budgets allow, \<open>p\<close> returns \<open>x\<close>,
  consumes just \<open>bs\<close> and retains \<open>r\<close> bytes.
\<close>

definition reads :: "'a parser \<Rightarrow> 'a \<Rightarrow> string \<Rightarrow> nat \<Rightarrow> bool" where
  "reads p x bs r \<longleftrightarrow> (\<forall>s rest. rd_bytes s = bs @ rest \<longrightarrow>
     (rd_counted s \<longrightarrow> rd_consumed s + int (length bs) \<le> max_section) \<longrightarrow>
     0 \<le> rd_retained s \<longrightarrow> rd_retained s + int r \<le> max_retained \<longrightarrow>
     p s = Inr (x, s\<lparr>rd_bytes := rest,
       rd_consumed := (if rd_counted s then rd_consumed s + int (length bs) else rd_consumed s),
       rd_retained := rd_retained s + int r\<rparr>))"

lemma readsI:
  assumes "\<And>s rest. rd_bytes s = bs @ rest \<Longrightarrow>
     (rd_counted s \<Longrightarrow> rd_consumed s + int (length bs) \<le> max_section) \<Longrightarrow> 0 \<le> rd_retained s \<Longrightarrow> rd_retained s + int r \<le> max_retained \<Longrightarrow>
     p s = Inr (x, s\<lparr>rd_bytes := rest,
       rd_consumed := (if rd_counted s then rd_consumed s + int (length bs) else rd_consumed s),
       rd_retained := rd_retained s + int r\<rparr>)"
  shows "reads p x bs r"
  using assms by (simp add: reads_def)

lemma readsD:
  assumes "reads p x bs r" and "rd_bytes s = bs @ rest"
    and "rd_counted s \<Longrightarrow> rd_consumed s + int (length bs) \<le> max_section"
    and "0 \<le> rd_retained s" and "rd_retained s + int r \<le> max_retained"
  shows "p s = Inr (x, s\<lparr>rd_bytes := rest,
       rd_consumed := (if rd_counted s then rd_consumed s + int (length bs) else rd_consumed s),
       rd_retained := rd_retained s + int r\<rparr>)"
  using assms unfolding reads_def by blast

lemma reads_andthen [intro]:
  assumes "reads p x b1 r1" and "reads (f x) y b2 r2"
  shows "reads (andthen p f) y (b1 @ b2) (r1 + r2)"
proof (rule readsI)
  fix s :: reader and rest
  assume s: "rd_bytes s = (b1 @ b2) @ rest" "rd_counted s \<Longrightarrow> rd_consumed s + int (length (b1 @ b2)) \<le> max_section"
    "0 \<le> rd_retained s" "rd_retained s + int (r1 + r2) \<le> max_retained"
  let ?s = "s\<lparr>rd_bytes := b2 @ rest,
       rd_consumed := (if rd_counted s then rd_consumed s + int (length b1) else rd_consumed s),
       rd_retained := rd_retained s + int r1\<rparr>"
  have "rd_counted s \<longrightarrow> rd_consumed s + int (length b1) \<le> max_section" using s(2) by auto
  then have p: "p s = Inr (x, ?s)" using assms(1) s(1,3,4) by (simp add: reads_def)
  have "f x ?s = Inr (y, ?s\<lparr>rd_bytes := rest,
       rd_consumed := (if rd_counted ?s then rd_consumed ?s + int (length b2) else rd_consumed ?s),
       rd_retained := rd_retained ?s + int r2\<rparr>)"
    using s(2-4) by (intro readsD [OF assms(2)]) auto
  then show "andthen p f s = Inr (y, s\<lparr>rd_bytes := rest,
       rd_consumed := (if rd_counted s then rd_consumed s + int (length (b1 @ b2)) else rd_consumed s),
       rd_retained := rd_retained s + int (r1 + r2)\<rparr>)"
    by (simp add: andthen_def p add.assoc)
qed

lemma reads_andthen_eq:
  assumes "reads p x b1 r1" and "reads (f x) y b2 r2" and "bs = b1 @ b2" and "r = r1 + r2"
  shows "reads (andthen p f) y bs r"
  unfolding assms(3,4) using assms(1,2) by (rule reads_andthen)

lemma reads_give [intro, simp]: "reads (give x) x [] 0"
  by (simp add: reads_def give_def)

lemma reads_give_eq: "x = y \<Longrightarrow> reads (give x) y [] 0"
  by simp

lemma reads_andthen_give: "reads p x bs r \<Longrightarrow> reads (andthen p (\<lambda>v. give (f v))) (f x) bs r"
  using reads_andthen [of p x bs r "\<lambda>v. give (f v)" "f x" "[]" 0] by simp

lemma reads_wrap_error: "reads p x bs r \<Longrightarrow> reads (wrap_error w p) x bs r"
  by (simp add: reads_def wrap_error_def)

lemma reads_repeat:
  assumes "list_all2 (\<lambda>x b. reads p x (fst b) (snd b)) xs bs"
  shows "reads (repeat_parse (length xs) p) xs (concat (map fst bs)) (sum_list (map snd bs))"
  using assms
proof (induction rule: list_all2_induct)
  case (Cons x xs b bs)
  have "reads (andthen (repeat_parse (length xs) p) (\<lambda>ys. give (x # ys))) (x # xs) (concat (map fst bs)) (sum_list (map snd bs))"
    by (rule reads_andthen_give [OF Cons(3)])
  then show ?case using reads_andthen [OF Cons(1)] by simp
qed simp

lemma reads_take_bytes: "reads (take_bytes (int (length bs)) e1 e2) bs bs 0"
  by (rule readsI) (auto simp: take_bytes_def Let_def)

lemma reads_read_full: "reads (read_full (int (length bs))) bs bs 0"
  unfolding read_full_def by (rule reads_take_bytes)

lemma reads_skip: "int (length bs) = n \<Longrightarrow> reads (skip_bytes n) () bs 0"
  using reads_andthen_give [OF reads_take_bytes, of bs Eof Eof "\<lambda>bs. ()"] by (auto simp: skip_bytes_def)

lemma reads_retain: "reads (retain parts) () [] (sum_list (map length parts))"
proof -
  have eq: "(\<Sum>p\<leftarrow>parts. int (length p)) = int (sum_list (map length parts))" by (induction parts) simp_all
  show ?thesis unfolding retain_def eq by (rule readsI) (simp add: add_retained_def)
qed

section \<open>Encoding\<close>

fun le_bytes :: "nat \<Rightarrow> int \<Rightarrow> string" where
  "le_bytes 0 n = []"
| "le_bytes (Suc k) n = char_of (n mod 256) # le_bytes k (n div 256)"

lemma length_le_bytes [simp]: "length (le_bytes k n) = k"
  by (induction k arbitrary: n) auto

lemma le_value_bytes: "le_value (le_bytes k n) = n mod 256 ^ k"
proof (induction k arbitrary: n)
  case (Suc k)
  have "(of_char (char_of (n mod 256) :: char) :: int) = n mod 256"
    by (simp add: of_char_of)
  then show ?case using Suc zmod_zmult2_eq [of "256 ^ k" n 256] by simp
qed simp

lemma le_value_bytes_id: "0 \<le> n \<Longrightarrow> n < 256 ^ k \<Longrightarrow> le_value (le_bytes k n) = n"
  by (simp add: le_value_bytes)

lemma reads_uint: "0 \<le> n \<Longrightarrow> n < 256 ^ k \<Longrightarrow> reads (read_uint (int k)) n (le_bytes k n) 0"
  using reads_andthen_give [OF reads_read_full, of "le_bytes k n" le_value]
  by (simp add: read_uint_def le_value_bytes_id)

lemma reads_u: "0 \<le> n \<Longrightarrow> n < 256 ^ k \<Longrightarrow> reads (read_u (int k)) n (le_bytes k n) 0"
  using reads_uint [of n k] reads_andthen_give [OF reads_take_bytes, of "le_bytes k n" Eof Eof le_value]
  by (simp add: reads_def read_u_def le_value_bytes_id)

lemma reads_u32: "0 \<le> n \<Longrightarrow> n < 2 ^ 32 \<Longrightarrow> reads read_u32 n (le_bytes 4 n) 0"
  using reads_u [of n 4] by (simp add: read_u32_def)

lemma reads_u64: "0 \<le> n \<Longrightarrow> n < 2 ^ 64 \<Longrightarrow> reads read_u64 n (le_bytes 8 n) 0"
  using reads_u [of n 8] by (simp add: read_u64_def)

section \<open>Well-formed values\<close>

text \<open>A scalar of the format, with its type id where it has several; floats as their bits.\<close>

datatype meta = Num int int | Flag bool | Text string | Flt int int

fun meta_type :: "meta \<Rightarrow> int" where
  "meta_type (Num t v) = t"
| "meta_type (Flag b) = 7"
| "meta_type (Text v) = 8"
| "meta_type (Flt t b) = t"

definition num_width :: "int \<Rightarrow> nat" where
  "num_width t = (if t \<in> {0, 1, 7} then 1 else if t \<in> {2, 3} then 2 else if t \<in> {4, 5, 6} then 4 else 8)"

fun meta_bytes :: "meta \<Rightarrow> string" where
  "meta_bytes (Num t v) = le_bytes (num_width t) (v mod 256 ^ num_width t)"
| "meta_bytes (Flag b) = le_bytes 1 (if b then 1 else 0)"
| "meta_bytes (Text v) = le_bytes 8 (int (length v)) @ v"
| "meta_bytes (Flt t b) = le_bytes (num_width t) b"

text \<open>In the range of its type.\<close>

fun meta_ok :: "meta \<Rightarrow> bool" where
  "meta_ok (Num t v) \<longleftrightarrow>
     (t \<in> {0, 2, 4, 10} \<and> 0 \<le> v \<and> v < 256 ^ num_width t \<or>
      t \<in> {1, 3, 5, 11} \<and> - (256 ^ num_width t div 2) \<le> v \<and> v < 256 ^ num_width t div 2)"
| "meta_ok (Flag b) \<longleftrightarrow> True"
| "meta_ok (Text v) \<longleftrightarrow> int (length v) \<le> max_string_bytes"
| "meta_ok (Flt t b) \<longleftrightarrow> t \<in> {6, 12} \<and> 0 \<le> b \<and> b < 256 ^ num_width t"

fun meta_display :: "meta \<Rightarrow> string" where
  "meta_display (Num t v) = format_int v"
| "meta_display (Flag b) = (if b then ''true'' else ''false'')"
| "meta_display (Text v) =
     (if max_display_bytes < int (length v) then take (nat max_display_bytes) v @ ellipsis else v)"
| "meta_display (Flt t b) = (if t = 6 then format_float 23 8 b else format_float 52 11 b)"

fun meta_truncated :: "meta \<Rightarrow> bool" where
  "meta_truncated (Text v) = (max_display_bytes < int (length v))"
| "meta_truncated m = False"

definition meta_result :: "meta \<Rightarrow> value_result" where
  "meta_result m = \<lparr>vr_type = the (type_name (meta_type m)), vr_display = meta_display m,
     vr_truncated = meta_truncated m, vr_length = 0, vr_scalar = True\<rparr>"

lemma reads_signed:
  assumes "0 < k" and "- (256 ^ k div 2) \<le> v" and "v < 256 ^ k div 2"
  shows "reads (read_int (int k)) v (le_bytes k (v mod 256 ^ k)) 0"
proof -
  have p: "(256::int) ^ k = 2 ^ (8 * k)" by (simp add: power_mult)
  have u: "0 \<le> v mod 256 ^ k" "v mod 256 ^ k < 256 ^ k" by simp_all
  have half: "(256::int) ^ k = 2 * 2 ^ (8 * k - 1)"
    using assms(1) unfolding p by (simp flip: power_Suc)
  have h: "(256::int) ^ k div 2 = 2 ^ (8 * k - 1)" unfolding half by simp
  have v: "(if 2 ^ (8 * k - 1) \<le> v mod 256 ^ k then v mod 256 ^ k - 2 ^ (8 * k) else v mod 256 ^ k) = v"
  proof (cases "0 \<le> v")
    case True
    then show ?thesis using assms(3) unfolding h half by simp
  next
    case False
    have "v mod 256 ^ k = v + 256 ^ k"
      using False assms(2) unfolding h half by (intro int_mod_pos_eq [of _ _ "- 1"]) simp_all
    then show ?thesis using False assms(2) unfolding h p [symmetric] half by simp
  qed
  have "reads (read_int (int k))
      (if 2 ^ (8 * nat (int k) - 1) \<le> v mod 256 ^ k then v mod 256 ^ k - 2 ^ (8 * nat (int k)) else v mod 256 ^ k)
      (le_bytes k (v mod 256 ^ k)) 0"
    unfolding read_int_def by (rule reads_andthen_give [OF reads_uint [OF u]])
  then show ?thesis unfolding nat_int v .
qed

lemma format_int_nonneg: "0 \<le> v \<Longrightarrow> format_int v = dec_string v"
  by (simp add: format_int_def)

lemma reads_read_string:
  assumes "int (length v) \<le> max_string_bytes"
  shows "reads read_string (meta_display (Text v), meta_truncated (Text v)) (meta_bytes (Text v)) 0"
proof -
  let ?n = "int (length v)"
  define k where "k = (if max_display_bytes < ?n then max_display_bytes else ?n)"
  have k: "0 \<le> k" "k \<le> ?n" by (auto simp: k_def max_display_bytes_def)
  have n: "reads read_u64 ?n (le_bytes 8 ?n) 0"
    using assms by (intro reads_u64) (simp_all add: max_string_bytes_def)
  have buf: "reads (read_full k) (take (nat k) v) (take (nat k) v) 0"
    using reads_read_full [of "take (nat k) v"] k by simp
  have skip: "reads (if k < ?n then skip_bytes (?n - k) else give ()) () (drop (nat k) v) 0"
    using k reads_skip [of "drop (nat k) v" "?n - k"] by auto
  let ?rest = "\<lambda>buf. andthen (if k < ?n then skip_bytes (?n - k) else give ())
      (\<lambda>u. give (if max_display_bytes < ?n then buf @ ellipsis else buf, max_display_bytes < ?n))"
  have rest: "reads (?rest (take (nat k) v)) (meta_display (Text v), meta_truncated (Text v)) (drop (nat k) v) 0"
    by (rule reads_andthen_eq [OF skip]) (auto simp: k_def)
  have body: "reads (string_body ?n) (meta_display (Text v), meta_truncated (Text v)) v 0"
    unfolding string_body_def Let_def k_def [symmetric]
    by (rule reads_andthen_eq [OF buf], rule rest) simp_all
  show ?thesis
    unfolding read_string_def by (rule reads_andthen_eq [OF n]) (use body assms in simp_all)
qed

lemma reads_scalar:
  assumes "meta_ok m"
  shows "reads (read_scalar (meta_type m)) (meta_result m) (meta_bytes m) 0"
proof (cases m)
  case (Num t v)
  have unsigned: "reads (andthen (read_uint (int k)) (\<lambda>v. give (scalar_result name (dec_string v))))
      (scalar_result name (format_int v)) (le_bytes k (v mod 256 ^ k)) 0"
    if "0 \<le> v" "v < 256 ^ k" for k name
    using reads_andthen_give [OF reads_uint [OF that], of "\<lambda>v. scalar_result name (dec_string v)"] that
    by (simp add: format_int_nonneg)
  have signed: "reads (andthen (read_int (int k)) (\<lambda>v. give (scalar_result name (format_int v))))
      (scalar_result name (format_int v)) (le_bytes k (v mod 256 ^ k)) 0"
    if "0 < k" "- (256 ^ k div 2) \<le> v" "v < 256 ^ k div 2" for k name
    by (rule reads_andthen_give [OF reads_signed [OF that]])
  have ok: "t \<in> {0, 2, 4, 10} \<and> 0 \<le> v \<and> v < 256 ^ num_width t \<or>
      t \<in> {1, 3, 5, 11} \<and> - (256 ^ num_width t div 2) \<le> v \<and> v < 256 ^ num_width t div 2"
    using assms Num by simp
  then show ?thesis
    using unsigned [of "num_width t"] signed [of "num_width t"] Num
    by (elim disjE conjE insertE emptyE)
      (simp_all add: read_scalar_def num_width_def meta_result_def scalar_result_def type_name_def)
next
  case (Flag b)
  have "reads (read_uint 1) (if b then 1 else 0) (le_bytes 1 (if b then 1 else 0)) 0"
    using reads_uint [of "if b then 1 else 0" 1] by simp
  from reads_andthen_give [OF this, of "\<lambda>v. scalar_result ''bool'' (if v \<noteq> 0 then ''true'' else ''false'')"]
  show ?thesis using Flag by (simp add: read_scalar_def meta_result_def scalar_result_def type_name_def split: if_splits)
next
  case (Text v)
  have "reads read_string (meta_display (Text v), meta_truncated (Text v)) (meta_bytes (Text v)) 0"
    using assms Text by (intro reads_read_string) simp
  then have "reads (andthen read_string (\<lambda>(v, truncated). give ((scalar_result ''string'' v)\<lparr>vr_truncated := truncated\<rparr>)))
      (meta_result m) (meta_bytes m) 0"
    by (rule reads_andthen_eq) (simp_all add: Text meta_result_def scalar_result_def type_name_def)
  then show ?thesis using Text by (simp add: read_scalar_def)
next
  case (Flt t b)
  have "reads (read_uint (int (num_width t))) b (le_bytes (num_width t) b) 0"
    using assms Flt by (intro reads_uint) auto
  from reads_andthen_give [OF this, of "\<lambda>b. scalar_result ''float32'' (format_float 23 8 b)"]
    reads_andthen_give [OF this, of "\<lambda>b. scalar_result ''float64'' (format_float 52 11 b)"]
  show ?thesis using assms Flt
    by (auto simp: read_scalar_def num_width_def meta_result_def scalar_result_def type_name_def)
qed


section \<open>Well-formed entries\<close>

datatype item = One meta | Many int "meta list"

fun item_type :: "item \<Rightarrow> int" where
  "item_type (One m) = meta_type m"
| "item_type (Many t ms) = 9"

fun item_bytes :: "item \<Rightarrow> string" where
  "item_bytes (One m) = meta_bytes m"
| "item_bytes (Many t ms) = le_bytes 4 t @ le_bytes 8 (int (length ms)) @ concat (map meta_bytes ms)"

fun item_ok :: "item \<Rightarrow> bool" where
  "item_ok (One m) \<longleftrightarrow> meta_ok m"
| "item_ok (Many t ms) \<longleftrightarrow> type_name t \<noteq> None \<and> int (length ms) \<le> max_array_count \<and>
     list_all (\<lambda>m. meta_ok m \<and> meta_type m = t) ms"

text \<open>An array shows its first 16 elements and the number of the others.\<close>

definition preview_count :: "meta list \<Rightarrow> nat" where
  "preview_count ms = min (length ms) (nat max_array_preview)"

fun item_result :: "(int \<Rightarrow> bool) \<Rightarrow> item \<Rightarrow> value_result" where
  "item_result pr (One m) = meta_result m"
| "item_result pr (Many t ms) =
     (let k = preview_count ms; vs = map meta_result (take k ms)
      in \<lparr>vr_type = ''array<'' @ the (type_name t) @ ''>'',
          vr_display = array_display (map (element_text pr t) vs) (int (length ms)) (int k),
          vr_truncated = int k < int (length ms) \<or> list_ex vr_truncated vs,
          vr_length = int (length ms), vr_scalar = False\<rparr>)"

lemma meta_type_range: "meta_ok m \<Longrightarrow> 0 \<le> meta_type m \<and> meta_type m < 2 ^ 32"
  by (cases m) auto

lemma meta_bytes_fixed:
  "meta_ok m \<Longrightarrow> fixed_size (meta_type m) = Some w \<Longrightarrow> int (length (meta_bytes m)) = w"
  by (cases m) (auto simp: fixed_size_def num_width_def split: if_splits)

lemma type_name_cases:
  assumes "type_name t \<noteq> None"
  shows "t \<in> {0, 1, 2, 3, 4, 5, 6, 7, 8, 10, 11, 12}"
  using assms by (auto simp: type_name_def split: if_splits)

lemma fixed_size_cases: "fixed_size t = Some w \<Longrightarrow> w \<in> {1, 2, 4, 8}"
  by (auto simp: fixed_size_def split: if_splits)

lemma reads_skip_string:
  assumes "meta_ok m" and "meta_type m = 8"
  shows "reads (skip_value 8) () (meta_bytes m) 0"
proof -
  obtain v where m: "m = Text v" "int (length v) \<le> max_string_bytes"
    using assms by (cases m) auto
  have n: "reads read_u64 (int (length v)) (le_bytes 8 (int (length v))) 0"
    using m(2) by (intro reads_u64) (simp_all add: max_string_bytes_def)
  have "reads (andthen read_u64 (\<lambda>n. if max_string_bytes < n then fail StringUnreasonable else skip_bytes n)) ()
      (meta_bytes m) 0"
    by (rule reads_andthen_eq [OF n]) (use m reads_skip [of v] in simp_all)
  then show ?thesis by (simp add: skip_value_def fixed_size_def)
qed

lemma reads_repeat_same:
  assumes "\<And>m. m \<in> set ms \<Longrightarrow> reads p (f m) (meta_bytes m) 0" and "length ms = n"
  shows "reads (repeat_parse n p) (map f ms) (concat (map meta_bytes ms)) 0"
proof -
  have "list_all2 (\<lambda>x b. reads p x (fst b) (snd b)) (map f ms) (map (\<lambda>m. (meta_bytes m, 0)) ms)"
    using assms(1) by (simp add: list_all2_map1 list_all2_map2 list_all2_same)
  from reads_repeat [OF this] show ?thesis
    using assms(2) by (simp add: comp_def sum_list_0)
qed

lemma reads_skip_remainder:
  assumes "list_all (\<lambda>m. meta_ok m \<and> meta_type m = t) ms" and "type_name t \<noteq> None"
    and "int (length ms) \<le> max_array_count"
  shows "reads (skip_array_remainder t (int (length ms))) () (concat (map meta_bytes ms)) 0"
proof (cases "fixed_size t")
  case None
  then have t: "t = 8" using type_name_cases [OF assms(2)] by (auto simp: fixed_size_def)
  have "reads (repeat_parse (length ms) (skip_value 8)) (map (\<lambda>m. ()) ms) (concat (map meta_bytes ms)) 0"
    using assms(1) t by (intro reads_repeat_same) (auto simp: list_all_iff intro: reads_skip_string)
  from reads_andthen_give [OF this, of "\<lambda>us. ()"] show ?thesis
    using None t by (simp add: skip_array_remainder_def)
next
  case (Some w)
  have w: "w \<in> {1, 2, 4, 8}" by (rule fixed_size_cases [OF Some])
  have len: "int (length (concat (map meta_bytes ms))) = int (length ms) * w"
    using assms(1) Some by (induction ms) (auto simp: meta_bytes_fixed algebra_simps)
  have "\<not> max_i64 div w < int (length ms)"
    using w assms(3) by (auto simp: max_i64_def max_array_count_def)
  then show ?thesis using Some reads_skip [OF len] by (simp add: skip_array_remainder_def)
qed

lemma reads_array_head:
  assumes "type_name t \<noteq> None" and "0 \<le> n" and "n \<le> max_array_count"
  shows "reads read_array_head (t, n) (le_bytes 4 t @ le_bytes 8 n) 0"
proof -
  have t: "0 \<le> t" "t < 2 ^ 32" "t \<noteq> 9" using type_name_cases [OF assms(1)] by auto
  have n: "reads read_u64 n (le_bytes 8 n) 0"
    using assms(2,3) by (intro reads_u64) (simp_all add: max_array_count_def)
  have "reads (andthen read_u64 (\<lambda>n. if max_array_count < n then fail ArrayUnreasonable
      else if t = 9 then fail NestedArray else give (t, n))) (t, n) (le_bytes 8 n) 0"
    by (rule reads_andthen_eq [OF n]) (use assms(3) t(3) in simp_all)
  then show ?thesis
    unfolding read_array_head_def by (rule reads_andthen_eq [OF reads_u32 [OF t(1,2)]]) simp_all
qed

lemma reads_value:
  assumes "item_ok i"
  shows "reads (read_value pr (item_type i)) (item_result pr i) (item_bytes i) 0"
proof (cases i)
  case (One m)
  then have "meta_type m \<noteq> 9" using assms by (cases m) auto
  then show ?thesis using One assms reads_scalar by (simp add: read_value_def)
next
  case (Many t ms)
  have ok: "type_name t \<noteq> None" "int (length ms) \<le> max_array_count" "list_all (\<lambda>m. meta_ok m \<and> meta_type m = t) ms"
    using assms Many by auto
  obtain name where name: "type_name t = Some name" using ok(1) by auto
  let ?n = "int (length ms)" and ?k = "preview_count ms"
  have k: "nat (min ?n max_array_preview) = ?k" "min ?n max_array_preview = int ?k"
    by (auto simp: preview_count_def max_array_preview_def)
  have kl: "?k \<le> length ms" by (simp add: preview_count_def)
  have all: "list_all (\<lambda>m. meta_ok m \<and> meta_type m = t) (take ?k ms)" "list_all (\<lambda>m. meta_ok m \<and> meta_type m = t) (drop ?k ms)"
    using ok(3) by (auto simp: list_all_iff dest: in_set_takeD in_set_dropD)
  have vs: "reads (repeat_parse ?k (read_scalar t)) (map meta_result (take ?k ms)) (concat (map meta_bytes (take ?k ms))) 0"
  proof (rule reads_repeat_same)
    show "reads (read_scalar t) (meta_result m) (meta_bytes m) 0" if "m \<in> set (take ?k ms)" for m
      using reads_scalar [of m] all(1) that by (auto simp: list_all_iff)
  qed (use kl in simp)
  have left: "?n - int ?k = int (length (drop ?k ms))" using kl by auto
  have "int (length (drop ?k ms)) \<le> max_array_count" using ok(2) by simp
  note rem = reads_skip_remainder [OF all(2) ok(1) this, folded left]
  have skip: "reads (if 0 < ?n - int ?k then skip_array_remainder t (?n - int ?k) else give ()) ()
      (concat (map meta_bytes (drop ?k ms))) 0"
  proof (cases "drop ?k ms = []")
    case True
    then show ?thesis unfolding left by simp
  next
    case False
    then have "0 < ?n - int ?k" unfolding left by simp
    then show ?thesis using rem by simp
  qed
  let ?tail = "\<lambda>vs u. give \<lparr>vr_type = ''array<'' @ name @ ''>'',
      vr_display = array_display (map (element_text pr t) vs) ?n (int ?k),
      vr_truncated = int ?k < ?n \<or> list_ex vr_truncated vs, vr_length = ?n, vr_scalar = False\<rparr>"
  let ?vs = "map meta_result (take ?k ms)"
  have tail: "reads (andthen (if 0 < ?n - int ?k then skip_array_remainder t (?n - int ?k) else give ()) (?tail ?vs))
      (item_result pr i) (concat (map meta_bytes (drop ?k ms))) 0"
    by (rule reads_andthen_eq [OF skip]) (simp_all add: Many name Let_def)
  have body: "reads (andthen (repeat_parse ?k (read_scalar t)) (\<lambda>vs.
      andthen (if 0 < ?n - int ?k then skip_array_remainder t (?n - int ?k) else give ()) (?tail vs)))
      (item_result pr i) (concat (map meta_bytes ms)) 0"
    by (rule reads_andthen_eq [OF vs], rule tail) (simp_all flip: concat_append map_append)
  have "reads (read_array pr) (item_result pr i) (item_bytes i) 0"
    unfolding read_array_def
  proof (rule reads_andthen_eq [OF reads_array_head [OF ok(1) _ ok(2)]])
    show "reads (case (t, ?n) of (t, n) \<Rightarrow> case type_name t of None \<Rightarrow> fail (UnsupportedElement t)
        | Some name \<Rightarrow> let k = min n max_array_preview
            in andthen (repeat_parse (nat k) (read_scalar t)) (\<lambda>vs.
               andthen (if 0 < n - k then skip_array_remainder t (n - k) else give ()) (\<lambda>u.
               give \<lparr>vr_type = ''array<'' @ name @ ''>'',
                vr_display = array_display (map (element_text pr t) vs) n k,
                vr_truncated = k < n \<or> list_ex vr_truncated vs, vr_length = n, vr_scalar = False\<rparr>)))
        (item_result pr i) (concat (map meta_bytes ms)) 0"
      unfolding prod.case name option.case Let_def k nat_int by (rule body)
  qed (simp_all add: Many)
  then show ?thesis using Many by (simp add: read_value_def)
qed

text \<open>An entry: its key, its type and its value.\<close>

definition entry_bytes :: "string \<times> item \<Rightarrow> string" where
  "entry_bytes e = le_bytes 8 (int (length (fst e))) @ fst e @ le_bytes 4 (item_type (snd e)) @ item_bytes (snd e)"

definition entry_ok :: "string \<times> item \<Rightarrow> bool" where
  "entry_ok e \<longleftrightarrow> int (length (fst e)) \<le> max_key_bytes \<and> item_ok (snd e)"

definition entry_of :: "(int \<Rightarrow> bool) \<Rightarrow> string \<times> item \<Rightarrow> entry \<times> bool" where
  "entry_of pr e = (let v = item_result pr (snd e) in
     (\<lparr>en_key = fst e, en_type = vr_type v, en_value = vr_display v, en_truncated = vr_truncated v, en_length = vr_length v\<rparr>,
      vr_scalar v))"

definition entry_retained :: "(int \<Rightarrow> bool) \<Rightarrow> string \<times> item \<Rightarrow> nat" where
  "entry_retained pr e = length (fst e) + length (vr_display (item_result pr (snd e)))"

lemma item_type_range: "item_ok i \<Longrightarrow> 0 \<le> item_type i \<and> item_type i < 2 ^ 32"
  by (cases i) (auto dest: meta_type_range)

lemma reads_key:
  assumes "int (length k) \<le> max_key_bytes"
  shows "reads read_key k (le_bytes 8 (int (length k)) @ k) 0"
proof -
  have "reads read_u64 (int (length k)) (le_bytes 8 (int (length k))) 0"
    using assms by (intro reads_u64) (simp_all add: max_key_bytes_def)
  then show ?thesis
    unfolding read_key_def by (rule reads_andthen_eq) (use assms reads_read_full in simp_all)
qed

lemma reads_entry:
  assumes "entry_ok e"
  shows "reads (read_entry pr) (entry_of pr e) (entry_bytes e) (entry_retained pr e)"
proof -
  obtain k i where e: "e = (k, i)" by (cases e)
  have ok: "int (length k) \<le> max_key_bytes" "item_ok i" using assms by (simp_all add: entry_ok_def e)
  let ?v = "item_result pr i"
  have retain: "reads (retain [k, vr_display ?v]) () [] (entry_retained pr e)"
    using reads_retain [of "[k, vr_display ?v]"] by (simp add: entry_retained_def e)
  have t: "reads read_u32 (item_type i) (le_bytes 4 (item_type i)) 0"
    using item_type_range [OF ok(2)] by (intro reads_u32) simp_all
  have v: "reads (wrap_error (InKey k) (read_value pr (item_type i))) ?v (item_bytes i) 0"
    by (rule reads_wrap_error [OF reads_value [OF ok(2)]])
  show ?thesis
    unfolding read_entry_def
    apply (rule reads_andthen_eq [OF reads_key [OF ok(1)]])
      apply (rule reads_andthen_eq [OF t])
        apply (rule reads_andthen_eq [OF v])
          apply (rule reads_andthen_eq [OF retain])
            apply (rule reads_give_eq)
            apply (simp_all add: entry_of_def entry_bytes_def Let_def e)
    done
qed


section \<open>The round trip\<close>

record document =
  dc_version :: int
  dc_tensors :: int
  dc_entries :: "(string \<times> item) list"

definition header_bytes :: "document \<Rightarrow> string" where
  "header_bytes d = ''GGUF'' @ le_bytes 4 (dc_version d) @ le_bytes 8 (dc_tensors d) @
     le_bytes 8 (int (length (dc_entries d)))"

definition section_bytes :: "document \<Rightarrow> string" where
  "section_bytes d = concat (map entry_bytes (dc_entries d))"

text \<open>Within the format and the budgets.\<close>

definition document_ok :: "(int \<Rightarrow> bool) \<Rightarrow> document \<Rightarrow> bool" where
  "document_ok pr d \<longleftrightarrow>
     2 \<le> dc_version d \<and> dc_version d \<le> 3 \<and> 0 \<le> dc_tensors d \<and> dc_tensors d < 2 ^ 64 \<and>
     int (length (dc_entries d)) \<le> max_metadata_count \<and> list_all entry_ok (dc_entries d) \<and>
     int (length (section_bytes d)) \<le> max_section \<and>
     int (sum_list (map (entry_retained pr) (dc_entries d))) \<le> max_retained"

lemma reads_header:
  assumes "document_ok pr d"
  shows "reads read_header (dc_version d, dc_tensors d, int (length (dc_entries d))) (header_bytes d) 0"
proof -
  have magic: "reads (read_full 4) ''GGUF'' ''GGUF'' 0" using reads_read_full [of "''GGUF''"] by simp
  have v: "reads read_u32 (dc_version d) (le_bytes 4 (dc_version d)) 0"
    and t: "reads read_u64 (dc_tensors d) (le_bytes 8 (dc_tensors d)) 0"
    and n: "reads read_u64 (int (length (dc_entries d))) (le_bytes 8 (int (length (dc_entries d)))) 0"
    using assms by (auto simp: document_ok_def max_metadata_count_def intro!: reads_u32 reads_u64)
  have c: "\<not> (dc_version d < 2 \<or> 3 < dc_version d)" "\<not> max_metadata_count < int (length (dc_entries d))"
    using assms by (auto simp: document_ok_def)
  show ?thesis
    unfolding read_header_def header_bytes_def
    apply (rule reads_andthen_eq [OF magic])
      apply (subst if_not_P, simp)
      apply (rule reads_andthen_eq [OF v])
        apply (subst if_not_P [OF c(1)])
        apply (rule reads_andthen_eq [OF t])
          apply (rule reads_andthen_eq [OF n])
            apply (subst if_not_P [OF c(2)])
            apply (rule reads_give)
           apply simp_all
    done
qed

lemma reads_entries:
  assumes "list_all entry_ok es"
  shows "reads (repeat_parse (length es) (read_entry pr)) (map (entry_of pr) es) (concat (map entry_bytes es))
    (sum_list (map (entry_retained pr) es))"
proof -
  have "list_all2 (\<lambda>x b. reads (read_entry pr) x (fst b) (snd b)) (map (entry_of pr) es)
      (map (\<lambda>e. (entry_bytes e, entry_retained pr e)) es)"
    using assms reads_entry by (simp add: list_all2_map1 list_all2_map2 list_all2_same list_all_iff)
  from reads_repeat [OF this] show ?thesis by (simp add: comp_def)
qed

text \<open>The header, then the entries behind the counting reader.\<close>

lemma header_and_entries:
  assumes "document_ok pr d"
  shows "\<exists>s. rd_bytes s = rest \<and> andthen read_header (\<lambda>(version, tensors, n).
      andthen bound_metadata_reader (\<lambda>u. andthen (repeat_parse (nat n) (read_entry pr)) (k version tensors n)))
      (new_reader (header_bytes d @ section_bytes d @ rest)) =
    k (dc_version d) (dc_tensors d) (int (length (dc_entries d))) (map (entry_of pr) (dc_entries d)) s"
proof -
  let ?r = "new_reader (header_bytes d @ section_bytes d @ rest)"
  let ?s = "?r\<lparr>rd_bytes := section_bytes d @ rest\<rparr>"
  have h: "read_header ?r = Inr ((dc_version d, dc_tensors d, int (length (dc_entries d))), ?s)"
    using readsD [OF reads_header [OF assms], of ?r "section_bytes d @ rest"]
    by (simp add: new_reader_def max_retained_def)
  let ?b = "?s\<lparr>rd_counted := True, rd_consumed := 0, rd_retained := 0\<rparr>"
  have ok: "list_all entry_ok (dc_entries d)" using assms by (simp add: document_ok_def)
  note entries = reads_entries [OF ok, of pr, folded section_bytes_def]
  obtain s where s: "repeat_parse (length (dc_entries d)) (read_entry pr) ?b = Inr (map (entry_of pr) (dc_entries d), s)"
    "rd_bytes s = rest"
    using readsD [OF entries, of ?b rest] assms by (simp add: document_ok_def)
  show ?thesis
    by (rule exI [of _ s]) (simp add: s(2) andthen_def h bound_metadata_reader_def s(1))
qed

definition document_scalars :: "(int \<Rightarrow> bool) \<Rightarrow> document \<Rightarrow> string \<rightharpoonup> string" where
  "document_scalars pr d = scalars_of (map (entry_of pr) (dc_entries d))"



definition sample_document :: document where
  "sample_document = \<lparr>dc_version = 3, dc_tensors = 0, dc_entries =
     [(''llama.block_count'', One (Num 4 32)), (''general.architecture'', One (Text ''llama'')),
      (''tokens'', Many 8 [Text ''a'', Text ''b''])]\<rparr>"


section \<open>Budgets\<close>

text \<open>Parsers that do not retain anything of their own.\<close>

definition pure :: "'a parser \<Rightarrow> bool" where
  "pure p \<longleftrightarrow> (\<forall>s x s'. p s = Inr (x, s') \<longrightarrow> rd_retained s' = rd_retained s \<and> rd_counted s' = rd_counted s)"

lemma andthen_Inr:
  "andthen p f s = Inr (y, s') \<longleftrightarrow> (\<exists>x s1. p s = Inr (x, s1) \<and> f x s1 = Inr (y, s'))"
  by (auto simp: andthen_def split: sum.splits)

lemma pureD: "pure p \<Longrightarrow> p s = Inr (x, s') \<Longrightarrow> rd_retained s' = rd_retained s"
  by (simp add: pure_def)

named_theorems pure_intros \<open>parsers that retain nothing\<close>

lemma pure_basic [pure_intros]: "pure (give x)" "pure (fail e)" "pure (take_bytes n e1 e2)"
  by (auto simp: pure_def give_def fail_def take_bytes_def Let_def split: if_splits)

lemma pure_andthen [pure_intros]: "pure p \<Longrightarrow> (\<And>x. pure (f x)) \<Longrightarrow> pure (andthen p f)"
  unfolding pure_def andthen_Inr by metis

lemma pure_wrap [pure_intros]: "pure p \<Longrightarrow> pure (wrap_error w p)"
  by (auto simp: pure_def wrap_error_def split: sum.splits)

lemma pure_if [pure_intros]: "pure p \<Longrightarrow> pure q \<Longrightarrow> pure (if b then p else q)"
  by simp

lemma pure_option [pure_intros]: "pure p \<Longrightarrow> (\<And>x. pure (f x)) \<Longrightarrow> pure (case opt of None \<Rightarrow> p | Some x \<Rightarrow> f x)"
  by (cases opt) simp_all

lemma pure_prod [pure_intros]: "(\<And>a b. pure (f a b)) \<Longrightarrow> pure (case pr of (a, b) \<Rightarrow> f a b)"
  by (cases pr) simp

lemma pure_repeat [pure_intros]: "pure p \<Longrightarrow> pure (repeat_parse n p)"
  by (induction n) (simp_all add: pure_intros)

lemma pure_read_u: "pure (read_u n)"
proof -
  have "pure (read_uint n)" "pure (andthen (take_bytes n Eof Eof) (\<lambda>bs. give (le_value bs)))"
    unfolding read_uint_def read_full_def by (intro pure_intros)+
  then show ?thesis unfolding pure_def read_u_def by metis
qed

lemma pure_readers [pure_intros]:
  "pure (read_full n)" "pure (skip_bytes n)" "pure (read_uint n)" "pure (read_int n)" "pure read_u32" "pure read_u64"
  unfolding read_full_def skip_bytes_def read_uint_def read_int_def read_u32_def read_u64_def
  by (intro pure_intros pure_read_u)+

lemma pure_read_string [pure_intros]: "pure read_string"
  unfolding read_string_def string_body_def Let_def by (intro pure_intros)

lemma pure_read_scalar [pure_intros]: "pure (read_scalar t)"
  unfolding read_scalar_def Let_def by (intro pure_intros)

lemma pure_read_value [pure_intros]: "pure (read_value pr t)" "pure read_key"
  unfolding read_value_def read_array_def read_array_head_def skip_array_remainder_def skip_value_def read_key_def Let_def
  by (intro pure_intros)+

lemma le_value_nonneg: "0 \<le> le_value cs"
proof (induction cs)
  case (Cons c cs)
  have "0 \<le> (of_char c :: int)" by (metis of_nat_0_le_iff of_nat_of_char)
  then show ?case using Cons by simp
qed simp

lemma read_u_nonneg: "read_u w s = Inr (x, s') \<Longrightarrow> 0 \<le> x"
  using le_value_nonneg by (auto simp: read_u_def read_uint_def andthen_Inr give_def split: if_splits)

lemma read_u64_nonneg: "read_u64 s = Inr (x, s') \<Longrightarrow> 0 \<le> x"
  unfolding read_u64_def by (rule read_u_nonneg)

lemma retain_Inr:
  "retain parts s = Inr (u, s') \<longleftrightarrow> (\<Sum>p\<leftarrow>parts. int (length p)) \<le> max_retained \<and>
    rd_retained s + (\<Sum>p\<leftarrow>parts. int (length p)) \<le> max_retained \<and>
    s' = s\<lparr>rd_retained := rd_retained s + (\<Sum>p\<leftarrow>parts. int (length p))\<rparr>"
  by (auto simp: retain_def add_retained_def)

lemma sum_list_map_mset: "mset xs = mset ys \<Longrightarrow> sum_list (map f xs) = (sum_list (map f ys) :: int)"
  by (metis mset_map sum_mset_sum_list)

text \<open>An entry retains its key and its display.\<close>

definition kept :: "entry \<times> bool \<Rightarrow> int" where
  "kept e = int (length (en_key (fst e))) + int (length (en_value (fst e)))"

lemma read_entry_kept:
  assumes "read_entry pr s = Inr (e, s')"
  shows "rd_retained s' = rd_retained s + kept e \<and> rd_retained s' \<le> max_retained"
proof -
  obtain key s1 t s2 v s3 u where r: "read_key s = Inr (key, s1)" "read_u32 s1 = Inr (t, s2)"
    "wrap_error (InKey key) (read_value pr t) s2 = Inr (v, s3)" "retain [key, vr_display v] s3 = Inr (u, s')"
    "en_key (fst e) = key" "en_value (fst e) = vr_display v"
    using assms by (auto simp: read_entry_def andthen_Inr give_def)
  have "rd_retained s3 = rd_retained s"
  proof -
    have "pure read_key" "pure read_u32" "pure (wrap_error (InKey key) (read_value pr t))" by (intro pure_intros)+
    then show ?thesis using r(1-3) by (simp add: pureD)
  qed
  then show ?thesis using r(4-6) by (auto simp: retain_Inr kept_def)
qed

lemma read_entries_kept:
  "repeat_parse n (read_entry pr) s = Inr (es, s') \<Longrightarrow>
    length es = n \<and> rd_retained s' = rd_retained s + sum_list (map kept es) \<and> (es \<noteq> [] \<longrightarrow> rd_retained s' \<le> max_retained)"
proof (induction n arbitrary: s es)
  case 0
  then show ?case by (simp add: give_def)
next
  case (Suc n)
  obtain e s1 fs where r: "read_entry pr s = Inr (e, s1)" "repeat_parse n (read_entry pr) s1 = Inr (fs, s')" "es = e # fs"
    using Suc.prems by (auto simp: andthen_Inr give_def)
  then show ?case
    using read_entry_kept [OF r(1)] Suc.IH [OF r(2)] by (cases fs) auto
qed

text \<open>
  C33. The budgets hold for every input, hostile or not: an inspection that succeeds has at most 4096
  entries, and their keys and displayed values take at most 2 MiB together.
\<close>

theorem inspect_bounded:
  assumes "run (inspect pr) bs = Inr i"
  shows "int (length (is_metadata i)) = is_count i \<and> is_count i \<le> max_metadata_count \<and>
    (\<Sum>e\<leftarrow>is_metadata i. int (length (en_key e)) + int (length (en_value e))) \<le> max_retained"
proof -
  obtain s' where i: "inspect pr (new_reader bs) = Inr (i, s')"
    using assms by (auto simp: run_def split: sum.splits)
  obtain version tensors n s1 es s2 where r: "read_header (new_reader bs) = Inr ((version, tensors, n), s1)"
    "repeat_parse (nat n) (read_entry pr) (s1\<lparr>rd_counted := True, rd_consumed := 0, rd_retained := 0\<rparr>) = Inr (es, s2)"
    "is_metadata i = sort_by (\<lambda>a b. en_key a < en_key b) (map fst es)" "is_count i = n"
    using i by (auto simp: inspect_def andthen_Inr bound_metadata_reader_def Let_def give_def)
  have n: "n \<le> max_metadata_count"
    using r(1) by (auto simp: read_header_def andthen_Inr fail_def give_def split: if_splits)
  have n0: "0 \<le> n"
    using r(1) by (auto simp: read_header_def andthen_Inr fail_def give_def split: if_splits dest!: read_u64_nonneg)
  note k = read_entries_kept [OF r(2)]
  have "(\<Sum>e\<leftarrow>is_metadata i. int (length (en_key e)) + int (length (en_value e))) = sum_list (map kept es)"
  proof -
    have "mset (is_metadata i) = mset (map fst es)" unfolding r(3) by simp
    then have "(\<Sum>e\<leftarrow>is_metadata i. int (length (en_key e)) + int (length (en_value e))) =
        (\<Sum>e\<leftarrow>map fst es. int (length (en_key e)) + int (length (en_value e)))"
      by (rule sum_list_map_mset)
    then show ?thesis unfolding kept_def [abs_def] map_map comp_def .
  qed
  moreover have "sum_list (map kept es) \<le> max_retained"
    using k by (cases es) (auto simp: max_retained_def)
  ultimately show ?thesis using k r(3,4) n n0 by simp
qed

theorem inspect_bounded_witness:
  "\<exists>i. run (inspect (\<lambda>r. True)) (header_bytes sample_document @ section_bytes sample_document) = Inr i \<and>
    is_count i \<le> max_metadata_count \<and>
    (\<Sum>e\<leftarrow>is_metadata i. int (length (en_key e)) + int (length (en_value e))) \<le> max_retained"
proof -
  have "\<not> isl (run (inspect (\<lambda>r. True)) (header_bytes sample_document @ section_bytes sample_document))" by code_simp
  then obtain i where i: "run (inspect (\<lambda>r. True)) (header_bytes sample_document @ section_bytes sample_document) = Inr i"
    by (metis sum.collapse(2))
  show ?thesis using inspect_bounded [OF i] i by blast
qed

end
