(* ===== verification/Gguf_Summary.thy ===== *)
theory Gguf_Summary
  imports Gguf_Facts
begin

text \<open>
  The summary reader is an optimised inspection: it skips the values it does not need. Here is the
  simulation that shows it returns what the inspection would derive, for every file.
\<close>

section \<open>Simulation\<close>

text \<open>The same position; the second reader has retained no more.\<close>

definition same_place :: "reader \<Rightarrow> reader \<Rightarrow> bool" where
  "same_place s t \<longleftrightarrow> rd_bytes s = rd_bytes t \<and> rd_counted s = rd_counted t \<and> rd_consumed s = rd_consumed t"

text \<open>Whenever \<open>p\<close> succeeds, \<open>q\<close> does so at the same place, with a related result, retaining nothing.\<close>

definition sim :: "('a \<Rightarrow> 'b \<Rightarrow> bool) \<Rightarrow> 'a parser \<Rightarrow> 'b parser \<Rightarrow> bool" where
  "sim R p q \<longleftrightarrow> (\<forall>s t x s'. same_place s t \<longrightarrow> p s = Inr (x, s') \<longrightarrow>
     (\<exists>y t'. q t = Inr (y, t') \<and> R x y \<and> same_place s' t' \<and> rd_retained t' = rd_retained t))"

named_theorems sim_intros \<open>simulations of parsers\<close>

lemma simD:
  "sim R p q \<Longrightarrow> same_place s t \<Longrightarrow> p s = Inr (x, s') \<Longrightarrow>
    \<exists>y t'. q t = Inr (y, t') \<and> R x y \<and> same_place s' t' \<and> rd_retained t' = rd_retained t"
  unfolding sim_def by blast

lemma sim_give [sim_intros]: "R x y \<Longrightarrow> sim R (give x) (give y)"
  by (auto simp: sim_def give_def)

lemma sim_fail [sim_intros]: "sim R (fail e) q"
  by (simp add: sim_def fail_def)

lemma sim_andthen:
  assumes "sim R p q" and "\<And>x y. R x y \<Longrightarrow> sim S (f x) (g y)"
  shows "sim S (andthen p f) (andthen q g)"
  unfolding sim_def
proof (intro allI impI)
  fix s t x s'
  assume st: "same_place s t" and r: "andthen p f s = Inr (x, s')"
  then obtain u s1 where u: "p s = Inr (u, s1)" "f u s1 = Inr (x, s')" by (auto simp: andthen_Inr)
  obtain v t1 where v: "q t = Inr (v, t1)" "R u v" "same_place s1 t1" "rd_retained t1 = rd_retained t"
    using simD [OF assms(1) st u(1)] by blast
  obtain y t' where "g v t1 = Inr (y, t')" "S x y" "same_place s' t'" "rd_retained t' = rd_retained t1"
    using simD [OF assms(2) [OF v(2)] v(3) u(2)] by blast
  then show "\<exists>y t'. andthen q g t = Inr (y, t') \<and> S x y \<and> same_place s' t' \<and> rd_retained t' = rd_retained t"
    using v by (auto simp: andthen_Inr)
qed

lemma sim_mono: "sim R p q \<Longrightarrow> (\<And>x y. R x y \<Longrightarrow> S x y) \<Longrightarrow> sim S p q"
  unfolding sim_def by blast

lemma sim_wrap: "sim R p q \<Longrightarrow> sim R (wrap_error w p) (wrap_error w' q)"
  unfolding sim_def wrap_error_def by (fastforce split: sum.splits)

lemma sim_repeat: "sim R p q \<Longrightarrow> sim (list_all2 R) (repeat_parse n p) (repeat_parse n q)"
proof (induction n)
  case (Suc n)
  show ?case
    unfolding repeat_parse.simps
    by (rule sim_andthen [OF Suc.prems], rule sim_andthen [OF Suc.IH [OF Suc.prems]], rule sim_give) simp
qed (simp add: sim_give)

lemma sim_take_bytes: "sim (=) (take_bytes n e1 e2) (take_bytes n d1 d2)"
  by (auto simp: sim_def same_place_def take_bytes_def Let_def split: if_splits)

lemma sim_read_u: "sim (=) (read_u w) (read_u w)"
proof -
  have a: "sim (=) (read_uint w) (read_uint w)"
    unfolding read_uint_def read_full_def by (rule sim_andthen [OF sim_take_bytes]) (simp add: sim_give)
  have b: "sim (=) (andthen (take_bytes w Eof Eof) (\<lambda>bs. give (le_value bs)))
      (andthen (take_bytes w Eof Eof) (\<lambda>bs. give (le_value bs)))"
    by (rule sim_andthen [OF sim_take_bytes]) (simp add: sim_give)
  show ?thesis
    unfolding sim_def
  proof (intro allI impI)
    fix s t x s'
    assume st: "same_place s t" and r: "read_u w s = Inr (x, s')"
    show "\<exists>y t'. read_u w t = Inr (y, t') \<and> x = y \<and> same_place s' t' \<and> rd_retained t' = rd_retained t"
    proof (cases "rd_counted s")
      case True
      then show ?thesis using simD [OF a st, of x s'] r st by (auto simp: read_u_def same_place_def)
    next
      case False
      then show ?thesis using simD [OF b st, of x s'] r st by (auto simp: read_u_def same_place_def)
    qed
  qed
qed

text \<open>The numbers read are not negative.\<close>

lemma sim_read_u64: "sim (\<lambda>x y. x = y \<and> 0 \<le> x) read_u64 read_u64"
  and sim_read_u32: "sim (=) read_u32 read_u32"
proof -
  show "sim (\<lambda>x y. x = y \<and> 0 \<le> x) read_u64 read_u64"
    using sim_read_u [of 8] read_u_nonneg [of 8] unfolding sim_def read_u64_def by metis
  show "sim (=) read_u32 read_u32" unfolding read_u32_def by (rule sim_read_u)
qed

section \<open>Skipping\<close>

text \<open>A parser that moves on by \<open>n\<close> bytes whenever it succeeds.\<close>

definition eats :: "'a parser \<Rightarrow> int \<Rightarrow> bool" where
  "eats p n \<longleftrightarrow> 0 \<le> n \<and> (\<forall>s x s'. p s = Inr (x, s') \<longrightarrow> skip_bytes n s = Inr ((), s'))"

lemma skip_Inr: "skip_bytes n s = Inr ((), s') \<longleftrightarrow> (\<exists>bs. take_bytes n Eof Eof s = Inr (bs, s'))"
  by (auto simp: skip_bytes_def andthen_Inr give_def)

lemma skip_bytes_eq:
  assumes "0 \<le> n"
  shows "skip_bytes n s = Inr ((), s') \<longleftrightarrow>
    n \<le> int (length (rd_bytes s)) \<and> (rd_counted s \<longrightarrow> n = 0 \<or> rd_consumed s + n \<le> max_section) \<and>
    s' = s\<lparr>rd_bytes := drop (nat n) (rd_bytes s),
      rd_consumed := (if rd_counted s then rd_consumed s + n else rd_consumed s)\<rparr>"
proof (cases "n = 0")
  case True
  then show ?thesis by (auto simp: skip_Inr take_bytes_def Let_def)
next
  case False
  then show ?thesis using assms by (auto simp: skip_Inr take_bytes_def Let_def split: if_splits)
qed

lemma skip_add:
  assumes "0 \<le> a" and "0 \<le> b" and "skip_bytes a s = Inr ((), s1)" and "skip_bytes b s1 = Inr ((), s')"
  shows "skip_bytes (a + b) s = Inr ((), s')"
proof -
  have "0 \<le> a + b" using assms by simp
  then show ?thesis
    using assms(3,4) unfolding skip_bytes_eq [OF assms(1)] skip_bytes_eq [OF assms(2)] skip_bytes_eq [OF \<open>0 \<le> a + b\<close>]
    by (auto simp: nat_add_distrib assms(1,2) add.commute)
qed

lemma eats_skip: "0 \<le> n \<Longrightarrow> eats (skip_bytes n) n"
  by (simp add: eats_def)

lemma eats_give: "eats (give x) 0"
  by (auto simp: eats_def skip_bytes_eq give_def)

lemma eats_fail: "0 \<le> n \<Longrightarrow> eats (fail e) n"
  by (simp add: eats_def fail_def)

lemma eats_take: "0 \<le> n \<Longrightarrow> eats (take_bytes n e1 e2) n"
  unfolding eats_def skip_Inr by (auto simp: take_bytes_def Let_def split: if_splits)

lemma eats_andthen: "eats p a \<Longrightarrow> (\<And>x. eats (f x) b) \<Longrightarrow> eats (andthen p f) (a + b)"
  unfolding eats_def andthen_Inr using skip_add by (metis add_nonneg_nonneg)

lemma eats_then_give: "eats p a \<Longrightarrow> eats (andthen p (\<lambda>x. give (f x))) a"
  using eats_andthen [of p a "\<lambda>x. give (f x)" 0] eats_give by force

lemma eats_repeat: "eats p a \<Longrightarrow> eats (repeat_parse n p) (int n * a)"
proof (induction n)
  case 0
  then show ?case by (simp add: eats_give)
next
  case (Suc n)
  have "eats (repeat_parse (Suc n) p) (a + int n * a)"
    unfolding repeat_parse.simps
    by (rule eats_andthen [OF Suc.prems], rule eats_then_give, rule Suc.IH [OF Suc.prems])
  then show ?case by (simp add: algebra_simps)
qed

lemma eats_uint: "0 \<le> w \<Longrightarrow> eats (read_uint w) w" and eats_int: "0 \<le> w \<Longrightarrow> eats (read_int w) w"
proof -
  show u: "0 \<le> w \<Longrightarrow> eats (read_uint w) w"
    unfolding read_uint_def read_full_def by (intro eats_then_give eats_take)
  show "0 \<le> w \<Longrightarrow> eats (read_int w) w" unfolding read_int_def by (intro eats_then_give u)
qed

lemma sim_eats: "eats p n \<Longrightarrow> sim (\<lambda>x y. True) p (skip_bytes n)"
  unfolding sim_def
proof (intro allI impI)
  fix s t x s'
  assume p: "eats p n" and st: "same_place s t" and r: "p s = Inr (x, s')"
  have n: "0 \<le> n" using p by (simp add: eats_def)
  have "skip_bytes n s = Inr ((), s')" using p r by (auto simp: eats_def)
  then show "\<exists>y t'. skip_bytes n t = Inr (y, t') \<and> True \<and> same_place s' t' \<and> rd_retained t' = rd_retained t"
    using st unfolding skip_bytes_eq [OF n] by (auto simp: same_place_def skip_bytes_eq [OF n])
qed

lemma eats_fixed: "fixed_size t = Some w \<Longrightarrow> eats (read_scalar t) w"
  unfolding read_scalar_def Let_def fixed_size_def
  by (auto split: if_split_asm intro!: eats_then_give eats_uint eats_int)

lemma eats_string_body: "0 \<le> n \<Longrightarrow> eats (string_body n) n"
proof -
  assume n: "0 \<le> n"
  define k where "k = (if max_display_bytes < n then max_display_bytes else n)"
  have k: "0 \<le> k" "k \<le> n" using n by (auto simp: k_def max_display_bytes_def)
  have "eats (if k < n then skip_bytes (n - k) else give ()) (n - k)"
    using k eats_skip [of "n - k"] eats_give by auto
  then have "eats (string_body n) (k + (n - k))"
    unfolding string_body_def Let_def k_def [symmetric] read_full_def
    by (intro eats_andthen eats_take eats_then_give k(1))
  then show ?thesis by simp
qed

lemma sim_string: "sim (\<lambda>x y. True) read_string skip_summary_string"
  unfolding read_string_def skip_summary_string_def
proof (rule sim_andthen [OF sim_read_u64])
  fix x y :: int
  assume xy: "x = y \<and> 0 \<le> x"
  have "sim (\<lambda>x y. True) (string_body x) (skip_bytes x)" using xy by (intro sim_eats eats_string_body) simp
  then show "sim (\<lambda>x y. True) (if max_string_bytes < x then fail StringUnreasonable else string_body x)
      (if max_string_bytes < y then fail StringUnreasonable else if max_i64 < y then fail StringTooLarge else skip_bytes y)"
    using xy by (auto simp: sim_fail max_string_bytes_def max_i64_def)
qed

lemma sim_skip_string: "sim (\<lambda>x y. True) (skip_value 8) skip_summary_string"
proof -
  have "sim (\<lambda>x y. True) (skip_bytes x) (skip_bytes x)" if "0 \<le> x" for x
    using that by (intro sim_eats eats_skip)
  then show ?thesis
    unfolding skip_value_def skip_summary_string_def
    by (auto simp: fixed_size_def max_string_bytes_def max_i64_def sim_fail intro!: sim_andthen [OF sim_read_u64])
qed


lemma sim_scalar_string: "sim (\<lambda>x y. True) (read_scalar 8) skip_summary_string"
proof -
  have "read_scalar 8 = andthen read_string (\<lambda>(v, truncated). give ((scalar_result ''string'' v)\<lparr>vr_truncated := truncated\<rparr>))"
    by (simp add: read_scalar_def)
  moreover have "skip_summary_string = andthen skip_summary_string (\<lambda>u. give ())"
    by (rule ext) (auto simp: andthen_def give_def split: sum.split)
  moreover have "sim (\<lambda>x y. True) (andthen read_string (\<lambda>(v, truncated). give ((scalar_result ''string'' v)\<lparr>vr_truncated := truncated\<rparr>)))
      (andthen skip_summary_string (\<lambda>u. give ()))"
    by (rule sim_andthen [OF sim_string]) (auto intro: sim_give)
  ultimately show ?thesis by simp
qed

lemma andthen_assoc: "andthen (andthen p f) g = andthen p (\<lambda>x. andthen (f x) g)"
  by (rule ext) (auto simp: andthen_def split: sum.split)

lemma andthen_give [simp]: "andthen (give x) f = f x"
  by (rule ext) (simp add: andthen_def give_def)

lemma sim_right_give:
  assumes "sim (\<lambda>x y. True) p q"
  shows "sim (\<lambda>x y. True) p (andthen q (\<lambda>y. give (f y)))"
  unfolding sim_def
proof (intro allI impI)
  fix s t x s'
  assume "same_place s t" "p s = Inr (x, s')"
  then obtain y t' where "q t = Inr (y, t')" "same_place s' t'" "rd_retained t' = rd_retained t"
    using simD [OF assms] by blast
  then show "\<exists>y t'. andthen q (\<lambda>y. give (f y)) t = Inr (y, t') \<and> True \<and> same_place s' t' \<and> rd_retained t' = rd_retained t"
    by (auto simp: andthen_def give_def)
qed

text \<open>Reading \<open>a\<close> elements and skipping \<open>b\<close> against skipping all.\<close>

lemma sim_repeat_append:
  assumes "sim (\<lambda>x y. True) p q" and "sim (\<lambda>x y. True) p' q"
  shows "sim (\<lambda>x y. True) (andthen (repeat_parse a p) (\<lambda>xs. repeat_parse b p')) (repeat_parse (a + b) q)"
proof (induction a)
  case 0
  show ?case using sim_mono [OF sim_repeat [OF assms(2)]] by simp
next
  case (Suc a)
  have right: "repeat_parse (Suc a + b) q = andthen q (\<lambda>y. andthen (repeat_parse (a + b) q) (\<lambda>ys. give (y # ys)))"
    by simp
  have left: "andthen (repeat_parse (Suc a) p) (\<lambda>xs. repeat_parse b p') =
      andthen p (\<lambda>x. andthen (repeat_parse a p) (\<lambda>xs. repeat_parse b p'))"
    by (simp add: andthen_assoc)
  have "sim (\<lambda>x y. True) (andthen (repeat_parse a p) (\<lambda>xs. repeat_parse b p'))
      (andthen (repeat_parse (a + b) q) (\<lambda>ys. give (y # ys)))" for y
    by (rule sim_right_give [OF Suc.IH])
  then show ?case unfolding left right by (intro sim_andthen [OF assms(1)])
qed

lemma sim_array_head: "sim (\<lambda>x y. x = y \<and> 0 \<le> snd x \<and> snd x \<le> max_array_count) read_array_head read_array_head"
  unfolding read_array_head_def
  by (rule sim_andthen [OF sim_read_u32], rule sim_andthen [OF sim_read_u64]) (auto intro: sim_fail sim_give)

text \<open>The elements after the head: skipped at once, or string by string.\<close>

lemma sim_elements:
  assumes "type_name t = Some name" and "0 \<le> n" and "n \<le> max_array_count"
  shows "sim (\<lambda>x y. True)
    (andthen (repeat_parse (nat (min n max_array_preview)) (read_scalar t)) (\<lambda>vs.
       andthen (if 0 < n - min n max_array_preview then skip_array_remainder t (n - min n max_array_preview) else give ())
         (\<lambda>u. give (h vs))))
    (case fixed_size t of
       Some width \<Rightarrow> if max_i64 div width < n then fail ArrayTooLarge else skip_bytes (n * width)
     | None \<Rightarrow> if t = 8 then andthen (repeat_parse (nat n) skip_summary_string) (\<lambda>us. give ())
        else fail (UnsupportedElement t))"
proof -
  define k where "k = nat (min n max_array_preview)"
  have mk: "min n max_array_preview = int k" "int k \<le> n" using assms(2) by (auto simp: k_def max_array_preview_def)
  show ?thesis
  proof (cases "fixed_size t")
    case (Some w)
    have w: "w \<in> {1, 2, 4, 8}" by (rule fixed_size_cases [OF Some])
    have small: "\<not> max_i64 div w < n" using w assms(3) by (auto simp: max_i64_def max_array_count_def)
    have rest: "eats (if 0 < n - int k then skip_array_remainder t (n - int k) else give ()) ((n - int k) * w)"
      using Some w mk(2) eats_skip [of "(n - int k) * w"] eats_give [of "()"]
      by (auto simp: skip_array_remainder_def intro: eats_fail)
    have "eats (andthen (repeat_parse k (read_scalar t)) (\<lambda>vs.
        andthen (if 0 < n - int k then skip_array_remainder t (n - int k) else give ()) (\<lambda>u. give (h vs))))
      (int k * w + (n - int k) * w)"
      by (intro eats_andthen eats_repeat eats_fixed Some eats_then_give rest)
    then have "sim (\<lambda>x y. True) (andthen (repeat_parse k (read_scalar t)) (\<lambda>vs.
        andthen (if 0 < n - int k then skip_array_remainder t (n - int k) else give ()) (\<lambda>u. give (h vs))))
      (skip_bytes (n * w))"
      by (intro sim_eats) (simp add: algebra_simps)
    then show ?thesis using Some small unfolding mk by simp
  next
    case None
    then have t: "t = 8" using type_name_cases [of t] assms(1) by (auto simp: fixed_size_def)
    have sp: "nat n = k + nat (n - int k)" using mk(2) by simp
    have s: "sim (\<lambda>x y. True) (andthen (repeat_parse k (read_scalar 8)) (\<lambda>vs. repeat_parse (nat (n - int k)) (skip_value 8)))
        (repeat_parse (nat n) skip_summary_string)"
      unfolding sp by (rule sim_repeat_append [OF sim_scalar_string sim_skip_string])
    have "sim (\<lambda>x y. True) (andthen (repeat_parse k (read_scalar 8)) (\<lambda>vs.
        andthen (if 0 < n - int k then skip_array_remainder 8 (n - int k) else give ()) (\<lambda>u. give (h vs))))
      (andthen (repeat_parse (nat n) skip_summary_string) (\<lambda>us. give ()))"
      unfolding sim_def
    proof (intro allI impI)
      fix s1 t1 x s'
      assume st: "same_place s1 t1" and r: "andthen (repeat_parse k (read_scalar 8)) (\<lambda>vs.
        andthen (if 0 < n - int k then skip_array_remainder 8 (n - int k) else give ()) (\<lambda>u. give (h vs))) s1 = Inr (x, s')"
      obtain vs s2 where v: "repeat_parse k (read_scalar 8) s1 = Inr (vs, s2)"
        "(if 0 < n - int k then skip_array_remainder 8 (n - int k) else give ()) s2 = Inr ((), s')"
        using r by (auto simp: andthen_Inr give_def)
      obtain us where "repeat_parse (nat (n - int k)) (skip_value 8) s2 = Inr (us, s')"
        using v(2) by (auto simp: skip_array_remainder_def andthen_Inr give_def fixed_size_def split: if_splits)
      then have "andthen (repeat_parse k (read_scalar 8)) (\<lambda>vs. repeat_parse (nat (n - int k)) (skip_value 8)) s1 = Inr (us, s')"
        using v(1) by (auto simp: andthen_Inr)
      from simD [OF sim_right_give [OF s] st this]
      show "\<exists>y t'. andthen (repeat_parse (nat n) skip_summary_string) (\<lambda>us. give ()) t1 = Inr (y, t') \<and> True \<and>
        same_place s' t' \<and> rd_retained t' = rd_retained t1" .
    qed
    then show ?thesis unfolding mk nat_int t None [unfolded t] option.case if_P [OF refl] .
  qed
qed

lemma sim_skip_value: "sim (\<lambda>x y. True) (read_value pr t) (skip_summary_value t)"
proof (cases "t = 9")
  case True
  have head: "sim (\<lambda>x y. True)
      (case x of (t, n) \<Rightarrow> (case type_name t of None \<Rightarrow> fail (UnsupportedElement t)
        | Some name \<Rightarrow> let k = min n max_array_preview
           in andthen (repeat_parse (nat k) (read_scalar t)) (\<lambda>vs.
              andthen (if 0 < n - k then skip_array_remainder t (n - k) else give ()) (\<lambda>u.
              give \<lparr>vr_type = ''array<'' @ name @ ''>'',
                vr_display = array_display (map (element_text pr t) vs) n k,
                vr_truncated = k < n \<or> list_ex vr_truncated vs, vr_length = n, vr_scalar = False\<rparr>))))
      (case y of (et, n) \<Rightarrow> (case fixed_size et of
              Some width \<Rightarrow> if max_i64 div width < n then fail ArrayTooLarge else skip_bytes (n * width)
            | None \<Rightarrow>
                if et = 8 then andthen (repeat_parse (nat n) skip_summary_string) (\<lambda>us. give ())
                else fail (UnsupportedElement et)))"
    if xy: "x = y \<and> 0 \<le> snd x \<and> snd x \<le> max_array_count" for x y
  proof -
    obtain t n where x: "x = (t, n)" by (cases x)
    show ?thesis
    proof (cases "type_name t")
      case None
      then show ?thesis using x by (simp add: sim_fail)
    next
      case (Some name)
      have b: "0 \<le> n" "n \<le> max_array_count" using xy x by simp_all
      have y: "y = (t, n)" using xy x by simp
      show ?thesis
        unfolding x y prod.case Some option.case(2) Let_def by (rule sim_elements [OF Some b]) 
    qed
  qed
  have n: "fixed_size 9 = None" by (simp add: fixed_size_def)
  have "sim (\<lambda>x y. True) (read_array pr) (andthen read_array_head (\<lambda>(et, n).
            case fixed_size et of
              Some width \<Rightarrow> if max_i64 div width < n then fail ArrayTooLarge else skip_bytes (n * width)
            | None \<Rightarrow>
                if et = 8 then andthen (repeat_parse (nat n) skip_summary_string) (\<lambda>us. give ())
                else fail (UnsupportedElement et)))"
    unfolding read_array_def by (rule sim_andthen [OF sim_array_head head])
  then show ?thesis using True by (simp add: read_value_def skip_summary_value_def n)
next
  case False
  show ?thesis
  proof (cases "fixed_size t")
    case (Some w)
    then show ?thesis using False sim_eats [OF eats_fixed [OF Some]] by (simp add: read_value_def skip_summary_value_def)
  next
    case None
    then show ?thesis using False sim_scalar_string
      by (auto simp: read_value_def skip_summary_value_def read_scalar_def fixed_size_def sim_fail split: if_splits)
  qed
qed


section \<open>Parsers that do not look at the budget\<close>

abbreviation blind :: "'a parser \<Rightarrow> bool" where
  "blind p \<equiv> sim (=) p p"

named_theorems blind_intros \<open>parsers that do not look at what was retained\<close>

lemma blind_basic [blind_intros]: "blind (give x)" "blind (fail e)" "blind (take_bytes n e1 e2)"
  by (rule sim_give, simp, rule sim_fail, rule sim_take_bytes)

lemma blind_andthen [blind_intros]: "blind p \<Longrightarrow> (\<And>x. blind (f x)) \<Longrightarrow> blind (andthen p f)"
  using sim_andthen [of "(=)" p p "(=)" f f] by blast

lemma blind_wrap [blind_intros]: "blind p \<Longrightarrow> blind (wrap_error w p)"
  by (rule sim_wrap)

lemma blind_if [blind_intros]: "blind p \<Longrightarrow> blind q \<Longrightarrow> blind (if b then p else q)"
  by simp

lemma blind_option [blind_intros]: "blind p \<Longrightarrow> (\<And>x. blind (f x)) \<Longrightarrow> blind (case opt of None \<Rightarrow> p | Some x \<Rightarrow> f x)"
  by (cases opt) simp_all

lemma blind_prod [blind_intros]: "(\<And>a b. blind (f a b)) \<Longrightarrow> blind (case pr of (a, b) \<Rightarrow> f a b)"
  by (cases pr) simp

lemma blind_repeat [blind_intros]: "blind p \<Longrightarrow> blind (repeat_parse n p)"
  using sim_repeat [of "(=)" p p n] by (simp add: list.rel_eq)

lemma blind_readers [blind_intros]:
  "blind (read_full n)" "blind (skip_bytes n)" "blind (read_uint n)" "blind (read_int n)" "blind read_u32" "blind read_u64"
  unfolding read_full_def skip_bytes_def read_uint_def read_int_def read_u32_def read_u64_def
  by (intro blind_intros sim_read_u)+

lemma blind_values [blind_intros]: "blind read_string" "blind (read_scalar t)"
  unfolding read_string_def string_body_def read_scalar_def Let_def by (intro blind_intros)+

lemma blind_value [blind_intros]: "blind (read_value pr t)" "blind read_key"
  unfolding read_value_def read_array_def read_array_head_def skip_array_remainder_def skip_value_def read_key_def Let_def
  by (intro blind_intros)+

lemma blind_tensors: "blind (tensor_prefix_loop n pre)"
proof (induction n)
  case (Suc n)
  then show ?case unfolding tensor_prefix_loop.simps read_tensor_def by (intro blind_intros)
qed (simp add: blind_intros)

lemma blind_plain [blind_intros]: "blind plain_reader"
  by (auto simp: sim_def plain_reader_def same_place_def)

lemma blind_refine_mtp: "blind (refine_mtp n f)"
  unfolding refine_mtp_def tensor_prefix_present_def by (intro blind_intros blind_tensors)

section \<open>The entries\<close>

text \<open>What the summary keeps of an entry.\<close>

definition kept_pair :: "entry \<times> bool \<Rightarrow> (string \<times> string) option" where
  "kept_pair e = (if summary_metadata_key (en_key (fst e)) \<and> snd e then Some (en_key (fst e), en_value (fst e)) else None)"

lemma summary_entry_sim:
  assumes "read_entry pr s = Inr (e, s')" and "same_place s t" and "rd_retained t \<le> rd_retained s"
  shows "\<exists>t'. summary_entry pr t = Inr (kept_pair e, t') \<and> same_place s' t' \<and> rd_retained t' \<le> rd_retained s'"
proof -
  obtain key s1 ty s2 v s3 u where r: "read_key s = Inr (key, s1)" "read_u32 s1 = Inr (ty, s2)"
    "wrap_error (InKey key) (read_value pr ty) s2 = Inr (v, s3)" "retain [key, vr_display v] s3 = Inr (u, s')"
    "en_key (fst e) = key" "en_value (fst e) = vr_display v" "snd e = vr_scalar v"
    using assms(1) by (auto simp: read_entry_def andthen_Inr give_def)
  let ?k = "int (length key)" and ?v = "int (length (vr_display v))"
  have keep: "rd_retained s3 = rd_retained s"
  proof -
    have "pure read_key" "pure read_u32" "pure (wrap_error (InKey key) (read_value pr ty))" by (intro pure_intros)+
    then show ?thesis using r(1-3) by (simp add: pureD)
  qed
  have budget: "?k + ?v \<le> max_retained" "rd_retained s + (?k + ?v) \<le> max_retained"
    "s' = s3\<lparr>rd_retained := rd_retained s + (?k + ?v)\<rparr>"
    using r(4) keep by (auto simp: retain_Inr)
  obtain t1 where t1: "read_key t = Inr (key, t1)" "same_place s1 t1" "rd_retained t1 = rd_retained t"
    using simD [OF blind_value(2) assms(2) r(1)] by blast
  let ?t1 = "t1\<lparr>rd_retained := rd_retained t + ?k\<rparr>"
  have ret1: "retain [key] t1 = Inr ((), ?t1)"
    using budget assms(3) t1(3) by (auto simp: retain_Inr)
  have "same_place s1 ?t1" using t1(2) by (simp add: same_place_def)
  then obtain t2 where t2: "read_u32 ?t1 = Inr (ty, t2)" "same_place s2 t2" "rd_retained t2 = rd_retained t + ?k"
    using simD [OF blind_readers(5) _ r(2)] by force
  show ?thesis
  proof (cases "summary_metadata_key key")
    case True
    obtain t3 where t3: "wrap_error (InKey key) (read_value pr ty) t2 = Inr (v, t3)" "same_place s3 t3" "rd_retained t3 = rd_retained t + ?k"
      using simD [OF blind_wrap [OF blind_value(1)] t2(2) r(3)] t2(3) by auto
    let ?t3 = "t3\<lparr>rd_retained := rd_retained t + ?k + ?v\<rparr>"
    have "retain [vr_display v] t3 = Inr ((), ?t3)"
      using budget assms(3) t3(3) by (auto simp: retain_Inr)
    then have "summary_entry pr t = Inr (kept_pair e, ?t3)"
      using t1 ret1 t2 t3 True r(5-7) by (auto simp: summary_entry_def andthen_def give_def kept_pair_def)
    moreover have "same_place s' ?t3" using t3(2) budget(3) by (simp add: same_place_def)
    ultimately show ?thesis using budget(3) assms(3) by auto
  next
    case False
    obtain t3 where t3: "wrap_error (InKey key) (skip_summary_value ty) t2 = Inr ((), t3)" "same_place s3 t3" "rd_retained t3 = rd_retained t + ?k"
      using simD [OF sim_wrap [OF sim_skip_value] t2(2) r(3)] t2(3) by force
    then have "summary_entry pr t = Inr (kept_pair e, t3)"
      using t1 ret1 t2 False r(5-7) by (auto simp: summary_entry_def andthen_def give_def kept_pair_def)
    moreover have "same_place s' t3" using t3(2) budget(3) by (simp add: same_place_def)
    ultimately show ?thesis using budget(3) assms(3) t3(3) by auto
  qed
qed

lemma summary_entries_sim:
  assumes "repeat_parse n (read_entry pr) s = Inr (es, s')" and "same_place s t" and "rd_retained t \<le> rd_retained s"
  shows "\<exists>t'. repeat_parse n (summary_entry pr) t = Inr (map kept_pair es, t') \<and> same_place s' t'"
  using assms
proof (induction n arbitrary: s t es)
  case 0
  then show ?case by (auto simp: give_def)
next
  case (Suc n)
  obtain e s1 fs where r: "read_entry pr s = Inr (e, s1)" "repeat_parse n (read_entry pr) s1 = Inr (fs, s')" "es = e # fs"
    using Suc.prems(1) by (auto simp: andthen_Inr give_def)
  obtain t1 where t1: "summary_entry pr t = Inr (kept_pair e, t1)" "same_place s1 t1" "rd_retained t1 \<le> rd_retained s1"
    using summary_entry_sim [OF r(1) Suc.prems(2,3)] by blast
  obtain t' where "repeat_parse n (summary_entry pr) t1 = Inr (map kept_pair fs, t')" "same_place s' t'"
    using Suc.IH [OF r(2) t1(2,3)] by blast
  then show ?case using t1(1) r(3) by (auto simp: andthen_def give_def)
qed

section \<open>The derived facts\<close>

lemma keep_some_filter: "keep_some xs = map the (filter (\<lambda>x. x \<noteq> None) xs)"
  by (induction xs rule: keep_some.induct) auto

lemma scalars_agree:
  assumes "summary_metadata_key k"
  shows "map_of (rev (keep_some (map kept_pair es))) k = scalars_of es k"
proof -
  have "map_of (map (\<lambda>(e, scalar). (en_key e, en_value e)) (filter snd ys)) k = map_of (keep_some (map kept_pair ys)) k" for ys
    using assms by (induction ys) (auto simp: kept_pair_def)
  from this [of "rev es"] show ?thesis
    by (simp add: scalars_of_def keep_some_filter rev_map rev_filter)
qed

lemma summary_keys:
  "summary_metadata_key ''general.architecture''"
  "summary_metadata_key (a @ ''.context_length'')" "summary_metadata_key (a @ ''.block_count'')"
  "summary_metadata_key (a @ ''.embedding_length'')" "summary_metadata_key (a @ ''.attention.head_count'')"
  "summary_metadata_key (a @ ''.attention.head_count_kv'')" "summary_metadata_key (a @ ''.attention.key_length'')"
  "summary_metadata_key (a @ ''.attention.value_length'')" "summary_metadata_key (a @ ''.expert_count'')"
  "summary_metadata_key (a @ ''.expert_used_count'')" "summary_metadata_key (a @ ''.nextn_predict_layers'')"
  by (simp_all add: summary_metadata_key_def suffix_def)

lemma derive_agree:
  assumes "\<And>k. summary_metadata_key k \<Longrightarrow> m k = m' k"
  shows "derive m = derive m'" and "summary_features d m = summary_features d m'"
proof -
  have g: "get_string m k = get_string m' k" "exact_int m k = exact_int m' k" if "summary_metadata_key k" for k
    using assms [OF that] by (simp_all add: get_string_def exact_int_def)
  show "derive m = derive m'"
    unfolding derive_def Let_def
    using g summary_keys by simp
  show "summary_features d m = summary_features d m'"
    unfolding summary_features_def Let_def using g summary_keys by simp
qed

text \<open>
  C11. The summary is the inspection without the table: for every file that the full inspection
  accepts, hostile or not, the summary reader, which skips the values it has no use for, accepts it
  too, and it reports the same version, counts, architecture facts and features.
\<close>

theorem summary_agrees:
  assumes "run (inspect pr) bs = Inr i"
  shows "run (read_summary pr) bs = Inr \<lparr>sm_version = is_version i, sm_tensors = is_tensors i, sm_count = is_count i,
    sm_derived = is_derived i, sm_features = is_features i\<rparr>"
proof -
  obtain s' where i: "inspect pr (new_reader bs) = Inr (i, s')"
    using assms by (auto simp: run_def split: sum.splits)
  obtain version tensors n s1 es s2 f where r: "read_header (new_reader bs) = Inr ((version, tensors, n), s1)"
    "repeat_parse (nat n) (read_entry pr) (s1\<lparr>rd_counted := True, rd_consumed := 0, rd_retained := 0\<rparr>) = Inr (es, s2)"
    "refine_mtp tensors (summary_features (derive (scalars_of es)) (scalars_of es)) s2 = Inr (f, s')"
    "is_version i = version" "is_tensors i = tensors" "is_count i = n" "is_derived i = derive (scalars_of es)" "is_features i = f"
    using i by (auto simp: inspect_def andthen_Inr bound_metadata_reader_def Let_def give_def)
  let ?m = "map_of (rev (keep_some (map kept_pair es)))"
  obtain t2 where t2: "repeat_parse (nat n) (summary_entry pr) (s1\<lparr>rd_counted := True, rd_consumed := 0, rd_retained := 0\<rparr>) =
      Inr (map kept_pair es, t2)" "same_place s2 t2"
    using summary_entries_sim [OF r(2), of "s1\<lparr>rd_counted := True, rd_consumed := 0, rd_retained := 0\<rparr>"]
    by (auto simp: same_place_def)
  have d: "derive ?m = derive (scalars_of es)"
    and ft: "summary_features (derive (scalars_of es)) ?m = summary_features (derive (scalars_of es)) (scalars_of es)"
    using derive_agree [of ?m "scalars_of es"] scalars_agree by blast+
  obtain t' where t': "refine_mtp tensors (summary_features (derive (scalars_of es)) (scalars_of es)) t2 = Inr (f, t')"
    using simD [OF blind_refine_mtp t2(2) r(3)] by blast
  have "read_summary pr (new_reader bs) = Inr (\<lparr>sm_version = version, sm_tensors = tensors, sm_count = n,
      sm_derived = derive (scalars_of es), sm_features = f\<rparr>, t')"
    by (simp add: read_summary_def andthen_def r(1) bound_metadata_reader_def t2(1) Let_def d ft t' give_def)
  then show ?thesis using r by (simp add: run_def)
qed

theorem summary_agrees_witness:
  "\<exists>i. run (inspect (\<lambda>r. True)) (header_bytes sample_document @ section_bytes sample_document) = Inr i \<and>
    run (read_summary (\<lambda>r. True)) (header_bytes sample_document @ section_bytes sample_document) =
      Inr \<lparr>sm_version = is_version i, sm_tensors = is_tensors i, sm_count = is_count i,
        sm_derived = is_derived i, sm_features = is_features i\<rparr>"
proof -
  have "\<not> isl (run (inspect (\<lambda>r. True)) (header_bytes sample_document @ section_bytes sample_document))" by code_simp
  then obtain i where i: "run (inspect (\<lambda>r. True)) (header_bytes sample_document @ section_bytes sample_document) = Inr i"
    by (metis sum.collapse(2))
  show ?thesis using summary_agrees [OF i] i by blast
qed

end
