(* ===== verification/Launch_Options.thy ===== *)
theory Launch_Options
  imports Placement
begin

text \<open>
  The llama.cpp options of an Instance on their way to a worker: the option schema of the
  llama-server binary (\<open>llamacpp/discovery.go\<close>, \<open>llamacpp/validation.go\<close>, \<open>llamacpp/retention.go\<close>),
  the layers of defaults, global, model and Instance options (\<open>llamaconfig/store.go\<close>) and the load
  mode that \<open>lifecycle/moe_launch.go\<close> adds. A Go map that the code iterates over is an association
  list in the order of the iteration; rows the database returns are one as well.
\<close>

section \<open>The schema of the binary\<close>

type_synonym option_list = "(string \<times> string) list"

record llama_option =
  lo_key :: string
  lo_hint :: string
  lo_kind :: string
  lo_choices :: "string list"

record profile =
  pf_path :: string
  pf_version :: string
  pf_options :: "llama_option list"
  pf_devices :: "string list"
  pf_discovered :: bool
  pf_discovery_error :: string

definition option_name :: "string \<Rightarrow> string" where
  "option_name s = trim_prefix (trim_space s) ''--''"

definition profile_option :: "profile \<Rightarrow> string \<Rightarrow> llama_option option" where
  "profile_option p key0 =
     (let key = option_name key0
      in if key = [] then None else find (\<lambda>x. option_name (lo_key x) = key) (pf_options p))"

definition profile_has :: "profile \<Rightarrow> string \<Rightarrow> bool" where
  "profile_has p key0 \<longleftrightarrow>
     (let key = option_name key0 in key \<noteq> [] \<and> list_ex (\<lambda>x. option_name (lo_key x) = key) (pf_options p))"

text \<open>\<open>available[option.Key] = option\<close> over all options: the last of a key stays.\<close>

definition available_options :: "profile \<Rightarrow> string \<rightharpoonup> llama_option" where
  "available_options p = map_of (rev (map (\<lambda>x. (lo_key x, x)) (pf_options p)))"

text \<open>\<open>strings.Trim(s, cutset)\<close> for an ASCII cutset.\<close>

definition trim_set :: "string \<Rightarrow> string \<Rightarrow> string" where
  "trim_set cs s = rev (dropWhile (\<lambda>c. c \<in> set cs) (rev (dropWhile (\<lambda>c. c \<in> set cs) s)))"

definition classify_value_hint :: "string \<Rightarrow> string \<times> string list" where
  "classify_value_hint hint0 =
     (let hint = trim_space hint0;
          bare = trim_set ''[]<>'' hint;
          choices = filter (\<lambda>x. x \<noteq> []) (map trim_space (split_on (CHR ''|'') bare));
          low = to_lower bare
      in if hint = [] then (''boolean'', [])
         else if CHR ''|'' \<in> set bare \<and> CHR '' '' \<notin> set bare \<and> CHR 0x09 \<notin> set bare \<and> 1 < length choices
         then (''enum'', choices)
         else if low = ''n'' \<or> low = ''int'' \<or> low = ''integer'' \<or> suffix ''_int'' low then (''integer'', [])
         else if low = ''f'' \<or> low = ''float'' \<or> low = ''number'' \<or> suffix ''_float'' low then (''number'', [])
         else if low = ''bool'' \<or> low = ''boolean'' then (''boolean'', [])
         else (''string'', []))"

text \<open>The devices \<open>llama-server --list-devices\<close> prints.\<close>

fun list_devices :: "string list \<Rightarrow> string list \<Rightarrow> string list" where
  "list_devices [] acc = acc"
| "list_devices (raw # rest) acc =
     (let line = trim_space raw; name = trim_space (takeWhile (\<lambda>c. c \<noteq> CHR '':'') line)
      in if CHR '':'' \<notin> set line \<or> hd line = CHR '':'' then list_devices rest acc
         else if name = [] \<or> CHR '' '' \<in> set name \<or> CHR 0x09 \<in> set name \<or> name \<in> set acc
         then list_devices rest acc
         else list_devices rest (acc @ [name]))"

definition parse_list_devices :: "string \<Rightarrow> string list option" where
  "parse_list_devices s =
     (case dropWhile (\<lambda>raw. trim_space raw \<noteq> ''Available devices:'') (split_on (CHR 0x0A) s) of
        [] \<Rightarrow> None
      | m # rest \<Rightarrow> Some (sort_by (<) (list_devices rest [])))"

section \<open>Validation\<close>

definition manager_owned :: "string list" where
  "manager_owned = [''alias'', ''model'', ''host'', ''port'', ''device'', ''split-mode'', ''main-gpu'',
     ''cors-origins'', ''cors-methods'', ''cors-headers'', ''cors-credentials'', ''no-cors-credentials'',
     ''api-key'', ''api-key-file'', ''slots'', ''no-slots'', ''slot-save-path'']"

definition bare_key :: "string \<Rightarrow> string" where
  "bare_key raw = trim_space (trim_left_char (CHR ''-'') raw)"

definition is_manager_owned_option :: "string \<Rightarrow> bool" where
  "is_manager_owned_option key \<longleftrightarrow> bare_key key \<in> set manager_owned"

definition companion_options :: "string list" where
  "companion_options = [''mmproj'', ''spec-draft-model'']"

datatype option_error =
    SchemaUnavailable
  | KeyRequired
  | OwnedOption string
  | UnsupportedOption string
  | NotBoolean string
  | NotInteger string
  | NotNumber string
  | NotAChoice string "string list"
  | ValueRequired string string
  | NoInverse string

definition option_kind :: "llama_option \<Rightarrow> string" where
  "option_kind x = (if lo_kind x \<noteq> [] then lo_kind x else fst (classify_value_hint (lo_hint x)))"

definition inverse_boolean_key :: "string \<Rightarrow> string" where
  "inverse_boolean_key key = (if has_prefix key ''no-'' then trim_prefix key ''no-'' else ''no-'' @ key)"

definition validate_option_value :: "llama_option \<Rightarrow> string \<Rightarrow> option_error option" where
  "validate_option_value x v =
     (let kind = option_kind x
      in if kind = ''boolean'' then (if v \<noteq> ''true'' \<and> v \<noteq> ''false'' then Some (NotBoolean (lo_key x)) else None)
         else if kind = ''integer'' then (if parse_int v = None then Some (NotInteger (lo_key x)) else None)
         else if kind = ''number'' then (if parse_float v = None then Some (NotNumber (lo_key x)) else None)
         else if kind = ''enum'' then (if v \<in> set (lo_choices x) then None else Some (NotAChoice (lo_key x) (lo_choices x)))
         else if v = [] then Some (ValueRequired (lo_key x) (let h = trim_space (lo_hint x) in if h = [] then ''a value'' else h))
         else None)"

text \<open>One pass of the loop of \<open>ValidateOptions\<close>: the key and value to keep, or the error.\<close>

definition validate_one ::
    "(string \<rightharpoonup> llama_option) \<Rightarrow> string \<times> string \<Rightarrow> option_error + string \<times> string" where
  "validate_one avail kv =
     (let key = bare_key (fst kv); v = trim_space (snd kv)
      in if key = [] then Inl KeyRequired
         else if key \<in> set manager_owned then Inl (OwnedOption key)
         else case avail key of
           None \<Rightarrow> Inl (UnsupportedOption key)
         | Some x \<Rightarrow>
             if key \<in> set companion_options \<and> v = [] then Inr (key, [])
             else case validate_option_value x v of
               Some e \<Rightarrow> Inl e
             | None \<Rightarrow>
                 if option_kind x = ''boolean'' \<and> v = ''false'' then
                   (case avail (inverse_boolean_key key) of
                      None \<Rightarrow> Inl (NoInverse key)
                    | Some y \<Rightarrow> if option_kind y \<noteq> ''boolean'' then Inl (NoInverse key) else Inr (key, v))
                 else Inr (key, v))"

fun validate_loop ::
    "(string \<times> string \<Rightarrow> option_error + string \<times> string) \<Rightarrow> option_list \<Rightarrow> option_list \<Rightarrow> option_error + option_list" where
  "validate_loop one [] out = Inr out"
| "validate_loop one (kv # rest) out =
     (case one kv of Inl e \<Rightarrow> Inl e | Inr (k, v) \<Rightarrow> validate_loop one rest (AList.update k v out))"

definition validate_options :: "profile \<Rightarrow> option_list \<Rightarrow> option_error + option_list" where
  "validate_options p opts =
     (if opts = [] then Inr []
      else if pf_options p = [] then Inl SchemaUnavailable
      else validate_loop (validate_one (available_options p)) opts [])"

definition retain_one ::
    "profile \<Rightarrow> (string \<rightharpoonup> string) \<Rightarrow> string \<times> string \<Rightarrow> option_error + string \<times> string" where
  "retain_one p existing kv =
     (let key = bare_key (fst kv)
      in if key = [] then Inl KeyRequired
         else if key \<in> set manager_owned then Inl (OwnedOption key)
         else if key \<in> lo_key ` set (pf_options p) then
           (case validate_options p [(key, snd kv)] of
              Inl e \<Rightarrow> Inl e
            | Inr out \<Rightarrow> Inr (key, case map_of out key of None \<Rightarrow> [] | Some v \<Rightarrow> v))
         else if existing key = Some (snd kv) then Inr (key, snd kv)
         else Inl (UnsupportedOption key))"

text \<open>A \<open>nil\<close> map of options is \<open>None\<close>, and stays one.\<close>

definition validate_options_retaining ::
    "profile \<Rightarrow> option_list option \<Rightarrow> (string \<rightharpoonup> string) \<Rightarrow> option_error + option_list option" where
  "validate_options_retaining p opts existing =
     (case opts of
        None \<Rightarrow> Inr None
      | Some xs \<Rightarrow> (case validate_loop (retain_one p existing) xs [] of Inl e \<Rightarrow> Inl e | Inr out \<Rightarrow> Inr (Some out)))"

section \<open>The layers\<close>

definition manager_defaults :: option_list where
  "manager_defaults = [(''ctx-size'', ''4096'')]"

type_synonym layered = "option_list \<times> option_list"

fun apply_layer :: "string \<Rightarrow> option_list \<Rightarrow> layered \<Rightarrow> layered" where
  "apply_layer source [] vs = vs"
| "apply_layer source ((k, v) # layer) (vals, srcs) =
     (if k \<in> set companion_options \<and> trim_space v = []
      then apply_layer source layer (AList.delete k vals, AList.update k source srcs)
      else apply_layer source layer (AList.update k v vals, AList.update k source srcs))"

fun apply_detected :: "option_list \<Rightarrow> layered \<Rightarrow> layered" where
  "apply_detected [] vs = vs"
| "apply_detected ((k, v) # layer) (vals, srcs) =
     (if map_of srcs k \<noteq> None then apply_detected layer (vals, srcs)
      else apply_detected layer (AList.update k v vals, AList.update k ''detected'' srcs))"

record effective =
  ef_global :: option_list
  ef_model :: option_list
  ef_instance :: option_list
  ef_values :: option_list
  ef_sources :: option_list

text \<open>
  What the queries of \<open>Effective\<close> return, \<open>None\<close> for an error; \<open>db_detected\<close> is the registered
  provider of detected defaults, if there is one.
\<close>

record config_db =
  db_global :: "option_list option"
  db_model :: "string \<Rightarrow> option_list option"
  db_instance :: "string \<Rightarrow> option_list option"
  db_model_of :: "string \<Rightarrow> string option"
  db_detected :: "(string \<Rightarrow> option_list option) option"

text \<open>The three layers that are stored, with the model id as resolved; \<open>None\<close> for an error.\<close>

definition stored_layers ::
    "config_db \<Rightarrow> string \<Rightarrow> string \<Rightarrow> (string \<times> option_list \<times> option_list \<times> option_list) option" where
  "stored_layers db model inst =
     (case db_global db of
        None \<Rightarrow> None
      | Some g \<Rightarrow>
          let named = (trim_space model \<noteq> []); for_inst = (trim_space inst \<noteq> [])
          in case (if named \<or> \<not> for_inst then Some model else db_model_of db inst) of
            None \<Rightarrow> None
          | Some model' \<Rightarrow>
              (case (if named \<or> for_inst then db_model db model' else Some []) of
                 None \<Rightarrow> None
               | Some m \<Rightarrow>
                   (case (if for_inst then db_instance db inst else Some []) of
                      None \<Rightarrow> None
                    | Some i \<Rightarrow> Some (model', g, m, i))))"

definition effective_options :: "config_db \<Rightarrow> string \<Rightarrow> string \<Rightarrow> effective option" where
  "effective_options db model inst =
     (case stored_layers db model inst of
        None \<Rightarrow> None
      | Some (model', g, m, i) \<Rightarrow>
          let vs = apply_layer ''instance'' i (apply_layer ''model'' m (apply_layer ''global'' g
                     (apply_layer ''manager-default'' manager_defaults ([], []))));
              result = (\<lambda>(vals, srcs). \<lparr>ef_global = g, ef_model = m, ef_instance = i,
                          ef_values = vals, ef_sources = srcs\<rparr>)
          in case db_detected db of
               None \<Rightarrow> Some (result vs)
             | Some provider \<Rightarrow>
                 if trim_space model' = [] then Some (result vs)
                 else case provider model' of
                   None \<Rightarrow> None
                 | Some d \<Rightarrow> Some (result (apply_detected d vs)))"

section \<open>From effective options to launch options\<close>

definition is_boolean_option :: "llama_option \<Rightarrow> bool" where
  "is_boolean_option x \<longleftrightarrow> (if lo_kind x \<noteq> [] then lo_kind x = ''boolean'' else trim_space (lo_hint x) = [])"

fun launch_loop ::
    "(string \<rightharpoonup> llama_option) \<Rightarrow> option_list \<Rightarrow> option_list \<Rightarrow> option_error + option_list" where
  "launch_loop avail [] out = Inr out"
| "launch_loop avail ((k, v) # rest) out =
     (case avail k of
        None \<Rightarrow> launch_loop avail rest out
      | Some x \<Rightarrow>
          if equal_fold (trim_space v) ''false'' \<and> is_boolean_option x then
            (case avail (inverse_boolean_key k) of
               None \<Rightarrow> Inl (NoInverse k)
             | Some y \<Rightarrow>
                 if \<not> is_boolean_option y then Inl (NoInverse k)
                 else launch_loop avail rest (AList.update (inverse_boolean_key k) ''true'' out))
          else launch_loop avail rest (AList.update k v out))"

definition launch_options_for_effective :: "profile \<Rightarrow> effective \<Rightarrow> option_error + option_list" where
  "launch_options_for_effective p e =
     (if pf_options p = [] then Inr [] else launch_loop (available_options p) (ef_values e) [])"

text \<open>\<open>None\<close>: the database failed.\<close>

definition launch_options ::
    "config_db \<Rightarrow> profile \<Rightarrow> string \<Rightarrow> string \<Rightarrow> (option_error + option_list) option" where
  "launch_options db p model inst = map_option (launch_options_for_effective p) (effective_options db model inst)"

definition preview_launch_options ::
    "config_db \<Rightarrow> profile \<Rightarrow> string \<Rightarrow> string \<Rightarrow> option_list option \<Rightarrow> (option_error + option_list) option" where
  "preview_launch_options db p model inst opts =
     (case effective_options db model inst of
        None \<Rightarrow> None
      | Some current \<Rightarrow>
          (case validate_options_retaining p opts (map_of (ef_instance current)) of
             Inl e \<Rightarrow> Some (Inl e)
           | Inr validated \<Rightarrow>
               (case effective_options db model [] of
                  None \<Rightarrow> None
                | Some preview \<Rightarrow>
                    let xs = (case validated of None \<Rightarrow> [] | Some ys \<Rightarrow> ys);
                        (vals, srcs) = apply_layer ''instance-preview'' xs (ef_values preview, ef_sources preview)
                    in Some (launch_options_for_effective p
                         (preview\<lparr>ef_instance := xs, ef_values := vals, ef_sources := srcs\<rparr>)))))"

section \<open>The load mode of offloaded experts\<close>

definition option_raw :: "options \<Rightarrow> string \<Rightarrow> string" where
  "option_raw opts key =
     (case opts key of
        Some v \<Rightarrow> v
      | None \<Rightarrow> (case opts (''--'' @ trim_left_char (CHR ''-'') key) of None \<Rightarrow> [] | Some v \<Rightarrow> v))"

definition option_flag_enabled :: "options \<Rightarrow> string \<Rightarrow> bool" where
  "option_flag_enabled opts key \<longleftrightarrow>
     to_lower (trim_space (option_raw opts key)) \<in> {''true'', ''1'', ''yes'', ''on''}"

definition option_int64 :: "options \<Rightarrow> string \<Rightarrow> i64" where
  "option_int64 opts key =
     (case parse_int (trim_space (option_raw opts key)) of
        None \<Rightarrow> 0 | Some n \<Rightarrow> if n \<le> 0 then 0 else n)"

definition has_any_option :: "options \<Rightarrow> string list \<Rightarrow> bool" where
  "has_any_option opts keys \<longleftrightarrow>
     list_ex (\<lambda>k. opts k \<noteq> None \<or> opts (''--'' @ trim_left_char (CHR ''-'') k) \<noteq> None) keys"

definition cpu_moe_offload_active :: "options \<Rightarrow> bool" where
  "cpu_moe_offload_active opts \<longleftrightarrow> option_flag_enabled opts ''cpu-moe'' \<or> 0 < option_int64 opts ''n-cpu-moe''"

definition load_mode_allows_none :: "llama_option \<Rightarrow> bool" where
  "load_mode_allows_none x \<longleftrightarrow>
     lo_choices x = [] \<or> list_ex (\<lambda>c. equal_fold (trim_space c) ''none'') (lo_choices x)"

definition apply_cpu_moe_load_mode :: "options \<Rightarrow> profile \<Rightarrow> options" where
  "apply_cpu_moe_load_mode opts p =
     (if \<not> cpu_moe_offload_active opts \<or> has_any_option opts [''load-mode'', ''mmap'', ''no-mmap''] then opts
      else case profile_option p ''load-mode'' of
        Some x \<Rightarrow>
          if load_mode_allows_none x then opts(''load-mode'' \<mapsto> ''none'')
          else if profile_has p ''no-mmap'' then opts(''no-mmap'' \<mapsto> ''true'') else opts
      | None \<Rightarrow> if profile_has p ''no-mmap'' then opts(''no-mmap'' \<mapsto> ''true'') else opts)"


section \<open>What the layers amount to\<close>

text \<open>An empty companion option switches it off in every layer below.\<close>

definition switched_off :: "string \<Rightarrow> string \<Rightarrow> bool" where
  "switched_off k v \<longleftrightarrow> k \<in> set companion_options \<and> trim_space v = []"

lemma row_once: "distinct (map fst ((k, v) # layer)) \<Longrightarrow> map_of layer k = None \<and> distinct (map fst layer)"
  by (simp add: map_of_eq_None_iff)

lemmas layer_simps = AList.update_conv' AList.delete_conv' fun_upd_apply

lemma apply_layer_values:
  "distinct (map fst layer) \<Longrightarrow> map_of (fst (apply_layer source layer vs)) k =
     (case map_of layer k of None \<Rightarrow> map_of (fst vs) k | Some v \<Rightarrow> if switched_off k v then None else Some v)"
proof (induction source layer vs rule: apply_layer.induct)
  case (2 source k' v layer vals srcs)
  then show ?case
    using row_once [OF "2.prems"] by (cases "k = k'") (auto simp: layer_simps switched_off_def split: option.split)
qed simp

lemma apply_layer_sources:
  "distinct (map fst layer) \<Longrightarrow> map_of (snd (apply_layer source layer vs)) k =
     (case map_of layer k of None \<Rightarrow> map_of (snd vs) k | Some v \<Rightarrow> Some source)"
proof (induction source layer vs rule: apply_layer.induct)
  case (2 source k' v layer vals srcs)
  then show ?case
    using row_once [OF "2.prems"] by (cases "k = k'") (auto simp: layer_simps split: option.split)
qed simp

lemma apply_detected_values:
  "distinct (map fst layer) \<Longrightarrow> map_of (fst (apply_detected layer vs)) k =
     (if map_of (snd vs) k \<noteq> None then map_of (fst vs) k
      else case map_of layer k of None \<Rightarrow> map_of (fst vs) k | Some v \<Rightarrow> Some v)"
proof (induction layer vs rule: apply_detected.induct)
  case (2 k' v layer vals srcs)
  then show ?case
    using row_once [OF "2.prems"] by (cases "k = k'") (auto simp: layer_simps split: option.split)
qed simp

lemma apply_detected_sources:
  "distinct (map fst layer) \<Longrightarrow> map_of (snd (apply_detected layer vs)) k =
     (if map_of (snd vs) k \<noteq> None then map_of (snd vs) k
      else case map_of layer k of None \<Rightarrow> None | Some v \<Rightarrow> Some ''detected'')"
proof (induction layer vs rule: apply_detected.induct)
  case (2 k' v layer vals srcs)
  then show ?case
    using row_once [OF "2.prems"] by (cases "k = k'") (auto simp: layer_simps split: option.split)
qed simp

text \<open>The reference: the first layer, from the most specific on, that has the key decides.\<close>

fun first_layer :: "(string \<times> option_list) list \<Rightarrow> string \<Rightarrow> (string \<times> string) option" where
  "first_layer [] k = None"
| "first_layer ((source, layer) # rest) k =
     (case map_of layer k of None \<Rightarrow> first_layer rest k | Some v \<Rightarrow> Some (source, v))"

definition layer_value :: "string \<Rightarrow> (string \<times> string) option \<Rightarrow> string option" where
  "layer_value k d = (case d of None \<Rightarrow> None
     | Some (source, v) \<Rightarrow> if source \<noteq> ''detected'' \<and> switched_off k v then None else Some v)"

definition detected_rows :: "config_db \<Rightarrow> string \<Rightarrow> option_list" where
  "detected_rows db model =
     (case db_detected db of None \<Rightarrow> []
      | Some f \<Rightarrow> if trim_space model = [] then [] else case f model of None \<Rightarrow> [] | Some d \<Rightarrow> d)"

text \<open>
  Option layers. Whatever layers a key occurs in, its effective value is that of the most
  specific one (Instance, model, global, manager default, detected, in this order), and its source
  names that layer; an empty companion option of a layer switches the option off without falling
  back to a less specific layer or to a detected default.
\<close>

theorem option_precedence:
  assumes "effective_options db model inst = Some e"
    and "stored_layers db model inst = Some (model', g, m, i)"
    and "list_all (\<lambda>layer. distinct (map fst layer)) [g, m, i, detected_rows db model']"
  defines "chosen \<equiv> first_layer [(''instance'', i), (''model'', m), (''global'', g),
    (''manager-default'', manager_defaults), (''detected'', detected_rows db model')]"
  shows "map_of (ef_values e) k = layer_value k (chosen k) \<and>
    map_of (ef_sources e) k = map_option fst (chosen k)"
proof (rule conjI)
  have dist: "distinct (map fst g)" "distinct (map fst m)" "distinct (map fst i)"
    "distinct (map fst (detected_rows db model'))" "distinct (map fst manager_defaults)"
    using assms(3) by (simp_all add: manager_defaults_def)
  obtain vals srcs where e: "ef_values e = vals" "ef_sources e = srcs"
    "(vals, srcs) = apply_detected (detected_rows db model') (apply_layer ''instance'' i (apply_layer ''model'' m
       (apply_layer ''global'' g (apply_layer ''manager-default'' manager_defaults ([], [])))))"
    using assms(1,2)
    by (auto simp: effective_options_def detected_rows_def Let_def split: option.splits if_splits prod.splits)
  then have v: "vals = fst (apply_detected (detected_rows db model') (apply_layer ''instance'' i (apply_layer ''model'' m
       (apply_layer ''global'' g (apply_layer ''manager-default'' manager_defaults ([], []))))))"
    and s: "srcs = snd (apply_detected (detected_rows db model') (apply_layer ''instance'' i (apply_layer ''model'' m
       (apply_layer ''global'' g (apply_layer ''manager-default'' manager_defaults ([], []))))))"
    by (metis fst_conv, metis snd_conv)
  show "map_of (ef_values e) k = layer_value k (chosen k)"
    unfolding e(1) v chosen_def using dist
    by (auto simp: apply_detected_values apply_layer_values apply_layer_sources layer_value_def split: option.split
        dest: weak_map_of_SomeI)
  show "map_of (ef_sources e) k = map_option fst (chosen k)"
    unfolding e(2) s chosen_def using dist
    by (auto simp: apply_detected_sources apply_layer_sources split: option.split dest: weak_map_of_SomeI)
qed

text \<open>An installation with one option on three layers and a switched-off projector.\<close>

definition sample_config :: config_db where
  "sample_config = \<lparr>db_global = Some [(''ctx-size'', ''8192''), (''threads'', ''4'')],
     db_model = (\<lambda>m. Some [(''mmproj'', ''/models/p.gguf''), (''threads'', ''6'')]),
     db_instance = (\<lambda>i. Some [(''mmproj'', '' ''), (''threads'', ''8'')]),
     db_model_of = (\<lambda>i. None), db_detected = Some (\<lambda>m. Some [(''mmproj'', ''/found''), (''spec-type'', ''draft-mtp'')])\<rparr>"

theorem option_precedence_witness:
  "\<exists>e. effective_options sample_config ''m'' ''i'' = Some e \<and>
     map_of (ef_values e) ''threads'' = Some ''8'' \<and> map_of (ef_sources e) ''threads'' = Some ''instance'' \<and>
     map_of (ef_values e) ''mmproj'' = None \<and> map_of (ef_values e) ''spec-type'' = Some ''draft-mtp''"
proof -
  have "effective_options sample_config ''m'' ''i'' \<noteq> None" by code_simp
  then obtain e where e: "effective_options sample_config ''m'' ''i'' = Some e" by blast
  have l: "stored_layers sample_config ''m'' ''i'' = Some (''m'', [(''ctx-size'', ''8192''), (''threads'', ''4'')],
     [(''mmproj'', ''/models/p.gguf''), (''threads'', ''6'')], [(''mmproj'', '' ''), (''threads'', ''8'')])"
    by code_simp
  have d: "detected_rows sample_config ''m'' = [(''mmproj'', ''/found''), (''spec-type'', ''draft-mtp'')]"
    by code_simp
  have off: "switched_off ''mmproj'' '' ''" by code_simp
  note p = option_precedence [OF e l, unfolded d]
  have "map_of (ef_values e) ''threads'' = Some ''8'' \<and> map_of (ef_sources e) ''threads'' = Some ''instance''"
    using p [of "''threads''"] by (auto simp: layer_value_def switched_off_def companion_options_def)
  moreover have "map_of (ef_values e) ''mmproj'' = None"
    using p [of "''mmproj''"] off by (auto simp: layer_value_def)
  moreover have "map_of (ef_values e) ''spec-type'' = Some ''draft-mtp''"
    using p [of "''spec-type''"] by (auto simp: layer_value_def manager_defaults_def)
  ultimately show ?thesis using e by blast
qed

end
