(* ===== verification/Launch_Args.thy ===== *)
theory Launch_Args
  imports Launch_Options Runtime_Plan
begin

text \<open>
  From a runtime plan to the command line of the worker: the argument and device functions at the
  end of \<open>lifecycle/service.go\<close>, the device filter of \<open>lifecycle/runtime_devices.go\<close>, the
  capabilities of \<open>lifecycle/runtime_launch.go\<close>, and what the supervisor does with the arguments
  (\<open>supervisor/start.go\<close>, \<open>control.go\<close>, \<open>device_validation.go\<close>, \<open>environment.go\<close>).
\<close>

section \<open>Arguments from options\<close>

definition option_flag :: "string \<Rightarrow> string" where
  "option_flag k = ''--'' @ trim_left_char (CHR ''-'') k"

definition option_arg :: "string \<times> string \<Rightarrow> string list" where
  "option_arg kv =
     (let v = trim_space (snd kv); low = to_lower v
      in if low = ''true'' then [option_flag (fst kv)]
         else if low = ''false'' \<or> low = [] then []
         else [option_flag (fst kv), v])"

text \<open>The entries of the map in any order; the keys are sorted.\<close>

definition option_args :: "option_list \<Rightarrow> string list" where
  "option_args opts = concat (map option_arg (sort_by (\<lambda>a b. fst a < fst b) opts))"

section \<open>Arguments from the placement\<close>

definition parse_indexed_gpu :: "string \<Rightarrow> (i64 \<times> string) option" where
  "parse_indexed_gpu raw =
     (let d = trim_space raw;
          indexed = (\<lambda>p backend. case parse_int (trim_prefix d p) of
             None \<Rightarrow> None | Some n \<Rightarrow> if n < 0 then None else Some (n, backend))
      in if has_prefix d ''CUDA'' then indexed ''CUDA'' ''cuda''
         else if has_prefix d ''ROCm'' then indexed ''ROCm'' ''rocm''
         else None)"

definition isolate_single_visible_gpu :: "string \<Rightarrow> (string \<times> string list) option" where
  "isolate_single_visible_gpu d =
     (case parse_indexed_gpu d of
        None \<Rightarrow> None
      | Some (n, backend) \<Rightarrow>
          if backend = ''cuda'' then Some (''CUDA0'', [''CUDA_VISIBLE_DEVICES='' @ format_int n])
          else Some (''ROCm0'', [''HIP_VISIBLE_DEVICES='' @ format_int n, ''ROCR_VISIBLE_DEVICES='' @ format_int n]))"

definition append_placement_launch_args ::
    "string list \<Rightarrow> string list \<Rightarrow> string \<Rightarrow> bool \<Rightarrow> string list \<times> string list" where
  "append_placement_launch_args args devices split has_override =
     (case devices of
        [] \<Rightarrow> (args, [])
      | [d] \<Rightarrow>
          (case isolate_single_visible_gpu d of
             Some (isolated, env) \<Rightarrow> (args @ [''--device'', isolated, ''--split-mode'', ''none''], env)
           | None \<Rightarrow> (args @ [''--device'', d, ''--split-mode'', ''none''], []))
      | _ \<Rightarrow>
          (args @ [''--device'', join_with '','' devices] @
             (if \<not> has_override \<and> split \<noteq> [] then [''--tensor-split'', split] else []), []))"

text \<open>
  The arguments and the environment \<open>startOneWithEviction\<close> passes on, from the launch options with
  their entries, the plan and the Instance's mode, devices and tensor split.
\<close>

definition launch_args ::
    "option_list \<Rightarrow> runtime_plan \<Rightarrow> string \<Rightarrow> string list \<Rightarrow> string \<Rightarrow> string list \<times> string list" where
  "launch_args opts plan gpu_mode gpu_devices split =
     (let args = option_args opts; has_override = (map_of opts ''tensor-split'' \<noteq> None)
      in if pl_devices (rp_placement plan) \<noteq> [] then
           append_placement_launch_args args (pl_devices (rp_placement plan))
             (pl_tensor_split (rp_placement plan)) has_override
         else if rp_mode plan = ''cpu'' then
           (args, [''CUDA_VISIBLE_DEVICES='', ''HIP_VISIBLE_DEVICES='', ''ROCR_VISIBLE_DEVICES=''])
         else if gpu_mode = ''manual'' \<and> gpu_devices \<noteq> [] then
           append_placement_launch_args args gpu_devices split has_override
         else (args, []))"

section \<open>The supervisor's side\<close>

definition worker_owned_value_options :: "string list" where
  "worker_owned_value_options = [''alias'', ''model'', ''host'', ''port'', ''cors-origins'', ''cors-methods'',
     ''cors-headers'', ''api-key'', ''api-key-file'', ''slot-save-path'']"

definition worker_owned_boolean_options :: "string list" where
  "worker_owned_boolean_options = [''cors-credentials'', ''no-cors-credentials'', ''slots'', ''no-slots'']"

definition worker_owned :: "string \<Rightarrow> bool" where
  "worker_owned k \<longleftrightarrow> k \<in> set worker_owned_value_options \<or> k \<in> set worker_owned_boolean_options"

fun sanitize_worker_owned_args :: "string list \<Rightarrow> string list" where
  "sanitize_worker_owned_args [] = []"
| "sanitize_worker_owned_args (raw # rest) =
     (let key = trim_left_char (CHR ''-'') raw
      in if CHR ''='' \<in> set key \<and> worker_owned (takeWhile (\<lambda>c. c \<noteq> CHR ''='') key)
         then sanitize_worker_owned_args rest
         else if key \<in> set worker_owned_value_options then sanitize_worker_owned_args (tl rest)
         else if key \<in> set worker_owned_boolean_options then sanitize_worker_owned_args rest
         else raw # sanitize_worker_owned_args rest)"

text \<open>The argument vector of the process, after the binary.\<close>

definition worker_args :: "string \<Rightarrow> string \<Rightarrow> string \<Rightarrow> i64 \<Rightarrow> string list \<Rightarrow> string \<Rightarrow> string list" where
  "worker_args model_path alias host port args slot_path =
     [''--model'', model_path, ''--alias'', alias, ''--host'', host, ''--port'', format_int port] @
     sanitize_worker_owned_args args @ [''--cors-origins'', ''localhost''] @
     (if trim_space slot_path \<noteq> [] then [''--slot-save-path'', slot_path] else [])"

definition env_key :: "string \<Rightarrow> string" where
  "env_key entry = takeWhile (\<lambda>c. c \<noteq> CHR ''='') entry"

text \<open>The inherited environment is an argument.\<close>

definition worker_environ :: "string list \<Rightarrow> string list \<Rightarrow> string list" where
  "worker_environ inherited extra =
     filter (\<lambda>e. \<not> (env_key e \<noteq> [] \<and> env_key e \<in> env_key ` set extra)) inherited @ extra"

definition identity_env :: "string \<Rightarrow> string \<Rightarrow> string \<Rightarrow> i64 \<Rightarrow> string list" where
  "identity_env installation inst generation port =
     (if installation = [] \<or> inst = [] \<or> generation = [] then []
      else [''LLAMARACK_INSTALLATION_ID='' @ installation, ''LLAMARACK_INSTANCE_ID='' @ inst,
            ''LLAMARACK_WORKER_GENERATION='' @ generation, ''LLAMARACK_WORKER_PORT='' @ format_int port])"

definition visible_device_index :: "string list \<Rightarrow> string \<Rightarrow> i64 option" where
  "visible_device_index env key =
     (case find (\<lambda>e. has_prefix e (key @ ''='')) env of
        None \<Rightarrow> None
      | Some e \<Rightarrow>
          let visible = trim_space (trim_prefix e (key @ ''=''))
          in if CHR '','' \<in> set visible then None
             else case parse_int visible of None \<Rightarrow> None | Some n \<Rightarrow> if n < 0 then None else Some n)"

definition device_values :: "string \<Rightarrow> string list" where
  "device_values v = filter (\<lambda>d. d \<noteq> []) (map trim_space (split_on (CHR '','') v))"

fun device_arguments :: "string list \<Rightarrow> string list" where
  "device_arguments [] = []"
| "device_arguments (a # rest) =
     (let raw = trim_space a
      in if raw = ''--device'' \<and> rest \<noteq> [] then device_values (hd rest) @ device_arguments (tl rest)
         else if has_prefix raw ''--device='' then device_values (trim_prefix raw ''--device='') @ device_arguments rest
         else device_arguments rest)"

definition launch_device_ids :: "string list \<Rightarrow> string list \<Rightarrow> string list" where
  "launch_device_ids args env =
     (case device_arguments args of
        [d] \<Rightarrow>
          (case (if d = ''CUDA0'' then visible_device_index env ''CUDA_VISIBLE_DEVICES'' else None) of
             Some n \<Rightarrow> [''CUDA'' @ format_int n]
           | None \<Rightarrow>
               (case (if d = ''ROCm0'' then visible_device_index env ''HIP_VISIBLE_DEVICES'' else None) of
                  Some n \<Rightarrow> [''ROCm'' @ format_int n]
                | None \<Rightarrow> [d]))
      | ds \<Rightarrow> ds)"

section \<open>The devices the binary exposes\<close>

record device_capability =
  dc_enforced :: bool
  dc_available :: bool
  dc_devices :: "string list"
  dc_reason :: string

datatype device_error = DiscoveryUnavailable string | NotExposed string

definition runtime_devices_from_profile :: "profile \<Rightarrow> device_capability" where
  "runtime_devices_from_profile p =
     (if pf_discovered p
      then \<lparr>dc_enforced = True, dc_available = True, dc_devices = pf_devices p, dc_reason = []\<rparr>
      else if trim_space (pf_discovery_error p) \<noteq> []
      then \<lparr>dc_enforced = True, dc_available = False, dc_devices = pf_devices p, dc_reason = pf_discovery_error p\<rparr>
      else \<lparr>dc_enforced = False, dc_available = False, dc_devices = pf_devices p, dc_reason = []\<rparr>)"

text \<open>No getter is \<open>None\<close>; a getter returns an error message or a profile.\<close>

definition runtime_devices_from_getter :: "(string + profile) option \<Rightarrow> device_capability" where
  "runtime_devices_from_getter getter =
     (case getter of
        None \<Rightarrow> \<lparr>dc_enforced = False, dc_available = False, dc_devices = [], dc_reason = []\<rparr>
      | Some (Inl e) \<Rightarrow> \<lparr>dc_enforced = True, dc_available = False, dc_devices = [], dc_reason = e\<rparr>
      | Some (Inr p) \<Rightarrow> runtime_devices_from_profile p)"

definition clean_devices :: "string list \<Rightarrow> string list" where
  "clean_devices ds = filter (\<lambda>d. d \<noteq> []) (map trim_space ds)"

definition filter_devices :: "device_capability \<Rightarrow> snapshot \<Rightarrow> snapshot" where
  "filter_devices c s =
     (if \<not> dc_enforced c then s
      else if \<not> dc_available c then s\<lparr>gpus := [], processes := []\<rparr>
      else s\<lparr>gpus := filter (\<lambda>g. trim_space (gpu_id g) \<in> set (clean_devices (dc_devices c))) (gpus s),
             processes := filter (\<lambda>p. trim_space (gp_device p) \<in> set (clean_devices (dc_devices c))) (processes s)\<rparr>)"

text \<open>\<open>None\<close> is \<open>nil\<close>.\<close>

definition validate_manual :: "device_capability \<Rightarrow> string list \<Rightarrow> device_error option" where
  "validate_manual c ds =
     (if clean_devices ds = [] \<or> \<not> dc_enforced c then None
      else if \<not> dc_available c then Some (DiscoveryUnavailable (if trim_space (dc_reason c) = [] then [] else dc_reason c))
      else map_option NotExposed (find (\<lambda>d. d \<notin> set (clean_devices (dc_devices c))) (clean_devices ds)))"

section \<open>What the planner is told\<close>

definition gpu_layer_option_from_profile :: "profile \<Rightarrow> string" where
  "gpu_layer_option_from_profile p =
     (if profile_has p ''n-gpu-layers'' then ''n-gpu-layers''
      else if profile_has p ''gpu-layers'' then ''gpu-layers'' else [])"

definition runtime_capabilities_of :: "profile \<Rightarrow> runtime_capabilities" where
  "runtime_capabilities_of p = \<lparr>rc_n_cpu_moe = profile_has p ''n-cpu-moe'', rc_cpu_moe = profile_has p ''cpu-moe'',
     rc_no_kv_offload = profile_has p ''no-kv-offload'',
     rc_gpu_layers = profile_has p ''n-gpu-layers'' \<or> profile_has p ''gpu-layers'',
     rc_layers_option = gpu_layer_option_from_profile p\<rparr>"

text \<open>\<open>recommendations.AssumeIdleSnapshot\<close>.\<close>

definition assume_idle_snapshot :: "snapshot \<Rightarrow> snapshot" where
  "assume_idle_snapshot s =
     s\<lparr>ram_available := (if 0 < ram_total s then ram_total s else ram_available s),
       gpus := map (\<lambda>g. if 0 < gpu_total g then g\<lparr>gpu_free := gpu_total g\<rparr> else g) (gpus s)\<rparr>"

section \<open>Owned flags\<close>

text \<open>An argument the supervisor takes for one of its own flags, with or without a value attached.\<close>

definition owned_flag :: "string \<Rightarrow> bool" where
  "owned_flag a \<longleftrightarrow>
     (let key = trim_left_char (CHR ''-'') a
      in worker_owned key \<or> CHR ''='' \<in> set key \<and> worker_owned (takeWhile (\<lambda>c. c \<noteq> CHR ''='') key))"

lemma sanitize_no_owned: "a \<in> set (sanitize_worker_owned_args args) \<Longrightarrow> \<not> owned_flag a"
  by (induction args rule: sanitize_worker_owned_args.induct)
    (auto simp: Let_def owned_flag_def worker_owned_def split: if_splits)

lemma sanitize_clean:
  "\<forall>a \<in> set xs. \<not> owned_flag a \<Longrightarrow> sanitize_worker_owned_args (xs @ ys) = xs @ sanitize_worker_owned_args ys"
  by (induction xs) (auto simp: Let_def owned_flag_def worker_owned_def)

lemma sanitize_clean_only: "\<forall>a \<in> set xs. \<not> owned_flag a \<Longrightarrow> sanitize_worker_owned_args xs = xs"
  using sanitize_clean [of xs "[]"] by simp

text \<open>A port number is none of these words.\<close>

definition number_char :: "char \<Rightarrow> bool" where
  "number_char c \<longleftrightarrow> c \<in> set ''-0123456789''"

lemma format_int_chars: "c \<in> set (format_int n) \<Longrightarrow> number_char c"
proof -
  have all: "list_all number_char ''0123456789''" by code_simp
  have d: "number_char (digit_char d)" if "is_digit d" for d
  proof -
    have "nat d < 10" using that unfolding is_digit_def by linarith
    moreover have "length ''0123456789'' = 10" by simp
    ultimately have "nat d < length ''0123456789''" by (simp only:)
    then show ?thesis using all unfolding digit_char_def list_all_length by blast
  qed
  have n: "number_char c" if "c \<in> set (dec_string m)" "0 \<le> m" for m
    using set_dec_string [OF that(2,1)] d by blast
  have "number_char (CHR ''-'')" by code_simp
  then show "c \<in> set (format_int n) \<Longrightarrow> number_char c"
    unfolding format_int_def using n [of n] n [of "- n"] by (cases "n < 0") auto
qed

lemma worker_owned_letter: "worker_owned w \<Longrightarrow> \<exists>c \<in> set w. \<not> number_char c"
proof -
  have "list_all (list_ex (\<lambda>c. \<not> number_char c)) (worker_owned_value_options @ worker_owned_boolean_options)"
    by code_simp
  then show "worker_owned w \<Longrightarrow> \<exists>c \<in> set w. \<not> number_char c"
    unfolding worker_owned_def list_all_iff list_ex_iff by auto
qed

lemma owned_flag_letter:
  assumes "owned_flag a"
  shows "\<exists>c \<in> set a. \<not> number_char c"
proof -
  have sub: "set (trim_left_char (CHR ''-'') a) \<subseteq> set a"
    by (auto simp: trim_left_char_def dest: set_dropWhileD)
  obtain w where "worker_owned w" "set w \<subseteq> set (trim_left_char (CHR ''-'') a)"
    using assms unfolding owned_flag_def Let_def by (auto dest: set_takeWhileD)
  then show ?thesis using worker_owned_letter sub by blast
qed



text \<open>
  A value is taken for a flag: the supervisor strips dashes before it looks a word up, so an
  option whose value is the bare word \<open>model\<close> loses its value together with the flag after it, and
  takes that flag's value for its own.
\<close>

theorem value_taken_for_flag:
  "sanitize_worker_owned_args (option_args [(''ctx-size'', ''4096''), (''chat-template'', ''model'')]) =
   [''--chat-template'', ''4096'']"
  by code_simp

section \<open>Explicit false\<close>

lemma launch_loop_inverse:
  "launch_loop avail es out = Inr res \<Longrightarrow> q \<notin> fst ` set es \<Longrightarrow>
   (\<exists>k v. (k, v) \<in> set es \<and> avail k = Some x \<and> is_boolean_option x \<and> equal_fold (trim_space v) ''false'' \<and>
      inverse_boolean_key k = q) \<or> map_of out q = Some ''true'' \<Longrightarrow>
   map_of res q = Some ''true''"
proof (induction avail es out rule: launch_loop.induct)
  case (2 avail k v rest out)
  show ?case
  proof (cases "avail k")
    case None
    with 2 show ?thesis by auto
  next
    case (Some y)
    show ?thesis
    proof (cases "equal_fold (trim_space v) ''false'' \<and> is_boolean_option y")
      case True
      with "2.prems"(1) Some obtain z where z: "avail (inverse_boolean_key k) = Some z" "is_boolean_option z"
        "launch_loop avail rest (AList.update (inverse_boolean_key k) ''true'' out) = Inr res"
        by (auto split: option.splits if_splits)
      then show ?thesis
        using "2.IH"(2) [OF Some True z(1)] "2.prems"(2,3) Some by (auto simp: AList.update_conv')
    next
      case False
      with Some 2 show ?thesis by (auto simp: AList.update_conv' split: if_splits)
    qed
  qed
qed simp

lemma launch_loop_error: "launch_loop avail es out = Inl e \<Longrightarrow> \<exists>k. e = NoInverse k"
  by (induction avail es out rule: launch_loop.induct) (auto split: option.splits if_splits)

lemma option_args_true: "map_of opts k = Some ''true'' \<Longrightarrow> option_flag k \<in> set (option_args opts)"
proof -
  assume "map_of opts k = Some ''true''"
  then have "(k, ''true'') \<in> set (sort_by (\<lambda>a b. fst a < fst b) opts)" by (simp add: map_of_SomeD)
  moreover have "trim_space ''true'' = ''true''" "to_lower ''true'' = ''true''" by code_simp+
  ultimately show ?thesis unfolding option_args_def option_arg_def by (force simp: Let_def)
qed

text \<open>
  An explicit false is never dropped: a boolean option of the schema that is effectively false
  either reaches the worker as its inverse flag, or the launch is refused because the schema has no
  such flag. The other spelling of the pair must not be set as well.
\<close>

theorem explicit_false_expressed:
  assumes "map_of (ef_values e) k = Some v" and "equal_fold (trim_space v) ''false''"
    and "available_options p k = Some x" and "is_boolean_option x"
    and "inverse_boolean_key k \<notin> fst ` set (ef_values e)"
  shows "case launch_options_for_effective p e of
      Inl err \<Rightarrow> \<exists>j. err = NoInverse j
    | Inr out \<Rightarrow> option_flag (inverse_boolean_key k) \<in> set (option_args out)"
proof (cases "launch_options_for_effective p e")
  case (Inl err)
  then show ?thesis by (auto simp: launch_options_for_effective_def launch_loop_error split: if_splits)
next
  case (Inr out)
  have "pf_options p \<noteq> []" using assms(3) by (auto simp: available_options_def)
  with Inr have "launch_loop (available_options p) (ef_values e) [] = Inr out"
    by (simp add: launch_options_for_effective_def)
  from launch_loop_inverse [OF this assms(5)] have "map_of out (inverse_boolean_key k) = Some ''true''"
    using assms(1-4) map_of_SomeD [OF assms(1)] by blast
  with Inr show ?thesis by (simp add: option_args_true)
qed

definition sample_profile :: profile where
  "sample_profile = \<lparr>pf_path = ''llama-server'', pf_version = ''1'', pf_options =
     [\<lparr>lo_key = ''mmap'', lo_hint = [], lo_kind = ''boolean'', lo_choices = []\<rparr>,
      \<lparr>lo_key = ''no-mmap'', lo_hint = [], lo_kind = ''boolean'', lo_choices = []\<rparr>,
      \<lparr>lo_key = ''ctx-size'', lo_hint = ''N'', lo_kind = ''integer'', lo_choices = []\<rparr>],
     pf_devices = [''CUDA0'', ''CUDA1''], pf_discovered = True, pf_discovery_error = []\<rparr>"

definition sample_effective :: effective where
  "sample_effective = \<lparr>ef_global = [], ef_model = [], ef_instance = [(''mmap'', ''false'')],
     ef_values = [(''ctx-size'', ''4096''), (''mmap'', ''false'')],
     ef_sources = [(''ctx-size'', ''manager-default''), (''mmap'', ''instance'')]\<rparr>"

theorem explicit_false_expressed_witness:
  "\<exists>out. launch_options_for_effective sample_profile sample_effective = Inr out \<and>
     ''--no-mmap'' \<in> set (option_args out)"
proof -
  have l: "launch_options_for_effective sample_profile sample_effective =
      Inr [(''ctx-size'', ''4096''), (''no-mmap'', ''true'')]" by code_simp
  have i: "inverse_boolean_key ''mmap'' = ''no-mmap''" "option_flag ''no-mmap'' = ''--no-mmap''" by code_simp+
  have "map_of (ef_values sample_effective) ''mmap'' = Some ''false''" by code_simp
  moreover have "equal_fold (trim_space ''false'') ''false''" by code_simp
  moreover have "available_options sample_profile ''mmap'' =
      Some \<lparr>lo_key = ''mmap'', lo_hint = [], lo_kind = ''boolean'', lo_choices = []\<rparr>" by code_simp
  moreover have "is_boolean_option \<lparr>lo_key = ''mmap'', lo_hint = [], lo_kind = ''boolean'', lo_choices = []\<rparr>" by code_simp
  moreover have "inverse_boolean_key ''mmap'' \<notin> fst ` set (ef_values sample_effective)" by code_simp
  ultimately show ?thesis
    using explicit_false_expressed [of sample_effective "''mmap''" "''false''" sample_profile] l i by simp
qed

section \<open>The planned devices are accepted\<close>

lemma spread_gpus_within:
  "spread_gpus r required gs devs avail ws = (devs', rest) \<Longrightarrow> set devs' \<subseteq> set devs \<union> gpu_id ` set gs"
  by (induction r required gs devs avail ws rule: spread_gpus.induct) (auto simp: Let_def split: if_splits)

lemma manual_devices_within:
  "manual_devices gs r raws devs avail = Inr (devs', avail') \<Longrightarrow> set devs' \<subseteq> set devs \<union> gpu_id ` set gs"
proof (induction gs r raws devs avail rule: manual_devices.induct)
  case (2 gs r raw raws devs avail)
  then obtain g where g: "gpu_by_id gs (trim_space raw) = Some g" by (auto simp: Let_def split: option.splits)
  then have "trim_space raw \<in> gpu_id ` set gs" using gpu_by_id_Some [OF g] by force
  then show ?case using 2 g by (cases "trim_space raw \<in> set devs") auto
qed simp

lemma plan_placement_within:
  assumes "plan_placement s req = Inr p"
  shows "set (pl_devices p) \<subseteq> gpu_id ` set (gpus s)"
proof -
  have "set (pl_devices (plan_auto s req r)) \<subseteq> gpu_id ` set (gpus s)" for r
    by (auto simp: plan_auto_def Let_def sorted_gpus_by_usable_def find_Some_iff no_placement_def split: option.split prod.split
        dest!: spread_gpus_within) (metis nth_mem length_sort_by set_sort_by image_eqI)+
  moreover have "set (pl_devices q) \<subseteq> gpu_id ` set (gpus s)" if "plan_manual s req r = Inr q" for q r
    using that
    by (auto simp: plan_manual_def Let_def split: if_splits sum.splits list.splits dest!: manual_devices_within) blast
  ultimately show ?thesis
    using assms by (auto simp: plan_placement_def Let_def no_placement_def split: if_splits)
qed

text \<open>A device id as the binary and the probes write it.\<close>

definition worker_device :: "string \<Rightarrow> bool" where
  "worker_device d \<longleftrightarrow> d \<noteq> [] \<and> trimmed d \<and> CHR '','' \<notin> set d \<and> CHR ''='' \<notin> set d \<and> \<not> owned_flag d \<and>
     (case parse_indexed_gpu d of None \<Rightarrow> True
      | Some (n, b) \<Rightarrow> d = (if b = ''cuda'' then ''CUDA'' else ''ROCm'') @ format_int n)"

definition device_flag :: "string \<Rightarrow> bool" where
  "device_flag a \<longleftrightarrow> trim_space a = ''--device'' \<or> has_prefix (trim_space a) ''--device=''"

lemma device_arguments_skip: "\<forall>a \<in> set xs. \<not> device_flag a \<Longrightarrow> device_arguments (xs @ ys) = device_arguments ys"
  by (induction xs) (auto simp: device_flag_def Let_def)

lemma device_values_join:
  assumes "ds \<noteq> []" and "\<forall>d \<in> set ds. worker_device d"
  shows "device_values (join_with '','' ds) = ds"
proof -
  have "split_on (CHR '','') (join_with '','' ds) = ds" using assms by (intro split_join) (auto simp: worker_device_def)
  moreover have "map trim_space ds = ds" "filter (\<lambda>d. d \<noteq> []) ds = ds"
    using assms(2) by (auto simp: worker_device_def intro!: map_idI filter_True)
  ultimately show ?thesis by (simp add: device_values_def)
qed

lemma join_not_owned:
  assumes "\<forall>d \<in> set ds. worker_device d"
  shows "\<not> owned_flag (join_with '','' ds)"
proof (cases ds rule: remdups_adj.cases)
  case (3 a b rest)
  let ?j = "trim_left_char (CHR ''-'') (join_with '','' ds)"
  have "list_all (\<lambda>w. CHR '','' \<notin> set w) (worker_owned_value_options @ worker_owned_boolean_options)" by code_simp
  then have "\<not> worker_owned w" if "CHR '','' \<in> set w" for w
    using that unfolding worker_owned_def list_all_iff by auto
  moreover have "CHR '','' \<in> set ?j"
  proof -
    have "x \<in> set (dropWhile (\<lambda>c. c = CHR ''-'') xs)" if "x \<in> set xs" "x \<noteq> CHR ''-''" for x xs
      using that by (induction xs) auto
    then show ?thesis using 3 by (simp add: trim_left_char_def)
  qed
  moreover have "CHR ''='' \<notin> set (join_with '','' xs)" if "\<forall>d \<in> set xs. worker_device d" for xs
    using that by (induction "'',''" xs rule: join_with.induct) (auto simp: worker_device_def)
  then have "CHR ''='' \<notin> set ?j" using assms by (auto simp: trim_left_char_def dest: set_dropWhileD)
  ultimately show ?thesis by (auto simp: owned_flag_def Let_def)
qed (use assms in \<open>auto simp: worker_device_def owned_flag_def trim_left_char_def worker_owned_def
    worker_owned_value_options_def worker_owned_boolean_options_def\<close>)


lemma single_device_ids:
  assumes "worker_device d" and "append_placement_launch_args base [d] split over = (args, env)"
    and "\<forall>a \<in> set base. \<not> owned_flag a \<and> \<not> device_flag a"
  shows "launch_device_ids (sanitize_worker_owned_args args) env = [d]"
proof -
  have tail: "device_arguments (sanitize_worker_owned_args (base @ [''--device'', x, ''--split-mode'', ''none''])) =
      device_values x" if "\<not> owned_flag x" for x
  proof -
    have flags: "\<not> owned_flag ''--device''" "\<not> owned_flag ''--split-mode''" "\<not> owned_flag ''none''" by code_simp+
    have t: "trim_space ''--device'' = ''--device''" "trim_space ''--split-mode'' = ''--split-mode''"
      "trim_space ''none'' = ''none''" "\<not> has_prefix ''--split-mode'' ''--device=''" "\<not> has_prefix ''none'' ''--device=''"
      by code_simp+
    have "sanitize_worker_owned_args (base @ [''--device'', x, ''--split-mode'', ''none'']) =
        base @ [''--device'', x, ''--split-mode'', ''none'']"
      using assms(3) flags that by (intro sanitize_clean_only) auto
    then show ?thesis using assms(3) t by (simp add: device_arguments_skip Let_def)
  qed
  have dv: "device_values ''CUDA0'' = [''CUDA0'']" "device_values ''ROCm0'' = [''ROCm0'']" by code_simp+
  have visible: "visible_device_index ((k @ ''='' @ format_int n) # e) k = Some n" if "0 \<le> n" "is_i64 n" for k n e
  proof -
    have "CHR '','' \<notin> set (format_int n)"
      using format_int_chars [of "CHR '',''" n] by (auto simp: number_char_def)
    then show ?thesis using that by (simp add: visible_device_index_def has_prefix_def trim_prefix_def parse_format_int)
  qed
  show ?thesis
  proof (cases "parse_indexed_gpu d")
    case None
    moreover have "parse_indexed_gpu ''CUDA0'' \<noteq> None" "parse_indexed_gpu ''ROCm0'' \<noteq> None" by code_simp+
    ultimately have "d \<noteq> ''CUDA0''" "d \<noteq> ''ROCm0''" by blast+
    then show ?thesis
      using assms(1,2) tail [of d] None device_values_join [of "[d]"]
      by (auto simp: append_placement_launch_args_def isolate_single_visible_gpu_def launch_device_ids_def worker_device_def)
  next
    case (Some nb)
    then obtain n b where nb: "parse_indexed_gpu d = Some (n, b)" by (cases nb) auto
    then have n: "0 \<le> n" "is_i64 n" "b = ''cuda'' \<or> b = ''rocm''"
      by (auto simp: parse_indexed_gpu_def Let_def parse_int_is_i64 split: if_splits option.splits)
    have d: "d = (if b = ''cuda'' then ''CUDA'' else ''ROCm'') @ format_int n"
      using assms(1) nb by (simp add: worker_device_def)
    have own: "\<not> owned_flag ''CUDA0''" "\<not> owned_flag ''ROCm0''" by code_simp+
    show ?thesis
    proof (cases "b = ''cuda''")
      case True
      have "visible_device_index [''CUDA_VISIBLE_DEVICES='' @ format_int n] ''CUDA_VISIBLE_DEVICES'' = Some n"
        using visible [OF n(1,2), of "''CUDA_VISIBLE_DEVICES''" "[]"] by simp
      then show ?thesis
        using assms(2) nb True d tail [OF own(1)] dv
        by (auto simp: append_placement_launch_args_def isolate_single_visible_gpu_def launch_device_ids_def)
    next
      case False
      have "visible_device_index [''HIP_VISIBLE_DEVICES='' @ format_int n, ''ROCR_VISIBLE_DEVICES='' @ format_int n]
          ''HIP_VISIBLE_DEVICES'' = Some n"
        using visible [OF n(1,2), of "''HIP_VISIBLE_DEVICES''"] by simp
      then show ?thesis
        using assms(2) nb False d tail [OF own(2)] dv
        by (auto simp: append_placement_launch_args_def isolate_single_visible_gpu_def launch_device_ids_def)
    qed
  qed
qed


lemma many_device_ids:
  assumes "\<forall>d \<in> set ds. worker_device d" and "1 < length ds"
    and "append_placement_launch_args base ds split over = (args, env)"
    and "\<forall>a \<in> set (split # base). \<not> owned_flag a \<and> \<not> device_flag a"
  shows "launch_device_ids (sanitize_worker_owned_args args) env = ds"
proof -
  obtain a b rest where ds: "ds = a # b # rest" using assms(2) by (cases ds rule: remdups_adj.cases) auto
  obtain tl where args: "args = base @ ''--device'' # join_with '','' ds # tl" "set tl \<subseteq> {''--tensor-split'', split}"
    using assms(3) ds by (auto simp: append_placement_launch_args_def split: if_splits)
  have flags: "\<not> owned_flag ''--device''" "\<not> owned_flag ''--tensor-split''" "\<not> device_flag ''--tensor-split''" by code_simp+
  have "sanitize_worker_owned_args args = args"
    using assms(4) flags args join_not_owned [OF assms(1)] by (intro sanitize_clean_only) auto
  moreover have "device_arguments args = ds"
  proof -
    have t: "trim_space ''--device'' = ''--device''" by code_simp
    have "device_arguments (base @ ''--device'' # join_with '','' ds # tl) = device_values (join_with '','' ds) @ device_arguments tl"
      using assms(4) t by (subst device_arguments_skip) (auto simp: Let_def)
    moreover have "device_arguments tl = []"
      using device_arguments_skip [of tl "[]"] args(2) assms(4) flags by auto
    moreover have "device_values (join_with '','' ds) = ds" using assms(1) ds by (intro device_values_join) auto
    ultimately show ?thesis by (simp add: args)
  qed
  ultimately show ?thesis by (simp add: launch_device_ids_def ds)
qed



end
