(* ===== verification/Process.thy ===== *)
theory Process
  imports Main
begin

text \<open>
  Goroutines. A program is a tree of atomic actions: one critical section of the source, one channel
  operation, or one reading of the outside world \<open>'w\<close>. An action that cannot run yet (a lock that is
  held, a channel that is not closed) is \<open>None\<close>. Programs run either alone against an environment
  that changes the state between their actions (\<open>outcome\<close>), or as a pool in which one program takes
  one action at a time (\<open>pool_step\<close>).
\<close>

section \<open>Programs\<close>

datatype ('w, 's, 'a) prog =
    Return 'a
  | Act "'w \<Rightarrow> 's \<Rightarrow> ('s \<times> ('w, 's, 'a) prog) option"

primrec bindp :: "('w, 's, 'a) prog \<Rightarrow> ('a \<Rightarrow> ('w, 's, 'b) prog) \<Rightarrow> ('w, 's, 'b) prog" where
  "bindp (Return a) k = k a"
| "bindp (Act f) k = Act (\<lambda>w s. map_option (map_prod id (\<lambda>p. bindp p k)) (f w s))"

definition act :: "('w \<Rightarrow> 's \<Rightarrow> 's \<times> 'a) \<Rightarrow> ('w, 's, 'a) prog" where
  "act f = Act (\<lambda>w s. case f w s of (s', a) \<Rightarrow> Some (s', Return a))"

definition await :: "('w \<Rightarrow> 's \<Rightarrow> ('s \<times> 'a) option) \<Rightarrow> ('w, 's, 'a) prog" where
  "await f = Act (\<lambda>w s. case f w s of None \<Rightarrow> None | Some (s', a) \<Rightarrow> Some (s', Return a))"

definition readp :: "('w \<Rightarrow> 's \<Rightarrow> 'a) \<Rightarrow> ('w, 's, 'a) prog" where
  "readp f = act (\<lambda>w s. (s, f w s))"

definition update :: "('w \<Rightarrow> 's \<Rightarrow> 's) \<Rightarrow> ('w, 's, unit) prog" where
  "update f = act (\<lambda>w s. (f w s, ()))"

lemma prog_induct [case_names Return Act]:
  assumes "\<And>a. P (Return a)" and "\<And>f. (\<And>w s s' p. f w s = Some (s', p) \<Longrightarrow> P p) \<Longrightarrow> P (Act f)"
  shows "P p"
proof (induction p)
  case (Act f)
  show ?case
  proof (rule assms(2))
    fix w s s' p
    assume "f w s = Some (s', p)"
    moreover from this have "Some (s', p) \<in> range (f w)" by (metis rangeI)
    ultimately show "P p" using Act [of "f w" "f w s" "(s', p)" p] by (auto simp: snds.simps)
  qed
qed (rule assms(1))

lemma bindp_assoc: "bindp (bindp p k) h = bindp p (\<lambda>a. bindp (k a) h)"
proof (induction p rule: prog_induct)
  case (Act f)
  have "map_option (map_prod id (\<lambda>p. bindp p h)) (map_option (map_prod id (\<lambda>p. bindp p k)) (f w s)) =
      map_option (map_prod id (\<lambda>p. bindp p (\<lambda>a. bindp (k a) h))) (f w s)" for w s
    using Act by (cases "f w s") auto
  then show ?case by simp
qed simp

section \<open>One program in an environment\<close>

inductive outcome :: "('s \<Rightarrow> 's \<Rightarrow> bool) \<Rightarrow> ('w, 's, 'a) prog \<Rightarrow> 's \<Rightarrow> 'a \<Rightarrow> 's \<Rightarrow> bool" for R where
  finished: "outcome R (Return a) s a s"
| acts: "f w s = Some (s', p) \<Longrightarrow> R s' s'' \<Longrightarrow> outcome R p s'' a t \<Longrightarrow> outcome R (Act f) s a t"

inductive_cases outcome_ReturnE [elim!]: "outcome R (Return a) s b t"
inductive_cases outcome_ActE: "outcome R (Act f) s b t"

lemma outcome_Return [simp]: "outcome R (Return a) s b t \<longleftrightarrow> b = a \<and> t = s"
  by (auto intro: finished)

lemma outcome_bindE:
  assumes "outcome R (bindp p k) s b t"
  obtains a u where "outcome R p s a u" and "outcome R (k a) u b t"
proof -
  have "\<exists>a u. outcome R p s a u \<and> outcome R (k a) u b t"
    using assms
  proof (induction p arbitrary: s rule: prog_induct)
    case (Act f)
    from Act.prems obtain w s' p s'' where "f w s = Some (s', p)" "R s' s''" "outcome R (bindp p k) s'' b t"
      by (auto elim!: outcome_ActE)
    with Act.IH show ?case by (blast intro: acts)
  qed (auto intro: finished)
  then show thesis using that by blast
qed

lemma outcome_bindI: "outcome R p s a u \<Longrightarrow> outcome R (k a) u b t \<Longrightarrow> outcome R (bindp p k) s b t"
proof (induction rule: outcome.induct)
  case (acts f w s s' p s'' a t')
  then show ?case by (auto intro!: outcome.acts [where w = w])
qed simp

lemma outcome_actE:
  assumes "outcome R (act f) s a t"
  obtains w s' where "f w s = (s', a)" and "R s' t"
  using assms unfolding act_def by (auto elim!: outcome_ActE split: prod.splits)

lemma outcome_actI: "f w s = (s', a) \<Longrightarrow> R s' t \<Longrightarrow> outcome R (act f) s a t"
  unfolding act_def by (rule acts [where w = w]) (auto intro: finished)

lemma outcome_awaitE:
  assumes "outcome R (await f) s a t"
  obtains w s' where "f w s = Some (s', a)" and "R s' t"
  using assms unfolding await_def by (auto elim!: outcome_ActE split: option.splits prod.splits)

lemma outcome_readpE:
  assumes "outcome R (readp f) s a t"
  obtains w where "a = f w s" and "R s t"
  using assms unfolding readp_def by (auto elim!: outcome_actE)

lemma outcome_updateE:
  assumes "outcome R (update f) s a t"
  obtains w where "R (f w s) t"
  using assms unfolding update_def by (auto elim!: outcome_actE)

text \<open>A property every action keeps, in the worlds of \<open>W\<close>.\<close>

inductive keeps :: "('w \<Rightarrow> bool) \<Rightarrow> ('s \<Rightarrow> bool) \<Rightarrow> ('w, 's, 'a) prog \<Rightarrow> bool" for W I where
  keeps_Return: "keeps W I (Return a)"
| keeps_Act: "(\<And>w s s' p. W w \<Longrightarrow> f w s = Some (s', p) \<Longrightarrow> (I s \<longrightarrow> I s') \<and> keeps W I p) \<Longrightarrow> keeps W I (Act f)"

inductive_cases keeps_ActE: "keeps W I (Act f)"

lemma keeps_bind: "keeps W I p \<Longrightarrow> (\<And>a. keeps W I (k a)) \<Longrightarrow> keeps W I (bindp p k)"
proof (induction rule: keeps.induct)
  case (keeps_Act f)
  show ?case unfolding bindp.simps by (rule keeps.keeps_Act) (use keeps_Act in auto)
qed simp

lemma keeps_act: "(\<And>w s. W w \<Longrightarrow> I s \<Longrightarrow> I (fst (f w s))) \<Longrightarrow> keeps W I (act f)"
  unfolding act_def by (auto intro!: keeps_Act keeps_Return split: prod.splits) (metis fst_conv)

lemma keeps_await: "(\<And>w s s' a. W w \<Longrightarrow> I s \<Longrightarrow> f w s = Some (s', a) \<Longrightarrow> I s') \<Longrightarrow> keeps W I (await f)"
  unfolding await_def by (auto intro!: keeps_Act keeps_Return split: option.splits prod.splits)

lemma keeps_readp: "keeps W I (readp f)"
  unfolding readp_def by (rule keeps_act) simp

lemma keeps_readp_bind:
  fixes f :: "'w \<Rightarrow> 's \<Rightarrow> 'a"
  assumes "\<And>w s. W w \<Longrightarrow> keeps W I (k (f w s))"
  shows "keeps W I (bindp (readp f) k)"
  unfolding readp_def act_def bindp.simps by (rule keeps_Act) (use assms in auto)

lemma keeps_update: "(\<And>w s. W w \<Longrightarrow> I s \<Longrightarrow> I (f w s)) \<Longrightarrow> keeps W I (update f)"
  unfolding update_def by (rule keeps_act) simp

lemmas keeps_intros = keeps_Return keeps_bind keeps_readp keeps_update keeps_act keeps_await

section \<open>A program that runs alone in one world\<close>

primrec alone :: "'w \<Rightarrow> ('w, 's, 'a) prog \<Rightarrow> 's \<Rightarrow> ('a \<times> 's) option" where
  "alone w (Return a) = (\<lambda>s. Some (a, s))"
| "alone w (Act f) = (\<lambda>s. case map_option (map_prod id (alone w)) (f w s) of None \<Rightarrow> None | Some (s', r) \<Rightarrow> r s')"

lemma alone_bindp:
  "alone w (bindp p k) s = (case alone w p s of None \<Rightarrow> None | Some (a, t) \<Rightarrow> alone w (k a) t)"
proof (induction p arbitrary: s rule: prog_induct)
  case (Act f)
  then show ?case by (cases "f w s") auto
qed simp

lemma alone_act: "alone w (act f) s = (case f w s of (t, a) \<Rightarrow> Some (a, t))"
  by (simp add: act_def split: prod.splits)

lemma alone_await: "alone w (await f) s = (case f w s of None \<Rightarrow> None | Some (t, a) \<Rightarrow> Some (a, t))"
  by (simp add: await_def split: prod.splits option.splits)

lemma alone_readp: "alone w (readp f) s = Some (f w s, s)"
  by (simp add: readp_def alone_act)

lemma alone_update: "alone w (update f) s = Some ((), f w s)"
  by (simp add: update_def alone_act)

lemmas alone_simps = alone.simps(1) alone_bindp alone_act alone_await alone_readp alone_update

lemma alone_outcome: "alone w p s = Some (a, t) \<Longrightarrow> outcome (=) p s a t"
proof (induction p arbitrary: s rule: prog_induct)
  case (Act f)
  then show ?case by (auto split: option.splits intro: acts [where w = w])
qed simp

text \<open>Evaluation by the simplifier leaves the rest of a program alone.\<close>

lemma bindp_weak: "p = q \<Longrightarrow> bindp p k = bindp q k"
  by simp

section \<open>A pool of programs\<close>

inductive pool_step ::
    "('w \<Rightarrow> bool) \<Rightarrow> ('s \<Rightarrow> ('w, 's, 'a) prog \<Rightarrow> bool) \<Rightarrow>
     's \<times> ('w, 's, 'a) prog list \<Rightarrow> 's \<times> ('w, 's, 'a) prog list \<Rightarrow> bool"
  for W starts where
  pool_start: "starts s p \<Longrightarrow> pool_step W starts (s, ps) (s, ps @ [p])"
| pool_act: "W w \<Longrightarrow> i < length ps \<Longrightarrow> ps ! i = Act f \<Longrightarrow> f w s = Some (s', p) \<Longrightarrow>
    pool_step W starts (s, ps) (s', ps[i := p])"

inductive pool_reachable ::
    "('w \<Rightarrow> bool) \<Rightarrow> ('s \<Rightarrow> ('w, 's, 'a) prog \<Rightarrow> bool) \<Rightarrow> 's \<Rightarrow> 's \<Rightarrow> ('w, 's, 'a) prog list \<Rightarrow> bool"
  for W starts s0 where
  pool_initial: "pool_reachable W starts s0 s0 []"
| pool_next: "pool_reachable W starts s0 s ps \<Longrightarrow> pool_step W starts (s, ps) (s', ps') \<Longrightarrow>
    pool_reachable W starts s0 s' ps'"

text \<open>A run by a given schedule: which program moves, and in which world.\<close>

fun pool_run :: "('w \<times> nat) list \<Rightarrow> 's \<times> ('w, 's, 'a) prog list \<Rightarrow> ('s \<times> ('w, 's, 'a) prog list) option" where
  "pool_run [] (s, ps) = Some (s, ps)"
| "pool_run ((w, i) # xs) (s, ps) =
     (if length ps \<le> i then None
      else case ps ! i of
        Return a \<Rightarrow> None
      | Act f \<Rightarrow> (case f w s of None \<Rightarrow> None | Some (s', p) \<Rightarrow> pool_run xs (s', ps[i := p])))"

lemma pool_run_reachable:
  "pool_reachable W starts s0 s ps \<Longrightarrow> list_all (\<lambda>x. W (fst x)) xs \<Longrightarrow> pool_run xs (s, ps) = Some (t, qs) \<Longrightarrow>
    pool_reachable W starts s0 t qs"
proof (induction xs "(s, ps)" arbitrary: s ps rule: pool_run.induct)
  case (2 w i xs s ps)
  then obtain f s' p where f: "i < length ps" "ps ! i = Act f" "f w s = Some (s', p)" "pool_run xs (s', ps[i := p]) = Some (t, qs)"
    by (auto split: if_splits prog.splits option.splits)
  then have "pool_reachable W starts s0 s' (ps[i := p])" using 2(2,3) by (auto intro: pool_next pool_act)
  with 2 f show ?case by auto
qed simp

lemma alone_reachable:
  "outcome (=) p s a t \<Longrightarrow> pool_reachable (\<lambda>w. True) starts s0 s (ps @ [p]) \<Longrightarrow>
    pool_reachable (\<lambda>w. True) starts s0 t (ps @ [Return a])"
proof (induction rule: outcome.induct)
  case (acts f w s s' p s'' a t)
  have "pool_step (\<lambda>w. True) starts (s, ps @ [Act f]) (s', (ps @ [Act f])[length ps := p])"
    by (rule pool_act [where w = w and f = f]) (use acts in auto)
  with acts show ?case by (auto intro: pool_next)
qed

theorem pool_invariant:
  assumes "pool_reachable W starts s0 s ps" and "I s0" and "\<And>s p. starts s p \<Longrightarrow> keeps W I p"
  shows "I s \<and> list_all (keeps W I) ps"
  using assms(1)
proof (induction rule: pool_reachable.induct)
  case (pool_next s ps s' ps')
  from pool_next(2) show ?case
  proof (cases rule: pool_step.cases)
    case (pool_start p)
    then show ?thesis using pool_next.IH assms(3) by simp
  next
    case (pool_act w i f p)
    then have "keeps W I (Act f)" using pool_next.IH by (metis list_all_length)
    then have "I s' \<and> keeps W I p" using pool_act pool_next.IH by (auto elim!: keeps_ActE)
    then show ?thesis using pool_act pool_next.IH by (auto simp: list_all_length nth_list_update)
  qed
qed (simp add: assms(2))

text \<open>
  Accounting: \<open>owes c Q n p\<close> when \<open>p\<close> still holds \<open>n\<close> units of the counter \<open>c\<close>, and hands over the
  units \<open>Q\<close> says with its result. No other program touches the units one holds.
\<close>

inductive owes :: "('s \<Rightarrow> nat) \<Rightarrow> ('a \<Rightarrow> nat \<Rightarrow> bool) \<Rightarrow> nat \<Rightarrow> ('w, 's, 'a) prog \<Rightarrow> bool" for c Q where
  owes_Return: "Q a n \<Longrightarrow> owes c Q n (Return a)"
| owes_Act: "(\<And>w s s' p. n \<le> c s \<Longrightarrow> f w s = Some (s', p) \<Longrightarrow> \<exists>m. owes c Q m p \<and> c s' + n = c s + m) \<Longrightarrow>
    owes c Q n (Act f)"

inductive_cases owes_ActE: "owes c Q n (Act f)"

lemma owes_bind: "owes c (\<lambda>a m. owes c Q m (k a)) n p \<Longrightarrow> owes c Q n (bindp p k)"
proof (induction rule: owes.induct)
  case (owes_Act n f)
  show ?case unfolding bindp.simps
  proof (rule owes.owes_Act)
    fix w s s' p
    assume n: "n \<le> c s" and "map_option (map_prod id (\<lambda>p. bindp p k)) (f w s) = Some (s', p)"
    then obtain q where q: "f w s = Some (s', q)" "p = bindp q k" by auto
    from owes_Act [OF n q(1)] show "\<exists>m. owes c Q m p \<and> c s' + n = c s + m" using q(2) by auto
  qed
qed simp

lemma owes_act:
  fixes f :: "'w \<Rightarrow> 's \<Rightarrow> 's \<times> 'a" and c :: "'s \<Rightarrow> nat"
  assumes step: "\<And>w s s' a. n \<le> c s \<Longrightarrow> f w s = (s', a) \<Longrightarrow> \<exists>m. Q a m \<and> c s' + n = c s + m"
  shows "owes c Q n (act f)"
  unfolding act_def
proof (rule owes_Act)
  fix w :: 'w and s s' :: 's and p :: "('w, 's, 'a) prog"
  assume n: "n \<le> c s" and "(case f w s of (s', a) \<Rightarrow> Some (s', Return a)) = Some (s', p)"
  then obtain a where "f w s = (s', a)" "p = Return a" by (auto split: prod.splits)
  with step [OF n] show "\<exists>m. owes c Q m p \<and> c s' + n = c s + m" by (blast intro: owes_Return)
qed

lemma owes_await:
  fixes f :: "'w \<Rightarrow> 's \<Rightarrow> ('s \<times> 'a) option" and c :: "'s \<Rightarrow> nat"
  assumes step: "\<And>w s s' a. n \<le> c s \<Longrightarrow> f w s = Some (s', a) \<Longrightarrow> \<exists>m. Q a m \<and> c s' + n = c s + m"
  shows "owes c Q n (await f)"
  unfolding await_def
proof (rule owes_Act)
  fix w :: 'w and s s' :: 's and p :: "('w, 's, 'a) prog"
  assume n: "n \<le> c s" and "(case f w s of None \<Rightarrow> None | Some (s', a) \<Rightarrow> Some (s', Return a)) = Some (s', p)"
  then obtain a where "f w s = Some (s', a)" "p = Return a" by (auto split: option.splits prod.splits)
  with step [OF n] show "\<exists>m. owes c Q m p \<and> c s' + n = c s + m" by (blast intro: owes_Return)
qed

lemma owes_weaken: "owes c Q n p \<Longrightarrow> (\<And>a m. Q a m \<Longrightarrow> Q' a m) \<Longrightarrow> owes c Q' n p"
proof (induction rule: owes.induct)
  case (owes_Act n f)
  show ?case by (rule owes.owes_Act) (use owes_Act in blast)
qed (auto intro: owes_Return)

text \<open>A program whose actions leave the counter alone.\<close>

inductive neutral :: "('s \<Rightarrow> nat) \<Rightarrow> ('w, 's, 'a) prog \<Rightarrow> bool" for c where
  neutral_Return: "neutral c (Return a)"
| neutral_Act: "(\<And>w s s' p. f w s = Some (s', p) \<Longrightarrow> c s' = c s \<and> neutral c p) \<Longrightarrow> neutral c (Act f)"

lemma neutral_bind: "neutral c p \<Longrightarrow> (\<And>a. neutral c (k a)) \<Longrightarrow> neutral c (bindp p k)"
proof (induction rule: neutral.induct)
  case (neutral_Act f)
  show ?case unfolding bindp.simps by (rule neutral.neutral_Act) (use neutral_Act in auto)
qed simp

lemma neutral_act: "(\<And>w s. c (fst (f w s)) = c s) \<Longrightarrow> neutral c (act f)"
  unfolding act_def by (auto intro!: neutral_Act neutral_Return split: prod.splits) (metis fst_conv)

lemma neutral_await: "(\<And>w s s' a. f w s = Some (s', a) \<Longrightarrow> c s' = c s) \<Longrightarrow> neutral c (await f)"
  unfolding await_def by (auto intro!: neutral_Act neutral_Return split: option.splits prod.splits)

lemma neutral_readp: "neutral c (readp f)"
  unfolding readp_def by (rule neutral_act) simp

lemma neutral_update: "(\<And>w s. c (f w s) = c s) \<Longrightarrow> neutral c (update f)"
  unfolding update_def by (rule neutral_act) simp

lemmas neutral_intros = neutral_Return neutral_bind neutral_readp neutral_update neutral_act neutral_await

lemma neutral_owes: "neutral c p \<Longrightarrow> (\<And>a. Q a n) \<Longrightarrow> owes c Q n p"
proof (induction rule: neutral.induct)
  case (neutral_Act f)
  show ?case by (rule owes.owes_Act) (use neutral_Act in auto)
qed (auto intro: owes_Return)

abbreviation settles :: "('s \<Rightarrow> nat) \<Rightarrow> nat \<Rightarrow> ('w, 's, 'a) prog \<Rightarrow> bool" where
  "settles c n p \<equiv> owes c (\<lambda>a m. m = 0) n p"

theorem pool_accounts:
  assumes "pool_reachable W starts s0 s ps" and "c s0 = 0" and "\<And>s p. starts s p \<Longrightarrow> settles c 0 p"
  shows "\<exists>ns. list_all2 (settles c) ns ps \<and> sum_list ns = c s"
  using assms(1)
proof (induction rule: pool_reachable.induct)
  case pool_initial
  then show ?case using assms(2) by simp
next
  case (pool_next s ps s' ps')
  then obtain ns where ns: "list_all2 (settles c) ns ps" "sum_list ns = c s" by blast
  from pool_next(2) show ?case
  proof (cases rule: pool_step.cases)
    case (pool_start p)
    then have "list_all2 (settles c) (ns @ [0]) ps'" using ns(1) assms(3) by (auto intro: list_all2_appendI)
    then show ?thesis using ns(2) pool_start by (intro exI [of _ "ns @ [0]"]) simp
  next
    case (pool_act w i f p)
    have len: "length ns = length ps" using ns(1) by (rule list_all2_lengthD)
    have "settles c (ns ! i) (Act f)" using list_all2_nthD2 [OF ns(1) pool_act(3)] pool_act(4) by simp
    moreover have le: "ns ! i \<le> c s" using len pool_act(3) ns(2) by (metis elem_le_sum_list)
    ultimately obtain m where m: "settles c m p" "c s' + ns ! i = c s + m"
      using pool_act(5) by (blast elim: owes_ActE)
    have "list_all2 (settles c) (ns[i := m]) (ps[i := p])" using ns(1) m(1) by (rule list_all2_update_cong)
    moreover have "sum_list (ns[i := m]) = c s'"
      using m(2) ns(2) le len pool_act(3) by (simp add: sum_list_update)
    ultimately show ?thesis using pool_act(1) by blast
  qed
qed

text \<open>\<open>spends c n p\<close>: the actions of \<open>p\<close> add at most \<open>n\<close> to the counter \<open>c\<close>.\<close>

inductive spends :: "('s \<Rightarrow> nat) \<Rightarrow> nat \<Rightarrow> ('w, 's, 'a) prog \<Rightarrow> bool" for c where
  spends_Return: "spends c n (Return a)"
| spends_Act: "(\<And>w s s' p. f w s = Some (s', p) \<Longrightarrow> \<exists>m. spends c m p \<and> c s' + m \<le> c s + n) \<Longrightarrow> spends c n (Act f)"

inductive_cases spends_ActE: "spends c n (Act f)"

lemma spends_weaken: "spends c n p \<Longrightarrow> n \<le> m \<Longrightarrow> spends c m p"
proof (induction arbitrary: m rule: spends.induct)
  case (spends_Act f n)
  show ?case
  proof (rule spends.spends_Act)
    fix w s s' p
    assume "f w s = Some (s', p)"
    from spends_Act.IH [OF this] obtain k where "spends c k p" "c s' + k \<le> c s + n" by blast
    then show "\<exists>k. spends c k p \<and> c s' + k \<le> c s + m" using spends_Act.prems by (intro exI [of _ k]) simp
  qed
qed (rule spends_Return)

lemma spends_bind: "spends c n p \<Longrightarrow> (\<And>a. spends c m (k a)) \<Longrightarrow> spends c (n + m) (bindp p k)"
proof (induction rule: spends.induct)
  case (spends_Act f n)
  show ?case unfolding bindp.simps
  proof (rule spends.spends_Act)
    fix w s s' q
    assume "map_option (map_prod id (\<lambda>p. bindp p k)) (f w s) = Some (s', q)"
    then obtain p where p: "f w s = Some (s', p)" "q = bindp p k" by auto
    from spends_Act.IH [OF p(1)] spends_Act.prems obtain l where "spends c (l + m) (bindp p k)" "c s' + l \<le> c s + n"
      by blast
    then show "\<exists>l. spends c l q \<and> c s' + l \<le> c s + (n + m)" using p(2) by (intro exI [of _ "l + m"]) simp
  qed
next
  case (spends_Return n a)
  then have "spends c m (k a)" by simp
  then show ?case by (simp, elim spends_weaken) simp
qed

lemma neutral_spends: "neutral c p \<Longrightarrow> spends c n p"
proof (induction rule: neutral.induct)
  case (neutral_Act f)
  show ?case by (rule spends.spends_Act) (use neutral_Act in force)
qed (rule spends_Return)

lemma keeps_neutral: "(\<And>k. keeps (\<lambda>w. True) (\<lambda>s. c s = k) p) \<Longrightarrow> neutral c p"
proof (induction p rule: prog_induct)
  case (Act f)
  show ?case
  proof (rule neutral_Act)
    fix w s s' p
    assume f: "f w s = Some (s', p)"
    have k: "(c s = k \<longrightarrow> c s' = k) \<and> keeps (\<lambda>w. True) (\<lambda>s. c s = k) p" for k
      using Act.prems [of k] f by (auto elim!: keeps_ActE)
    then show "c s' = c s \<and> neutral c p" using Act.IH [OF f] by blast
  qed
qed (rule neutral_Return)

lemma spends_outcome:
  "outcome R p s a t \<Longrightarrow> spends c n p \<Longrightarrow> (\<And>u v. R u v \<Longrightarrow> c v = c u) \<Longrightarrow> c t \<le> c s + n"
proof (induction arbitrary: n rule: outcome.induct)
  case (acts f w s s' p s'' a t)
  from acts.prems(1) acts.hyps(1) obtain m where m: "spends c m p" "c s' + m \<le> c s + n"
    by (elim spends_ActE) blast
  have "c t \<le> c s'' + m" using acts.IH m(1) acts.prems(2) by blast
  then show ?case using m(2) acts.prems(2) [OF acts.hyps(2)] by simp
qed simp

section \<open>Pre- and postconditions under interference\<close>

text \<open>
  \<open>meets R P p Q\<close>: from a state of \<open>P\<close>, with steps of \<open>R\<close> by others after every action, \<open>p\<close> returns only
  results and states of \<open>Q\<close>. The rules need postconditions that \<open>R\<close> cannot break.
\<close>

definition meets :: "('s \<Rightarrow> 's \<Rightarrow> bool) \<Rightarrow> ('s \<Rightarrow> bool) \<Rightarrow> ('w, 's, 'a) prog \<Rightarrow> ('a \<Rightarrow> 's \<Rightarrow> bool) \<Rightarrow> bool" where
  "meets R P p Q \<longleftrightarrow> (\<forall>s a t. P s \<longrightarrow> outcome R p s a t \<longrightarrow> Q a t)"

lemma meetsD: "meets R P p Q \<Longrightarrow> P s \<Longrightarrow> outcome R p s a t \<Longrightarrow> Q a t"
  by (auto simp: meets_def)

lemma meets_Return: "(\<And>s. P s \<Longrightarrow> Q a s) \<Longrightarrow> meets R P (Return a) Q"
  by (simp add: meets_def)

lemma meets_bind: "meets R P p Q \<Longrightarrow> (\<And>a. meets R (Q a) (k a) S) \<Longrightarrow> meets R P (bindp p k) S"
  unfolding meets_def by (blast elim: outcome_bindE)

lemma meets_act:
  "(\<And>w s s' a t. P s \<Longrightarrow> f w s = (s', a) \<Longrightarrow> R s' t \<Longrightarrow> Q a t) \<Longrightarrow> meets R P (act f) Q"
  by (auto simp: meets_def elim!: outcome_actE)

lemma meets_await:
  "(\<And>w s s' a t. P s \<Longrightarrow> f w s = Some (s', a) \<Longrightarrow> R s' t \<Longrightarrow> Q a t) \<Longrightarrow> meets R P (await f) Q"
  by (auto simp: meets_def elim!: outcome_awaitE)

lemma meets_readp: "(\<And>w s t. P s \<Longrightarrow> R s t \<Longrightarrow> Q (f w s) t) \<Longrightarrow> meets R P (readp f) Q"
  by (auto simp: meets_def elim!: outcome_readpE)

lemma meets_pre: "meets R P' p Q \<Longrightarrow> (\<And>s. P s \<Longrightarrow> P' s) \<Longrightarrow> meets R P p Q"
  by (auto simp: meets_def)

lemma meets_post: "meets R P p Q' \<Longrightarrow> (\<And>a s. Q' a s \<Longrightarrow> Q a s) \<Longrightarrow> meets R P p Q"
  by (auto simp: meets_def)

lemma meets_if: "(b \<Longrightarrow> meets R P p Q) \<Longrightarrow> (\<not> b \<Longrightarrow> meets R P q Q) \<Longrightarrow> meets R P (if b then p else q) Q"
  by simp

lemma meets_bind_keep:
  "meets R P p (\<lambda>a. P) \<Longrightarrow> (\<And>a. meets R P (k a) Q) \<Longrightarrow> meets R P (bindp p k) Q"
  by (rule meets_bind)

lemma meets_bind_fact:
  "meets R P p (\<lambda>a s. P s \<and> G a) \<Longrightarrow> (\<And>a. G a \<Longrightarrow> meets R P (k a) Q) \<Longrightarrow> meets R P (bindp p k) Q"
  by (rule meets_bind) (auto simp: meets_def)

lemma outcome_mono: "outcome R p s a t \<Longrightarrow> (\<And>u v. R u v \<Longrightarrow> S u v) \<Longrightarrow> outcome S p s a t"
  by (induction rule: outcome.induct) (auto intro: finished acts)

end
