(* ===== verification/Supervisor.thy ===== *)
theory Supervisor
  imports Launch_Args Process
begin

text \<open>
  \<open>backend/internal/supervisor\<close>: the worker processes, one per Instance at most. Every critical
  section of the supervisor's mutex is one function on its state; a method that takes the mutex
  several times or waits is a program over them. A worker struct is told from its successors by a
  serial number, since the code compares pointers; the sets hold the serial numbers of the workers whose
  \<open>done\<close> channel is closed, whose \<open>killed\<close> mark is set and whose start context is cancelled.
  Logs, time stamps, runtime events and the runtime store are left out.
\<close>

section \<open>Data\<close>

datatype worker_state = Unloaded | Starting | Loading | Ready | Draining | Stopping | Failed

definition shutting_down :: "worker_state \<Rightarrow> bool" where
  "shutting_down st \<longleftrightarrow> st = Draining \<or> st = Stopping"

record runtime =
  rt_instance :: string
  rt_model :: string
  rt_state :: worker_state
  rt_pid :: int
  rt_port :: i64

record worker =
  wk_serial :: nat
  wk_runtime :: runtime
  wk_process :: bool
  wk_generation :: string

record supervisor =
  sp_workers :: "(string \<times> worker) list"
  sp_closed :: "nat set"
  sp_killed :: "nat set"
  sp_cancelled :: "nat set"
  sp_next :: nat

record worker_exit =
  we_instance :: string
  we_pid :: int

datatype start_error =
    ShuttingDownError
  | DeviceRefused device_error
  | NoPort
  | IdentityFailed
  | SpawnFailed
  | PersistFailed
  | Killed
  | ReadinessTimeout
  | ExitedDuringStartup

section \<open>Reading and writing workers\<close>

definition worker_of :: "supervisor \<Rightarrow> string \<Rightarrow> worker option" where
  "worker_of sp i = map_of (sp_workers sp) i"

definition set_worker :: "string \<Rightarrow> worker \<Rightarrow> supervisor \<Rightarrow> supervisor" where
  "set_worker i w sp = sp\<lparr>sp_workers := AList.update i w (sp_workers sp)\<rparr>"

definition with_state :: "worker_state \<Rightarrow> worker \<Rightarrow> worker" where
  "with_state st w = w\<lparr>wk_runtime := (wk_runtime w)\<lparr>rt_state := st\<rparr>\<rparr>"

definition status :: "supervisor \<Rightarrow> string \<Rightarrow> runtime" where
  "status sp i =
     (case worker_of sp i of
        Some w \<Rightarrow> wk_runtime w
      | None \<Rightarrow> \<lparr>rt_instance = i, rt_model = [], rt_state = Unloaded, rt_pid = 0, rt_port = 0\<rparr>)"

definition endpoint :: "string \<Rightarrow> supervisor \<Rightarrow> string \<Rightarrow> string option" where
  "endpoint host sp i =
     (if rt_state (status sp i) \<noteq> Ready then None
      else Some (''http://'' @ host @ '':'' @ format_int (rt_port (status sp i))))"

section \<open>Draining\<close>

definition begin_drain :: "string \<Rightarrow> supervisor \<Rightarrow> supervisor \<times> bool" where
  "begin_drain i sp =
     (case worker_of sp i of
        None \<Rightarrow> (sp, False)
      | Some w \<Rightarrow>
          if rt_state (wk_runtime w) \<noteq> Ready then (sp, False)
          else (set_worker i (with_state Draining w) sp, True))"

definition abort_drain :: "string \<Rightarrow> supervisor \<Rightarrow> supervisor \<times> bool" where
  "abort_drain i sp =
     (case worker_of sp i of
        None \<Rightarrow> (sp, False)
      | Some w \<Rightarrow>
          if rt_state (wk_runtime w) \<noteq> Draining \<or> \<not> wk_process w then (sp, False)
          else if wk_serial w \<in> sp_closed sp then (sp, False)
          else (set_worker i (with_state Ready w) sp, True))"

section \<open>Stopping and killing\<close>

text \<open>The first section of \<open>Stop\<close>: the serial number of the worker to wait for, if there is one.\<close>

definition stop_begin :: "string \<Rightarrow> supervisor \<Rightarrow> supervisor \<times> nat option" where
  "stop_begin i sp =
     (case worker_of sp i of
        None \<Rightarrow> (sp, None)
      | Some w \<Rightarrow>
          if \<not> wk_process w then (sp, None)
          else if wk_serial w \<in> sp_closed sp then (sp, None)
          else (set_worker i (with_state Stopping w) sp, Some (wk_serial w)))"

text \<open>\<open>Kill\<close> up to the signal: the killed mark, then the cancelled start context.\<close>

definition kill_mark :: "string \<Rightarrow> supervisor \<Rightarrow> supervisor" where
  "kill_mark i sp =
     (case worker_of sp i of
        None \<Rightarrow> sp
      | Some w \<Rightarrow>
          let marked = sp\<lparr>sp_killed := insert (wk_serial w) (sp_killed sp)\<rparr>
          in if wk_process w then marked\<lparr>sp_cancelled := insert (wk_serial w) (sp_cancelled sp)\<rparr> else marked)"

text \<open>\<open>wait\<close>, when the process of the worker with this serial number has ended.\<close>

definition worker_exits :: "string \<Rightarrow> nat \<Rightarrow> supervisor \<Rightarrow> supervisor \<times> worker_exit option" where
  "worker_exits i serial sp =
     (case worker_of sp i of
        None \<Rightarrow> (sp, None)
      | Some w \<Rightarrow>
          if wk_serial w \<noteq> serial then (sp, None)
          else
            let st = (if rt_state (wk_runtime w) = Stopping then Unloaded else Failed);
                w' = w\<lparr>wk_runtime := (wk_runtime w)\<lparr>rt_pid := 0, rt_state := st\<rparr>\<rparr>
            in ((set_worker i w' sp)\<lparr>sp_closed := insert serial (sp_closed sp)\<rparr>,
                Some \<lparr>we_instance = i, we_pid = rt_pid (wk_runtime w)\<rparr>))"

definition set_state :: "string \<Rightarrow> worker_state \<Rightarrow> supervisor \<Rightarrow> supervisor" where
  "set_state i st sp =
     (case worker_of sp i of None \<Rightarrow> sp | Some w \<Rightarrow> set_worker i (with_state st w) sp)"

section \<open>Starting\<close>

definition port_used :: "supervisor \<Rightarrow> i64 \<Rightarrow> bool" where
  "port_used sp p \<longleftrightarrow>
     list_ex (\<lambda>(i, w). rt_port (wk_runtime w) = p \<and> rt_state (wk_runtime w) \<notin> {Unloaded, Failed}) (sp_workers sp)"

text \<open>\<open>free p\<close>: the operating system lets the manager listen on \<open>p\<close> now.\<close>

definition allocate_port :: "i64 \<Rightarrow> (i64 \<Rightarrow> bool) \<Rightarrow> supervisor \<Rightarrow> i64 option" where
  "allocate_port start free sp =
     find (\<lambda>p. \<not> port_used sp p \<and> free p) (map (\<lambda>k. start + int k) [0..<2000])"

record supervisor_config =
  sc_host :: string
  sc_port_start :: i64
  sc_validator :: "(string list \<Rightarrow> device_error option) option"
  sc_installation :: string

text \<open>What the first section of a start meets outside: ports, identity, pipes and the new process.\<close>

record spawn_world =
  sw_free :: "i64 \<Rightarrow> bool"
  sw_identity :: "string option"
  sw_pipes :: bool
  sw_pid :: "int option"

text \<open>
  The first section of \<open>StartWithAliasEnv\<close>: an error, or the runtime with the serial number of the
  new worker, or with \<open>None\<close> when a worker was active already.
\<close>

definition start_begin ::
    "supervisor_config \<Rightarrow> spawn_world \<Rightarrow> string \<Rightarrow> string \<Rightarrow> string list \<Rightarrow> string list \<Rightarrow>
     supervisor \<Rightarrow> supervisor \<times> (start_error + runtime \<times> nat option)" where
  "start_begin cfg sw i model args env sp =
     (let rt = status sp i
      in if worker_of sp i \<noteq> None \<and> rt_state rt \<noteq> Unloaded \<and> rt_state rt \<noteq> Failed then
           (if shutting_down (rt_state rt) then (sp, Inl ShuttingDownError) else (sp, Inr (rt, None)))
         else case (case sc_validator cfg of None \<Rightarrow> None
                    | Some v \<Rightarrow> v (launch_device_ids (sanitize_worker_owned_args args) env)) of
           Some e \<Rightarrow> (sp, Inl (DeviceRefused e))
         | None \<Rightarrow>
             (case allocate_port (sc_port_start cfg) (sw_free sw) sp of
                None \<Rightarrow> (sp, Inl NoPort)
              | Some port \<Rightarrow>
                  if sc_installation cfg \<noteq> [] \<and> sw_identity sw = None then (sp, Inl IdentityFailed)
                  else if \<not> sw_pipes sw then (sp, Inl SpawnFailed)
                  else
                    let serial = sp_next sp;
                        base = \<lparr>rt_instance = i, rt_model = model, rt_state = Starting, rt_pid = 0, rt_port = port\<rparr>;
                        generation = (if sc_installation cfg = [] then [] else the (sw_identity sw));
                        sp' = sp\<lparr>sp_next := Suc serial\<rparr>
                    in case sw_pid sw of
                         None \<Rightarrow>
                           (set_worker i \<lparr>wk_serial = serial, wk_runtime = base\<lparr>rt_state := Failed\<rparr>, wk_process = False,
                             wk_generation = generation\<rparr> sp', Inl SpawnFailed)
                       | Some pid \<Rightarrow>
                           let rt' = base\<lparr>rt_state := Loading, rt_pid := pid\<rparr>
                           in (set_worker i \<lparr>wk_serial = serial, wk_runtime = rt', wk_process = True, wk_generation = generation\<rparr> sp',
                               Inr (rt', Some serial))))"

text \<open>The generation of the worker an Instance has in memory, if it runs.\<close>

definition live_generations :: "supervisor \<Rightarrow> string \<Rightarrow> string option" where
  "live_generations sp i =
     (case worker_of sp i of
        None \<Rightarrow> None
      | Some w \<Rightarrow>
          if wk_generation w = [] \<or> rt_pid (wk_runtime w) = 0 \<or> rt_state (wk_runtime w) \<in> {Unloaded, Failed} then None
          else Some (wk_generation w))"

text \<open>The last section: the worker becomes ready unless it was replaced, killed or has exited.\<close>

definition start_finish :: "string \<Rightarrow> nat \<Rightarrow> supervisor \<Rightarrow> supervisor \<times> (start_error + runtime)" where
  "start_finish i serial sp =
     (case worker_of sp i of
        None \<Rightarrow> (sp, Inl ExitedDuringStartup)
      | Some w \<Rightarrow>
          if wk_serial w \<noteq> serial \<or> wk_serial w \<in> sp_killed sp \<or> rt_state (wk_runtime w) \<noteq> Loading \<or> rt_pid (wk_runtime w) = 0
          then (sp, Inl (if wk_serial w \<in> sp_killed sp then Killed else ExitedDuringStartup))
          else
            let w' = with_state Ready w
            in (set_worker i w' sp, Inr (wk_runtime w')))"

end
