(* ===== verification/Eviction.thy ===== *)
theory Eviction
  imports Ledger "HOL-Library.Product_Lexorder" "HOL-Library.Sublist"
begin

text \<open>
  \<open>backend/internal/scheduler/eviction.go\<close>: which loaded Instances to stop for a new one. The
  eligible candidates are ranked; a greedy loop stops them one after the other as long as each
  brings the placement closer, and the resulting plan says what is freed. The end of the file
  attributes memory to a candidate from observed processes, its lease and its estimate.
\<close>

section \<open>Data\<close>

record candidate_resources =
  cs_host_ram :: i64
  cs_gpu :: "device_bytes list"

text \<open>Times are nanoseconds since Go's zero time, so that \<open>IsZero\<close> is \<open>= 0\<close>.\<close>

type_synonym go_time = int

record candidate =
  cd_model :: string
  cd_instance :: string
  cd_priority :: string
  cd_always_on :: bool
  cd_eviction :: bool
  cd_active :: i64
  cd_last_used :: go_time
  cd_estimated :: i64
  cd_resources :: candidate_resources
  cd_ready :: bool

record plan =
  ep_evict :: "candidate list"
  ep_freed_bytes :: i64
  ep_freed_host :: i64
  ep_freed :: "device_bytes list"
  ep_devices :: "string list"
  ep_fits :: bool

record resource_attribution =
  at_estimated :: i64
  at_host_ram :: i64
  at_devices :: "string list"
  at_tensor_split :: string
  at_lease :: "device_bytes list"
  at_pid :: int
  at_processes :: "gpu_process list"
  at_gpus :: "gpu list"

definition empty_plan :: plan where
  "empty_plan = \<lparr>ep_evict = [], ep_freed_bytes = 0, ep_freed_host = 0, ep_freed = [], ep_devices = [],
     ep_fits = False\<rparr>"

section \<open>Ranking\<close>

definition priority_rank :: "string \<Rightarrow> int" where
  "priority_rank priority =
     (let p = to_lower (trim_space priority)
      in if p = ''low'' then 0 else if p = ''high'' then 2 else 1)"

definition eligible :: "candidate \<Rightarrow> bool" where
  "eligible c \<longleftrightarrow> \<not> (\<not> cd_ready c \<or> \<not> cd_eviction c \<or> 0 < cd_active c)"

definition evict_before :: "candidate \<Rightarrow> candidate \<Rightarrow> bool" where
  "evict_before l r =
     (let lp = priority_rank (cd_priority l); rp = priority_rank (cd_priority r)
      in if lp \<noteq> rp then lp < rp
         else if cd_last_used l \<noteq> cd_last_used r then
           (if cd_last_used l = 0 then True
            else if cd_last_used r = 0 then False
            else cd_last_used l < cd_last_used r)
         else if cd_estimated l \<noteq> cd_estimated r then cd_estimated r < cd_estimated l
         else if cd_model l \<noteq> cd_model r then cd_model l < cd_model r
         else cd_instance l < cd_instance r)"

definition rank_eviction_candidates :: "candidate list \<Rightarrow> candidate list" where
  "rank_eviction_candidates cs = sort_by evict_before (filter eligible cs)"

section \<open>What candidates give back\<close>

text \<open>The entries the loops over \<open>Resources.GPU\<close> do not skip, with their trimmed ids.\<close>

definition usable_entries :: "device_bytes list \<Rightarrow> device_bytes list" where
  "usable_entries gs =
     map (\<lambda>g. g\<lparr>device := trim_space (device g)\<rparr>)
       (filter (\<lambda>g. \<not> (trim_space (device g) = [] \<or> amount g \<le> 0)) gs)"

definition candidate_gpu_bytes :: "candidate \<Rightarrow> i64" where
  "candidate_gpu_bytes c =
     foldl (\<lambda>t g. wrap64 (t + amount g)) 0 (usable_entries (cs_gpu (cd_resources c)))"

fun credit_bytes_from :: "candidate list \<Rightarrow> (string \<Rightarrow> i64) \<Rightarrow> string \<Rightarrow> i64" where
  "credit_bytes_from [] m = m"
| "credit_bytes_from (c # cs) m = credit_bytes_from cs (add_device_bytes (cs_gpu (cd_resources c)) m)"

definition credit_bytes_from_candidates :: "candidate list \<Rightarrow> string \<Rightarrow> i64" where
  "credit_bytes_from_candidates selected = credit_bytes_from selected (\<lambda>d. 0)"

definition host_credit_from_candidates :: "candidate list \<Rightarrow> i64" where
  "host_credit_from_candidates selected =
     foldl (\<lambda>t c. if 0 < cs_host_ram (cd_resources c) then wrap64 (t + cs_host_ram (cd_resources c)) else t) 0 selected"

definition snapshot_with_candidate_credits :: "snapshot \<Rightarrow> candidate list \<Rightarrow> snapshot" where
  "snapshot_with_candidate_credits s selected =
     adjust_snapshot s (\<lambda>d. no_occupied) no_occupied (credit_bytes_from_candidates selected)
       (host_credit_from_candidates selected)"

definition apply_candidate_credits :: "snapshot \<Rightarrow> candidate list \<Rightarrow> snapshot" where
  "apply_candidate_credits s selected = snapshot_with_candidate_credits s selected"

definition credits_from_candidates :: "candidate list \<Rightarrow> credit list" where
  "credits_from_candidates cs =
     map (\<lambda>c. \<lparr>cr_instance = cd_instance c, cr_bytes = 0, cr_gpus = usable_entries (cs_gpu (cd_resources c)),
            cr_host_ram = cs_host_ram (cd_resources c)\<rparr>)
       (filter (\<lambda>c. trim_space (cd_instance c) \<noteq> []) cs)"

definition host_ram_fits :: "snapshot \<Rightarrow> i64 \<Rightarrow> bool" where
  "host_ram_fits s required \<longleftrightarrow>
     (required \<le> 0 \<or> ram_total s \<le> 0 \<and> ram_available s \<le> 0) \<or> required \<le> ram_available s"

definition gives_nothing :: "candidate \<Rightarrow> bool" where
  "gives_nothing c \<longleftrightarrow> candidate_gpu_bytes c \<le> 0 \<and> cs_host_ram (cd_resources c) \<le> 0"

section \<open>The plan of a selection\<close>

text \<open>\<open>freedByDevice\<close> with \<open>order\<close>: an association list in the order of first insertion.\<close>

fun add_freed :: "string \<Rightarrow> i64 \<Rightarrow> device_bytes list \<Rightarrow> device_bytes list" where
  "add_freed d n [] = [\<lparr>device = d, amount = n\<rparr>]"
| "add_freed d n (x # xs) =
     (if device x = d then x\<lparr>amount := wrap64 (amount x + n)\<rparr> # xs else x # add_freed d n xs)"

definition freed_entries :: "placement \<Rightarrow> candidate \<Rightarrow> device_bytes list" where
  "freed_entries p c =
     filter (\<lambda>g. pl_devices p = [] \<or> device g \<in> set (pl_devices p)) (usable_entries (cs_gpu (cd_resources c)))"

definition plan_from_selection :: "candidate list \<Rightarrow> placement \<Rightarrow> bool \<Rightarrow> plan" where
  "plan_from_selection selected p fits =
     (let entries = concat (map (freed_entries p) selected)
      in \<lparr>ep_evict = selected,
          ep_freed_bytes = foldl (\<lambda>t g. wrap64 (t + amount g)) 0 entries,
          ep_freed_host = host_credit_from_candidates selected,
          ep_freed = foldl (\<lambda>acc g. add_freed (device g) (amount g) acc) [] entries,
          ep_devices = pl_devices p, ep_fits = fits\<rparr>)"

section \<open>Covering a placement\<close>

text \<open>The loop: selected candidates, current placement, current snapshot.\<close>

fun cover_loop ::
    "snapshot \<Rightarrow> placement_request \<Rightarrow> candidate list \<Rightarrow> candidate list \<Rightarrow> placement \<Rightarrow> snapshot \<Rightarrow> plan" where
  "cover_loop s req [] selected current cur_snap =
     plan_from_selection selected current (pl_fits current \<and> host_ram_fits cur_snap (pr_host_ram req))"
| "cover_loop s req (c # cs) selected current cur_snap =
     (if gives_nothing c then cover_loop s req cs selected current cur_snap
      else
        let trial = snapshot_with_candidate_credits s (selected @ [c])
        in case plan_placement trial req of
             Inl e \<Rightarrow> cover_loop s req cs selected current cur_snap
           | Inr after \<Rightarrow>
               let cur_host = host_ram_fits cur_snap (pr_host_ram req);
                   after_host = host_ram_fits trial (pr_host_ram req);
                   gpu_progress = (\<not> pl_fits current \<and> (pl_fits after \<or> pl_available current < pl_available after));
                   host_progress = (\<not> cur_host \<and> (after_host \<or> ram_available cur_snap < ram_available trial))
               in if \<not> gpu_progress \<and> \<not> host_progress then cover_loop s req cs selected current cur_snap
                  else if pl_fits after \<and> after_host then plan_from_selection (selected @ [c]) after True
                  else cover_loop s req cs (selected @ [c]) after trial)"

definition cover_placement :: "candidate list \<Rightarrow> snapshot \<Rightarrow> placement_request \<Rightarrow> plan" where
  "cover_placement cs s req =
     (case plan_placement s req of
        Inl e \<Rightarrow> empty_plan
      | Inr current \<Rightarrow>
          if pl_fits current \<and> host_ram_fits s (pr_host_ram req) then plan_from_selection [] current True
          else cover_loop s req (rank_eviction_candidates cs) [] current s)"

fun evict_bytes_loop :: "i64 \<Rightarrow> candidate list \<Rightarrow> plan \<Rightarrow> plan" where
  "evict_bytes_loop required [] p = p"
| "evict_bytes_loop required (c # cs) p =
     (let b = candidate_gpu_bytes c;
          released = (if b \<le> 0 then cd_estimated c else b);
          p' = p\<lparr>ep_evict := ep_evict p @ [c],
                 ep_freed_bytes := (if 0 < released then wrap64 (ep_freed_bytes p + released) else ep_freed_bytes p)\<rparr>
      in if required \<le> ep_freed_bytes p' then p'\<lparr>ep_fits := True\<rparr> else evict_bytes_loop required cs p')"

definition plan_evictions_bytes :: "candidate list \<Rightarrow> i64 \<Rightarrow> plan" where
  "plan_evictions_bytes cs required =
     (if required \<le> 0 then empty_plan\<lparr>ep_fits := True\<rparr>
      else evict_bytes_loop required (rank_eviction_candidates cs) empty_plan)"

definition single_request :: "placement_request \<Rightarrow> gpu \<Rightarrow> placement_request" where
  "single_request req g = \<lparr>pr_required = pr_required req, pr_host_ram = pr_host_ram req, pr_mode = ''manual'',
     pr_devices = [gpu_id g], pr_tensor_split = [], pr_reserve = pr_reserve req, pr_splittable = 0, pr_fixed = 0\<rparr>"

definition plan_evictions :: "candidate list \<Rightarrow> snapshot \<Rightarrow> placement_request \<Rightarrow> plan" where
  "plan_evictions cs s req =
     (if pr_required req \<le> 0 \<and> pr_host_ram req \<le> 0 then empty_plan\<lparr>ep_fits := True\<rparr>
      else if gpus s = [] \<and> 0 < pr_required req then plan_evictions_bytes cs (pr_required req)
      else case plan_placement s req of
        Inl e \<Rightarrow> empty_plan
      | Inr current \<Rightarrow>
          if pl_fits current \<and> host_ram_fits s (pr_host_ram req)
          then empty_plan\<lparr>ep_fits := True, ep_devices := pl_devices current\<rparr>
          else if gpus s = [] \<or> pl_fits current then cover_placement cs s req
          else if effective_mode (pr_mode req) = ''manual'' then cover_placement cs s req
          else case find ep_fits (map (\<lambda>g. cover_placement cs s (single_request req g))
                   (sorted_gpus_by_usable s (effective_reserve (pr_reserve req)))) of
                 Some p \<Rightarrow> p
               | None \<Rightarrow> cover_placement cs s req)"

section \<open>Evictions for a launch\<close>

definition runtime_gpu_deficit :: "placement \<Rightarrow> snapshot \<Rightarrow> placement_request \<Rightarrow> i64" where
  "runtime_gpu_deficit p s req =
     (if pl_required p \<le> 0 then 0
      else if pl_demand p \<noteq> [] then
        foldl (\<lambda>deficit x.
            let available = (case gpu_by_id (gpus s) (device x) of
                  None \<Rightarrow> 0 | Some g \<Rightarrow> usable_vram g (effective_reserve (pr_reserve req)))
            in if available < amount x then wrap64 (deficit + (amount x - available)) else deficit) 0 (pl_demand p)
      else if pl_available p < pl_required p then wrap64 (pl_required p - pl_available p)
      else 0)"

definition runtime_plan_progress ::
    "runtime_plan \<Rightarrow> runtime_plan \<Rightarrow> snapshot \<Rightarrow> snapshot \<Rightarrow> placement_request \<Rightarrow> bool" where
  "runtime_plan_progress before after before_s after_s req =
     (if rp_fits after then True
      else
        let before_host = runtime_host_ram_fits before_s (rd_host_ram (rp_demand before));
            after_host = runtime_host_ram_fits after_s (rd_host_ram (rp_demand after))
        in if \<not> before_host \<and> (after_host \<or> ram_available before_s < ram_available after_s) then True
           else
             let before_deficit = runtime_gpu_deficit (rp_placement before) before_s req
             in if before_deficit \<le> 0 then False
                else runtime_gpu_deficit (rp_placement after) after_s req < before_deficit)"

text \<open>What \<open>PlanRuntime\<close> returns with an error: the zero plan.\<close>

definition zero_demand :: resource_demand where
  "zero_demand = \<lparr>rd_host_ram = 0, rd_weights = 0, rd_kv_cache = 0, rd_overhead = 0, rd_splittable = 0,
     rd_fixed = 0, rd_gpu = [], rd_confidence = []\<rparr>"

definition zero_runtime_plan :: runtime_plan where
  "zero_runtime_plan = \<lparr>rp_fits = False, rp_mode = [], rp_demand = zero_demand, rp_placement = no_placement,
     rp_options = Map.empty, rp_spill = False\<rparr>"

fun runtime_cover_loop ::
    "(candidate list \<Rightarrow> snapshot) \<Rightarrow> runtime_request \<Rightarrow> candidate list \<Rightarrow> candidate list \<Rightarrow> runtime_plan \<Rightarrow>
     snapshot \<Rightarrow> plan option" where
  "runtime_cover_loop snapshot_for req [] selected current cur_snap =
     Some (plan_from_selection selected (rp_placement current) (rp_fits current))"
| "runtime_cover_loop snapshot_for req (c # cs) selected current cur_snap =
     (if gives_nothing c then runtime_cover_loop snapshot_for req cs selected current cur_snap
      else
        let trial = snapshot_for (selected @ [c])
        in case plan_runtime (req\<lparr>rr_snapshot := trial\<rparr>) of
             None \<Rightarrow> None
           | Some (Inl e) \<Rightarrow> runtime_cover_loop snapshot_for req cs selected current cur_snap
           | Some (Inr after) \<Rightarrow>
               if \<not> runtime_plan_progress current after cur_snap trial (rr_placement req)
               then runtime_cover_loop snapshot_for req cs selected current cur_snap
               else if rp_fits after then Some (plan_from_selection (selected @ [c]) (rp_placement after) True)
               else runtime_cover_loop snapshot_for req cs (selected @ [c]) after trial)"

text \<open>A \<open>nil\<close> function is \<open>None\<close>; the result is \<open>None\<close> when the planner does not return.\<close>

definition plan_runtime_evictions_with_snapshots ::
    "candidate list \<Rightarrow> runtime_request \<Rightarrow> (candidate list \<Rightarrow> snapshot) option \<Rightarrow> plan option" where
  "plan_runtime_evictions_with_snapshots cs req snapshot_for0 =
     (case snapshot_for0 of
        None \<Rightarrow> Some empty_plan
      | Some snapshot_for \<Rightarrow>
          case plan_runtime (req\<lparr>rr_snapshot := snapshot_for []\<rparr>) of
            None \<Rightarrow> None
          | Some r \<Rightarrow>
              let current = (case r of Inl e \<Rightarrow> zero_runtime_plan | Inr p \<Rightarrow> p)
              in if \<not> isl r \<and> rp_fits current
                 then Some (empty_plan\<lparr>ep_fits := True, ep_devices := pl_devices (rp_placement current)\<rparr>)
                 else runtime_cover_loop snapshot_for req (rank_eviction_candidates cs) [] current (snapshot_for []))"

definition plan_runtime_evictions :: "candidate list \<Rightarrow> snapshot \<Rightarrow> runtime_request \<Rightarrow> plan option" where
  "plan_runtime_evictions cs s req =
     plan_runtime_evictions_with_snapshots cs req (Some (snapshot_with_candidate_credits s))"

section \<open>Attribution\<close>

fun clean_ids :: "string list \<Rightarrow> string set \<Rightarrow> string list" where
  "clean_ids [] seen = []"
| "clean_ids (x # xs) seen =
     (let d = trim_space x
      in if d = [] \<or> d \<in> seen then clean_ids xs seen else d # clean_ids xs (insert d seen))"

definition clean_device_ids :: "string list \<Rightarrow> string list" where
  "clean_device_ids devices = clean_ids devices {}"

definition reserved_device_ids :: "string list \<Rightarrow> device_bytes list \<Rightarrow> string list" where
  "reserved_device_ids configured lease =
     (let devices = clean_device_ids configured
      in if devices \<noteq> [] then devices
         else clean_device_ids (filter (\<lambda>d. d \<noteq> []) (map (trim_space \<circ> device) lease)))"

fun tensor_split_parts :: "string list \<Rightarrow> f64 list option" where
  "tensor_split_parts [] = Some []"
| "tensor_split_parts (part # parts) =
     (let p = trim_space part
      in if p = [] then tensor_split_parts parts
         else case parse_float p of
           None \<Rightarrow> None
         | Some v \<Rightarrow>
             if flt v (Fin 0) \<or> v \<in> {NaN, PosInf, NegInf} then None
             else map_option ((#) v) (tensor_split_parts parts))"

text \<open>\<open>nil\<close>, also for a wrong count, is the empty list.\<close>

definition tensor_split_weights :: "string \<Rightarrow> nat \<Rightarrow> f64 list" where
  "tensor_split_weights split n =
     (case tensor_split_parts (split_on (CHR '','') split) of
        None \<Rightarrow> []
      | Some ws \<Rightarrow> if length ws \<noteq> n then [] else ws)"

fun estimate_shares :: "i64 \<Rightarrow> f64 \<Rightarrow> (string \<times> f64) list \<Rightarrow> i64 \<Rightarrow> device_bytes list" where
  "estimate_shares total_b tot [] remaining = []"
| "estimate_shares total_b tot [(d, w)] remaining = [\<lparr>device = d, amount = remaining\<rparr>]"
| "estimate_shares total_b tot ((d, w) # x # xs) remaining =
     (let b = i64_of_float (fdiv (fmul (float_of_i64 total_b) w) tot)
      in \<lparr>device = d, amount = b\<rparr> # estimate_shares total_b tot (x # xs) (wrap64 (remaining - b)))"

definition split_estimate_across_devices :: "i64 \<Rightarrow> string list \<Rightarrow> string \<Rightarrow> device_bytes list" where
  "split_estimate_across_devices total_b devices0 split =
     (let devices = clean_device_ids devices0
      in if total_b \<le> 0 \<or> devices = [] then []
         else if length devices = 1 then [\<lparr>device = hd devices, amount = total_b\<rparr>]
         else
           let ws = tensor_split_weights split (length devices);
               tot = foldl fadd (Fin 0) ws;
               (ws', tot') = (if fle tot (Fin 0)
                 then (replicate (length devices) (Fin 1), float_of_i64 (int (length devices))) else (ws, tot))
           in estimate_shares total_b tot' (zip devices ws') total_b)"

text \<open>
  The lease loop of \<open>unionObservedWithReserved\<close>: the largest reservation of each device and the
  devices, extended by the leased ones that were not observed.
\<close>

fun lease_union :: "string list \<Rightarrow> device_bytes list \<Rightarrow> (string \<Rightarrow> i64) \<Rightarrow> string list \<Rightarrow> (string \<Rightarrow> i64) \<times> string list"
where
  "lease_union have [] m devices = (m, devices)"
| "lease_union have (g # gs) m devices =
     (let d = trim_space (device g)
      in if d = [] \<or> amount g \<le> 0 then lease_union have gs m devices
         else lease_union have gs (if m d < amount g then m(d := amount g) else m)
           (if d \<notin> set have then devices @ [d] else devices))"

definition union_observed_with_reserved ::
    "device_bytes list \<Rightarrow> string list \<Rightarrow> device_bytes list \<Rightarrow> i64 \<Rightarrow> string \<Rightarrow> device_bytes list" where
  "union_observed_with_reserved observed devices0 lease estimated split =
     (let have = map device observed;
          (lease_by_id, devices1) = lease_union have lease (\<lambda>d. 0) devices0;
          out = map (\<lambda>x. if amount x < lease_by_id (device x) then x\<lparr>amount := lease_by_id (device x)\<rparr> else x) observed;
          devices = filter (\<lambda>d. d \<notin> set have) (clean_device_ids devices1);
          leased = map (\<lambda>d. \<lparr>device = d, amount = lease_by_id d\<rparr>) (filter (\<lambda>d. 0 < lease_by_id d) devices);
          missing = filter (\<lambda>d. \<not> 0 < lease_by_id d) devices;
          out' = out @ leased
      in if missing = [] \<or> estimated \<le> 0 then out'
         else
           let allocated = foldl (\<lambda>t g. if 0 < amount g then wrap64 (t + amount g) else t) 0 out';
               remaining = wrap64 (estimated - allocated)
           in if remaining < 1 then out'
              else out' @ split_estimate_across_devices remaining missing split)"

definition observed_process_gpus :: "int \<Rightarrow> gpu_process list \<Rightarrow> device_bytes list" where
  "observed_process_gpus pid ps =
     (if pid \<le> 0 then []
      else foldl (\<lambda>acc p. add_freed (trim_space (gp_device p)) (gp_used p) acc) []
        (filter (\<lambda>p. \<not> gp_pid p \<noteq> pid \<and> \<not> (trim_space (gp_device p) = [] \<or> gp_used p \<le> 0)) ps))"

definition gpu_resources_from_lease :: "device_bytes list \<Rightarrow> device_bytes list" where
  "gpu_resources_from_lease lease = usable_entries lease"

definition attribute_resources :: "resource_attribution \<Rightarrow> candidate_resources" where
  "attribute_resources a =
     (let devices = reserved_device_ids (at_devices a) (at_lease a);
          observed = observed_process_gpus (at_pid a) (at_processes a)
      in \<lparr>cs_host_ram = at_host_ram a, cs_gpu =
          (if observed \<noteq> [] then
             union_observed_with_reserved observed devices (at_lease a) (at_estimated a) (at_tensor_split a)
           else if devices \<noteq> [] then
             (if 0 < at_estimated a then split_estimate_across_devices (at_estimated a) devices (at_tensor_split a)
              else gpu_resources_from_lease (at_lease a))
           else case at_gpus a of
             [g] \<Rightarrow> (if trim_space (gpu_id g) \<noteq> [] \<and> 0 < at_estimated a
                     then [\<lparr>device = trim_space (gpu_id g), amount = at_estimated a\<rparr>] else [])
           | _ \<Rightarrow> [])\<rparr>)"


section \<open>The order of the candidates\<close>

text \<open>The comparison is the lexicographic order of this key, the zero time first.\<close>

definition evict_key :: "candidate \<Rightarrow> int \<times> int \<times> int \<times> int \<times> string \<times> string" where
  "evict_key c = (priority_rank (cd_priority c), (if cd_last_used c = 0 then 0 else 1), cd_last_used c,
     - cd_estimated c, cd_model c, cd_instance c)"

lemma evict_before_key: "evict_before l r \<longleftrightarrow> evict_key l < evict_key r"
  by (auto simp: evict_before_def evict_key_def Let_def)

interpretation evict_order: comparison evict_before
  by unfold_locales (auto simp: evict_before_key)

lemma set_rank [simp]: "set (rank_eviction_candidates cs) = {c \<in> set cs. eligible c}"
  by (simp add: rank_eviction_candidates_def)

lemma evict_key_inj:
  "evict_key a = evict_key b \<Longrightarrow> cd_model a = cd_model b \<and> cd_instance a = cd_instance b"
  by (simp add: evict_key_def)

text \<open>
  The ranking is the eligible candidates, each as often as given, sorted: low priority
  before normal before high, then never used first and least recently used, then the largest,
  then by ids. For different Instances it does not depend on the order of the input.
\<close>

theorem eviction_ranking:
  "mset (rank_eviction_candidates cs) = filter_mset eligible (mset cs) \<and>
   sorted_wrt (\<lambda>a b. evict_key a \<le> evict_key b) (rank_eviction_candidates cs) \<and>
   (mset ds = mset cs \<and> distinct (map (\<lambda>c. (cd_model c, cd_instance c)) cs) \<longrightarrow>
      rank_eviction_candidates ds = rank_eviction_candidates cs)"
proof (intro conjI impI)
  show "mset (rank_eviction_candidates cs) = filter_mset eligible (mset cs)"
    by (simp add: rank_eviction_candidates_def mset_filter)
  show "sorted_wrt (\<lambda>a b. evict_key a \<le> evict_key b) (rank_eviction_candidates cs)"
    unfolding rank_eviction_candidates_def using evict_order.sorted_sort_by
    by (simp add: evict_before_key not_less)
  assume a: "mset ds = mset cs \<and> distinct (map (\<lambda>c. (cd_model c, cd_instance c)) cs)"
  have inj: "inj_on (\<lambda>c. (cd_model c, cd_instance c)) (set cs)" using a by (simp add: distinct_map)
  show "rank_eviction_candidates ds = rank_eviction_candidates cs"
    unfolding rank_eviction_candidates_def
  proof (rule evict_order.sort_by_unique)
    show "mset (sort_by evict_before (filter eligible ds)) = mset (filter eligible cs)"
      using a by (simp add: mset_filter)
    show "sorted_by evict_before (sort_by evict_before (filter eligible ds))"
      by (rule evict_order.sorted_sort_by)
    show "b = c" if "b \<in> set (filter eligible cs)" "c \<in> set (filter eligible cs)" "\<not> evict_before b c" "\<not> evict_before c b" for b c
    proof -
      have "evict_key b = evict_key c" using that(3,4) by (simp add: evict_before_key)
      then have "(cd_model b, cd_instance b) = (cd_model c, cd_instance c)" using evict_key_inj by blast
      then show ?thesis using that(1,2) inj_onD [OF inj, of b c] by simp
    qed
  qed
qed

section \<open>What a plan may evict\<close>

text \<open>The view of the host after a selection has been stopped.\<close>

definition freed_view :: "snapshot \<Rightarrow> candidate list \<Rightarrow> snapshot" where
  "freed_view s selected = (if selected = [] then s else snapshot_with_candidate_credits s selected)"

lemma plan_from_selection_sel [simp]:
  "ep_evict (plan_from_selection sel p b) = sel" "ep_fits (plan_from_selection sel p b) = b"
  "ep_devices (plan_from_selection sel p b) = pl_devices p"
  by (simp_all add: plan_from_selection_def Let_def)

lemma empty_plan_sel [simp]:
  "ep_evict empty_plan = []" "\<not> ep_fits empty_plan" "ep_devices empty_plan = []" "ep_freed_bytes empty_plan = 0"
  by (simp_all add: empty_plan_def)

text \<open>One step of the greedy loop skips the candidate or takes it.\<close>

lemma cover_loop_step:
  obtains (skip) "cover_loop s req (c # cs) sel cur snap = cover_loop s req cs sel cur snap"
  | (take_c) after trial where "trial = snapshot_with_candidate_credits s (sel @ [c])"
      "plan_placement trial req = Inr after"
      "\<not> gives_nothing c"
      "cover_loop s req (c # cs) sel cur snap =
        (if pl_fits after \<and> host_ram_fits trial (pr_host_ram req) then plan_from_selection (sel @ [c]) after True
         else cover_loop s req cs (sel @ [c]) after trial)"
proof (cases "plan_placement (snapshot_with_candidate_credits s (sel @ [c])) req")
  case (Inl e)
  then show ?thesis by (intro skip) (simp add: Let_def)
next
  case (Inr after)
  let ?t = "snapshot_with_candidate_credits s (sel @ [c])"
  define progress where "progress \<longleftrightarrow>
    \<not> pl_fits cur \<and> (pl_fits after \<or> pl_available cur < pl_available after) \<or>
    \<not> host_ram_fits snap (pr_host_ram req) \<and>
      (host_ram_fits ?t (pr_host_ram req) \<or> ram_available snap < ram_available ?t)"
  show ?thesis
  proof (cases "gives_nothing c \<or> \<not> progress")
    case True
    then show ?thesis by (intro skip) (auto simp: Let_def Inr progress_def)
  next
    case False
    then show ?thesis by (intro take_c [OF refl Inr]) (auto simp: Let_def Inr progress_def)
  qed
qed

text \<open>The selection is a subsequence, and the plan describes the host without it.\<close>

definition describes :: "snapshot \<Rightarrow> placement_request \<Rightarrow> plan \<Rightarrow> bool" where
  "describes s req p \<longleftrightarrow>
     (\<exists>after. plan_placement (freed_view s (ep_evict p)) req = Inr after \<and> ep_devices p = pl_devices after \<and>
        (ep_fits p \<longleftrightarrow> pl_fits after \<and> host_ram_fits (freed_view s (ep_evict p)) (pr_host_ram req)))"

lemma cover_loop_describes:
  assumes "plan_placement (freed_view s sel) req = Inr cur" and "snap = freed_view s sel"
  shows "describes s req (cover_loop s req cs sel cur snap) \<and>
    (\<exists>ts. ep_evict (cover_loop s req cs sel cur snap) = sel @ ts \<and> subseq ts cs)"
  using assms
proof (induction cs arbitrary: sel cur snap)
  case Nil
  then show ?case by (simp add: describes_def)
next
  case (Cons c cs)
  show ?case
  proof (cases rule: cover_loop_step [of s req c cs sel cur snap])
    case skip
    show ?thesis unfolding skip using Cons.IH [OF Cons.prems] list_emb_Cons by metis
  next
    case (take_c after trial)
    have v: "freed_view s (sel @ [c]) = trial" by (simp add: freed_view_def take_c(1))
    note IH = Cons.IH [of "sel @ [c]" after trial, unfolded v, OF take_c(2) refl]
    show ?thesis
    proof (cases "pl_fits after \<and> host_ram_fits trial (pr_host_ram req)")
      case True
      have "subseq [c] (c # cs)" by simp
      then show ?thesis unfolding take_c(4) using True v take_c(2) by (auto simp: describes_def)
    next
      case False
      obtain ts where "ep_evict (cover_loop s req cs (sel @ [c]) after trial) = (sel @ [c]) @ ts" "subseq ts cs"
        using IH by blast
      then have "ep_evict (cover_loop s req cs (sel @ [c]) after trial) = sel @ c # ts \<and> subseq (c # ts) (c # cs)" by simp
      then show ?thesis unfolding take_c(4) if_not_P [OF False] using IH by blast
    qed
  qed
qed

lemma cover_placement_describes:
  assumes "plan_placement s req = Inr cur"
  shows "describes s req (cover_placement cs s req)"
    and "subseq (ep_evict (cover_placement cs s req)) (rank_eviction_candidates cs)"
  using cover_loop_describes [of s "[]" req cur s "rank_eviction_candidates cs"] assms
  by (auto simp: cover_placement_def freed_view_def describes_def)

lemma cover_placement_error:
  "plan_placement s req = Inl e \<Longrightarrow> cover_placement cs s req = empty_plan"
  by (simp add: cover_placement_def)

lemma cover_placement_subseq: "subseq (ep_evict (cover_placement cs s req)) (rank_eviction_candidates cs)"
  using cover_placement_describes(2) by (cases "plan_placement s req") (auto simp: cover_placement_error)

lemma evict_bytes_subseq:
  "\<exists>ts. ep_evict (evict_bytes_loop required cs p) = ep_evict p @ ts \<and> subseq ts cs"
proof (induction cs arbitrary: p)
  case (Cons c cs)
  have "\<exists>ts. ep_evict (evict_bytes_loop required cs q) = ep_evict p @ ts \<and> subseq ts (c # cs)"
    if q: "ep_evict q = ep_evict p @ [c]" for q
  proof -
    obtain ts where "ep_evict (evict_bytes_loop required cs q) = ep_evict p @ c # ts" "subseq ts cs"
      using Cons.IH [of q] q by auto
    then show ?thesis by (intro exI [of _ "c # ts"]) simp
  qed
  moreover have "subseq [c] (c # cs)" by simp
  ultimately show ?case by (simp add: Let_def)
qed simp

lemma plan_evictions_subseq: "subseq (ep_evict (plan_evictions cs s req)) (rank_eviction_candidates cs)"
proof -
  have "subseq (ep_evict (plan_evictions_bytes cs n)) (rank_eviction_candidates cs)" for n
    using evict_bytes_subseq [of n "rank_eviction_candidates cs" empty_plan]
    by (auto simp: plan_evictions_bytes_def)
  moreover have "subseq (ep_evict p) (rank_eviction_candidates cs)"
    if "find ep_fits (map (\<lambda>g. cover_placement cs s (single_request req g)) gs) = Some p" for gs p
  proof -
    have "p \<in> set (map (\<lambda>g. cover_placement cs s (single_request req g)) gs)"
      using that by (metis find_Some_iff nth_mem)
    then obtain g where "p = cover_placement cs s (single_request req g)" by auto
    then show ?thesis using cover_placement_subseq by simp
  qed
  ultimately show ?thesis
    using cover_placement_subseq [of cs s req] by (auto simp: plan_evictions_def split: sum.split option.split)
qed


lemma gpus_credits [simp]:
  "gpus (snapshot_with_candidate_credits s sel) =
    map (adjust_gpu (\<lambda>d. no_occupied) (credit_bytes_from_candidates sel)) (gpus s)"
  by (simp add: snapshot_with_candidate_credits_def adjust_snapshot_def)

lemma freed_view_gpus_Nil [simp]: "gpus (freed_view s sel) = [] \<longleftrightarrow> gpus s = []"
  by (simp add: freed_view_def)

text \<open>A GPU that alone fits is a placement of the automatic request.\<close>

lemma single_fits_auto:
  assumes "plan_placement t (single_request req g) = Inr p" and "pl_fits p" and "gpus t \<noteq> []"
    and "effective_mode (pr_mode req) = ''auto''"
  shows "\<exists>after. plan_placement t req = Inr after \<and> pl_fits after"
proof -
  have nn: "0 \<le> pr_required req"
    using assms(1) by (auto simp: plan_placement_def single_request_def split: if_splits)
  have mode: "effective_mode ''manual'' = ''manual''" by code_simp
  let ?r = "request_reserve req"
  obtain h where h: "h \<in> set (gpus t)" "pr_required req = 0 \<or> pr_required req \<le> usable_vram h ?r"
  proof (cases "gpu_by_id (gpus t) (trim_space (gpu_id g))")
    case None
    then show ?thesis
      using assms(1,3) nn by (simp add: plan_placement_def single_request_def mode plan_manual_def Let_def)
  next
    case (Some h)
    have fits: "pr_required req = 0 \<or> pr_required req \<le> usable_vram h ?r"
      using assms(1,2,3) nn Some
      by (auto simp: plan_placement_def single_request_def mode plan_manual_def Let_def gpu_or_zero_def)
    show ?thesis by (rule that [of h]) (use gpu_by_id_Some [OF Some] fits in auto)
  qed
  have "plan_placement t req = Inr (plan_auto t req ?r)"
    using nn assms(3,4) by (intro plan_placement_auto) (simp add: auto_request_def)
  then show ?thesis using plan_auto_single [OF h refl] by auto
qed

lemma describes_fits:
  assumes "describes s req p" and "ep_fits p"
  shows "\<exists>after. plan_placement (freed_view s (ep_evict p)) req = Inr after \<and> pl_fits after \<and>
    host_ram_fits (freed_view s (ep_evict p)) (pr_host_ram req)"
  using assms by (auto simp: describes_def)

lemma mode_cases: "plan_placement s req = Inr p \<Longrightarrow> effective_mode (pr_mode req) = ''auto'' \<or> effective_mode (pr_mode req) = ''manual''"
  by (auto simp: plan_placement_def Let_def split: if_splits)

text \<open>
  C32. Eviction plans stop only what may be stopped: every victim is one of the candidates, is
  ready, allows eviction and serves no request, and the victims are chosen in the order of the ranking.
\<close>

theorem evictions_only_eligible:
  "subseq (ep_evict (plan_evictions cs s req)) (rank_eviction_candidates cs) \<and>
   (\<forall>c \<in> set (ep_evict (plan_evictions cs s req)). c \<in> set cs \<and> cd_ready c \<and> cd_eviction c \<and> cd_active c \<le> 0)"
proof -
  have "set (ep_evict (plan_evictions cs s req)) \<subseteq> {c \<in> set cs. eligible c}"
    using set_subseq [OF plan_evictions_subseq [of cs s req]] by simp
  then show ?thesis using plan_evictions_subseq by (auto simp: eligible_def)
qed

text \<open>
  C13. A plan that claims to fit does: on a host with GPUs, after the victims have given back
  what is attributed to them, the request has a placement that fits and the host RAM suffices.
\<close>

theorem plan_evictions_sound:
  assumes "gpus s \<noteq> []" and "ep_fits (plan_evictions cs s req)" and "0 < pr_required req \<or> 0 < pr_host_ram req"
  shows "\<exists>after. plan_placement (freed_view s (ep_evict (plan_evictions cs s req))) req = Inr after \<and> pl_fits after \<and>
    host_ram_fits (freed_view s (ep_evict (plan_evictions cs s req))) (pr_host_ram req)"
proof -
  let ?p = "plan_evictions cs s req"
  have "\<not> (pr_required req \<le> 0 \<and> pr_host_ram req \<le> 0)" using assms(3) by auto
  then obtain current where cur: "plan_placement s req = Inr current"
    using assms(1,2) by (cases "plan_placement s req") (auto simp: plan_evictions_def)
  consider (now) "pl_fits current \<and> host_ram_fits s (pr_host_ram req)" "ep_evict ?p = []"
    | (cover) "?p = cover_placement cs s req"
    | (single) g where "?p = cover_placement cs s (single_request req g)" "effective_mode (pr_mode req) = ''auto''"
  proof (cases "pl_fits current \<and> host_ram_fits s (pr_host_ram req)")
    case True
    then show ?thesis using now cur assms(1) by (auto simp: plan_evictions_def)
  next
    case False
    let ?cover = "\<lambda>g. cover_placement cs s (single_request req g)"
    let ?f = "find ep_fits (map ?cover (sorted_gpus_by_usable s (request_reserve req)))"
    have p: "?p = (if pl_fits current \<or> effective_mode (pr_mode req) = ''manual'' then cover_placement cs s req
        else case ?f of Some p \<Rightarrow> p | None \<Rightarrow> cover_placement cs s req)"
      using cur assms(1,3) False by (auto simp: plan_evictions_def)
    show ?thesis
    proof (cases "(pl_fits current \<or> effective_mode (pr_mode req) = ''manual'') \<or> ?f = None")
      case True
      then have "?p = cover_placement cs s req" unfolding p by auto
      then show ?thesis by (rule cover)
    next
      case found: False
      then obtain q where q: "?f = Some q" by auto
      then have "q \<in> set (map ?cover (sorted_gpus_by_usable s (request_reserve req)))"
        by (metis find_Some_iff nth_mem)
      then obtain g where "q = ?cover g" by auto
      moreover have "?p = q" unfolding p using found q by auto
      moreover have "effective_mode (pr_mode req) = ''auto''" using mode_cases [OF cur] found by auto
      ultimately show ?thesis using single by blast
    qed
  qed
  then show ?thesis
  proof cases
    case now
    then show ?thesis using cur by (simp add: freed_view_def)
  next
    case cover
    show ?thesis
      using describes_fits [OF cover_placement_describes(1) [OF cur]] assms(2) unfolding cover by blast
  next
    case (single g)
    have "ep_fits (cover_placement cs s (single_request req g))" using assms(2) single by simp
    moreover then obtain c where "plan_placement s (single_request req g) = Inr c"
      by (cases "plan_placement s (single_request req g)") (auto simp: cover_placement_error)
    ultimately obtain after where
      "plan_placement (freed_view s (ep_evict ?p)) (single_request req g) = Inr after" "pl_fits after"
      "host_ram_fits (freed_view s (ep_evict ?p)) (pr_host_ram (single_request req g))"
      using describes_fits [OF cover_placement_describes(1)] unfolding single(1) by blast
    then show ?thesis
      using single_fits_auto [of "freed_view s (ep_evict ?p)" req g after] assms(1) single(2)
      by (auto simp: single_request_def)
  qed
qed


text \<open>An idle Instance with the given priority that frees the given bytes of \<open>CUDA0\<close>.\<close>

definition sample_candidate :: "string \<Rightarrow> string \<Rightarrow> i64 \<Rightarrow> candidate" where
  "sample_candidate i priority n = \<lparr>cd_model = ''m'', cd_instance = i, cd_priority = priority, cd_always_on = False,
     cd_eviction = True, cd_active = 0, cd_last_used = 5, cd_estimated = n,
     cd_resources = \<lparr>cs_host_ram = 0, cs_gpu = [\<lparr>device = ''CUDA0'', amount = n\<rparr>]\<rparr>, cd_ready = True\<rparr>"

theorem eviction_ranking_witness:
  "mset (rank_eviction_candidates [sample_candidate ''b'' [] 8, sample_candidate ''a'' ''low'' 1]) =
     filter_mset eligible (mset [sample_candidate ''b'' [] 8, sample_candidate ''a'' ''low'' 1]) \<and>
   rank_eviction_candidates [sample_candidate ''a'' ''low'' 1, sample_candidate ''b'' [] 8] =
     rank_eviction_candidates [sample_candidate ''b'' [] 8, sample_candidate ''a'' ''low'' 1]"
  using eviction_ranking [of "[sample_candidate ''b'' [] 8, sample_candidate ''a'' ''low'' 1]"
      "[sample_candidate ''a'' ''low'' 1, sample_candidate ''b'' [] 8]"]
  by (simp add: sample_candidate_def add_mset_commute)

theorem evictions_only_eligible_witness:
  "cd_active (sample_candidate ''a'' ''low'' 8000000000) \<le> 0 \<and>
   ep_evict (plan_evictions [sample_candidate ''a'' ''low'' 8000000000] (sample_host [(''CUDA0'', 2000000000)])
     (sample_request [] 6000000000 [] [])) = [sample_candidate ''a'' ''low'' 8000000000]"
proof -
  have e: "ep_evict (plan_evictions [sample_candidate ''a'' ''low'' 8000000000] (sample_host [(''CUDA0'', 2000000000)])
     (sample_request [] 6000000000 [] [])) = [sample_candidate ''a'' ''low'' 8000000000]" by code_simp
  then show ?thesis
    using evictions_only_eligible [of "[sample_candidate ''a'' ''low'' 8000000000]"
      "sample_host [(''CUDA0'', 2000000000)]" "sample_request [] 6000000000 [] []"] by simp
qed

theorem plan_evictions_sound_witness:
  "\<exists>after. plan_placement (freed_view (sample_host [(''CUDA0'', 2000000000)])
      (ep_evict (plan_evictions [sample_candidate ''a'' ''low'' 8000000000] (sample_host [(''CUDA0'', 2000000000)])
        (sample_request [] 6000000000 [] [])))) (sample_request [] 6000000000 [] []) = Inr after \<and> pl_fits after"
proof -
  let ?s = "sample_host [(''CUDA0'', 2000000000)]" and ?r = "sample_request [] 6000000000 [] []"
  have "gpus ?s \<noteq> []" by (simp add: sample_host_def)
  moreover have "ep_fits (plan_evictions [sample_candidate ''a'' ''low'' 8000000000] ?s ?r)" by code_simp
  moreover have "0 < pr_required ?r \<or> 0 < pr_host_ram ?r" by (simp add: sample_request_def)
  ultimately show ?thesis using plan_evictions_sound [of ?s "[sample_candidate ''a'' ''low'' 8000000000]" ?r] by blast
qed

text \<open>
  The victim set is not the smallest: the greedy loop keeps every candidate that brought the
  request closer, so it stops a small low-priority Instance that does not suffice and then the
  large one that would have sufficed alone.
\<close>

theorem evictions_not_smallest:
  "map cd_instance (ep_evict (plan_evictions [sample_candidate ''a'' ''low'' 1000000000, sample_candidate ''b'' [] 8000000000]
      (sample_host [(''CUDA0'', 2000000000)]) (sample_request [] 6000000000 [] []))) = [''a'', ''b''] \<and>
   map cd_instance (ep_evict (plan_evictions [sample_candidate ''b'' [] 8000000000]
      (sample_host [(''CUDA0'', 2000000000)]) (sample_request [] 6000000000 [] []))) = [''b''] \<and>
   ep_fits (plan_evictions [sample_candidate ''b'' [] 8000000000]
      (sample_host [(''CUDA0'', 2000000000)]) (sample_request [] 6000000000 [] []))"
  by code_simp

section \<open>Launch evictions\<close>

text \<open>A plan of the launch evictions is the runtime plan on the capacity its victims leave.\<close>

definition launches :: "(candidate list \<Rightarrow> snapshot) \<Rightarrow> runtime_request \<Rightarrow> plan \<Rightarrow> bool" where
  "launches view req p \<longleftrightarrow> (ep_fits p \<longrightarrow>
     (\<exists>after. plan_runtime (req\<lparr>rr_snapshot := view (ep_evict p)\<rparr>) = Some (Inr after) \<and> rp_fits after \<and>
        ep_devices p = pl_devices (rp_placement after)))"

lemma runtime_cover_loop_step:
  assumes "runtime_cover_loop f req (c # cs) sel cur snap = Some p"
  obtains (skip) "runtime_cover_loop f req cs sel cur snap = Some p"
  | (stop) after where "plan_runtime (req\<lparr>rr_snapshot := f (sel @ [c])\<rparr>) = Some (Inr after)" "rp_fits after"
      "p = plan_from_selection (sel @ [c]) (rp_placement after) True"
  | (more) after where "plan_runtime (req\<lparr>rr_snapshot := f (sel @ [c])\<rparr>) = Some (Inr after)"
      "runtime_cover_loop f req cs (sel @ [c]) after (f (sel @ [c])) = Some p"
proof (cases "gives_nothing c")
  case True
  then show ?thesis using assms by (intro skip) simp
next
  case some: False
  note step = assms [unfolded runtime_cover_loop.simps(2) Let_def if_not_P [OF some]]
  show ?thesis
  proof (cases "plan_runtime (req\<lparr>rr_snapshot := f (sel @ [c])\<rparr>)")
    case None
    then show ?thesis using step by simp
  next
    case (Some r)
    show ?thesis
    proof (cases r)
      case (Inl e)
      then show ?thesis using step Some by (intro skip) simp
    next
      case (Inr after)
      then show ?thesis
        using step Some skip stop [of after] more [of after]
        by (cases "runtime_plan_progress cur after snap (f (sel @ [c])) (rr_placement req)"; cases "rp_fits after") simp_all
    qed
  qed
qed

lemma runtime_cover_loop_launches:
  assumes "runtime_cover_loop f req cs sel cur snap = Some p"
    and "rp_fits cur \<longrightarrow> plan_runtime (req\<lparr>rr_snapshot := f sel\<rparr>) = Some (Inr cur)"
  shows "launches f req p \<and> (\<exists>ts. ep_evict p = sel @ ts \<and> subseq ts cs)"
  using assms
proof (induction cs arbitrary: sel cur snap)
  case Nil
  then show ?case by (auto simp: launches_def)
next
  case (Cons c cs)
  from Cons.prems(1) show ?case
  proof (cases rule: runtime_cover_loop_step)
    case skip
    then show ?thesis using Cons.IH [OF skip Cons.prems(2)] list_emb_Cons by metis
  next
    case (stop after)
    have "subseq [c] (c # cs)" by simp
    then show ?thesis using stop by (auto simp: launches_def)
  next
    case (more after)
    obtain ts where "launches f req p" "ep_evict p = (sel @ [c]) @ ts" "subseq ts cs"
      using Cons.IH [OF more(2)] more(1) by blast
    then show ?thesis by (intro conjI exI [of _ "c # ts"]) simp_all
  qed
qed

lemma runtime_evictions_aux:
  assumes "plan_runtime_evictions_with_snapshots cs req (Some view) = Some p"
  shows "(ep_fits p \<longrightarrow> (\<exists>after. plan_runtime (req\<lparr>rr_snapshot := view (ep_evict p)\<rparr>) = Some (Inr after) \<and> rp_fits after \<and>
      ep_devices p = pl_devices (rp_placement after))) \<and>
    subseq (ep_evict p) (rank_eviction_candidates cs)"
proof (cases "plan_runtime (req\<lparr>rr_snapshot := view []\<rparr>)")
  case None
  then show ?thesis using assms by (simp add: plan_runtime_evictions_with_snapshots_def)
next
  case (Some r)
  show ?thesis
  proof (cases "\<exists>q. r = Inr q \<and> rp_fits q")
    case True
    then show ?thesis using assms Some by (auto simp: plan_runtime_evictions_with_snapshots_def Let_def)
  next
    case False
    define cur where "cur = (case r of Inl e \<Rightarrow> zero_runtime_plan | Inr q \<Rightarrow> q)"
    have nf: "\<not> rp_fits cur" using False by (auto simp: cur_def zero_runtime_plan_def split: sum.split)
    then have "runtime_cover_loop view req (rank_eviction_candidates cs) [] cur (view []) = Some p"
      using assms Some by (simp add: plan_runtime_evictions_with_snapshots_def Let_def flip: cur_def)
    from runtime_cover_loop_launches [OF this] nf show ?thesis by (simp add: launches_def)
  qed
qed

text \<open>
  A launch eviction that claims to fit does: the launch planner, run on the capacity that is
  seen once the chosen victims are credited, returns a fitting plan on the same devices; and the
  victims are eligible candidates in the order of the ranking.
\<close>

theorem runtime_evictions_sound:
  assumes "plan_runtime_evictions_with_snapshots cs req (Some view) = Some p"
  shows "(ep_fits p \<longrightarrow> (\<exists>after. plan_runtime (req\<lparr>rr_snapshot := view (ep_evict p)\<rparr>) = Some (Inr after) \<and> rp_fits after \<and>
      ep_devices p = pl_devices (rp_placement after))) \<and>
    subseq (ep_evict p) (rank_eviction_candidates cs)"
  by (rule runtime_evictions_aux [OF assms])

theorem runtime_evictions_sound_witness:
  "\<exists>p after. plan_runtime_evictions_with_snapshots [sample_candidate ''a'' ''low'' 8000000000]
      (sample_runtime (sample_input 0 [''n-gpu-layers'' \<mapsto> ''16'']) [(''CUDA0'', 6000000000)] True)
      (Some (\<lambda>cs. sample_host [(''CUDA0'', 6000000000)])) = Some p \<and> ep_fits p \<and>
    plan_runtime ((sample_runtime (sample_input 0 [''n-gpu-layers'' \<mapsto> ''16'']) [(''CUDA0'', 6000000000)] True)
      \<lparr>rr_snapshot := sample_host [(''CUDA0'', 6000000000)]\<rparr>) = Some (Inr after) \<and> rp_fits after"
proof -
  let ?r = "sample_runtime (sample_input 0 [''n-gpu-layers'' \<mapsto> ''16'']) [(''CUDA0'', 6000000000)] True"
  let ?v = "\<lambda>cs :: candidate list. sample_host [(''CUDA0'', 6000000000)]"
  have same: "?r\<lparr>rr_snapshot := sample_host [(''CUDA0'', 6000000000)]\<rparr> = ?r" by (simp add: sample_runtime_def)
  have "case evaluate_runtime_candidate ?r [''n-gpu-layers'' \<mapsto> ''16''] False of Inl e \<Rightarrow> False | Inr plan \<Rightarrow> rp_fits plan"
    by code_simp
  then obtain q where q: "evaluate_runtime_candidate ?r [''n-gpu-layers'' \<mapsto> ''16''] False = Inr q" "rp_fits q"
    by (auto split: sum.splits)
  have plan: "plan_runtime ?r = Some (Inr q)"
    using q by (intro plan_runtime_full) (simp_all add: idle_request_def sample_input_def sample_host_def)
  obtain p where p: "plan_runtime_evictions_with_snapshots [sample_candidate ''a'' ''low'' 8000000000] ?r (Some ?v) = Some p"
    "ep_fits p"
    using plan q(2) by (simp add: plan_runtime_evictions_with_snapshots_def same)
  show ?thesis using runtime_evictions_sound [OF p(1)] p by blast
qed

section \<open>Attribution\<close>

lemma clean_ids_distinct: "distinct (clean_ids xs seen) \<and> set (clean_ids xs seen) \<inter> seen = {}"
  by (induction xs seen rule: clean_ids.induct) (auto simp: Let_def)

lemma set_clean_ids: "set (clean_ids xs seen) = trim_space ` set xs - {[]} - seen"
  by (induction xs seen rule: clean_ids.induct) (auto simp: Let_def)

lemma clean_device_ids: "distinct (clean_device_ids xs)" "set (clean_device_ids xs) = trim_space ` set xs - {[]}"
  using clean_ids_distinct [of xs "{}"] set_clean_ids [of xs "{}"] by (auto simp: clean_device_ids_def)

lemma estimate_shares_sum:
  "xs \<noteq> [] \<Longrightarrow> map device (estimate_shares n tot xs rem) = map fst xs \<and>
    wrap64 (sum_list (map amount (estimate_shares n tot xs rem))) = wrap64 rem"
proof (induction n tot xs rem rule: estimate_shares.induct)
  case (3 n tot d w x xs rem)
  let ?b = "i64_of_float (fdiv (fmul (float_of_i64 n) w) tot)"
  let ?S = "sum_list (map amount (estimate_shares n tot (x # xs) (wrap64 (rem - ?b))))"
  have IH: "map device (estimate_shares n tot (x # xs) (wrap64 (rem - ?b))) = map fst (x # xs)"
    "wrap64 ?S = wrap64 (rem - ?b)"
    using 3 by (simp_all add: Let_def)
  have "wrap64 (?b + ?S) = wrap64 (?b + wrap64 ?S)" by simp
  also have "\<dots> = wrap64 rem" unfolding IH(2) by simp
  finally show ?case using IH(1) by (simp add: Let_def)
qed simp_all

text \<open>
  Splitting an estimate over devices loses nothing: every distinct device gets one share, in
  order, whatever the tensor split says, and the shares add up to the estimate (as \<open>int64\<close>).
\<close>

theorem split_estimate_total:
  assumes "0 < n" and "is_i64 n" and "clean_device_ids devices \<noteq> []"
  shows "map device (split_estimate_across_devices n devices split) = clean_device_ids devices \<and>
    distinct (map device (split_estimate_across_devices n devices split)) \<and>
    wrap64 (sum_list (map amount (split_estimate_across_devices n devices split))) = n"
proof -
  let ?ds = "clean_device_ids devices"
  have "map device (split_estimate_across_devices n devices split) = ?ds \<and>
    wrap64 (sum_list (map amount (split_estimate_across_devices n devices split))) = n"
  proof (cases "length ?ds = 1")
    case True
    then obtain d where "?ds = [d]" by (auto simp: length_Suc_conv)
    then show ?thesis using assms by (simp add: split_estimate_across_devices_def wrap64_id)
  next
    case False
    define ws where "ws = tensor_split_weights split (length ?ds)"
    define ws' where "ws' = (if fle (foldl fadd (Fin 0) ws) (Fin 0) then replicate (length ?ds) (Fin 1) else ws)"
    define tt where "tt = (if fle (foldl fadd (Fin 0) ws) (Fin 0) then float_of_i64 (int (length ?ds)) else foldl fadd (Fin 0) ws)"
    have "fle (Fin 0) (Fin 0)" by (simp add: fle_def)
    then have l: "length ws' = length ?ds"
      by (auto simp: ws'_def ws_def tensor_split_weights_def split: option.split)
    have eq: "split_estimate_across_devices n devices split = estimate_shares n tt (zip ?ds ws') n"
      using assms(1,3) False by (auto simp: split_estimate_across_devices_def Let_def ws'_def tt_def ws_def)
    have "zip ?ds ws' \<noteq> []" using l assms(3) by (metis length_0_conv length_zip min.idem)
    from estimate_shares_sum [OF this, of n tt n] show ?thesis unfolding eq using l assms(2) by (simp add: wrap64_id)
  qed
  then show ?thesis using clean_device_ids(1) by metis
qed

theorem split_estimate_total_witness:
  "map device (split_estimate_across_devices 1000 [''CUDA0'', '' CUDA1 '', ''CUDA0''] ''3,1'') = [''CUDA0'', ''CUDA1''] \<and>
    wrap64 (sum_list (map amount (split_estimate_across_devices 1000 [''CUDA0'', '' CUDA1 '', ''CUDA0''] ''3,1''))) = 1000"
proof -
  have d: "clean_device_ids [''CUDA0'', '' CUDA1 '', ''CUDA0''] = [''CUDA0'', ''CUDA1'']" by code_simp
  have "(0::int) < 1000" "is_i64 1000" "clean_device_ids [''CUDA0'', '' CUDA1 '', ''CUDA0''] \<noteq> []"
    unfolding d by (simp_all add: is_i64_def)
  from split_estimate_total [OF this] show ?thesis unfolding d by blast
qed


text \<open>The lease loop keeps, for each device, at least every reservation made on it.\<close>

lemma lease_union_spec:
  assumes "lease_union hv gs m devices = (m', devices')"
  shows "(\<forall>d. m d \<le> m' d) \<and> set devices \<subseteq> set devices' \<and>
    (\<forall>g \<in> set gs. trim_space (device g) \<noteq> [] \<longrightarrow> 0 < amount g \<longrightarrow>
      amount g \<le> m' (trim_space (device g)) \<and> (trim_space (device g) \<in> set hv \<or> trim_space (device g) \<in> set devices'))"
  using assms
proof (induction hv gs m devices rule: lease_union.induct)
  case (2 hv g gs m devices)
  let ?d = "trim_space (device g)"
  show ?case
  proof (cases "?d = [] \<or> amount g \<le> 0")
    case True
    then have "lease_union hv gs m devices = (m', devices')" using 2(3) by (auto simp: Let_def)
    from 2(1) [OF refl True this] show ?thesis using True by auto
  next
    case False
    let ?m = "if m ?d < amount g then m(?d := amount g) else m"
    let ?ds = "if ?d \<notin> set hv then devices @ [?d] else devices"
    have "lease_union hv gs ?m ?ds = (m', devices')" using 2(3) False by (simp add: Let_def)
    note IH = 2(2) [OF refl False this]
    have "m d \<le> ?m d" for d by simp
    then have a: "\<forall>d. m d \<le> m' d" using IH order_trans by blast
    have "amount g \<le> ?m ?d" by simp
    then have b: "amount g \<le> m' ?d" using IH order_trans by blast
    have c: "set devices \<subseteq> set devices'" "?d \<in> set hv \<or> ?d \<in> set devices'" using IH by (auto split: if_split_asm)
    show ?thesis using a b c IH by simp
  qed
qed simp

text \<open>
  The lease is a floor for what an observed worker is credited with: when some memory of its
  process was observed, every device its lease names (tensor-split workers are often seen on one GPU
  only) has an entry of at least the reserved bytes.
\<close>

theorem attribution_covers_lease:
  assumes "observed_process_gpus (at_pid a) (at_processes a) \<noteq> []" and "g \<in> set (at_lease a)"
    and "trim_space (device g) \<noteq> []" and "0 < amount g"
  shows "\<exists>x \<in> set (cs_gpu (attribute_resources a)). device x = trim_space (device g) \<and> amount g \<le> amount x"
proof -
  let ?obs = "observed_process_gpus (at_pid a) (at_processes a)"
  let ?have = "map device ?obs" and ?d = "trim_space (device g)"
  obtain m ds where lu: "lease_union ?have (at_lease a) (\<lambda>d. 0) (reserved_device_ids (at_devices a) (at_lease a)) = (m, ds)"
    by fastforce
  note spec = lease_union_spec [OF lu]
  have m: "amount g \<le> m ?d" "?d \<in> set ?have \<or> ?d \<in> set ds" using spec assms(2-4) by blast+
  define up where "up = (\<lambda>x :: device_bytes. if amount x < m (device x) then x\<lparr>amount := m (device x)\<rparr> else x)"
  define out where "out = map up ?obs"
  define leased where "leased = map (\<lambda>d. \<lparr>device = d, amount = m d\<rparr>)
    (filter (\<lambda>d. 0 < m d) (filter (\<lambda>d. d \<notin> set ?have) (clean_device_ids ds)))"
  have "set (out @ leased) \<subseteq> set (cs_gpu (attribute_resources a))"
    using assms(1) by (auto simp: attribute_resources_def Let_def union_observed_with_reserved_def lu out_def up_def leased_def)
  moreover have "\<exists>x \<in> set (out @ leased). device x = ?d \<and> amount g \<le> amount x"
  proof (cases "?d \<in> set ?have")
    case True
    then obtain x where "x \<in> set ?obs" "device x = ?d" by auto
    then have "up x \<in> set out" unfolding out_def by simp
    moreover have "device (up x) = ?d" "amount g \<le> amount (up x)"
      using m(1) \<open>device x = ?d\<close> by (simp_all add: up_def)
    ultimately have "up x \<in> set out" "device (up x) = ?d" "amount g \<le> amount (up x)" by simp_all
    then show ?thesis by auto
  next
    case False
    have "?d \<in> set (clean_device_ids ds)"
      using m(2) False assms(3) unfolding clean_device_ids(2) by (metis DiffI empty_iff image_eqI insert_iff trim_space_idem)
    then have "\<lparr>device = ?d, amount = m ?d\<rparr> \<in> set leased" using m(1) assms(4) False by (simp add: leased_def)
    then have e: "\<lparr>device = ?d, amount = m ?d\<rparr> \<in> set (out @ leased)" by simp
    show ?thesis by (rule bexI [OF _ e]) (use m(1) in simp)
  qed
  ultimately show ?thesis by blast
qed

theorem attribution_covers_lease_witness:
  "\<exists>x \<in> set (cs_gpu (attribute_resources \<lparr>at_estimated = 0, at_host_ram = 0, at_devices = [], at_tensor_split = [],
      at_lease = [\<lparr>device = ''CUDA0'', amount = 500\<rparr>, \<lparr>device = ''CUDA1'', amount = 700\<rparr>], at_pid = 7,
      at_processes = [\<lparr>gp_pid = 7, gp_device = ''CUDA0'', gp_used = 900\<rparr>], at_gpus = []\<rparr>)).
    device x = ''CUDA1'' \<and> 700 \<le> amount x"
proof -
  let ?a = "\<lparr>at_estimated = 0, at_host_ram = 0, at_devices = [], at_tensor_split = [],
      at_lease = [\<lparr>device = ''CUDA0'', amount = 500\<rparr>, \<lparr>device = ''CUDA1'', amount = 700\<rparr>], at_pid = 7,
      at_processes = [\<lparr>gp_pid = 7, gp_device = ''CUDA0'', gp_used = 900\<rparr>], at_gpus = []\<rparr>"
  have d: "trim_space ''CUDA1'' = ''CUDA1''" by code_simp
  have "observed_process_gpus (at_pid ?a) (at_processes ?a) \<noteq> []" by code_simp
  moreover have "\<lparr>device = ''CUDA1'', amount = 700\<rparr> \<in> set (at_lease ?a)" by simp
  ultimately show ?thesis using attribution_covers_lease [of ?a "\<lparr>device = ''CUDA1'', amount = 700\<rparr>"] by (simp add: d)
qed

end
