(* ===== verification/Service_State.thy ===== *)
theory Service_State
  imports Supervisor Eviction Gguf "HOL-Library.Word"
begin

text \<open>
  The state of \<open>lifecycle.Service\<close> (\<open>backend/internal/lifecycle\<close>) and its critical sections: request
  counters (\<open>pending.go\<close>), start failures (\<open>start_failure.go\<close>), the startup gate
  (\<open>startup_reconcile.go\<close>), and the maps of \<open>service.go\<close>. The ledger and the supervisor, which have
  mutexes of their own, are fields of the state; a section of either is one action as well.
\<close>

section \<open>Data\<close>

record instance_row =
  in_id :: string
  in_model :: string
  in_enabled :: bool
  in_autoload :: bool
  in_always_on :: bool
  in_priority :: string
  in_eviction :: bool
  in_spillover :: bool
  in_idle_seconds :: i64
  in_max_pending :: i64
  in_gpu_mode :: string
  in_gpu_devices :: "string list"
  in_tensor_split :: string

record activity =
  ac_pending :: nat
  ac_active :: nat
  ac_last_used :: go_time

record start_failure =
  sf_count :: nat
  sf_last_failure :: go_time
  sf_retry_after :: go_time

datatype life_error =
    ErrPressure
  | ErrIneligible
  | ErrStartupKilled
  | ErrOrphan string
  | ErrBackoff
  | ErrDisabled
  | ErrNoInstance
  | ErrNoAutoload
  | ErrManuallyStopped
  | ErrContext
  | ErrQueue string
  | ErrStart start_error
  | ErrLedger ledger_error
  | ErrDevices device_error
  | ErrOptions option_error
  | ErrStore
  | ErrSnapshot
  | ErrNotReady
  | ErrSlotDir
  | ErrKill
  | ErrEvict life_error

text \<open>The channel \<open>startupReady\<close>: \<open>nil\<close>, open or closed.\<close>

datatype startup_gate = NoGate | Armed | Released

text \<open>The \<open>go\<close> statements of the code, and the calls of the observability recorder.\<close>

datatype goroutine =
    RunLoad string nat
  | StartInBackground string
  | Unblock string
  | WaitWorker string nat

datatype lifecycle_event = Autoload | Load | FailedStart | EvictionEvent | IdleUnload

text \<open>A \<open>loadCall\<close>: its result once \<open>done\<close> is closed.\<close>

record load_call =
  cl_result :: "(life_error + string) option"
  cl_autoload :: bool

record service =
  sv_sup :: supervisor
  sv_ledger :: ledger
  sv_manual :: "string set"
  sv_blocked :: "string set"
  sv_activities :: "(string \<times> activity) list"
  sv_failures :: "string \<rightharpoonup> start_failure"
  sv_idle_locks :: "string set"
  sv_gates :: "string set"
  sv_drains :: "string \<rightharpoonup> nat"
  sv_gen :: "string \<Rightarrow> 64 word"
  sv_cancel :: "string \<rightharpoonup> 64 word"
  sv_cancelled :: "(string \<times> 64 word) set"
  sv_tracked :: "string \<rightharpoonup> int \<times> string"
  sv_startup :: startup_gate
  sv_orphans :: "string \<rightharpoonup> string"
  sv_loads :: "string \<rightharpoonup> nat"
  sv_calls :: "nat \<rightharpoonup> load_call"
  sv_next :: nat
  sv_spawned :: "goroutine list"
  sv_events :: "(lifecycle_event \<times> string) list"

section \<open>Request counters\<close>

definition no_activity :: activity where
  "no_activity = \<lparr>ac_pending = 0, ac_active = 0, ac_last_used = 0\<rparr>"

definition activity_at :: "service \<Rightarrow> string \<Rightarrow> activity" where
  "activity_at s i = (case map_of (sv_activities s) i of None \<Rightarrow> no_activity | Some a \<Rightarrow> a)"

definition set_activity :: "string \<Rightarrow> activity \<Rightarrow> service \<Rightarrow> service" where
  "set_activity i a s = s\<lparr>sv_activities := AList.update i a (sv_activities s)\<rparr>"

definition activity_demand :: "activity \<Rightarrow> nat" where
  "activity_demand a = ac_pending a + ac_active a"

definition default_pending_limits :: "i64 \<times> i64" where
  "default_pending_limits = (32, 128)"

definition manager_pending_limits :: "(i64 \<times> i64) option \<Rightarrow> i64 \<times> i64" where
  "manager_pending_limits getter = (case getter of None \<Rightarrow> default_pending_limits | Some l \<Rightarrow> l)"

definition effective_pending_limit :: "i64 \<Rightarrow> i64 \<Rightarrow> i64" where
  "effective_pending_limit override default_limit = (if 0 < override then override else default_limit)"

definition global_pending :: "service \<Rightarrow> nat" where
  "global_pending s = sum_list (map (ac_pending \<circ> snd) (sv_activities s))"

definition reserve_pending :: "go_time \<Rightarrow> i64 \<times> i64 \<Rightarrow> instance_row \<Rightarrow> service \<Rightarrow> service \<times> life_error option" where
  "reserve_pending now limits i s =
     (let (per_instance, global) = limits;
          limit = effective_pending_limit (in_max_pending i) per_instance;
          a = activity_at s (in_id i)
      in if 0 < limit \<and> limit \<le> int (ac_pending a) then (s, Some (ErrQueue ''instance''))
         else if 0 < global \<and> global \<le> int (global_pending s) then (s, Some (ErrQueue ''global''))
         else (set_activity (in_id i) (a\<lparr>ac_pending := ac_pending a + 1, ac_last_used := now\<rparr>) s, None))"

definition queue_limit_scope :: "life_error \<Rightarrow> string" where
  "queue_limit_scope e = (case e of ErrQueue scope \<Rightarrow> scope | _ \<Rightarrow> [])"

definition release_pending :: "go_time \<Rightarrow> string \<Rightarrow> service \<Rightarrow> service" where
  "release_pending now i s =
     (let a = activity_at s i in set_activity i (a\<lparr>ac_pending := ac_pending a - 1, ac_last_used := now\<rparr>) s)"

definition activate_request :: "go_time \<Rightarrow> string \<Rightarrow> service \<Rightarrow> service" where
  "activate_request now i s =
     (let a = activity_at s i
      in set_activity i (a\<lparr>ac_pending := ac_pending a - 1, ac_active := ac_active a + 1, ac_last_used := now\<rparr>) s)"

definition finish_active :: "go_time \<Rightarrow> string \<Rightarrow> service \<Rightarrow> service" where
  "finish_active now i s =
     (let a = activity_at s i in set_activity i (a\<lparr>ac_active := ac_active a - 1, ac_last_used := now\<rparr>) s)"

definition touch :: "go_time \<Rightarrow> string \<Rightarrow> service \<Rightarrow> service" where
  "touch now i s = set_activity i ((activity_at s i)\<lparr>ac_last_used := now\<rparr>) s"

text \<open>\<open>Activity\<close> with its fallback for a model id, whose instances the caller reads from the database.\<close>

definition aggregate_activity :: "service \<Rightarrow> string list \<Rightarrow> activity" where
  "aggregate_activity s ids =
     foldl (\<lambda>out i. let a = activity_at s i
        in \<lparr>ac_pending = ac_pending out + ac_pending a, ac_active = ac_active out + ac_active a,
            ac_last_used = (if ac_last_used out < ac_last_used a then ac_last_used a else ac_last_used out)\<rparr>)
       no_activity ids"

definition activity_of :: "service \<Rightarrow> string list \<Rightarrow> string \<Rightarrow> activity" where
  "activity_of s of_model i =
     (case map_of (sv_activities s) i of Some a \<Rightarrow> a | None \<Rightarrow> aggregate_activity s of_model)"

section \<open>Start failures\<close>

definition second :: go_time where
  "second = 1000000000"

definition backoff_schedule :: "go_time list" where
  "backoff_schedule = [15 * second, 30 * second, 60 * second, 120 * second, 300 * second]"

definition start_failure_backoff :: "nat \<Rightarrow> go_time" where
  "start_failure_backoff failures =
     (if failures = 0 then backoff_schedule ! 0
      else
        let k = failures - 1
        in backoff_schedule ! (if length backoff_schedule \<le> k then length backoff_schedule - 1 else k))"

definition in_start_backoff :: "go_time \<Rightarrow> string \<Rightarrow> service \<Rightarrow> bool" where
  "in_start_backoff now i s =
     (case sv_failures s i of
        None \<Rightarrow> False
      | Some f \<Rightarrow> if sf_retry_after f = 0 then False else now < sf_retry_after f)"

definition record_start_failure :: "go_time \<Rightarrow> string \<Rightarrow> service \<Rightarrow> service" where
  "record_start_failure now i s =
     (if i = [] then s
      else
        let n = (case sv_failures s i of None \<Rightarrow> 0 | Some f \<Rightarrow> sf_count f) + 1
        in s\<lparr>sv_failures := (sv_failures s)(i \<mapsto>
             \<lparr>sf_count = n, sf_last_failure = now, sf_retry_after = now + start_failure_backoff n\<rparr>)\<rparr>)"

definition override_start_backoff :: "string \<Rightarrow> service \<Rightarrow> service" where
  "override_start_backoff i s =
     (if i = [] then s
      else case sv_failures s i of
        None \<Rightarrow> s
      | Some f \<Rightarrow>
          if sf_retry_after f \<noteq> 0
          then s\<lparr>sv_failures := (sv_failures s)(i \<mapsto> f\<lparr>sf_retry_after := 0\<rparr>)\<rparr>
          else s)"

definition reset_start_failures :: "string \<Rightarrow> service \<Rightarrow> service" where
  "reset_start_failures i s = (if i = [] then s else s\<lparr>sv_failures := (sv_failures s)(i := None)\<rparr>)"

section \<open>Startup generations\<close>

text \<open>The previous cancel function and the new generation.\<close>

definition begin_startup_section :: "string \<Rightarrow> service \<Rightarrow> service \<times> 64 word option \<times> 64 word" where
  "begin_startup_section i s =
     (let g = sv_gen s i + 1
      in (s\<lparr>sv_gen := (sv_gen s)(i := g), sv_cancel := (sv_cancel s)(i \<mapsto> g)\<rparr>, sv_cancel s i, g))"

definition cancel_startup_section :: "string \<Rightarrow> service \<Rightarrow> service \<times> 64 word option" where
  "cancel_startup_section i s =
     (s\<lparr>sv_gen := (sv_gen s)(i := sv_gen s i + 1), sv_cancel := (sv_cancel s)(i := None)\<rparr>, sv_cancel s i)"

definition finish_startup_section :: "string \<Rightarrow> 64 word \<Rightarrow> service \<Rightarrow> service \<times> 64 word option" where
  "finish_startup_section i g s =
     (if sv_gen s i \<noteq> g then (s, None) else (s\<lparr>sv_cancel := (sv_cancel s)(i := None)\<rparr>, sv_cancel s i))"

definition call_cancel :: "string \<Rightarrow> 64 word option \<Rightarrow> service \<Rightarrow> service" where
  "call_cancel i g s =
     (case g of None \<Rightarrow> s | Some h \<Rightarrow> s\<lparr>sv_cancelled := insert (i, h) (sv_cancelled s)\<rparr>)"

section \<open>Drains, loads and committed workers\<close>

text \<open>A channel of \<open>drainWaits\<close> is a number; it is closed when it has left the map.\<close>

definition finish_drain_wait :: "string \<Rightarrow> service \<Rightarrow> service" where
  "finish_drain_wait i s = s\<lparr>sv_drains := (sv_drains s)(i := None)\<rparr>"

definition register_drain_wait :: "string \<Rightarrow> service \<Rightarrow> service" where
  "register_drain_wait i s =
     (if sv_drains s i = None then s\<lparr>sv_drains := (sv_drains s)(i \<mapsto> sv_next s), sv_next := Suc (sv_next s)\<rparr> else s)"

definition spawn :: "goroutine \<Rightarrow> service \<Rightarrow> service" where
  "spawn g s = s\<lparr>sv_spawned := sv_spawned s @ [g]\<rparr>"

definition record_event :: "lifecycle_event \<Rightarrow> string \<Rightarrow> service \<Rightarrow> service" where
  "record_event e i s = s\<lparr>sv_events := sv_events s @ [(e, i)]\<rparr>"

text \<open>The first section of \<open>startSingleFlight\<close>: the call to wait for, and whether it is a new one.\<close>

definition join_load :: "string \<Rightarrow> bool \<Rightarrow> service \<Rightarrow> service \<times> nat \<times> bool" where
  "join_load i autoload s =
     (case sv_loads s i of
        Some c \<Rightarrow> (s, c, False)
      | None \<Rightarrow>
          let c = sv_next s
          in (s\<lparr>sv_loads := (sv_loads s)(i \<mapsto> c), sv_calls := (sv_calls s)(c \<mapsto> \<lparr>cl_result = None, cl_autoload = autoload\<rparr>),
                sv_next := Suc c\<rparr>, c, True))"

text \<open>\<open>completeLoad\<close> acts once per call.\<close>

definition complete_load :: "string \<Rightarrow> nat \<Rightarrow> life_error + string \<Rightarrow> service \<Rightarrow> service" where
  "complete_load i c r s =
     (case sv_calls s c of
        None \<Rightarrow> s
      | Some cl \<Rightarrow>
          if cl_result cl \<noteq> None then s
          else s\<lparr>sv_calls := (sv_calls s)(c \<mapsto> cl\<lparr>cl_result := Some r\<rparr>),
                 sv_loads := (if sv_loads s i = Some c then (sv_loads s)(i := None) else sv_loads s)\<rparr>)"

section \<open>Marks and gates\<close>

definition mark_manual_stop :: "string \<Rightarrow> service \<Rightarrow> service" where
  "mark_manual_stop i s = s\<lparr>sv_manual := insert i (sv_manual s)\<rparr>"

definition clear_manual_stop :: "string \<Rightarrow> service \<Rightarrow> service" where
  "clear_manual_stop i s = s\<lparr>sv_manual := sv_manual s - {i}\<rparr>"

definition mark_resource_block :: "string \<Rightarrow> service \<Rightarrow> service" where
  "mark_resource_block i s = s\<lparr>sv_blocked := insert i (sv_blocked s)\<rparr>"

definition clear_resource_block :: "string \<Rightarrow> service \<Rightarrow> service" where
  "clear_resource_block i s = s\<lparr>sv_blocked := sv_blocked s - {i}\<rparr>"

definition orphan_block_reason :: "service \<Rightarrow> string \<Rightarrow> string" where
  "orphan_block_reason s i = lookup_string (sv_orphans s) i"

definition arm_startup_reconcile :: "service \<Rightarrow> service" where
  "arm_startup_reconcile s = s\<lparr>sv_startup := Armed\<rparr>"

definition mark_startup_ready :: "service \<Rightarrow> service" where
  "mark_startup_ready s = s\<lparr>sv_startup := (if sv_startup s = NoGate then NoGate else Released)\<rparr>"

section \<open>Committed workers\<close>

definition track_committed_worker :: "string \<Rightarrow> int \<Rightarrow> string \<Rightarrow> service \<Rightarrow> service" where
  "track_committed_worker i pid lease s =
     (if i = [] \<or> pid \<le> 0 \<or> lease = [] then s else s\<lparr>sv_tracked := (sv_tracked s)(i \<mapsto> (pid, lease))\<rparr>)"

text \<open>The first section of \<open>handleWorkerExit\<close>: the lease to release.\<close>

definition untrack_worker :: "worker_exit \<Rightarrow> service \<Rightarrow> service \<times> string option" where
  "untrack_worker x s =
     (if we_instance x = [] \<or> we_pid x \<le> 0 then (s, None)
      else case sv_tracked s (we_instance x) of
        None \<Rightarrow> (s, None)
      | Some (pid, lease) \<Rightarrow>
          if pid \<noteq> we_pid x then (s, None)
          else (s\<lparr>sv_tracked := (sv_tracked s)(we_instance x := None)\<rparr>, Some lease))"

section \<open>Pure parts of the launch\<close>

text \<open>\<open>recommendations.ReadMetadata\<close> on the inspected file.\<close>

fun metadata_digits :: "string \<Rightarrow> i64 \<Rightarrow> i64" where
  "metadata_digits [] n = n"
| "metadata_digits (c # cs) n =
     (case digit_val c of
        None \<Rightarrow> 0
      | Some d \<Rightarrow> if go_div (9223372036854775807 - d) 10 < n then 0 else metadata_digits cs (n * 10 + d))"

definition parse_metadata_int :: "string \<Rightarrow> i64" where
  "parse_metadata_int s = metadata_digits (trim_space s) 0"

definition read_metadata :: "inspection option \<Rightarrow> kv_metadata \<times> bool" where
  "read_metadata file =
     (case file of
        None \<Rightarrow> (\<lparr>km_architecture = [], km_context_length = 0, km_block_count = 0, km_embedding = 0, km_head_count = 0,
          km_kv_head_count = 0, km_key_length = 0, km_value_length = 0, km_expert_count = 0\<rparr>, True)
      | Some ins \<Rightarrow>
          let d = is_derived ins
          in (\<lparr>km_architecture = dv_architecture d, km_context_length = dv_context d, km_block_count = dv_blocks d,
               km_embedding = dv_embedding d, km_head_count = dv_heads d, km_kv_head_count = dv_kv_heads d,
               km_key_length = dv_key_length d, km_value_length = dv_value_length d,
               km_expert_count = foldl (\<lambda>n e. if en_key e = dv_architecture d @ ''.expert_count''
                 then parse_metadata_int (en_value e) else n) 0 (is_metadata ins)\<rparr>, False))"

text \<open>\<open>os.Stat\<close> is an argument: the size of a regular file, or \<open>None\<close>.\<close>

definition companion_bytes :: "(string \<Rightarrow> i64 option) \<Rightarrow> options \<Rightarrow> i64" where
  "companion_bytes stat opts =
     foldl (\<lambda>n key.
       let path = trim_space (case opts key of None \<Rightarrow> [] | Some v \<Rightarrow> v)
       in if path = [] then n else case stat path of None \<Rightarrow> n | Some b \<Rightarrow> wrap64 (n + b))
       0 [''mmproj'', ''spec-draft-model'']"

definition demand_input_for :: "i64 \<Rightarrow> inspection option \<Rightarrow> (string \<Rightarrow> i64 option) \<Rightarrow> options \<Rightarrow> demand_input" where
  "demand_input_for total_bytes file stat opts =
     (let (m, failed) = read_metadata file
      in \<lparr>di_weights = total_bytes, di_companion = companion_bytes stat opts, di_context = 0, di_metadata = m,
          di_metadata_err = failed, di_options = opts\<rparr>)"

definition victim_placement_current :: "candidate \<Rightarrow> snapshot \<Rightarrow> int \<Rightarrow> bool" where
  "victim_placement_current c s pid =
     (let planned = clean_devices (map device (cs_gpu (cd_resources c)));
          mine = filter (\<lambda>p. gp_pid p = pid) (processes s)
      in planned = [] \<or> pid \<le> 0 \<or> mine = [] \<or> list_ex (\<lambda>p. trim_space (gp_device p) \<in> set planned) mine)"

definition candidate_resource_bytes :: "candidate_resources \<Rightarrow> i64" where
  "candidate_resource_bytes r = foldl (\<lambda>t g. if 0 < amount g then wrap64 (t + amount g) else t) 0 (cs_gpu r)"

definition placement_devices_present :: "snapshot \<Rightarrow> string list \<Rightarrow> bool" where
  "placement_devices_present s ds \<longleftrightarrow> list_all (\<lambda>d. d \<in> gpu_id ` set (gpus s)) ds"

fun is_startup_interrupt :: "life_error \<Rightarrow> bool" where
  "is_startup_interrupt ErrStartupKilled = True"
| "is_startup_interrupt ErrContext = True"
| "is_startup_interrupt (ErrStart Killed) = True"
| "is_startup_interrupt (ErrEvict e) = is_startup_interrupt e"
| "is_startup_interrupt _ = False"

end
