(* ===== verification/Lifecycle.thy ===== *)
theory Lifecycle
  imports Service_State
begin

text \<open>
  The operations of \<open>lifecycle.Service\<close> as programs over its state: \<open>service.go\<close>, \<open>runtime_launch.go\<close>
  and \<open>startup_reconcile.go\<close>, with the methods of the supervisor that wait. An action is one critical
  section (of \<open>s.mu\<close>, of the ledger, of the supervisor), one channel operation or one reading of what
  lies outside; everything outside is the world of the action, so it may differ from one action to
  the next. Logs, time stamps of log lines and test hooks are left out.
\<close>

section \<open>The world and contexts\<close>

record world =
  wo_now :: go_time
  wo_later :: go_time
  wo_lease :: string
  wo_pick :: nat
  wo_elapsed :: bool
  wo_cancelled :: bool
  wo_limits :: "(i64 \<times> i64) option"
  wo_instance :: "string \<Rightarrow> instance_row option"
  wo_instances :: "instance_row list option"
  wo_model_rows :: "string \<Rightarrow> instance_row list option"
  wo_model :: "string \<Rightarrow> (i64 \<times> string option) option"
  wo_config :: config_db
  wo_profile :: "(string + profile) option"
  wo_inspect :: "string \<Rightarrow> inspection option"
  wo_stat :: "string \<Rightarrow> i64 option"
  wo_snapshot :: "snapshot option"
  wo_supervisor :: supervisor_config
  wo_spawn :: spawn_world
  wo_persist :: bool
  wo_healthy :: bool
  wo_signal :: bool
  wo_data_dir :: string
  wo_mkdir :: bool
  wo_stale :: "(string \<times> string) list"
  wo_rounds :: nat

text \<open>
  \<open>wo_model\<close> is the size of a model and its path, if it has one; \<open>wo_profile\<close> is the profile getter.
  \<open>select\<close> takes an alternative that is ready; the world picks which. \<open>wo_rounds\<close> says how often
  a loop that only waits goes round; a run that needs more of them is blocked in this world.
\<close>

datatype ctx = Background | Request | Startup string "64 word"

type_synonym 'a go = "(world, service, 'a) prog"

definition cancelled :: "ctx \<Rightarrow> world \<Rightarrow> service \<Rightarrow> bool" where
  "cancelled c w s =
     (case c of Background \<Rightarrow> False | Request \<Rightarrow> wo_cancelled w | Startup i g \<Rightarrow> (i, g) \<in> sv_cancelled s)"

definition select :: "(world \<Rightarrow> service \<Rightarrow> 'a option) list \<Rightarrow> 'a go" where
  "select alts = await (\<lambda>w s.
     if wo_pick w < length alts then map_option (\<lambda>a. (s, a)) ((alts ! wo_pick w) w s) else None)"

definition ready :: "(world \<Rightarrow> service \<Rightarrow> bool) \<Rightarrow> 'a \<Rightarrow> world \<Rightarrow> service \<Rightarrow> 'a option" where
  "ready P a w s = (if P w s then Some a else None)"

definition ctx_err :: "ctx \<Rightarrow> life_error option go" where
  "ctx_err c = readp (\<lambda>w s. if cancelled c w s then Some ErrContext else None)"

definition section_of :: "(service \<Rightarrow> service \<times> 'a) \<Rightarrow> 'a go" where
  "section_of f = act (\<lambda>w s. f s)"

definition modify :: "(service \<Rightarrow> service) \<Rightarrow> unit go" where
  "modify f = update (\<lambda>w s. f s)"

definition get :: "(service \<Rightarrow> 'a) \<Rightarrow> 'a go" where
  "get f = readp (\<lambda>w s. f s)"

definition on_sup :: "(supervisor \<Rightarrow> supervisor \<times> 'a) \<Rightarrow> 'a go" where
  "on_sup f = section_of (\<lambda>s. case f (sv_sup s) of (sp, a) \<Rightarrow> (s\<lparr>sv_sup := sp\<rparr>, a))"

definition on_ledger :: "(world \<Rightarrow> ledger \<Rightarrow> ledger \<times> 'a) \<Rightarrow> 'a go" where
  "on_ledger f = act (\<lambda>w s. case f w (sv_ledger s) of (l, a) \<Rightarrow> (s\<lparr>sv_ledger := l\<rparr>, a))"

text \<open>\<open>if err != nil { return err }\<close>, on an error and on a result.\<close>

definition check :: "life_error option go \<Rightarrow> (life_error + 'a) go \<Rightarrow> (life_error + 'a) go" where
  "check p k = bindp p (\<lambda>e. case e of Some e \<Rightarrow> Return (Inl e) | None \<Rightarrow> k)"

definition check_err :: "life_error option go \<Rightarrow> life_error option go \<Rightarrow> life_error option go" where
  "check_err p k = bindp p (\<lambda>e. case e of Some e \<Rightarrow> Return (Some e) | None \<Rightarrow> k)"

definition bind_ok :: "(life_error + 'a) go \<Rightarrow> ('a \<Rightarrow> (life_error + 'b) go) \<Rightarrow> (life_error + 'b) go" where
  "bind_ok p k = bindp p (\<lambda>r. case r of Inl e \<Rightarrow> Return (Inl e) | Inr a \<Rightarrow> k a)"

section \<open>Locks, gates and waits\<close>

definition lock_idle :: "string \<Rightarrow> unit go" where
  "lock_idle i = await (\<lambda>w s.
     if i \<in> sv_idle_locks s then None else Some (s\<lparr>sv_idle_locks := insert i (sv_idle_locks s)\<rparr>, ()))"

definition unlock_idle :: "string \<Rightarrow> unit go" where
  "unlock_idle i = modify (\<lambda>s. s\<lparr>sv_idle_locks := sv_idle_locks s - {i}\<rparr>)"

text \<open>\<open>None\<close>: the gate is held until \<open>release_gate\<close>.\<close>

definition acquire_operation :: "ctx \<Rightarrow> string \<Rightarrow> life_error option go" where
  "acquire_operation c i = await (\<lambda>w s.
     if wo_pick w = 0 \<and> i \<notin> sv_gates s then Some (s\<lparr>sv_gates := insert i (sv_gates s)\<rparr>, None)
     else if wo_pick w = 1 \<and> cancelled c w s then Some (s, Some ErrContext)
     else None)"

definition release_gate :: "string \<Rightarrow> unit go" where
  "release_gate i = modify (\<lambda>s. s\<lparr>sv_gates := sv_gates s - {i}\<rparr>)"

definition wait_startup_ready :: "ctx \<Rightarrow> life_error option go" where
  "wait_startup_ready c = bindp (get sv_startup) (\<lambda>g.
     if g = NoGate then Return None
     else select [ready (\<lambda>w s. sv_startup s \<noteq> Armed) None, ready (cancelled c) (Some ErrContext)])"

definition worker_done :: "nat \<Rightarrow> service \<Rightarrow> bool" where
  "worker_done n s \<longleftrightarrow> n \<in> sp_closed (sv_sup s)"

definition sup_wait_inactive :: "ctx \<Rightarrow> string \<Rightarrow> life_error option go" where
  "sup_wait_inactive c i = bindp (get (\<lambda>s. worker_of (sv_sup s) i)) (\<lambda>r. case r of
       None \<Rightarrow> Return None
     | Some wk \<Rightarrow>
         if rt_state (wk_runtime wk) = Unloaded \<or> rt_state (wk_runtime wk) = Failed then Return None
         else select [ready (cancelled c) (Some ErrContext), ready (\<lambda>w. worker_done (wk_serial wk)) None])"

definition blocked :: "'a go" where
  "blocked = await (\<lambda>w s. None)"

definition wait_drain_channel :: "ctx \<Rightarrow> string \<Rightarrow> nat \<Rightarrow> life_error option go" where
  "wait_drain_channel c i n =
     select [ready (cancelled c) (Some ErrContext), ready (\<lambda>w s. sv_drains s i \<noteq> Some n) None]"

primrec wait_drain_rounds :: "nat \<Rightarrow> ctx \<Rightarrow> string \<Rightarrow> life_error option go" where
  "wait_drain_rounds 0 c i = blocked"
| "wait_drain_rounds (Suc n) c i = bindp (get (\<lambda>s. sv_drains s i)) (\<lambda>ch. case ch of
       Some k \<Rightarrow> check_err (wait_drain_channel c i k) (wait_drain_rounds n c i)
     | None \<Rightarrow> bindp (get (\<lambda>s. rt_state (status (sv_sup s) i))) (\<lambda>st.
         if shutting_down st then sup_wait_inactive c i else Return None))"

definition wait_drain :: "ctx \<Rightarrow> string \<Rightarrow> life_error option go" where
  "wait_drain c i = bindp (readp (\<lambda>w s. wo_rounds w)) (\<lambda>n. wait_drain_rounds n c i)"

text \<open>\<open>admitReady\<close> sets the time of last use, as \<open>touch\<close> does.\<close>

primrec admit_rounds :: "nat \<Rightarrow> ctx \<Rightarrow> string \<Rightarrow> life_error option go" where
  "admit_rounds 0 c i = blocked"
| "admit_rounds (Suc n) c i =
     check_err (ctx_err c) (bindp (lock_idle i) (\<lambda>_. bindp (get (\<lambda>s. sv_drains s i)) (\<lambda>ch. case ch of
       Some k \<Rightarrow> bindp (unlock_idle i) (\<lambda>_. check_err (wait_drain_channel c i k) (admit_rounds n c i))
     | None \<Rightarrow> bindp (get (\<lambda>s. rt_state (status (sv_sup s) i))) (\<lambda>st.
         if shutting_down st
         then bindp (unlock_idle i) (\<lambda>_. check_err (sup_wait_inactive c i) (admit_rounds n c i))
         else bindp (update (\<lambda>w. touch (wo_now w) i)) (\<lambda>_. bindp (unlock_idle i) (\<lambda>_. Return None))))))"

definition admit_request :: "ctx \<Rightarrow> string \<Rightarrow> life_error option go" where
  "admit_request c i = bindp (readp (\<lambda>w s. wo_rounds w)) (\<lambda>n. admit_rounds n c i)"

section \<open>Startup generations\<close>

definition begin_startup :: "string \<Rightarrow> 64 word go" where
  "begin_startup i = bindp (section_of (begin_startup_section i)) (\<lambda>(prev, g).
     bindp (modify (call_cancel i prev)) (\<lambda>_. Return g))"

definition cancel_startup :: "string \<Rightarrow> unit go" where
  "cancel_startup i = bindp (section_of (cancel_startup_section i)) (\<lambda>prev. modify (call_cancel i prev))"

definition finish_startup :: "string \<Rightarrow> 64 word \<Rightarrow> unit go" where
  "finish_startup i g = bindp (section_of (finish_startup_section i g)) (\<lambda>prev. modify (call_cancel i prev))"

definition startup_live :: "string \<Rightarrow> 64 word \<Rightarrow> bool go" where
  "startup_live i g = get (\<lambda>s. sv_gen s i = g)"

definition generation_live :: "ctx \<Rightarrow> string \<Rightarrow> bool go" where
  "generation_live c i =
     (case c of Startup j g \<Rightarrow> if g = 0 then Return True else startup_live i g | _ \<Rightarrow> Return True)"

section \<open>Waiting methods of the supervisor\<close>

definition sup_endpoint :: "string \<Rightarrow> string option go" where
  "sup_endpoint i = readp (\<lambda>w s. endpoint (sc_host (wo_supervisor w)) (sv_sup s) i)"

text \<open>A failing signal to the process is the error of \<open>Kill\<close>; \<open>Stop\<close> ignores those.\<close>

definition sup_kill :: "string \<Rightarrow> life_error option go" where
  "sup_kill i = act (\<lambda>w s. (s\<lparr>sv_sup := kill_mark i (sv_sup s)\<rparr>,
     case worker_of (sv_sup s) i of
       None \<Rightarrow> None
     | Some wk \<Rightarrow> if wk_process wk \<and> \<not> wo_signal w then Some ErrKill else None))"

definition sup_stop :: "ctx \<Rightarrow> string \<Rightarrow> life_error option go" where
  "sup_stop c i = bindp (on_sup (stop_begin i)) (\<lambda>r. case r of
       None \<Rightarrow> Return None
     | Some n \<Rightarrow>
         bindp (select [ready (\<lambda>w. worker_done n) (Inr ()), ready (cancelled c) (Inl (Some ErrContext)),
                        ready (\<lambda>w s. wo_elapsed w) (Inl None)]) (\<lambda>r. case r of
           Inr _ \<Rightarrow> Return None
         | Inl (Some e) \<Rightarrow> Return (Some e)
         | Inl None \<Rightarrow> select [ready (\<lambda>w. worker_done n) None]))"

definition wait_ready :: "ctx \<Rightarrow> nat \<Rightarrow> start_error option go" where
  "wait_ready c n =
     select [ready (\<lambda>w s. wo_healthy w) None,
             ready (\<lambda>w s. cancelled c w s \<or> n \<in> sp_cancelled (sv_sup s)) (Some Killed),
             ready (\<lambda>w s. wo_elapsed w) (Some ReadinessTimeout),
             ready (\<lambda>w s. worker_done n s \<and> n \<in> sp_killed (sv_sup s)) (Some Killed),
             ready (\<lambda>w s. worker_done n s \<and> n \<notin> sp_killed (sv_sup s)) (Some ExitedDuringStartup)]"

definition with_validator :: "world \<Rightarrow> supervisor_config" where
  "with_validator w =
     (wo_supervisor w)\<lparr>sc_validator := Some (validate_manual (runtime_devices_from_getter (wo_profile w)))\<rparr>"

definition sup_start :: "ctx \<Rightarrow> string \<Rightarrow> string \<Rightarrow> string list \<Rightarrow> string list \<Rightarrow> (start_error + runtime) go" where
  "sup_start c i model args env =
     bindp (act (\<lambda>w s. case start_begin (with_validator w) (wo_spawn w) i model args env (sv_sup s) of
       (sp, r) \<Rightarrow> (s\<lparr>sv_sup := sp\<rparr>, r))) (\<lambda>r. case r of
       Inl e \<Rightarrow> Return (Inl e)
     | Inr (rt, None) \<Rightarrow> Return (Inr rt)
     | Inr (rt, Some n) \<Rightarrow>
         bindp (modify (spawn (WaitWorker i n))) (\<lambda>_.
         bindp (readp (\<lambda>w s. wo_persist w)) (\<lambda>ok.
         if \<not> ok then
           bindp (sup_kill i) (\<lambda>_.
           bindp (select [ready (\<lambda>w. worker_done n) (), ready (\<lambda>w s. wo_elapsed w) ()]) (\<lambda>_.
           bindp (on_sup (\<lambda>sp. (set_state i Failed sp, ()))) (\<lambda>_. Return (Inl PersistFailed))))
         else bindp (wait_ready c n) (\<lambda>e. case e of
           Some e \<Rightarrow>
             bindp (if e = Killed then sup_kill i else sup_stop Background i) (\<lambda>_.
             bindp (on_sup (\<lambda>sp. (set_state i Failed sp, ()))) (\<lambda>_. Return (Inl e)))
         | None \<Rightarrow> bindp (on_sup (start_finish i n)) (\<lambda>r.
             if r = Inl Killed then bindp (sup_kill i) (\<lambda>_. Return r) else Return r)))))"

end
