(* ===== verification/Launch.thy ===== *)
theory Launch
  imports Lifecycle
begin

text \<open>
  Starting one Instance: draining and stopping workers, the eviction of one victim, the candidates,
  the loop of \<open>prepareRuntimeLaunch\<close>, and \<open>startOneWithEviction\<close> with its deferred clean-up.
\<close>

section \<open>Draining and stopping\<close>

definition claim_drain_locked :: "string \<Rightarrow> unit go" where
  "claim_drain_locked i = bindp (get (\<lambda>s. sv_drains s i)) (\<lambda>ch.
     if ch \<noteq> None then Return ()
     else bindp (on_sup (begin_drain i)) (\<lambda>_.
       bindp (get (\<lambda>s. rt_state (status (sv_sup s) i))) (\<lambda>st.
       if shutting_down st then modify (register_drain_wait i) else Return ())))"

definition claim_drain :: "string \<Rightarrow> unit go" where
  "claim_drain i = bindp (lock_idle i) (\<lambda>_. bindp (claim_drain_locked i) (\<lambda>_. unlock_idle i))"

definition abort_drain_claim :: "string \<Rightarrow> unit go" where
  "abort_drain_claim i = bindp (on_sup (abort_drain i)) (\<lambda>_. modify (finish_drain_wait i))"

definition release_reservation :: "string \<Rightarrow> unit go" where
  "release_reservation i = bindp (on_ledger (\<lambda>w. get_by_instance (wo_now w) i)) (\<lambda>_.
     on_ledger (\<lambda>w l. (release_instance i l, ())))"

definition stop_worker :: "ctx \<Rightarrow> string \<Rightarrow> life_error option go" where
  "stop_worker c i = bindp (acquire_operation c i) (\<lambda>e. case e of
       Some e \<Rightarrow> bindp (abort_drain_claim i) (\<lambda>_. Return (Some e))
     | None \<Rightarrow>
         bindp (cancel_startup i) (\<lambda>_.
         bindp (sup_stop c i) (\<lambda>e. case e of
           Some e \<Rightarrow> bindp (abort_drain_claim i) (\<lambda>_. bindp (release_gate i) (\<lambda>_. Return (Some e)))
         | None \<Rightarrow>
             bindp (release_reservation i) (\<lambda>_.
             bindp (modify (finish_drain_wait i)) (\<lambda>_.
             bindp (release_gate i) (\<lambda>_. Return None))))))"

section \<open>Eviction\<close>

definition instance_activity :: "string \<Rightarrow> activity go" where
  "instance_activity i = readp (\<lambda>w s.
     activity_of s (case wo_model_rows w i of None \<Rightarrow> [] | Some rows \<Rightarrow> map in_id rows) i)"

definition claim_eviction :: "string \<Rightarrow> life_error option go" where
  "claim_eviction i = bindp (readp (\<lambda>w s. wo_instance w i)) (\<lambda>r. case r of
       None \<Rightarrow> Return (Some ErrStore)
     | Some row \<Rightarrow>
         bindp (lock_idle i) (\<lambda>_.
         bindp (instance_activity i) (\<lambda>a.
         bindp (get (\<lambda>s. rt_state (status (sv_sup s) i))) (\<lambda>st.
         if \<not> in_eviction row \<or> 0 < activity_demand a \<or> st \<noteq> Ready
         then bindp (unlock_idle i) (\<lambda>_. Return (Some ErrIneligible))
         else bindp (on_sup (begin_drain i)) (\<lambda>ok.
           if \<not> ok then bindp (unlock_idle i) (\<lambda>_. Return (Some ErrIneligible))
           else bindp (modify (register_drain_wait i)) (\<lambda>_.
             bindp (unlock_idle i) (\<lambda>_. Return None)))))))"

definition evict_instance :: "ctx \<Rightarrow> string \<Rightarrow> life_error option go" where
  "evict_instance c i = check_err (claim_eviction i) (
     bindp (readp (\<lambda>w s. wo_instance w i)) (\<lambda>r. case r of
       None \<Rightarrow> bindp (abort_drain_claim i) (\<lambda>_. Return (Some ErrStore))
     | Some row \<Rightarrow>
         bindp (if in_always_on row then modify (mark_resource_block i) else Return ()) (\<lambda>_.
         bindp (stop_worker c i) (\<lambda>e. case e of
           Some e \<Rightarrow> bindp (if in_always_on row then modify (clear_resource_block i) else Return ()) (\<lambda>_.
             Return (Some e))
         | None \<Rightarrow> bindp (modify (record_event EvictionEvent i)) (\<lambda>_. Return None)))))"

section \<open>Candidates\<close>

text \<open>The size and the host memory of an Instance that is stopped; a failing path or option keeps the file size.\<close>

definition candidate_demand :: "world \<Rightarrow> instance_row \<Rightarrow> i64 \<Rightarrow> string option \<Rightarrow> i64 \<times> i64" where
  "candidate_demand w row total_bytes path =
     (case path of
        None \<Rightarrow> (total_bytes, 0)
      | Some p \<Rightarrow>
          (case effective_options (wo_config w) (in_model row) (in_id row) of
             None \<Rightarrow> (total_bytes, 0)
           | Some e \<Rightarrow>
               let d = estimate_demand (demand_input_for total_bytes (wo_inspect w p) (wo_stat w) (map_of (ef_values e)))
               in (vram_bytes d, rd_host_ram d)))"

definition candidate_for ::
    "instance_row \<Rightarrow> i64 \<times> i64 \<Rightarrow> activity \<Rightarrow> runtime \<Rightarrow> resource_lease option \<Rightarrow> snapshot \<Rightarrow> candidate" where
  "candidate_for row d a rt lease s =
     (let resources = attribute_resources \<lparr>at_estimated = fst d, at_host_ram = snd d, at_devices = in_gpu_devices row,
            at_tensor_split = in_tensor_split row, at_lease = (case lease of None \<Rightarrow> [] | Some l \<Rightarrow> ls_gpus l),
            at_pid = rt_pid rt, at_processes = processes s, at_gpus = gpus s\<rparr>;
          attributed = candidate_resource_bytes resources
      in \<lparr>cd_model = in_model row, cd_instance = in_id row, cd_priority = in_priority row,
          cd_always_on = in_always_on row, cd_eviction = in_eviction row, cd_active = int (activity_demand a),
          cd_last_used = ac_last_used a, cd_estimated = (if 0 < attributed then attributed else fst d),
          cd_resources = resources, cd_ready = (rt_state rt = Ready)\<rparr>)"

primrec candidates_loop ::
    "string \<Rightarrow> string set \<Rightarrow> snapshot \<Rightarrow> instance_row list \<Rightarrow> (life_error + candidate list) go" where
  "candidates_loop own skip s [] = Return (Inr [])"
| "candidates_loop own skip s (row # rows) =
     (if in_id row = own \<or> in_id row \<in> skip then candidates_loop own skip s rows
      else bindp (readp (\<lambda>w sv. map_option (\<lambda>(b, p). candidate_demand w row b p) (wo_model w (in_model row)))) (\<lambda>m.
        case m of
          None \<Rightarrow> Return (Inl ErrStore)
        | Some d \<Rightarrow>
            bindp (instance_activity (in_id row)) (\<lambda>a.
            bindp (get (\<lambda>sv. status (sv_sup sv) (in_id row))) (\<lambda>rt.
            bindp (on_ledger (\<lambda>w. get_by_instance (wo_now w) (in_id row))) (\<lambda>lease.
            bind_ok (candidates_loop own skip s rows) (\<lambda>cs.
              Return (Inr (candidate_for row d a rt lease s # cs))))))))"

definition eviction_candidates :: "string \<Rightarrow> string set \<Rightarrow> snapshot \<Rightarrow> (life_error + candidate list) go" where
  "eviction_candidates own skip s = bindp (readp (\<lambda>w sv. wo_instances w)) (\<lambda>rows. case rows of
       None \<Rightarrow> Return (Inl ErrStore)
     | Some rows \<Rightarrow> candidates_loop own skip s rows)"

section \<open>The launch loop\<close>

text \<open>The snapshot is filtered by the devices of the runtime; \<open>None\<close> is an error of the host.\<close>

definition hardware_snapshot :: "snapshot option go" where
  "hardware_snapshot = readp (\<lambda>w s.
     map_option (filter_devices (runtime_devices_from_getter (wo_profile w))) (wo_snapshot w))"

text \<open>A planner that does not return blocks the ledger's section.\<close>

definition ledger_acquire ::
    "string \<Rightarrow> snapshot \<Rightarrow> runtime_request \<Rightarrow> credit list \<Rightarrow> (life_error + resource_lease \<times> runtime_plan) go" where
  "ledger_acquire i s req credits = await (\<lambda>w sv.
     case acquire_runtime (sv_ledger sv) (wo_now w) (wo_later w) (wo_lease w)
            \<lparr>ra_instance = i, ra_snapshot = s, ra_plan = req, ra_credits = credits\<rparr> of
       None \<Rightarrow> None
     | Some (l, Inl e) \<Rightarrow> Some (sv\<lparr>sv_ledger := l\<rparr>, Inl (ErrLedger e))
     | Some (l, Inr r) \<Rightarrow> Some (sv\<lparr>sv_ledger := l\<rparr>, Inr r))"

definition planning_with :: "world \<Rightarrow> service \<Rightarrow> string \<Rightarrow> snapshot \<Rightarrow> credit list \<Rightarrow> candidate list \<Rightarrow> snapshot" where
  "planning_with w sv i s base selected =
     snd (planning_snapshot_with_credits (wo_now w) s \<lparr>ow_kind = owner_instance, ow_id = i\<rparr>
            (base @ credits_from_candidates selected) (sv_ledger sv))"

text \<open>
  The eviction plan. The code takes the ledger's mutex once for each selection it tries; here one
  action plans on one state of the ledger, which the calls sweep.
\<close>

definition plan_eviction :: "string \<Rightarrow> snapshot \<Rightarrow> runtime_request \<Rightarrow> credit list \<Rightarrow> candidate list \<Rightarrow> plan go" where
  "plan_eviction i s req base cs = await (\<lambda>w sv.
     map_option (\<lambda>p. (sv\<lparr>sv_ledger := sweep_expired (wo_now w) (sv_ledger sv)\<rparr>, p))
       (plan_runtime_evictions_with_snapshots cs req (Some (planning_with w sv i s base))))"

definition first_victim :: "string \<Rightarrow> candidate list \<Rightarrow> candidate option" where
  "first_victim i cs = find (\<lambda>c. cd_instance c \<noteq> [] \<and> cd_instance c \<noteq> i) cs"

text \<open>
  One round of the loop of \<open>prepareRuntimeLaunch\<close>; \<open>retry\<close> is the next round, if there is one, on the
  Instances to skip and the snapshot. \<open>stopped\<close> is empty whenever a round begins.
\<close>

definition launch_round ::
    "ctx \<Rightarrow> string \<Rightarrow> runtime_request \<Rightarrow> bool \<Rightarrow> (string set \<Rightarrow> snapshot \<Rightarrow> (life_error + runtime_plan) go) option \<Rightarrow>
     string set \<Rightarrow> snapshot \<Rightarrow> (life_error + runtime_plan) go" where
  "launch_round c i req allow retry skip s =
     bind_ok (ledger_acquire i s req (credits_from_candidates [])) (\<lambda>(lease, plan).
     if rp_fits plan then Return (Inr plan)
     else if \<not> allow then Return (Inl ErrPressure)
     else case retry of
       None \<Rightarrow> Return (Inl ErrPressure)
     | Some next_round \<Rightarrow>
         bindp (on_ledger (\<lambda>w. planning_snapshot_with_credits (wo_now w) s \<lparr>ow_kind = owner_instance, ow_id = i\<rparr> [])) (\<lambda>planning.
         bind_ok (eviction_candidates i skip planning) (\<lambda>cs.
         bindp (plan_eviction i s req [] cs) (\<lambda>eviction.
         if \<not> ep_fits eviction then Return (Inl ErrPressure)
         else bind_ok (ledger_acquire i s req (credits_from_candidates (ep_evict eviction))) (\<lambda>(claimed, claimed_plan).
           if \<not> rp_fits claimed_plan then Return (Inl ErrPressure)
           else case first_victim i (ep_evict eviction) of
             None \<Rightarrow> Return (Inr claimed_plan)
           | Some victim \<Rightarrow>
               bindp (get (\<lambda>sv. rt_pid (status (sv_sup sv) (cd_instance victim)))) (\<lambda>pid.
               if \<not> victim_placement_current victim s pid
               then bindp (release_reservation i) (\<lambda>_. next_round (insert (cd_instance victim) skip) s)
               else bindp (evict_instance c (cd_instance victim)) (\<lambda>e. case e of
                   Some e \<Rightarrow> bindp (release_reservation i) (\<lambda>_.
                     if e = ErrIneligible then next_round (insert (cd_instance victim) skip) s
                     else Return (Inl (ErrEvict e)))
                 | None \<Rightarrow> bindp hardware_snapshot (\<lambda>again. case again of
                     None \<Rightarrow> bindp (release_reservation i) (\<lambda>_. Return (Inl ErrSnapshot))
                   | Some s' \<Rightarrow> next_round skip s'))))))))"

definition max_eviction_plan_attempts :: nat where
  "max_eviction_plan_attempts = 8"

primrec launch_rounds ::
    "nat \<Rightarrow> ctx \<Rightarrow> string \<Rightarrow> runtime_request \<Rightarrow> bool \<Rightarrow> string set \<Rightarrow> snapshot \<Rightarrow> (life_error + runtime_plan) go" where
  "launch_rounds 0 c i req allow = launch_round c i req allow None"
| "launch_rounds (Suc n) c i req allow = launch_round c i req allow (Some (launch_rounds n c i req allow))"

definition demand_input_now :: "world \<Rightarrow> i64 \<Rightarrow> string \<Rightarrow> options \<Rightarrow> demand_input" where
  "demand_input_now w total_bytes path opts = demand_input_for total_bytes (wo_inspect w path) (wo_stat w) opts"

definition launch_request :: "instance_row \<Rightarrow> profile \<Rightarrow> demand_input \<Rightarrow> snapshot \<Rightarrow> runtime_request" where
  "launch_request row p d s = \<lparr>rr_snapshot = s, rr_idle = Some (assume_idle_snapshot s), rr_demand = d,
     rr_placement = \<lparr>pr_required = 0, pr_host_ram = 0, pr_mode = in_gpu_mode row, pr_devices = in_gpu_devices row,
       pr_tensor_split = in_tensor_split row, pr_reserve = 0, pr_splittable = 0, pr_fixed = 0\<rparr>,
     rr_allow_spill = in_spillover row, rr_caps = runtime_capabilities_of p\<rparr>"

definition unmanaged_plan :: "demand_input \<Rightarrow> options \<Rightarrow> runtime_plan" where
  "unmanaged_plan d opts = \<lparr>rp_fits = True, rp_mode = ''unmanaged'', rp_demand = estimate_demand d,
     rp_placement = no_placement, rp_options = opts, rp_spill = False\<rparr>"

text \<open>A failing hardware reading keeps the launch, without a lease.\<close>

definition prepare_runtime_launch ::
    "ctx \<Rightarrow> instance_row \<Rightarrow> i64 \<Rightarrow> string \<Rightarrow> options \<Rightarrow> profile \<Rightarrow> bool \<Rightarrow> (life_error + runtime_plan) go" where
  "prepare_runtime_launch c row total_bytes path opts p allow =
     (case (if equal_fold (trim_space (in_gpu_mode row)) ''manual''
            then validate_manual (runtime_devices_from_profile p) (in_gpu_devices row) else None) of
        Some e \<Rightarrow> Return (Inl (ErrDevices e))
      | None \<Rightarrow>
          bindp (readp (\<lambda>w s. demand_input_now w total_bytes path opts)) (\<lambda>d.
          bindp hardware_snapshot (\<lambda>r. case r of
            None \<Rightarrow> Return (Inr (unmanaged_plan d opts))
          | Some s \<Rightarrow> launch_rounds max_eviction_plan_attempts c (in_id row) (launch_request row p d s) allow {} s)))"

section \<open>One start\<close>

definition zero_profile :: profile where
  "zero_profile = \<lparr>pf_path = [], pf_version = [], pf_options = [], pf_devices = [], pf_discovered = False,
     pf_discovery_error = []\<rparr>"

text \<open>The options and the profile of a launch; no profile leaves the effective options as they are.\<close>

definition launch_configuration :: "world \<Rightarrow> instance_row \<Rightarrow> life_error + option_list \<times> profile" where
  "launch_configuration w row =
     (case effective_options (wo_config w) (in_model row) (in_id row) of
        None \<Rightarrow> Inl ErrStore
      | Some e \<Rightarrow>
          (case wo_profile w of
             Some (Inr p) \<Rightarrow>
               (case launch_options (wo_config w) p (in_model row) (in_id row) of
                  None \<Rightarrow> Inl ErrStore
                | Some (Inl x) \<Rightarrow> Inl (ErrOptions x)
                | Some (Inr xs) \<Rightarrow> Inr (xs, p))
           | _ \<Rightarrow> Inr (ef_values e, zero_profile)))"

text \<open>
  The entries of the map the planner returns: its keys are those of the launch options and the ones
  the planner and \<open>applyCPUMoeLoadMode\<close> may add.
\<close>

definition planner_keys :: "runtime_capabilities \<Rightarrow> string list" where
  "planner_keys caps = [''n-cpu-moe'', ''cpu-moe'', ''no-kv-offload'', ''load-mode'', ''no-mmap'', gpu_layer_option_key caps]"

definition entries_of :: "string list \<Rightarrow> options \<Rightarrow> option_list" where
  "entries_of keys opts = map (\<lambda>k. (k, the (opts k))) (filter (\<lambda>k. opts k \<noteq> None) (remdups keys))"

text \<open>The directory of the slots; only the command line uses its path, so an error is all that matters here.\<close>

definition slot_save_path :: "world \<Rightarrow> life_error option" where
  "slot_save_path w =
     (case (if trim_space (wo_data_dir w) = [] then None else wo_profile w) of
        Some (Inr p) \<Rightarrow>
          if list_all (\<lambda>x. lo_key x \<noteq> ''slot-save-path'') (pf_options p) then None
          else if wo_mkdir w then None else Some ErrSlotDir
      | _ \<Rightarrow> None)"

definition commit_reservation :: "string \<Rightarrow> life_error option go" where
  "commit_reservation i = bindp (on_ledger (\<lambda>w. commit_instance i)) (\<lambda>e. case e of
       Some e \<Rightarrow> Return (Some (ErrLedger e))
     | None \<Rightarrow> bindp (on_ledger (\<lambda>w. get_by_instance (wo_now w) i)) (\<lambda>_. Return None))"

definition handle_worker_exit :: "worker_exit \<Rightarrow> unit go" where
  "handle_worker_exit x = bindp (section_of (untrack_worker x)) (\<lambda>r. case r of
       None \<Rightarrow> Return ()
     | Some lease \<Rightarrow> bindp (on_ledger (\<lambda>w. get_lease (wo_now w) lease)) (\<lambda>_.
         on_ledger (\<lambda>w l. (release_locked lease l, ()))))"

text \<open>From a started worker to the committed lease.\<close>

definition finish_launch :: "ctx \<Rightarrow> string \<Rightarrow> runtime \<Rightarrow> (life_error + string) go" where
  "finish_launch c i rt = bindp (ctx_err c) (\<lambda>e. bindp (generation_live c i) (\<lambda>live.
     if e \<noteq> None \<or> \<not> live then bindp (sup_kill i) (\<lambda>_. Return (Inl ErrStartupKilled))
     else bindp (sup_endpoint i) (\<lambda>r. case r of
       None \<Rightarrow> Return (Inl ErrNotReady)
     | Some url \<Rightarrow> check (commit_reservation i) (
         bindp (on_ledger (\<lambda>w. get_by_instance (wo_now w) i)) (\<lambda>lease. case lease of
           None \<Rightarrow> bindp (update (\<lambda>w. touch (wo_now w) i)) (\<lambda>_. Return (Inr url))
         | Some lease \<Rightarrow>
             bindp (modify (track_committed_worker i (rt_pid rt) (ls_id lease))) (\<lambda>_.
             bindp (get (\<lambda>s. status (sv_sup s) i)) (\<lambda>current.
             bindp (if rt_state current \<noteq> Ready \<or> rt_pid current \<noteq> rt_pid rt
                    then handle_worker_exit \<lparr>we_instance = i, we_pid = rt_pid rt\<rparr> else Return ()) (\<lambda>_.
             bindp (update (\<lambda>w. touch (wo_now w) i)) (\<lambda>_. Return (Inr url))))))))))"

definition start_body :: "ctx \<Rightarrow> instance_row \<Rightarrow> bool \<Rightarrow> (life_error + string) go" where
  "start_body c row allow = check (ctx_err c) (check (wait_startup_ready c) (
     bindp (get (\<lambda>s. orphan_block_reason s (in_id row))) (\<lambda>reason.
     if reason \<noteq> [] then Return (Inl (ErrOrphan reason))
     else bindp (readp (\<lambda>w s. wo_model w (in_model row))) (\<lambda>m. case m of
       None \<Rightarrow> Return (Inl ErrStore)
     | Some (_, None) \<Rightarrow> Return (Inl ErrStore)
     | Some (total_bytes, Some path) \<Rightarrow>
         bind_ok (readp (\<lambda>w s. launch_configuration w row)) (\<lambda>(opts, p).
         bind_ok (prepare_runtime_launch c row total_bytes path (map_of opts) p allow) (\<lambda>plan.
         check (ctx_err c) (
         let final = apply_cpu_moe_load_mode (rp_options plan) p;
             entries = entries_of (map fst opts @ planner_keys (runtime_capabilities_of p)) final;
             (args, env) = launch_args entries plan (in_gpu_mode row) (in_gpu_devices row) (in_tensor_split row)
         in check (readp (\<lambda>w s. slot_save_path w)) (
            bindp (sup_start c (in_id row) (in_model row) args env) (\<lambda>r. case r of
              Inl Killed \<Rightarrow> Return (Inl ErrStartupKilled)
            | Inl e \<Rightarrow> Return (Inl (ErrStart e))
            | Inr rt \<Rightarrow> finish_launch c (in_id row) rt)))))))))"

fun is_pressure :: "life_error \<Rightarrow> bool" where
  "is_pressure ErrPressure = True"
| "is_pressure (ErrEvict e) = is_pressure e"
| "is_pressure _ = False"

text \<open>The deferred function: a start that committed nothing gives up the lease of its Instance.\<close>

definition start_cleanup :: "string \<Rightarrow> life_error + string \<Rightarrow> unit go" where
  "start_cleanup i r = (case r of
       Inr _ \<Rightarrow> bindp (modify (reset_start_failures i)) (\<lambda>_. modify (record_event Load i))
     | Inl e \<Rightarrow> bindp (release_reservation i) (\<lambda>_.
         if is_pressure e \<or> is_startup_interrupt e then Return ()
         else bindp (update (\<lambda>w. record_start_failure (wo_now w) i)) (\<lambda>_. modify (record_event FailedStart i))))"

definition start_one :: "ctx \<Rightarrow> instance_row \<Rightarrow> bool \<Rightarrow> (life_error + string) go" where
  "start_one c row allow = bindp (start_body c row allow) (\<lambda>r. bindp (start_cleanup (in_id row) r) (\<lambda>_. Return r))"

end
