(* ===== verification/Requests.thy ===== *)
theory Requests
  imports Launch
begin

text \<open>
  The operations the rest of the program calls: requests (\<open>Acquire\<close>, \<open>EnsureReady\<close>), the management
  operations (start, stop, restart, kill), the reconcilers, and the goroutines they start.
\<close>

section \<open>Single flight\<close>

definition disabled_or :: "instance_row \<Rightarrow> (life_error + 'a) go \<Rightarrow> (life_error + 'a) go" where
  "disabled_or row k = (if in_enabled row then k else Return (Inl ErrDisabled))"

text \<open>The end of a start under a generation: a superseded one kills the worker of its Instance.\<close>

definition settle_startup :: "string \<Rightarrow> 64 word \<Rightarrow> life_error + string \<Rightarrow> (life_error + string) go" where
  "settle_startup i g r = bindp (startup_live i g) (\<lambda>live.
     if live then bindp (finish_startup i g) (\<lambda>_. Return r)
     else bindp (sup_endpoint i) (\<lambda>url.
       bindp (if url \<noteq> None then bindp (sup_kill i) (\<lambda>_. Return ()) else Return ()) (\<lambda>_. Return (Inl ErrStartupKilled))))"

text \<open>
  What \<open>runLoad\<close> does while it holds the gate: it gives the gate back before it starts the worker, and
  otherwise when it returns, after the call is complete.
\<close>

definition load_gated :: "string \<Rightarrow> nat \<Rightarrow> unit go" where
  "load_gated i n =
     (let done = (\<lambda>r. bindp (modify (complete_load i n r)) (\<lambda>_. release_gate i))
      in bindp (readp (\<lambda>w s. in_start_backoff (wo_now w) i s)) (\<lambda>backoff.
         if backoff then done (Inl ErrBackoff)
         else bindp (get (\<lambda>s. i \<in> sv_manual s)) (\<lambda>manual.
           if manual then done (Inl ErrManuallyStopped)
           else bindp (readp (\<lambda>w s. wo_instance w i)) (\<lambda>r. case r of
             None \<Rightarrow> done (Inl ErrStore)
           | Some row \<Rightarrow>
               if \<not> in_enabled row then done (Inl ErrDisabled)
               else bindp (sup_endpoint i) (\<lambda>url. case url of
                 Some url \<Rightarrow> done (Inr url)
               | None \<Rightarrow>
                   bindp (begin_startup i) (\<lambda>g.
                   bindp (release_gate i) (\<lambda>_.
                   bindp (start_one (Startup i g) row True) (\<lambda>r.
                   bindp (settle_startup i g r) (\<lambda>r. modify (complete_load i n r))))))))))"

definition run_load :: "string \<Rightarrow> nat \<Rightarrow> unit go" where
  "run_load i n =
     (let failed = (\<lambda>e. modify (complete_load i n (Inl e)))
      in bindp (wait_startup_ready Background) (\<lambda>e. case e of
           Some e \<Rightarrow> failed e
         | None \<Rightarrow> bindp (get (\<lambda>s. orphan_block_reason s i)) (\<lambda>reason.
             if reason \<noteq> [] then failed (ErrOrphan reason)
             else bindp (wait_drain Background i) (\<lambda>e. case e of
               Some e \<Rightarrow> failed e
             | None \<Rightarrow> bindp (acquire_operation Background i) (\<lambda>e. case e of
                 Some e \<Rightarrow> failed e
               | None \<Rightarrow> load_gated i n)))))"

definition start_single_flight :: "ctx \<Rightarrow> instance_row \<Rightarrow> bool \<Rightarrow> (life_error + string) go" where
  "start_single_flight c row autoload = check (ctx_err c) (
     bindp (section_of (join_load (in_id row) autoload)) (\<lambda>(n, created).
     bindp (if created \<and> autoload then modify (record_event Autoload (in_id row)) else Return ()) (\<lambda>_.
     bindp (if created then modify (spawn (RunLoad (in_id row) n)) else Return ()) (\<lambda>_.
     select [ready (cancelled c) (Inl ErrContext),
             (\<lambda>w s. case sv_calls s n of None \<Rightarrow> None | Some call \<Rightarrow> cl_result call)]))))"

section \<open>Requests\<close>

definition ensure_ready_instance :: "ctx \<Rightarrow> instance_row \<Rightarrow> bool \<Rightarrow> (life_error + string) go" where
  "ensure_ready_instance c row inference =
     (let i = in_id row
      in check (wait_startup_ready c) (
         bindp (get (\<lambda>s. orphan_block_reason s i)) (\<lambda>reason.
         if reason \<noteq> [] then Return (Inl (ErrOrphan reason))
         else disabled_or row (check (wait_drain c i) (
           bindp (sup_endpoint i) (\<lambda>url. case url of
             Some url \<Rightarrow> Return (Inr url)
           | None \<Rightarrow>
               if \<not> in_autoload row then Return (Inl ErrNoAutoload)
               else bindp (readp (\<lambda>w s. in_start_backoff (wo_now w) i s)) (\<lambda>backoff.
                 if backoff then Return (Inl ErrBackoff)
                 else bindp (get (\<lambda>s. i \<in> sv_manual s)) (\<lambda>manual.
                   bindp (if manual then modify (clear_manual_stop i) else Return ()) (\<lambda>_.
                   bindp (get (\<lambda>s. i \<in> sv_blocked s)) (\<lambda>resource.
                   bindp (if resource then modify (clear_resource_block i) else Return ()) (\<lambda>_.
                   start_single_flight c row inference)))))))))))"

definition reserve :: "instance_row \<Rightarrow> life_error option go" where
  "reserve row = bindp (readp (\<lambda>w s. manager_pending_limits (wo_limits w))) (\<lambda>limits.
     act (\<lambda>w s. reserve_pending (wo_now w) limits row s))"

text \<open>\<open>Acquire\<close>; the function it returns with the endpoint is \<open>finish_request\<close> of the second component.\<close>

definition acquire_endpoint :: "ctx \<Rightarrow> string \<Rightarrow> (life_error + string \<times> string) go" where
  "acquire_endpoint c i = bindp (readp (\<lambda>w s. wo_instance w i)) (\<lambda>r. case r of
       None \<Rightarrow> Return (Inl ErrStore)
     | Some row \<Rightarrow> check (reserve row) (
         bindp (admit_request c (in_id row)) (\<lambda>e. case e of
           Some e \<Rightarrow> bindp (update (\<lambda>w. release_pending (wo_now w) (in_id row))) (\<lambda>_. Return (Inl e))
         | None \<Rightarrow> bindp (ensure_ready_instance c row True) (\<lambda>r. case r of
             Inl e \<Rightarrow> bindp (update (\<lambda>w. release_pending (wo_now w) (in_id row))) (\<lambda>_. Return (Inl e))
           | Inr url \<Rightarrow> bindp (update (\<lambda>w. activate_request (wo_now w) (in_id row))) (\<lambda>_. Return (Inr (url, in_id row)))))))"

definition finish_request :: "string \<Rightarrow> unit go" where
  "finish_request i = update (\<lambda>w. finish_active (wo_now w) i)"

definition ensure_ready :: "ctx \<Rightarrow> string \<Rightarrow> (life_error + string) go" where
  "ensure_ready c i = bindp (readp (\<lambda>w s. wo_instance w i)) (\<lambda>r. case r of
       None \<Rightarrow> Return (Inl ErrStore) | Some row \<Rightarrow> ensure_ready_instance c row False)"

section \<open>Management\<close>

definition start_instance :: "ctx \<Rightarrow> string \<Rightarrow> bool \<Rightarrow> (life_error + string) go" where
  "start_instance c i explicit = check (wait_startup_ready c) (
     bindp (get (\<lambda>s. orphan_block_reason s i)) (\<lambda>reason.
     if reason \<noteq> [] then Return (Inl (ErrOrphan reason))
     else bindp (readp (\<lambda>w s. wo_instance w i)) (\<lambda>r. case r of
       None \<Rightarrow> Return (Inl ErrStore)
     | Some row \<Rightarrow> disabled_or row (check (
         if explicit then
           bindp (modify (clear_manual_stop i)) (\<lambda>_. bindp (modify (clear_resource_block i)) (\<lambda>_.
           bindp (modify (override_start_backoff i)) (\<lambda>_. Return None)))
         else bindp (get (\<lambda>s. i \<in> sv_manual s)) (\<lambda>manual.
           if manual then Return (Some ErrManuallyStopped)
           else bindp (readp (\<lambda>w s. in_start_backoff (wo_now w) i s)) (\<lambda>backoff.
             Return (if backoff then Some ErrBackoff else None)))) (
         check (wait_drain c i) (
         bindp (sup_endpoint i) (\<lambda>url. case url of
           Some url \<Rightarrow> Return (Inr url)
         | None \<Rightarrow> start_single_flight c row False)))))))"

definition stop_instance :: "ctx \<Rightarrow> string \<Rightarrow> life_error option go" where
  "stop_instance c i = bindp (readp (\<lambda>w s. wo_instance w i)) (\<lambda>r. case r of
       None \<Rightarrow> Return (Some ErrStore)
     | Some row \<Rightarrow>
         bindp (claim_drain i) (\<lambda>_.
         bindp (if in_always_on row
                then bindp (modify (clear_resource_block i)) (\<lambda>_. modify (mark_manual_stop i))
                else Return ()) (\<lambda>_.
         bindp (stop_worker c i) (\<lambda>e. case e of
           Some e \<Rightarrow> bindp (if in_always_on row then modify (clear_manual_stop i) else Return ()) (\<lambda>_. Return (Some e))
         | None \<Rightarrow> Return None))))"

text \<open>The operations by model act on its Instances in the order of the database.\<close>

definition start_model :: "ctx \<Rightarrow> string \<Rightarrow> (life_error + string) go" where
  "start_model c m = bindp (readp (\<lambda>w s. wo_model_rows w m)) (\<lambda>r. case r of
       None \<Rightarrow> Return (Inl ErrStore)
     | Some rows \<Rightarrow> (case find in_enabled rows of
         None \<Rightarrow> Return (Inl ErrNoInstance)
       | Some row \<Rightarrow> start_instance c (in_id row) True))"

primrec stop_all :: "ctx \<Rightarrow> instance_row list \<Rightarrow> life_error option go" where
  "stop_all c [] = Return None"
| "stop_all c (row # rows) = check_err (stop_instance c (in_id row)) (stop_all c rows)"

definition stop_model :: "ctx \<Rightarrow> string \<Rightarrow> life_error option go" where
  "stop_model c m = bindp (readp (\<lambda>w s. wo_model_rows w m)) (\<lambda>r. case r of
       None \<Rightarrow> Return (Some ErrStore) | Some rows \<Rightarrow> stop_all c rows)"

definition restart_instance :: "ctx \<Rightarrow> string \<Rightarrow> (life_error + string) go" where
  "restart_instance c i = bindp (readp (\<lambda>w s. wo_instance w i)) (\<lambda>r. case r of
       None \<Rightarrow> Return (Inl ErrStore)
     | Some row \<Rightarrow> disabled_or row (
         bindp (claim_drain i) (\<lambda>_.
         bindp (acquire_operation c i) (\<lambda>e. case e of
           Some e \<Rightarrow> bindp (abort_drain_claim i) (\<lambda>_. Return (Inl e))
         | None \<Rightarrow>
             bindp (cancel_startup i) (\<lambda>_.
             bindp (modify (clear_manual_stop i)) (\<lambda>_.
             bindp (modify (clear_resource_block i)) (\<lambda>_.
             bindp (modify (override_start_backoff i)) (\<lambda>_.
             bindp (sup_stop c i) (\<lambda>e. case e of
               Some e \<Rightarrow> bindp (abort_drain_claim i) (\<lambda>_. bindp (release_gate i) (\<lambda>_. Return (Inl e)))
             | None \<Rightarrow>
                 bindp (on_ledger (\<lambda>w l. (release_instance i l, ()))) (\<lambda>_.
                 bindp (modify (finish_drain_wait i)) (\<lambda>_.
                 bindp (begin_startup i) (\<lambda>g.
                 bindp (release_gate i) (\<lambda>_.
                 bindp (start_one (Startup i g) row True) (settle_startup i g))))))))))))))"

definition wait_load :: "ctx \<Rightarrow> string \<Rightarrow> life_error option go" where
  "wait_load c i = bindp (get (\<lambda>s. sv_loads s i)) (\<lambda>r. case r of
       None \<Rightarrow> Return None
     | Some n \<Rightarrow> select [ready (cancelled c) (Some ErrContext),
         ready (\<lambda>w s. case sv_calls s n of None \<Rightarrow> False | Some call \<Rightarrow> cl_result call \<noteq> None) None])"

definition kill_instance :: "ctx \<Rightarrow> string \<Rightarrow> life_error option go" where
  "kill_instance c i = bindp (readp (\<lambda>w s. wo_instance w i)) (\<lambda>r. case r of
       None \<Rightarrow> Return (Some ErrStore)
     | Some row \<Rightarrow>
         bindp (claim_drain i) (\<lambda>_.
         bindp (acquire_operation c i) (\<lambda>e. case e of
           Some e \<Rightarrow> bindp (abort_drain_claim i) (\<lambda>_. Return (Some e))
         | None \<Rightarrow>
             bindp (cancel_startup i) (\<lambda>_.
             bindp (modify (clear_resource_block i)) (\<lambda>_.
             bindp (modify (mark_manual_stop i)) (\<lambda>_.
             bindp (sup_kill i) (\<lambda>e. case e of
               Some e \<Rightarrow> bindp (release_gate i) (\<lambda>_. bindp (abort_drain_claim i) (\<lambda>_. Return (Some e)))
             | None \<Rightarrow>
                 bindp (release_gate i) (\<lambda>_.
                 bindp (wait_load c i) (\<lambda>_.
                 bindp (sup_wait_inactive c i) (\<lambda>_.
                 bindp (release_reservation i) (\<lambda>_.
                 bindp (modify (finish_drain_wait i)) (\<lambda>_. Return None))))))))))))"

section \<open>Reconcilers\<close>

primrec always_on_loop :: "instance_row list \<Rightarrow> unit go" where
  "always_on_loop [] = Return ()"
| "always_on_loop (row # rows) =
     (let i = in_id row
      in if \<not> in_enabled row \<or> \<not> in_always_on row then always_on_loop rows
         else bindp (get (\<lambda>s. i \<in> sv_manual s)) (\<lambda>manual.
           if manual then always_on_loop rows
           else bindp (readp (\<lambda>w s. in_start_backoff (wo_now w) i s)) (\<lambda>backoff.
             if backoff then always_on_loop rows
             else bindp (get (\<lambda>s. orphan_block_reason s i)) (\<lambda>reason.
               if reason \<noteq> [] then always_on_loop rows
               else bindp (sup_endpoint i) (\<lambda>url.
                 if url \<noteq> None then bindp (modify (clear_resource_block i)) (\<lambda>_. always_on_loop rows)
                 else bindp (get (\<lambda>s. i \<in> sv_blocked s)) (\<lambda>resource.
                   bindp (modify (spawn (if resource then Unblock i else StartInBackground i))) (\<lambda>_.
                   always_on_loop rows)))))))"

definition reconcile_always_on :: "ctx \<Rightarrow> unit go" where
  "reconcile_always_on c = bindp (wait_startup_ready c) (\<lambda>e.
     if e \<noteq> None then Return ()
     else bindp (readp (\<lambda>w s. wo_instances w)) (\<lambda>rows. case rows of
       None \<Rightarrow> Return () | Some rows \<Rightarrow> always_on_loop rows))"

definition reconcile_resource_blocked :: "string \<Rightarrow> unit go" where
  "reconcile_resource_blocked i =
     (let done = release_gate i; unblock = bindp (modify (clear_resource_block i)) (\<lambda>_. release_gate i)
      in bindp (acquire_operation Background i) (\<lambda>e.
         if e \<noteq> None then Return ()
         else bindp (get (\<lambda>s. i \<in> sv_blocked s)) (\<lambda>resource.
           if \<not> resource then done
           else bindp (get (\<lambda>s. i \<in> sv_manual s)) (\<lambda>manual.
             if manual then done
             else bindp (readp (\<lambda>w s. wo_instance w i)) (\<lambda>r. case r of
               None \<Rightarrow> unblock
             | Some row \<Rightarrow>
                 if \<not> in_enabled row \<or> \<not> in_always_on row then unblock
                 else bindp (sup_endpoint i) (\<lambda>url.
                   if url \<noteq> None then unblock
                   else bindp (begin_startup i) (\<lambda>g.
                     bindp (release_gate i) (\<lambda>_.
                     bindp (start_one (Startup i g) row False) (\<lambda>r.
                     bindp (startup_live i g) (\<lambda>live.
                     if \<not> live then Return ()
                     else bindp (finish_startup i g) (\<lambda>_. case r of
                       Inl e \<Rightarrow> if is_pressure e then Return () else modify (clear_resource_block i)
                     | Inr url \<Rightarrow> modify (clear_resource_block i))))))))))))"

text \<open>The idle time of an Instance in nanoseconds, its own setting first.\<close>

definition idle_timeout :: "go_time \<Rightarrow> instance_row \<Rightarrow> go_time" where
  "idle_timeout global row = (if 0 < in_idle_seconds row then wrap64 (in_idle_seconds row * second) else global)"

primrec idle_loop :: "ctx \<Rightarrow> go_time \<Rightarrow> go_time \<Rightarrow> instance_row list \<Rightarrow> unit go" where
  "idle_loop c global now [] = Return ()"
| "idle_loop c global now (row # rows) =
     (let i = in_id row; rest = idle_loop c global now rows
      in if \<not> in_enabled row \<or> in_always_on row \<or> idle_timeout global row \<le> 0 then rest
         else bindp (lock_idle i) (\<lambda>_.
           bindp (instance_activity i) (\<lambda>a.
           if 0 < activity_demand a \<or> ac_last_used a = 0 \<or> now - ac_last_used a < idle_timeout global row
           then bindp (unlock_idle i) (\<lambda>_. rest)
           else bindp (sup_endpoint i) (\<lambda>url.
             if url = None then bindp (unlock_idle i) (\<lambda>_. rest)
             else bindp (claim_drain_locked i) (\<lambda>_.
               bindp (unlock_idle i) (\<lambda>_.
               bindp (stop_instance c i) (\<lambda>e.
               bindp (if e = None then modify (record_event IdleUnload i) else Return ()) (\<lambda>_. rest))))))))"

definition reconcile_idle :: "ctx \<Rightarrow> go_time \<Rightarrow> unit go" where
  "reconcile_idle c global = bindp (readp (\<lambda>w s. wo_instances w)) (\<lambda>rows. case rows of
       None \<Rightarrow> Return ()
     | Some rows \<Rightarrow> bindp (readp (\<lambda>w s. wo_now w)) (\<lambda>now. idle_loop c global now rows))"

text \<open>The tickers around them. The period only matters to the clock.\<close>

primrec ticker_rounds :: "nat \<Rightarrow> ctx \<Rightarrow> unit go \<Rightarrow> unit go" where
  "ticker_rounds 0 c body = blocked"
| "ticker_rounds (Suc n) c body =
     bindp (select [ready (cancelled c) False, ready (\<lambda>w s. wo_elapsed w) True]) (\<lambda>tick.
       if tick then bindp body (\<lambda>_. ticker_rounds n c body) else Return ())"

definition ticker :: "ctx \<Rightarrow> unit go \<Rightarrow> unit go" where
  "ticker c body = bindp (readp (\<lambda>w s. wo_rounds w)) (\<lambda>n. ticker_rounds n c body)"

definition run_reconciler :: "ctx \<Rightarrow> go_time \<Rightarrow> unit go" where
  "run_reconciler c interval = bindp (wait_startup_ready c) (\<lambda>e.
     if e \<noteq> None then Return ()
     else bindp (reconcile_always_on c) (\<lambda>_.
       if interval \<le> 0 then select [ready (cancelled c) ()] else ticker c (reconcile_always_on c)))"

definition idle_interval :: "go_time \<Rightarrow> go_time" where
  "idle_interval global =
     (if global \<le> 0 then 15 * second
      else let half = go_div global 2; capped = (if 15 * second < half then 15 * second else half)
           in if capped < second then second else capped)"

definition run_idle_reconciler :: "ctx \<Rightarrow> go_time \<Rightarrow> unit go" where
  "run_idle_reconciler c global = ticker c (reconcile_idle c global)"

text \<open>The Instances whose stale worker could not be cleaned up, with the reason, are a part of the world.\<close>

definition reconcile_stale :: "unit go" where
  "reconcile_stale = bindp (update (\<lambda>w s. s\<lparr>sv_orphans := map_of (wo_stale w)\<rparr>)) (\<lambda>_. modify mark_startup_ready)"

text \<open>The goroutine that waits for the process of a worker.\<close>

definition wait_worker :: "string \<Rightarrow> nat \<Rightarrow> unit go" where
  "wait_worker i n = bindp (on_sup (worker_exits i n)) (\<lambda>x. case x of
       None \<Rightarrow> Return () | Some x \<Rightarrow> handle_worker_exit x)"

section \<open>The program\<close>

definition forget :: "'a go \<Rightarrow> unit go" where
  "forget p = bindp p (\<lambda>_. Return ())"

text \<open>A request in full: the client finishes it after it has got the endpoint.\<close>

definition serve_request :: "ctx \<Rightarrow> string \<Rightarrow> unit go" where
  "serve_request c i = bindp (acquire_endpoint c i) (\<lambda>r. case r of
       Inl e \<Rightarrow> Return () | Inr (url, j) \<Rightarrow> finish_request j)"

definition goroutine_program :: "goroutine \<Rightarrow> unit go" where
  "goroutine_program g = (case g of
       RunLoad i n \<Rightarrow> run_load i n
     | StartInBackground i \<Rightarrow> forget (start_instance Background i False)
     | Unblock i \<Rightarrow> reconcile_resource_blocked i
     | WaitWorker i n \<Rightarrow> wait_worker i n)"

text \<open>The programs that may begin in a state: any call from outside, and the goroutines the code has started.\<close>

inductive may_start :: "service \<Rightarrow> unit go \<Rightarrow> bool" where
  "may_start s (serve_request c i)"
| "may_start s (forget (ensure_ready c i))"
| "may_start s (forget (start_instance c i True))"
| "may_start s (forget (stop_instance c i))"
| "may_start s (forget (restart_instance c i))"
| "may_start s (forget (kill_instance c i))"
| "may_start s (forget (start_model c m))"
| "may_start s (forget (stop_model c m))"
| "may_start s (run_reconciler c interval)"
| "may_start s (run_idle_reconciler c global)"
| "may_start s (modify arm_startup_reconcile)"
| "may_start s reconcile_stale"
| "g \<in> set (sv_spawned s) \<Longrightarrow> may_start s (goroutine_program g)"

definition new_supervisor :: supervisor where
  "new_supervisor = \<lparr>sp_workers = [], sp_closed = {}, sp_killed = {}, sp_cancelled = {}, sp_next = 0\<rparr>"

text \<open>\<open>lifecycle.New\<close>.\<close>

definition new_service :: "i64 \<Rightarrow> service" where
  "new_service ttl = \<lparr>sv_sup = new_supervisor, sv_ledger = new_ledger ttl, sv_manual = {}, sv_blocked = {},
     sv_activities = [], sv_failures = Map.empty, sv_idle_locks = {}, sv_gates = {}, sv_drains = Map.empty,
     sv_gen = (\<lambda>i. 0), sv_cancel = Map.empty, sv_cancelled = {}, sv_tracked = Map.empty, sv_startup = NoGate,
     sv_orphans = Map.empty, sv_loads = Map.empty, sv_calls = Map.empty, sv_next = 0, sv_spawned = [], sv_events = []\<rparr>"

abbreviation reachable_in :: "(world \<Rightarrow> bool) \<Rightarrow> i64 \<Rightarrow> service \<Rightarrow> unit go list \<Rightarrow> bool" where
  "reachable_in W ttl \<equiv> pool_reachable W may_start (new_service ttl)"

end
