(* ===== verification/Service_Frame.thy ===== *)
theory Service_Frame
  imports Requests
begin

text \<open>
  What every operation of the service keeps. A property that looks at the supervisor and the request
  counters only is kept by all of them once it is kept by the methods of the supervisor and by \<open>touch\<close>
  (locale \<open>frame\<close>; \<open>silent\<close> holds the operations that report no event), and by requests once the counters of a request keep it (locale \<open>counted\<close>).
\<close>

section \<open>Steps of the supervisor\<close>

inductive sup_step :: "supervisor \<Rightarrow> supervisor \<Rightarrow> bool" where
  "sup_step sp (fst (begin_drain i sp))"
| "sup_step sp (fst (abort_drain i sp))"
| "sup_step sp (fst (stop_begin i sp))"
| "sup_step sp (kill_mark i sp)"
| "sup_step sp (fst (worker_exits i n sp))"
| "sup_step sp (set_state i Failed sp)"
| "sup_step sp (fst (start_begin cfg sw i model args env sp))"
| "sup_step sp (fst (start_finish i n sp))"

section \<open>Frames\<close>

locale silent =
  fixes W :: "world \<Rightarrow> bool" and I :: "service \<Rightarrow> bool"
  assumes sup_law: "I s \<Longrightarrow> sup_step (sv_sup s) sp \<Longrightarrow> I (s\<lparr>sv_sup := sp\<rparr>)"
    and other_law: "I s \<Longrightarrow> sv_sup t = sv_sup s \<Longrightarrow> sv_activities t = sv_activities s \<Longrightarrow>
      sv_events t = sv_events s \<Longrightarrow> I t"
    and touch_law: "I s \<Longrightarrow> I (touch now i s)"
begin

lemma other_update:
  "I s \<Longrightarrow> I (s\<lparr>sv_ledger := l\<rparr>)" "I s \<Longrightarrow> I (s\<lparr>sv_manual := m\<rparr>)" "I s \<Longrightarrow> I (s\<lparr>sv_blocked := m\<rparr>)"
  "I s \<Longrightarrow> I (s\<lparr>sv_failures := f\<rparr>)" "I s \<Longrightarrow> I (s\<lparr>sv_idle_locks := k\<rparr>)" "I s \<Longrightarrow> I (s\<lparr>sv_gates := k\<rparr>)"
  "I s \<Longrightarrow> I (s\<lparr>sv_cancelled := k2\<rparr>)" "I s \<Longrightarrow> I (s\<lparr>sv_tracked := tr\<rparr>)" "I s \<Longrightarrow> I (s\<lparr>sv_startup := g\<rparr>)"
  "I s \<Longrightarrow> I (s\<lparr>sv_orphans := q\<rparr>)" "I s \<Longrightarrow> I (s\<lparr>sv_spawned := sw\<rparr>)"
  by (erule other_law; simp)+

lemma keeps_section: "(\<And>s. I s \<Longrightarrow> I (fst (f s))) \<Longrightarrow> keeps W I (section_of f)"
  unfolding section_of_def by (rule keeps_act)

lemma keeps_modify: "(\<And>s. I s \<Longrightarrow> I (f s)) \<Longrightarrow> keeps W I (modify f)"
  unfolding modify_def by (rule keeps_update)

lemma keeps_get: "keeps W I (get f)"
  unfolding get_def by (rule keeps_readp)

lemma keeps_select: "keeps W I (select alts)"
  unfolding select_def by (rule keeps_await) (auto split: if_splits)

lemma keeps_ctx_err: "keeps W I (ctx_err c)"
  unfolding ctx_err_def by (rule keeps_readp)

lemma keeps_on_ledger: "keeps W I (on_ledger f)"
  unfolding on_ledger_def by (rule keeps_act) (auto split: prod.splits intro: other_update)

lemma keeps_on_sup: "(\<And>sp. sup_step sp (fst (f sp))) \<Longrightarrow> keeps W I (on_sup f)"
  unfolding on_sup_def by (rule keeps_section) (auto split: prod.splits intro!: sup_law, metis fst_conv)

lemma keeps_check: "keeps W I p \<Longrightarrow> keeps W I k \<Longrightarrow> keeps W I (check p k)"
  unfolding check_def by (auto intro!: keeps_bind keeps_Return split: option.splits)

lemma keeps_check_err: "keeps W I p \<Longrightarrow> keeps W I k \<Longrightarrow> keeps W I (check_err p k)"
  unfolding check_err_def by (auto intro!: keeps_bind keeps_Return split: option.splits)

lemma keeps_bind_ok: "keeps W I p \<Longrightarrow> (\<And>a. keeps W I (k a)) \<Longrightarrow> keeps W I (bind_ok p k)"
  unfolding bind_ok_def by (auto intro!: keeps_bind keeps_Return split: sum.splits)

lemmas flow = keeps_Return keeps_bind keeps_readp keeps_get keeps_select keeps_ctx_err keeps_on_ledger keeps_check
  keeps_check_err keeps_bind_ok

lemmas branches = option.splits sum.splits prod.splits if_splits

section \<open>Lifecycle\<close>

lemma keeps_lock: "keeps W I (lock_idle i)" "keeps W I (unlock_idle i)" "keeps W I (release_gate i)"
  unfolding lock_idle_def unlock_idle_def release_gate_def
  by (auto intro!: keeps_await keeps_modify intro: other_update split: if_splits)

lemma keeps_acquire_operation: "keeps W I (acquire_operation c i)"
  unfolding acquire_operation_def by (rule keeps_await) (auto intro: other_update split: if_splits)

lemma keeps_wait_startup_ready: "keeps W I (wait_startup_ready c)"
  unfolding wait_startup_ready_def by (auto intro!: flow)

lemma keeps_wait_inactive: "keeps W I (sup_wait_inactive c i)"
  unfolding sup_wait_inactive_def by (auto intro!: flow split: branches)

lemma keeps_blocked: "keeps W I blocked"
  unfolding blocked_def by (rule keeps_await) simp

lemma keeps_wait_drain_channel: "keeps W I (wait_drain_channel c i n)"
  unfolding wait_drain_channel_def by (rule keeps_select)

lemma keeps_wait_drain_rounds: "keeps W I (wait_drain_rounds n c i)"
  by (induction n) (auto intro!: flow keeps_blocked keeps_wait_drain_channel keeps_wait_inactive split: branches)

lemma keeps_wait_drain: "keeps W I (wait_drain c i)"
  unfolding wait_drain_def by (auto intro!: flow keeps_wait_drain_rounds)

lemma keeps_touch: "keeps W I (update (\<lambda>w. touch (wo_now w) i))"
  by (rule keeps_update) (rule touch_law)

lemma keeps_admit_rounds: "keeps W I (admit_rounds n c i)"
  by (induction n) (auto intro!: flow keeps_blocked keeps_wait_drain_channel keeps_wait_inactive keeps_lock keeps_touch
      split: branches)

lemma keeps_admit_request: "keeps W I (admit_request c i)"
  unfolding admit_request_def by (auto intro!: flow keeps_admit_rounds)

lemma keeps_other_section:
  "(\<And>s. sv_sup (fst (f s)) = sv_sup s) \<Longrightarrow> (\<And>s. sv_activities (fst (f s)) = sv_activities s) \<Longrightarrow>
    (\<And>s. sv_events (fst (f s)) = sv_events s) \<Longrightarrow> keeps W I (section_of f)"
  by (rule keeps_section) (erule other_law; simp)

lemma keeps_other:
  "(\<And>s. sv_sup (f s) = sv_sup s) \<Longrightarrow> (\<And>s. sv_activities (f s) = sv_activities s) \<Longrightarrow>
    (\<And>s. sv_events (f s) = sv_events s) \<Longrightarrow> keeps W I (modify f)"
  by (rule keeps_modify) (erule other_law; simp)

lemma keeps_call_cancel: "keeps W I (modify (call_cancel i g))"
  by (rule keeps_other) (auto simp: call_cancel_def split: option.splits)

lemma keeps_begin_startup: "keeps W I (begin_startup i)"
  unfolding begin_startup_def
  by (auto intro!: flow keeps_call_cancel keeps_other_section simp: begin_startup_section_def Let_def)

lemma keeps_cancel_startup: "keeps W I (cancel_startup i)"
  unfolding cancel_startup_def
  by (auto intro!: flow keeps_call_cancel keeps_other_section simp: cancel_startup_section_def)

lemma keeps_finish_startup: "keeps W I (finish_startup i g)"
  unfolding finish_startup_def
  by (auto intro!: flow keeps_call_cancel keeps_other_section simp: finish_startup_section_def)

lemma keeps_startup_live: "keeps W I (startup_live i g)" "keeps W I (generation_live c i)"
  unfolding startup_live_def generation_live_def by (auto intro!: flow split: ctx.splits)

lemma keeps_endpoint: "keeps W I (sup_endpoint i)"
  unfolding sup_endpoint_def by (rule keeps_readp)

lemma keeps_kill: "keeps W I (sup_kill i)"
  unfolding sup_kill_def by (rule keeps_act) (auto intro!: sup_law intro: sup_step.intros)

lemma keeps_sup_section:
  "keeps W I (on_sup (begin_drain i))" "keeps W I (on_sup (abort_drain i))" "keeps W I (on_sup (stop_begin i))"
  "keeps W I (on_sup (worker_exits i n))" "keeps W I (on_sup (start_finish i n))"
  "keeps W I (on_sup (\<lambda>sp. (set_state i Failed sp, ())))"
  by (rule keeps_on_sup; simp add: sup_step.intros)+

lemma keeps_stop: "keeps W I (sup_stop c i)"
  unfolding sup_stop_def by (auto intro!: flow keeps_sup_section split: branches)

lemma keeps_spawn: "keeps W I (modify (spawn g))"
  by (rule keeps_other) (auto simp: spawn_def)

lemma keeps_wait_ready: "keeps W I (wait_ready c n)"
  unfolding wait_ready_def by (rule keeps_select)

lemma keeps_start_first: "keeps W I (act (\<lambda>w s. case start_begin (with_validator w) (wo_spawn w) i model args env (sv_sup s) of
    (sp, r) \<Rightarrow> (s\<lparr>sv_sup := sp\<rparr>, r)))"
proof (rule keeps_act)
  fix w s
  assume "I s"
  obtain sp r where "start_begin (with_validator w) (wo_spawn w) i model args env (sv_sup s) = (sp, r)" by fastforce
  moreover from this have "sup_step (sv_sup s) sp" by (metis fst_conv sup_step.intros(7))
  ultimately show "I (fst (case start_begin (with_validator w) (wo_spawn w) i model args env (sv_sup s) of
      (sp, r) \<Rightarrow> (s\<lparr>sv_sup := sp\<rparr>, r)))" using sup_law [OF \<open>I s\<close>] by simp
qed

lemma keeps_sup_start: "keeps W I (sup_start c i model args env)"
  unfolding sup_start_def
  by (auto intro!: flow keeps_start_first keeps_spawn keeps_kill keeps_stop keeps_sup_section keeps_wait_ready split: branches)

section \<open>Launch\<close>

lemma keeps_marks:
  "keeps W I (modify (mark_manual_stop i))" "keeps W I (modify (clear_manual_stop i))"
  "keeps W I (modify (mark_resource_block i))" "keeps W I (modify (clear_resource_block i))"
  "keeps W I (modify (finish_drain_wait i))" "keeps W I (modify (register_drain_wait i))"
  "keeps W I (modify (reset_start_failures i))" "keeps W I (modify (override_start_backoff i))"
  "keeps W I (modify (track_committed_worker i pid lease))" "keeps W I (modify (complete_load i n r))"
  "keeps W I (modify arm_startup_reconcile)" "keeps W I (modify mark_startup_ready)"
  by (rule keeps_other; simp add: mark_manual_stop_def clear_manual_stop_def mark_resource_block_def
      clear_resource_block_def finish_drain_wait_def register_drain_wait_def reset_start_failures_def
      override_start_backoff_def track_committed_worker_def complete_load_def arm_startup_reconcile_def
      mark_startup_ready_def split: option.split)+

lemma keeps_record_failure: "keeps W I (update (\<lambda>w. record_start_failure (wo_now w) i))"
  by (rule keeps_update) (erule other_law; simp add: record_start_failure_def Let_def)

lemma keeps_claim_drain: "keeps W I (claim_drain_locked i)" "keeps W I (claim_drain i)"
  unfolding claim_drain_def claim_drain_locked_def
  by (auto intro!: flow keeps_lock keeps_sup_section keeps_marks)

lemma keeps_abort_drain_claim: "keeps W I (abort_drain_claim i)"
  unfolding abort_drain_claim_def by (auto intro!: flow keeps_sup_section keeps_marks)

lemma keeps_release_reservation: "keeps W I (release_reservation i)"
  unfolding release_reservation_def by (auto intro!: flow)

lemma keeps_stop_worker: "keeps W I (stop_worker c i)"
  unfolding stop_worker_def
  by (auto intro!: flow keeps_acquire_operation keeps_abort_drain_claim keeps_cancel_startup keeps_stop keeps_lock
      keeps_release_reservation keeps_marks split: branches)

lemma keeps_instance_activity: "keeps W I (instance_activity i)"
  unfolding instance_activity_def by (rule keeps_readp)

lemma keeps_claim_eviction: "keeps W I (claim_eviction i)"
  unfolding claim_eviction_def
  by (auto intro!: flow keeps_lock keeps_instance_activity keeps_sup_section keeps_marks split: branches)

lemma keeps_candidates: "keeps W I (candidates_loop own skip s rows)"
  by (induction rows) (auto intro!: flow keeps_instance_activity split: branches)

lemma keeps_eviction_candidates: "keeps W I (eviction_candidates own skip s)"
  unfolding eviction_candidates_def by (auto intro!: flow keeps_candidates split: branches)

lemma keeps_ledger_acquire: "keeps W I (ledger_acquire i s req credits)"
  unfolding ledger_acquire_def by (rule keeps_await) (auto intro: other_update split: option.splits sum.splits)

lemma keeps_plan_eviction: "keeps W I (plan_eviction i s req base cs)"
  unfolding plan_eviction_def by (rule keeps_await) (auto intro: other_update)

lemma keeps_hardware_snapshot: "keeps W I hardware_snapshot"
  unfolding hardware_snapshot_def by (rule keeps_readp)

lemma keeps_commit_reservation: "keeps W I (commit_reservation i)"
  unfolding commit_reservation_def by (auto intro!: flow split: branches)

lemma keeps_handle_worker_exit: "keeps W I (handle_worker_exit x)"
  unfolding handle_worker_exit_def
  by (auto intro!: flow keeps_other_section simp: untrack_worker_def split: branches)

lemma keeps_finish_launch: "keeps W I (finish_launch c i rt)"
  unfolding finish_launch_def
  by (auto intro!: flow keeps_startup_live keeps_kill keeps_endpoint keeps_commit_reservation keeps_touch keeps_marks
      keeps_handle_worker_exit split: branches)

end

section \<open>Starts\<close>

locale frame = silent +
  assumes event_law: "I s \<Longrightarrow> I (record_event e i s)"
begin

lemma keeps_event: "keeps W I (modify (record_event e i))"
  by (rule keeps_modify) (rule event_law)

lemma keeps_evict_instance: "keeps W I (evict_instance c i)"
  unfolding evict_instance_def
  by (auto intro!: flow keeps_claim_eviction keeps_abort_drain_claim keeps_stop_worker keeps_marks keeps_event split: branches)

lemma keeps_launch_round:
  "(\<And>f skip s. retry = Some f \<Longrightarrow> keeps W I (f skip s)) \<Longrightarrow> keeps W I (launch_round c i req allow retry skip s)"
  unfolding launch_round_def
  by (auto intro!: flow keeps_ledger_acquire keeps_eviction_candidates keeps_plan_eviction keeps_release_reservation
      keeps_evict_instance keeps_hardware_snapshot split: branches)

lemma keeps_launch_rounds: "keeps W I (launch_rounds n c i req allow skip s)"
proof (induction n arbitrary: skip s)
  case 0
  show ?case by (simp, rule keeps_launch_round) simp
next
  case (Suc n)
  then show ?case by (simp, intro keeps_launch_round) auto
qed

lemma keeps_prepare: "keeps W I (prepare_runtime_launch c row b path opts p allow)"
  unfolding prepare_runtime_launch_def
  by (auto intro!: flow keeps_hardware_snapshot keeps_launch_rounds split: branches)

lemma keeps_start_body: "keeps W I (start_body c row allow)"
  unfolding start_body_def Let_def
  by (auto intro!: flow keeps_wait_startup_ready keeps_prepare keeps_sup_start keeps_finish_launch
      split: branches start_error.splits)

lemma keeps_start_cleanup: "keeps W I (start_cleanup i r)"
  unfolding start_cleanup_def
  by (auto intro!: flow keeps_marks keeps_event keeps_release_reservation keeps_record_failure split: branches)

lemma keeps_start_one: "keeps W I (start_one c row allow)"
  unfolding start_one_def by (auto intro!: flow keeps_start_body keeps_start_cleanup)

section \<open>Requests and reconcilers\<close>

lemma keeps_disabled_or: "keeps W I k \<Longrightarrow> keeps W I (disabled_or row k)"
  unfolding disabled_or_def by (auto intro: keeps_Return)

lemma keeps_settle_startup: "keeps W I (settle_startup i g r)"
  unfolding settle_startup_def
  by (auto intro!: flow keeps_startup_live keeps_finish_startup keeps_endpoint keeps_kill)

lemma keeps_load_gated: "keeps W I (load_gated i n)"
  unfolding load_gated_def Let_def
  by (auto intro!: flow keeps_lock keeps_endpoint keeps_begin_startup keeps_start_one keeps_settle_startup keeps_marks
      split: branches)

lemma keeps_run_load: "keeps W I (run_load i n)"
  unfolding run_load_def Let_def
  by (auto intro!: flow keeps_wait_startup_ready keeps_wait_drain keeps_acquire_operation keeps_load_gated keeps_marks
      split: branches)

lemma keeps_start_single_flight: "keeps W I (start_single_flight c row autoload)"
  unfolding start_single_flight_def
  by (auto intro!: flow keeps_other_section keeps_event keeps_spawn simp: join_load_def Let_def split: branches)

lemma keeps_ensure_ready_instance: "keeps W I (ensure_ready_instance c row inference)"
  unfolding ensure_ready_instance_def Let_def
  by (auto intro!: flow keeps_wait_startup_ready keeps_disabled_or keeps_wait_drain keeps_endpoint keeps_marks
      keeps_start_single_flight split: branches)

lemma keeps_ensure_ready: "keeps W I (ensure_ready c i)"
  unfolding ensure_ready_def by (auto intro!: flow keeps_ensure_ready_instance split: branches)

lemma keeps_start_instance: "keeps W I (start_instance c i explicit)"
  unfolding start_instance_def
  by (auto intro!: flow keeps_wait_startup_ready keeps_disabled_or keeps_marks keeps_wait_drain keeps_endpoint
      keeps_start_single_flight split: branches)

lemma keeps_stop_instance: "keeps W I (stop_instance c i)"
  unfolding stop_instance_def
  by (auto intro!: flow keeps_claim_drain keeps_marks keeps_stop_worker split: branches)

lemma keeps_start_model: "keeps W I (start_model c m)"
  unfolding start_model_def by (auto intro!: flow keeps_start_instance split: branches)

lemma keeps_stop_model: "keeps W I (stop_model c m)"
proof -
  have "keeps W I (stop_all c rows)" for rows
    by (induction rows) (auto intro!: flow keeps_stop_instance split: branches)
  then show ?thesis unfolding stop_model_def by (auto intro!: flow split: branches)
qed

lemma keeps_restart_instance: "keeps W I (restart_instance c i)"
  unfolding restart_instance_def
  by (auto intro!: flow keeps_disabled_or keeps_claim_drain keeps_acquire_operation keeps_abort_drain_claim
      keeps_cancel_startup keeps_marks keeps_stop keeps_lock keeps_begin_startup keeps_start_one keeps_settle_startup
      split: branches)

lemma keeps_wait_load: "keeps W I (wait_load c i)"
  unfolding wait_load_def by (auto intro!: flow split: branches)

lemma keeps_kill_instance: "keeps W I (kill_instance c i)"
  unfolding kill_instance_def
  by (auto intro!: flow keeps_claim_drain keeps_acquire_operation keeps_abort_drain_claim keeps_cancel_startup keeps_marks
      keeps_kill keeps_lock keeps_wait_load keeps_wait_inactive keeps_release_reservation split: branches)

lemma keeps_always_on_loop: "keeps W I (always_on_loop rows)"
  by (induction rows) (auto simp: Let_def intro!: flow keeps_endpoint keeps_marks keeps_spawn)

lemma keeps_reconcile_always_on: "keeps W I (reconcile_always_on c)"
  unfolding reconcile_always_on_def by (auto intro!: flow keeps_wait_startup_ready keeps_always_on_loop split: branches)

lemma keeps_reconcile_resource_blocked: "keeps W I (reconcile_resource_blocked i)"
  unfolding reconcile_resource_blocked_def Let_def
  by (auto intro!: flow keeps_acquire_operation keeps_lock keeps_marks keeps_endpoint keeps_begin_startup keeps_start_one
      keeps_startup_live keeps_finish_startup split: branches)

lemma keeps_idle_loop: "keeps W I (idle_loop c global now rows)"
  by (induction rows) (auto simp: Let_def intro!: flow keeps_lock keeps_instance_activity keeps_endpoint keeps_claim_drain
      keeps_stop_instance keeps_event)

lemma keeps_reconcile_idle: "keeps W I (reconcile_idle c global)"
  unfolding reconcile_idle_def by (auto intro!: flow keeps_idle_loop split: branches)

lemma keeps_ticker: "keeps W I body \<Longrightarrow> keeps W I (ticker c body)"
proof -
  assume body: "keeps W I body"
  have "keeps W I (ticker_rounds n c body)" for n
    by (induction n) (auto intro!: flow body keeps_blocked split: branches)
  then show ?thesis unfolding ticker_def by (auto intro!: flow)
qed

lemma keeps_run_reconciler: "keeps W I (run_reconciler c interval)"
  unfolding run_reconciler_def
  by (auto intro!: flow keeps_wait_startup_ready keeps_reconcile_always_on keeps_ticker split: branches)

lemma keeps_run_idle_reconciler: "keeps W I (run_idle_reconciler c global)"
  unfolding run_idle_reconciler_def by (intro keeps_ticker keeps_reconcile_idle)

lemma keeps_reconcile_stale: "keeps W I reconcile_stale"
  unfolding reconcile_stale_def
  by (intro keeps_bind keeps_marks keeps_update) (auto intro: other_update)

lemma keeps_wait_worker: "keeps W I (wait_worker i n)"
  unfolding wait_worker_def by (auto intro!: flow keeps_sup_section keeps_handle_worker_exit split: branches)

lemma keeps_forget: "keeps W I p \<Longrightarrow> keeps W I (forget p)"
  unfolding forget_def by (auto intro!: flow)

lemma keeps_goroutine: "keeps W I (goroutine_program g)"
  unfolding goroutine_program_def
  by (auto intro!: keeps_run_load keeps_forget keeps_start_instance keeps_reconcile_resource_blocked keeps_wait_worker
      split: goroutine.splits)

lemma keeps_quiet:
  assumes "may_start s p" and "\<And>c i. p \<noteq> serve_request c i"
  shows "keeps W I p"
  using assms
  by (cases rule: may_start.cases) (auto intro!: keeps_forget keeps_ensure_ready keeps_start_instance keeps_stop_instance
      keeps_restart_instance keeps_kill_instance keeps_start_model keeps_stop_model keeps_run_reconciler
      keeps_run_idle_reconciler keeps_marks
      keeps_reconcile_stale keeps_goroutine)

end

section \<open>Counters\<close>

locale counted = frame +
  assumes reserve_law: "W w \<Longrightarrow> W v \<Longrightarrow> wo_instance v k = Some row \<Longrightarrow> I s \<Longrightarrow>
      I (fst (reserve_pending now (manager_pending_limits (wo_limits w)) row s))"
    and release_law: "I s \<Longrightarrow> I (release_pending now i s)"
    and activate_law: "I s \<Longrightarrow> I (activate_request now i s)"
    and finish_law: "I s \<Longrightarrow> I (finish_active now i s)"
begin

lemma keeps_reserve: "W v \<Longrightarrow> wo_instance v k = Some row \<Longrightarrow> keeps W I (reserve row)"
  unfolding reserve_def by (intro keeps_readp_bind keeps_act reserve_law)

lemma keeps_counters:
  "keeps W I (update (\<lambda>w. release_pending (wo_now w) i))" "keeps W I (update (\<lambda>w. activate_request (wo_now w) i))"
  "keeps W I (finish_request i)"
  unfolding finish_request_def by (rule keeps_update; erule release_law activate_law finish_law)+

lemma keeps_acquire_endpoint: "keeps W I (acquire_endpoint c i)"
  unfolding acquire_endpoint_def
proof (rule keeps_readp_bind)
  fix w s
  assume w: "W w"
  show "keeps W I (case wo_instance w i of None \<Rightarrow> Return (Inl ErrStore)
     | Some row \<Rightarrow> check (reserve row) (
         bindp (admit_request c (in_id row)) (\<lambda>e. case e of
           Some e \<Rightarrow> bindp (update (\<lambda>w. release_pending (wo_now w) (in_id row))) (\<lambda>_. Return (Inl e))
         | None \<Rightarrow> bindp (ensure_ready_instance c row True) (\<lambda>r. case r of
             Inl e \<Rightarrow> bindp (update (\<lambda>w. release_pending (wo_now w) (in_id row))) (\<lambda>_. Return (Inl e))
           | Inr url \<Rightarrow> bindp (update (\<lambda>w. activate_request (wo_now w) (in_id row))) (\<lambda>_. Return (Inr (url, in_id row)))))))"
    using w by (auto intro!: flow keeps_reserve keeps_admit_request keeps_counters keeps_ensure_ready_instance split: branches)
qed

lemma keeps_started: "may_start s p \<Longrightarrow> keeps W I p"
proof (cases "\<exists>c i. p = serve_request c i")
  case True
  then show ?thesis
    by (auto simp: serve_request_def intro!: flow keeps_acquire_endpoint keeps_counters split: branches)
qed (use keeps_quiet in blast)

lemma invariant: "reachable_in W ttl s ps \<Longrightarrow> I (new_service ttl) \<Longrightarrow> I s"
  using pool_invariant [where I = I] keeps_started by blast

end

end
