(* ===== verification/Sample_Service.thy ===== *)
theory Sample_Service
  imports Requests
begin

text \<open>
  Concrete Instances, worlds and runs for the examples of the theories on the service: an Instance of a
  model of 8 GB, on a host with one GPU.
\<close>

definition sample_row :: "string \<Rightarrow> instance_row" where
  "sample_row i = \<lparr>in_id = i, in_model = ''m'', in_enabled = True, in_autoload = True, in_always_on = False,
     in_priority = ''normal'', in_eviction = True, in_spillover = False, in_idle_seconds = 0, in_max_pending = 0,
     in_gpu_mode = ''auto'', in_gpu_devices = [], in_tensor_split = []\<rparr>"

definition sample_world :: "nat \<Rightarrow> world" where
  "sample_world pick = \<lparr>wo_now = 5, wo_later = 6, wo_lease = ''lease'', wo_pick = pick, wo_elapsed = False,
     wo_cancelled = True, wo_limits = None, wo_instance = (\<lambda>i. Some (sample_row i)), wo_instances = None,
     wo_model_rows = (\<lambda>i. Some []), wo_model = (\<lambda>i. None), wo_config = sample_config, wo_profile = None,
     wo_inspect = (\<lambda>p. None), wo_stat = (\<lambda>p. None), wo_snapshot = None,
     wo_supervisor = \<lparr>sc_host = ''127.0.0.1'', sc_port_start = 9000, sc_validator = None, sc_installation = []\<rparr>,
     wo_spawn = \<lparr>sw_free = (\<lambda>p. True), sw_identity = None, sw_pipes = True, sw_pid = Some 42\<rparr>, wo_persist = True,
     wo_healthy = True, wo_signal = True, wo_data_dir = [], wo_mkdir = True, wo_stale = [], wo_rounds = 3\<rparr>"

text \<open>The same world with a client that stays, a readable host and a model of 8 GB.\<close>

definition launch_world :: world where
  "launch_world = (sample_world 0)\<lparr>wo_cancelled := False, wo_model := (\<lambda>m. Some (8000000000, Some ''/m.gguf'')),
     wo_snapshot := Some (sample_host [(''CUDA0'', 20000000000)])\<rparr>"

definition sample_launch :: runtime_request where
  "sample_launch = launch_request (sample_row ''a'') zero_profile
     (demand_input_now launch_world 8000000000 ''/m.gguf'' [''n-gpu-layers'' \<mapsto> ''16''])
     (sample_host [(''CUDA0'', 20000000000)])"

lemma sample_grant:
  obtains l x p where "acquire_runtime (new_ledger 0) 5 6 ''lease'' \<lparr>ra_instance = ''a'',
      ra_snapshot = sample_host [(''CUDA0'', 20000000000)], ra_plan = sample_launch, ra_credits = []\<rparr> = Some (l, Inr (x, p))"
    and "rp_fits p" and "rp_mode p \<noteq> ''unmanaged''" and "lease_by_instance l ''a'' = Some x" and "ls_state x = Pending"
proof -
  let ?host = "sample_host [(''CUDA0'', 20000000000)]"
  have snap: "sample_launch\<lparr>rr_snapshot := ?host\<rparr> = sample_launch" by (simp add: sample_launch_def launch_request_def)
  have "case evaluate_runtime_candidate sample_launch [''n-gpu-layers'' \<mapsto> ''16''] False of
      Inl e \<Rightarrow> False | Inr p \<Rightarrow> rp_fits p \<and> rp_mode p \<noteq> ''unmanaged''" by code_simp
  then obtain p where p: "evaluate_runtime_candidate sample_launch [''n-gpu-layers'' \<mapsto> ''16''] False = Inr p" "rp_fits p"
      "rp_mode p \<noteq> ''unmanaged''"
    by (auto split: sum.splits)
  have plan: "plan_runtime sample_launch = Some (Inr p)"
    using p(1,2) by (intro plan_runtime_full)
      (simp_all add: sample_launch_def launch_request_def idle_request_def demand_input_now_def demand_input_for_def
        read_metadata_def sample_host_def launch_world_def sample_world_def sample_row_def zero_profile_def
        runtime_capabilities_of_def profile_has_def profile_option_def)
  have empty: "sweep_expired 5 (new_ledger 0) = new_ledger 0" "release_owner_locked owner (new_ledger 0) = new_ledger 0" for owner
    by (simp_all add: sweep_expired_def new_ledger_def release_owner_locked_def lookup_string_def)
  have trim: "trim_space ''a'' = ''a''" by code_simp
  have sched: "schedulable (new_ledger 0) key rq [] ?host = (?host, [])" for key rq
  proof -
    have "adjust_snapshot ?host (\<lambda>d. no_occupied) no_occupied (\<lambda>d. 0) 0 = ?host" by code_simp
    then show ?thesis by (simp add: schedulable_def no_credits_def occupancy_locked_def new_ledger_def)
  qed
  define x where "x = \<lparr>ls_id = ''lease'', ls_owner = \<lparr>ow_kind = owner_instance, ow_id = ''a''\<rparr>, ls_instance = ''a'',
    ls_placement = rp_placement p, ls_gpus = reservations_for (rp_placement p) ?host
      ((rr_placement sample_launch)\<lparr>pr_required := vram_bytes (rp_demand p), pr_host_ram := rd_host_ram (rp_demand p)\<rparr>),
    ls_host_ram = rd_host_ram (rp_demand p), ls_state = Pending, ls_expires = 6 + lg_ttl (new_ledger 0)\<rparr>"
  have "acquire_runtime (new_ledger 0) 5 6 ''lease'' \<lparr>ra_instance = ''a'', ra_snapshot = ?host, ra_plan = sample_launch,
      ra_credits = []\<rparr> = Some (record_lease (new_ledger 0) x [], Inr (x, p))"
    using plan p(2) by (simp add: acquire_runtime_def Let_def empty trim sched snap x_def)
  then show thesis
    by (rule that [OF _ p(2,3)]) (simp_all add: record_lease_def lease_by_instance_def lookup_string_def new_ledger_def x_def)
qed

section \<open>A whole run\<close>

text \<open>
  A restart of the sample Instance on a host whose hardware cannot be read, evaluated action by action: the
  launch is not managed, the worker becomes ready.
\<close>

lemmas program_defs = on_ledger_def on_sup_def section_of_def modify_def get_def ctx_err_def select_def ready_def
  check_def check_err_def bind_ok_def lock_idle_def unlock_idle_def acquire_operation_def release_gate_def
  wait_startup_ready_def begin_startup_def cancel_startup_def finish_startup_def startup_live_def generation_live_def
  sup_endpoint_def sup_kill_def sup_stop_def wait_ready_def sup_start_def claim_drain_def claim_drain_locked_def
  release_reservation_def hardware_snapshot_def prepare_runtime_launch_def commit_reservation_def finish_launch_def
  start_body_def start_cleanup_def start_one_def settle_startup_def restart_instance_def disabled_or_def forget_def

lemmas section_defs = begin_startup_section_def cancel_startup_section_def finish_startup_section_def call_cancel_def
  finish_drain_wait_def register_drain_wait_def spawn_def record_event_def clear_manual_stop_def clear_resource_block_def
  override_start_backoff_def reset_start_failures_def orphan_block_reason_def track_committed_worker_def touch_def
  set_activity_def begin_drain_def stop_begin_def start_begin_def start_finish_def status_def worker_of_def set_worker_def
  endpoint_def with_state_def kill_mark_def cancelled_def with_validator_def worker_done_def
  shutting_down_def slot_save_path_def

definition blind_world :: world where
  "blind_world = launch_world\<lparr>wo_snapshot := None\<rparr>"

lemma blind_world_simps [simp]:
  "wo_pick blind_world = 0" "wo_instance blind_world i = Some (sample_row i)" "wo_snapshot blind_world = None"
  "wo_profile blind_world = None" "wo_model blind_world m = Some (8000000000, Some ''/m.gguf'')" "wo_cancelled blind_world = False"
  "wo_persist blind_world" "wo_healthy blind_world" "wo_data_dir blind_world = []" 
  by (simp_all add: blind_world_def launch_world_def sample_world_def)


lemma blind_configuration: "launch_configuration blind_world (sample_row ''a'') = Inr ([(''ctx-size'', ''8192''), (''threads'', ''8''),
   (''spec-type'', ''draft-mtp'')], zero_profile)"
proof -
  have "map_option ef_values (effective_options sample_config ''m'' ''a'') = Some [(''ctx-size'', ''8192''), (''threads'', ''8''),
   (''spec-type'', ''draft-mtp'')]" by code_simp
  then show ?thesis
    by (auto simp: launch_configuration_def blind_world_def launch_world_def sample_world_def sample_row_def)
qed

lemma sample_row_simps [simp]: "in_id (sample_row i) = i" "in_model (sample_row i) = ''m''" "in_enabled (sample_row i)" "in_gpu_mode (sample_row i) = ''auto''"
   "wo_now blind_world = 5" "wo_spawn blind_world = \<lparr>sw_free = (\<lambda>p. True), sw_identity = None, sw_pipes = True, sw_pid = Some 42\<rparr>"
   "wo_supervisor blind_world = \<lparr>sc_host = ''127.0.0.1'', sc_port_start = 9000, sc_validator = None, sc_installation = []\<rparr>"
  by (simp_all add: sample_row_def blind_world_def launch_world_def sample_world_def)

lemma trim_empty: "trim_space [] = []" by code_simp

lemma auto_not_manual: "\<not> equal_fold (trim_space ''auto'') ''manual''" by code_simp

lemma nothing_enforced: "validate_manual (runtime_devices_from_getter None) ds = None"
  by (simp add: validate_manual_def runtime_devices_from_getter_def)

lemma first_port: "sp_workers sp = [] \<Longrightarrow> allocate_port p (\<lambda>q. True) sp = Some p"
proof -
  assume e: "sp_workers sp = []"
  have l: "map (\<lambda>k. p + int k) [0..<2000] = p # map (\<lambda>k. p + int k) [Suc 0..<2000]" by (subst upt_conv_Cons) auto
  have "\<not> port_used sp q" for q using e by (simp add: port_used_def)
  then show ?thesis unfolding allocate_port_def l by (simp only: find.simps simp_thms if_True)
qed

lemma empty_ledger_answers: "release_instance ''a'' (new_ledger 0) = new_ledger 0"
  "get_by_instance now ''a'' (new_ledger 0) = (new_ledger 0, None)" "commit_instance ''a'' (new_ledger 0) = (new_ledger 0, None)"
proof -
  have "sweep_expired now (new_ledger 0) = new_ledger 0" by (simp add: sweep_expired_def new_ledger_def)
  moreover have "normalize_owner \<lparr>ow_kind = owner_instance, ow_id = ''a''\<rparr> [] = Inr \<lparr>ow_kind = owner_instance, ow_id = ''a''\<rparr>"
    "trim_space ''a'' = ''a''" by code_simp+
  ultimately show "release_instance ''a'' (new_ledger 0) = new_ledger 0"
  "get_by_instance now ''a'' (new_ledger 0) = (new_ledger 0, None)" "commit_instance ''a'' (new_ledger 0) = (new_ledger 0, None)"
    by (simp_all add: release_instance_def release_owner_def release_owner_locked_def get_by_instance_def get_by_owner_def
     commit_instance_def commit_owner_def new_ledger_def lookup_string_def)
qed

lemma sample_restart:
  obtains url s where "outcome (=) (restart_instance Background ''a'') (new_service 0) (Inr url) s"
    and "rt_state (status (sv_sup s) ''a'') = Ready" and "sv_spawned s = [WaitWorker ''a'' 0]"
proof -
  have "case alone blind_world (restart_instance Background ''a'') (new_service 0) of
      Some (Inr url, s) \<Rightarrow> rt_state (status (sv_sup s) ''a'') = Ready \<and> sv_spawned s = [WaitWorker ''a'' 0]
    | _ \<Rightarrow> False"
    by (simp add: alone_simps program_defs section_defs new_service_def new_supervisor_def blind_configuration
        auto_not_manual nothing_enforced first_port empty_ledger_answers lookup_string_def trim_empty split_beta Let_def
        cong: bindp_weak)
  then show thesis using that alone_outcome by (fastforce split: option.splits prod.splits sum.splits)
qed

lemma sample_restart_reachable:
  assumes "outcome (=) (restart_instance Background ''a'') (new_service 0) (Inr url) s"
  shows "reachable_in (\<lambda>w. True) 0 s [Return ()]"
proof -
  have "outcome (=) (forget (restart_instance Background ''a'')) (new_service 0) () s"
    unfolding forget_def by (rule outcome_bindI [OF assms]) simp
  moreover have "reachable_in (\<lambda>w. True) 0 (new_service 0) ([] @ [forget (restart_instance Background ''a'')])"
    using pool_next [OF pool_initial pool_start, of may_start "new_service 0"] may_start.intros(5) by simp
  ultimately show ?thesis using alone_reachable [of _ "new_service 0" "()" s may_start "new_service 0" "[]"] by simp
qed

end
