(* ===== verification/Admission.thy ===== *)
theory Admission
  imports Service_Frame Sample_Service
begin

text \<open>
  The admission of requests: the limits on pending requests hold in every reachable state, and a
  request takes back what it has added to the counters, whatever way it ends.
\<close>

section \<open>The counters\<close>

lemma activity_at_set [simp]: "activity_at (set_activity i a s) j = (if j = i then a else activity_at s j)"
  by (simp add: activity_at_def set_activity_def update_conv')

lemma sum_update:
  fixes c :: "'b \<Rightarrow> nat"
  shows "distinct (map fst xs) \<Longrightarrow>
    sum_list (map (c \<circ> snd) (AList.update i a xs)) + (case map_of xs i of None \<Rightarrow> 0 | Some b \<Rightarrow> c b) =
    sum_list (map (c \<circ> snd) xs) + c a"
proof (induction xs)
  case (Cons x xs)
  then show ?case by (cases x) auto
qed simp

lemma global_pending_set:
  assumes "distinct (map fst (sv_activities s))"
  shows "global_pending (set_activity i a s) + ac_pending (activity_at s i) = global_pending s + ac_pending a"
  using sum_update [OF assms, of ac_pending i a]
  by (simp add: global_pending_def set_activity_def activity_at_def no_activity_def split: option.splits)

lemmas counter_defs = release_pending_def activate_request_def finish_active_def touch_def Let_def

section \<open>Limits\<close>

text \<open>A world in which the manager's limits are \<open>p\<close> and \<open>g\<close> and those of the Instances are \<open>own\<close>.\<close>

definition limited_world :: "i64 \<Rightarrow> i64 \<Rightarrow> (string \<Rightarrow> i64) \<Rightarrow> world \<Rightarrow> bool" where
  "limited_world p g own w \<longleftrightarrow> manager_pending_limits (wo_limits w) = (p, g) \<and>
     (\<forall>i row. wo_instance w i = Some row \<longrightarrow> in_max_pending row = own (in_id row))"

definition within_limits :: "i64 \<Rightarrow> i64 \<Rightarrow> (string \<Rightarrow> i64) \<Rightarrow> service \<Rightarrow> bool" where
  "within_limits p g own s \<longleftrightarrow> distinct (map fst (sv_activities s)) \<and>
     (\<forall>i. 0 < effective_pending_limit (own i) p \<longrightarrow>
        int (ac_pending (activity_at s i)) \<le> effective_pending_limit (own i) p) \<and>
     (0 < g \<longrightarrow> int (global_pending s) \<le> g)"

lemma distinct_set_activity:
  "distinct (map fst (sv_activities s)) \<Longrightarrow> distinct (map fst (sv_activities (set_activity i a s)))"
  by (simp add: set_activity_def distinct_update)

lemma within_limits_update:
  assumes I: "within_limits p g own s"
    and own: "0 < effective_pending_limit (own i) p \<Longrightarrow> int (ac_pending a) \<le> effective_pending_limit (own i) p"
    and global: "0 < g \<Longrightarrow> int (global_pending s + ac_pending a) \<le> g + int (ac_pending (activity_at s i))"
  shows "within_limits p g own (set_activity i a s)"
proof -
  have d: "distinct (map fst (sv_activities s))" using I by (simp add: within_limits_def)
  have "int (global_pending (set_activity i a s)) \<le> g" if "0 < g"
    using global_pending_set [OF d, of i a] global [OF that] by linarith
  then show ?thesis using I own distinct_set_activity [OF d] by (simp add: within_limits_def)
qed

lemma within_limits_lower:
  "within_limits p g own s \<Longrightarrow> ac_pending a \<le> ac_pending (activity_at s i) \<Longrightarrow>
    within_limits p g own (set_activity i a s)"
  by (rule within_limits_update) (auto simp: within_limits_def intro: order_trans [of _ "int (ac_pending (activity_at s i))"])

interpretation limits: counted "limited_world p g own" "within_limits p g own" for p g own
proof unfold_locales
  fix s :: service and sp
  assume "within_limits p g own s"
  then show "within_limits p g own (s\<lparr>sv_sup := sp\<rparr>)"
    by (simp add: within_limits_def activity_at_def global_pending_def)
next
  fix s :: service and e i
  assume "within_limits p g own s"
  then show "within_limits p g own (record_event e i s)"
    by (simp add: within_limits_def activity_at_def global_pending_def record_event_def)
next
  fix s t :: service
  assume "within_limits p g own s" and "sv_activities t = sv_activities s"
  then show "within_limits p g own t"
    by (simp add: within_limits_def activity_at_def global_pending_def)
next
  fix w v k row s now
  assume w: "limited_world p g own w" and v: "limited_world p g own v" "wo_instance v k = Some row"
    and I: "within_limits p g own s"
  have l: "in_max_pending row = own (in_id row)" using v by (auto simp: limited_world_def)
  show "within_limits p g own (fst (reserve_pending now (manager_pending_limits (wo_limits w)) row s))"
    using w I l by (auto simp: limited_world_def reserve_pending_def Let_def split: if_splits intro!: within_limits_update)
qed (auto simp: counter_defs intro!: within_limits_lower)

text \<open>
  C14. However requests, loads, stops and evictions interleave: an Instance never has more pending
  requests than its effective limit, nor the manager more than the global one.
\<close>

theorem pending_within_limits:
  assumes "reachable_in (limited_world p g own) ttl s ps"
  shows "(0 < effective_pending_limit (own i) p \<longrightarrow> int (ac_pending (activity_at s i)) \<le> effective_pending_limit (own i) p) \<and>
    (0 < g \<longrightarrow> int (global_pending s) \<le> g)"
proof -
  have "within_limits p g own (new_service ttl)"
    by (simp add: within_limits_def new_service_def activity_at_def no_activity_def global_pending_def)
  then have "within_limits p g own s" using assms limits.invariant by blast
  then show ?thesis by (simp add: within_limits_def)
qed

section \<open>Requests settle\<close>

definition pending_at :: "string \<Rightarrow> service \<Rightarrow> nat" where
  "pending_at i s = ac_pending (activity_at s i)"

definition active_at :: "string \<Rightarrow> service \<Rightarrow> nat" where
  "active_at i s = ac_active (activity_at s i)"

lemma activity_at_cong: "sv_activities t = sv_activities s \<Longrightarrow> activity_at t i = activity_at s i"
  by (simp add: activity_at_def)

interpretation pending_frame: frame "\<lambda>w. True" "\<lambda>s. pending_at i s = k" for i k
  by unfold_locales (auto simp: pending_at_def touch_def record_event_def dest: activity_at_cong [of _ _ i]
      cong: activity_at_cong)

interpretation active_frame: frame "\<lambda>w. True" "\<lambda>s. active_at i s = k" for i k
  by unfold_locales (auto simp: active_at_def touch_def record_event_def dest: activity_at_cong [of _ _ i]
      cong: activity_at_cong)

text \<open>A program that changes no counter keeps what a request owes.\<close>

lemma quiet_owes:
  assumes "(\<And>k. keeps (\<lambda>w. True) (\<lambda>s. c s = k) p)" and "\<And>a. owes c Q n (k a)"
  shows "owes c Q n (bindp p k)"
  by (rule owes_bind, rule neutral_owes) (use assms keeps_neutral in blast)+

lemma owes_check:
  assumes "owes c (\<lambda>e m. owes c Q m (case e of Some e \<Rightarrow> Return (Inl e) | None \<Rightarrow> k)) n p"
  shows "owes c Q n (check p k)"
  unfolding check_def using assms by (rule owes_bind)

lemma owes_update_to:
  fixes c :: "'s \<Rightarrow> nat" and k :: "unit \<Rightarrow> ('w, 's, 'a) prog"
  assumes "\<And>(w :: 'w) s. n \<le> c s \<Longrightarrow> c (f w s) + n = c s + m" and "owes c Q m (k ())"
  shows "owes c Q n (bindp (update f) k)"
  unfolding update_def
proof (rule owes_bind, rule owes_act)
  fix w :: 'w and s s' and a :: unit
  assume "n \<le> c s" and "(f w s, ()) = (s', a)"
  then show "\<exists>m. owes c Q m (k a) \<and> c s' + n = c s + m" using assms by auto
qed

lemma reserve_owes:
  assumes step: "\<And>now limits s. case reserve_pending now limits row s of
        (t, e) \<Rightarrow> c t = c s + (if e = None then n else 0)"
    and "owes c Q n (k None)" and "\<And>e. owes c Q 0 (k (Some e))"
  shows "owes c Q 0 (bindp (reserve row) k)"
  unfolding reserve_def bindp_assoc
proof (rule owes_bind, rule neutral_owes, rule neutral_readp, rule owes_bind, rule owes_act)
  fix limits w s t e
  assume "reserve_pending (wo_now w) limits row s = (t, e)"
  then show "\<exists>m. owes c Q m (k e) \<and> c t + 0 = c s + m"
    using step [where now = "wo_now w" and limits = limits and s = s] assms(2,3) by (cases e) auto
qed

text \<open>
  A request that owes \<open>n\<close> once it is reserved and \<open>m\<close> once it is active, for a counter no other
  operation changes.
\<close>

lemma acquire_owes:
  assumes frame: "\<And>k. frame (\<lambda>s. c s = k)"
    and reserve: "\<And>now limits row s. case reserve_pending now limits row s of
        (t, e) \<Rightarrow> c t = c s + (if e = None then n (in_id row) else 0)"
    and release: "\<And>now j s. n j \<le> c s \<Longrightarrow> c (release_pending now j s) + n j = c s"
    and activate: "\<And>now j s. n j \<le> c s \<Longrightarrow> c (activate_request now j s) + n j = c s + m j"
    and result: "\<And>e. Q (Inl e) 0" "\<And>url j. Q (Inr (url, j)) (m j)"
  shows "owes c Q 0 (acquire_endpoint cx i)"
proof -
  note quiet = quiet_owes [where c = c, OF silent.keeps_admit_request [OF frame.axioms(1) [OF frame]]]
    quiet_owes [where c = c, OF frame.keeps_ensure_ready_instance [OF frame]]
  have undo: "owes c Q (n j) (bindp (update (\<lambda>w. release_pending (wo_now w) j)) (\<lambda>_. Return (Inl e)))" for j e
    by (rule owes_update_to [where m = 0]) (auto simp: release intro: owes_Return result)
  have turn: "owes c Q (n j) (bindp (update (\<lambda>w. activate_request (wo_now w) j)) (\<lambda>_. Return (Inr (url, j))))" for j url
    by (rule owes_update_to [where m = "m j"]) (auto simp: activate intro: owes_Return result)
  show ?thesis
    unfolding acquire_endpoint_def check_def
    by (rule owes_bind, rule neutral_owes, rule neutral_readp)
      (auto intro!: owes_Return result reserve_owes [OF reserve] quiet undo turn split: option.splits sum.splits)
qed

lemma request_settles:
  assumes "\<And>k. frame (\<lambda>s. c s = k)"
    and "\<And>now limits row s. case reserve_pending now limits row s of
        (t, e) \<Rightarrow> c t = c s + (if e = None then n (in_id row) else 0)"
    and "\<And>now j s. n j \<le> c s \<Longrightarrow> c (release_pending now j s) + n j = c s"
    and "\<And>now j s. n j \<le> c s \<Longrightarrow> c (activate_request now j s) + n j = c s + m j"
    and finish: "\<And>now j s. m j \<le> c s \<Longrightarrow> c (finish_active now j s) + m j = c s"
  shows "settles c 0 (serve_request cx i)"
proof -
  let ?Q = "\<lambda>(r :: life_error + string \<times> string) k. k = (case r of Inl e \<Rightarrow> 0 | Inr (url, j) \<Rightarrow> m j)"
  have "owes c ?Q 0 (acquire_endpoint cx i)" by (rule acquire_owes [OF assms(1-4)]) auto
  moreover have "settles c (m j) (finish_request j)" for j
    unfolding finish_request_def update_def by (rule owes_act) (auto simp: finish)
  ultimately show ?thesis
    unfolding serve_request_def
    by (intro owes_bind, elim owes_weaken) (auto intro!: owes_Return split: sum.splits)
qed

lemma started_settles:
  assumes "may_start s p" and "\<And>k. frame (\<lambda>s. c s = k)" and "\<And>cx i. settles c 0 (serve_request cx i)"
  shows "settles c 0 p"
proof (cases "\<exists>cx i. p = serve_request cx i")
  case False
  then have "neutral c p" using frame.keeps_quiet [OF assms(2) assms(1)] by (intro keeps_neutral) blast
  then show ?thesis by (rule neutral_owes) simp
qed (use assms(3) in auto)

abbreviation unit_of :: "string \<Rightarrow> string \<Rightarrow> nat" where
  "unit_of i j \<equiv> (if j = i then 1 else 0)"

lemma reserve_counters:
  assumes "reserve_pending now limits row s = (t, e)"
  shows "pending_at i t = pending_at i s + (if e = None then unit_of i (in_id row) else 0)"
    and "active_at i t = active_at i s"
  using assms by (auto simp: reserve_pending_def pending_at_def active_at_def Let_def split: prod.splits if_splits)

lemma pending_settles: "may_start s p \<Longrightarrow> settles (pending_at i) 0 p"
  by (erule started_settles, rule pending_frame.frame_axioms,
      rule request_settles [where n = "unit_of i" and m = "\<lambda>j. 0"], rule pending_frame.frame_axioms)
    (auto simp: reserve_counters split: prod.split, auto simp: pending_at_def counter_defs)

lemma active_settles: "may_start s p \<Longrightarrow> settles (active_at i) 0 p"
  by (erule started_settles, rule active_frame.frame_axioms,
      rule request_settles [where n = "\<lambda>j. 0" and m = "unit_of i"], rule active_frame.frame_axioms)
    (auto simp: reserve_counters split: prod.split, auto simp: active_at_def counter_defs)

definition returned :: "unit go \<Rightarrow> bool" where
  "returned p = (case p of Return a \<Rightarrow> True | Act f \<Rightarrow> False)"

lemma settles_returned: "list_all2 (settles c) ns ps \<Longrightarrow> list_all returned ps \<Longrightarrow> sum_list ns = 0"
proof (induction rule: list_all2_induct)
  case (Cons n ns p ps)
  then show ?case by (cases p) (auto simp: returned_def elim: owes.cases)
qed simp

text \<open>
  C6. Whatever happens to requests - refused, cancelled, failed to load or served - and whatever runs
  beside them: once all programs have returned no Instance has a pending or an active request left, so no
  slot of the limits is lost.
\<close>

theorem requests_settle:
  assumes "reachable_in W ttl s ps" and "list_all returned ps"
  shows "pending_at i s = 0 \<and> active_at i s = 0"
proof -
  have new: "pending_at i (new_service ttl) = 0" "active_at i (new_service ttl) = 0"
    by (auto simp: pending_at_def active_at_def new_service_def activity_at_def no_activity_def)
  obtain ns where ns: "list_all2 (settles (pending_at i)) ns ps" "sum_list ns = pending_at i s"
    using pool_accounts [where c = "pending_at i", OF assms(1) new(1)] pending_settles by blast
  obtain ms where ms: "list_all2 (settles (active_at i)) ms ps" "sum_list ms = active_at i s"
    using pool_accounts [where c = "active_at i", OF assms(1) new(2)] active_settles by blast
  show ?thesis using settles_returned [OF ns(1) assms(2)] settles_returned [OF ms(1) assms(2)] ns(2) ms(2) by simp
qed

section \<open>A sample run\<close>

text \<open>A request whose client has gone away: admitted to the counter, then cancelled; \<open>n\<close> actions of it.\<close>

definition sample_run :: "nat \<Rightarrow> service \<times> unit go list" where
  "sample_run n = the (pool_run (replicate n (sample_world 0, 0)) (new_service 0, [serve_request Request ''a'']))"

lemma sample_run_reachable:
  assumes "pool_run (replicate n (sample_world 0, 0)) (new_service 0, [serve_request Request ''a'']) \<noteq> None"
    and "W (sample_world 0)"
  shows "reachable_in W 0 (fst (sample_run n)) (snd (sample_run n))"
proof -
  have "reachable_in W 0 (new_service 0) [serve_request Request ''a'']"
    using pool_next [OF pool_initial pool_start, of may_start "new_service 0" "serve_request Request ''a''" W]
    by (simp add: may_start.intros(1))
  then show ?thesis
    by (rule pool_run_reachable) (use assms in \<open>auto simp: sample_run_def list_all_iff\<close>)
qed

lemma sample_run_steps:
  "pool_run (replicate 3 (sample_world 0, 0)) (new_service 0, [serve_request Request ''a'']) \<noteq> None"
  "pool_run (replicate 6 (sample_world 0, 0)) (new_service 0, [serve_request Request ''a'']) \<noteq> None"
  by code_simp+

lemma sample_world_limited: "limited_world 32 128 (\<lambda>i. 0) (sample_world 0)"
  by (simp add: limited_world_def sample_world_def sample_row_def manager_pending_limits_def default_pending_limits_def)

lemma pending_within_limits_witness:
  "pending_at ''a'' (fst (sample_run 3)) = 1 \<and> int (ac_pending (activity_at (fst (sample_run 3)) ''a'')) \<le> 32 \<and>
    int (global_pending (fst (sample_run 3))) \<le> 128"
proof -
  have "pending_at ''a'' (fst (sample_run 3)) = 1" by code_simp
  then show ?thesis
    using pending_within_limits [OF sample_run_reachable [where W = "limited_world 32 128 (\<lambda>i. 0)",
        OF sample_run_steps(1) sample_world_limited], of "''a''"]
    by (simp add: effective_pending_limit_def)
qed

lemma requests_settle_witness:
  "ac_last_used (activity_at (fst (sample_run 6)) ''a'') = 5 \<and> pending_at ''a'' (fst (sample_run 6)) = 0 \<and>
    active_at ''a'' (fst (sample_run 6)) = 0"
proof -
  have "ac_last_used (activity_at (fst (sample_run 6)) ''a'') = 5" "list_all returned (snd (sample_run 6))"
    by code_simp+
  then show ?thesis
    using requests_settle [OF sample_run_reachable [where W = "\<lambda>w. True", OF sample_run_steps(2)]] by blast
qed

end
