(* ===== verification/Worker_Safety.thy ===== *)
theory Worker_Safety
  imports Service_Frame Sample_Service
begin

text \<open>
  The workers of the supervisor in every reachable state: no two serving workers share a port, serial
  numbers tell workers apart, and no worker whose process has ended is handed to a request.
\<close>

section \<open>The invariant\<close>

definition serving :: "worker \<Rightarrow> bool" where
  "serving w \<longleftrightarrow> rt_state (wk_runtime w) \<in> {Starting, Loading, Ready, Draining}"

definition dead :: "worker \<Rightarrow> bool" where
  "dead w \<longleftrightarrow> rt_state (wk_runtime w) \<in> {Unloaded, Failed}"

definition port_of :: "worker \<Rightarrow> i64" where
  "port_of w = rt_port (wk_runtime w)"

definition sup_ok :: "supervisor \<Rightarrow> bool" where
  "sup_ok sp \<longleftrightarrow>
     (\<forall>i w. worker_of sp i = Some w \<longrightarrow> wk_serial w < sp_next sp \<and> (wk_serial w \<in> sp_closed sp \<longrightarrow> dead w)) \<and>
     (\<forall>n \<in> sp_closed sp. n < sp_next sp) \<and>
     (\<forall>i j w v. worker_of sp i = Some w \<longrightarrow> worker_of sp j = Some v \<longrightarrow> i \<noteq> j \<longrightarrow>
        wk_serial w \<noteq> wk_serial v \<and> (serving w \<longrightarrow> serving v \<longrightarrow> port_of w \<noteq> port_of v))"

lemma worker_of_set [simp]: "worker_of (set_worker i w sp) j = (if j = i then Some w else worker_of sp j)"
  by (simp add: worker_of_def set_worker_def update_conv')

lemma set_worker_fields [simp]:
  "sp_next (set_worker i w sp) = sp_next sp" "sp_closed (set_worker i w sp) = sp_closed sp"
  by (simp_all add: set_worker_def)

lemma worker_of_other [simp]:
  "worker_of (sp\<lparr>sp_closed := c\<rparr>) i = worker_of sp i" "worker_of (sp\<lparr>sp_killed := c\<rparr>) i = worker_of sp i"
  "worker_of (sp\<lparr>sp_cancelled := c\<rparr>) i = worker_of sp i" "worker_of (sp\<lparr>sp_next := n\<rparr>) i = worker_of sp i"
  by (simp_all add: worker_of_def)

lemma sup_okD:
  assumes "sup_ok sp" and "worker_of sp i = Some w"
  shows "wk_serial w < sp_next sp" and "wk_serial w \<in> sp_closed sp \<Longrightarrow> dead w"
    and "worker_of sp j = Some v \<Longrightarrow> i \<noteq> j \<Longrightarrow> wk_serial w \<noteq> wk_serial v"
    and "worker_of sp j = Some v \<Longrightarrow> i \<noteq> j \<Longrightarrow> serving w \<Longrightarrow> serving v \<Longrightarrow> port_of w \<noteq> port_of v"
  using assms unfolding sup_ok_def by blast+

text \<open>A worker that changes its state only, and does not begin to serve.\<close>

lemma sup_ok_replace:
  assumes ok: "sup_ok sp" and w0: "worker_of sp i = Some w0"
    and same: "wk_serial w = wk_serial w0" "port_of w = port_of w0"
    and "serving w \<Longrightarrow> serving w0" and "wk_serial w \<in> sp_closed sp \<Longrightarrow> dead w"
  shows "sup_ok (set_worker i w sp)"
proof -
  note d = sup_okD [OF ok]
  have "wk_serial w0 \<noteq> wk_serial v \<and> wk_serial v \<noteq> wk_serial w0 \<and>
      (serving w \<longrightarrow> serving v \<longrightarrow> port_of w0 \<noteq> port_of v \<and> port_of v \<noteq> port_of w0)"
    if "worker_of sp j = Some v" "j \<noteq> i" for j v
    using d(3,4) [OF w0 that(1)] that(2) same assms(5) by metis
  moreover have "\<forall>n \<in> sp_closed sp. n < sp_next sp" using ok by (simp add: sup_ok_def)
  ultimately show ?thesis
    using d(1) [OF w0] d assms(6) same unfolding sup_ok_def by (auto split: if_splits)
qed

lemma sup_ok_marks:
  "sup_ok sp \<Longrightarrow> sup_ok (sp\<lparr>sp_killed := k\<rparr>)" "sup_ok sp \<Longrightarrow> sup_ok (sp\<lparr>sp_cancelled := c\<rparr>)"
  by (simp_all add: sup_ok_def)

lemma with_state_simps [simp]:
  "wk_serial (with_state st w) = wk_serial w" "port_of (with_state st w) = port_of w"
  "serving (with_state st w) \<longleftrightarrow> st \<in> {Starting, Loading, Ready, Draining}"
  "dead (with_state st w) \<longleftrightarrow> st \<in> {Unloaded, Failed}"
  by (auto simp: with_state_def port_of_def serving_def dead_def)

section \<open>Its preservation\<close>

lemma begin_drain_ok: "sup_ok sp \<Longrightarrow> sup_ok (fst (begin_drain i sp))"
  by (auto simp: begin_drain_def serving_def dead_def dest: sup_okD(2) intro!: sup_ok_replace split: option.splits)

lemma abort_drain_ok: "sup_ok sp \<Longrightarrow> sup_ok (fst (abort_drain i sp))"
  by (auto simp: abort_drain_def serving_def intro!: sup_ok_replace split: option.splits)

lemma stop_begin_ok: "sup_ok sp \<Longrightarrow> sup_ok (fst (stop_begin i sp))"
  by (auto simp: stop_begin_def intro!: sup_ok_replace split: option.splits)

lemma set_state_ok: "sup_ok sp \<Longrightarrow> sup_ok (set_state i Failed sp)"
  by (auto simp: set_state_def intro!: sup_ok_replace split: option.splits)

lemma start_finish_ok: "sup_ok sp \<Longrightarrow> sup_ok (fst (start_finish i n sp))"
  by (auto simp: start_finish_def Let_def serving_def dead_def dest: sup_okD(2) intro!: sup_ok_replace split: option.splits)

lemma kill_mark_ok: "sup_ok sp \<Longrightarrow> sup_ok (kill_mark i sp)"
  by (auto simp: kill_mark_def Let_def sup_ok_def split: option.splits)

lemma worker_exits_ok:
  assumes ok: "sup_ok sp"
  shows "sup_ok (fst (worker_exits i n sp))"
proof (cases "worker_of sp i")
  case (Some w)
  show ?thesis
  proof (cases "wk_serial w = n")
    case True
    let ?w = "w\<lparr>wk_runtime := (wk_runtime w)\<lparr>rt_pid := 0, rt_state := (if rt_state (wk_runtime w) = Stopping then Unloaded else Failed)\<rparr>\<rparr>"
    have w: "wk_serial ?w = wk_serial w" "port_of ?w = port_of w" "\<not> serving ?w" "dead ?w"
      by (auto simp: port_of_def serving_def dead_def)
    have s: "sup_ok (set_worker i ?w sp)" by (rule sup_ok_replace [OF ok Some]) (use w in auto)
    have "n < sp_next sp" using sup_okD(1) [OF ok Some] True by simp
    moreover have "wk_serial v \<noteq> n" if "worker_of sp j = Some v" "j \<noteq> i" for j v
      using sup_okD(3) [OF ok Some that(1)] that(2) True by metis
    ultimately have "sup_ok ((set_worker i ?w sp)\<lparr>sp_closed := insert n (sp_closed sp)\<rparr>)"
      using s w(4) unfolding sup_ok_def by (auto split: if_splits)
    then show ?thesis using Some True by (simp add: worker_exits_def Let_def)
  qed (use ok Some in \<open>simp add: worker_exits_def\<close>)
qed (use ok in \<open>simp add: worker_exits_def\<close>)

lemma allocated_port_unused: "allocate_port start free sp = Some p \<Longrightarrow> \<not> port_used sp p"
  by (auto simp: allocate_port_def find_Some_iff)

lemma serving_port_used: "worker_of sp i = Some w \<Longrightarrow> serving w \<Longrightarrow> port_used sp (port_of w)"
  by (force simp: worker_of_def port_used_def serving_def port_of_def list_ex_iff dest: map_of_SomeD)

lemma sup_ok_new:
  assumes ok: "sup_ok sp" and w: "wk_serial w = sp_next sp" and port: "serving w \<Longrightarrow> \<not> port_used sp (port_of w)"
  shows "sup_ok (set_worker i w (sp\<lparr>sp_next := Suc (sp_next sp)\<rparr>))"
proof -
  have "wk_serial w \<notin> sp_closed sp" using ok w by (auto simp: sup_ok_def)
  moreover have "sp_next sp \<noteq> wk_serial v \<and> wk_serial v \<noteq> sp_next sp \<and>
      (serving w \<longrightarrow> serving v \<longrightarrow> port_of w \<noteq> port_of v \<and> port_of v \<noteq> port_of w)"
    if "worker_of sp j = Some v" for j v
    using sup_okD(1) [OF ok that] w port serving_port_used [OF that] by auto
  ultimately show ?thesis
    using ok w unfolding sup_ok_def by (auto split: if_splits simp: less_Suc_eq)
qed

lemma start_begin_ok: "sup_ok sp \<Longrightarrow> sup_ok (fst (start_begin cfg sw i model args env sp))"
  by (auto simp: start_begin_def Let_def port_of_def serving_def dest: allocated_port_unused intro!: sup_ok_new
      split: option.splits if_splits)

lemma sup_step_ok: "sup_step sp sp' \<Longrightarrow> sup_ok sp \<Longrightarrow> sup_ok sp'"
  by (induction rule: sup_step.induct) (auto simp: begin_drain_ok abort_drain_ok stop_begin_ok kill_mark_ok worker_exits_ok
      set_state_ok start_begin_ok start_finish_ok)

interpretation workers: counted W "\<lambda>s. sup_ok (sv_sup s)" for W
  by unfold_locales (auto simp: sup_step_ok record_event_def touch_def set_activity_def reserve_pending_def release_pending_def
      activate_request_def finish_active_def Let_def split: prod.splits)

text \<open>
  C15. In every reachable state of the service, however starts, stops, kills, drains and exits interleave:
  two Instances that are serving (loading, ready or draining) listen on different ports, and the endpoint
  handed to a request belongs to a worker whose process has not been seen to end.
\<close>

theorem serving_workers_sound:
  assumes "reachable_in W ttl s ps" and "worker_of (sv_sup s) i = Some w" and "serving w"
  shows "wk_serial w \<notin> sp_closed (sv_sup s) \<and>
    (\<forall>j v. worker_of (sv_sup s) j = Some v \<longrightarrow> serving v \<longrightarrow> j \<noteq> i \<longrightarrow> port_of v \<noteq> port_of w)"
proof -
  have "sup_ok (sv_sup (new_service ttl))" by (simp add: sup_ok_def new_service_def new_supervisor_def worker_of_def)
  then have ok: "sup_ok (sv_sup s)" using workers.invariant [of W ttl s ps] assms(1) by blast
  have "\<not> dead w" using assms(3) by (auto simp: serving_def dead_def)
  then show ?thesis using sup_okD [OF ok assms(2)] assms(3) by metis
qed

theorem serving_workers_sound_witness:
  "\<exists>s ps w. reachable_in (\<lambda>w. True) 0 s ps \<and> worker_of (sv_sup s) ''a'' = Some w \<and> serving w \<and>
     wk_serial w \<notin> sp_closed (sv_sup s)"
proof -
  obtain url s where run: "outcome (=) (restart_instance Background ''a'') (new_service 0) (Inr url) s"
    and ready: "rt_state (status (sv_sup s) ''a'') = Ready"
    by (rule sample_restart)
  then obtain w where w: "worker_of (sv_sup s) ''a'' = Some w" "serving w"
    by (auto simp: status_def serving_def split: option.splits)
  then show ?thesis using serving_workers_sound [OF sample_restart_reachable [OF run] w] sample_restart_reachable [OF run] by blast
qed

end
