(* ===== verification/Launch_Safety.thy ===== *)
theory Launch_Safety
  imports Service_Frame Sample_Service
begin

text \<open>
  What a launch may rely on and what it may disturb, whatever runs beside it: the plan it starts with
  was granted on free capacity, and it evicts at most eight Instances.
\<close>

section \<open>Programs in an environment\<close>

lemma outcome_bind_okE:
  assumes "outcome R (bind_ok p k) s r t"
  obtains e where "r = Inl e" and "outcome R p s (Inl e) t"
  | a u where "outcome R p s (Inr a) u" and "outcome R (k a) u r t"
  using assms unfolding bind_ok_def by (auto elim!: outcome_bindE split: sum.splits)

section \<open>Evictions\<close>

definition evictions :: "service \<Rightarrow> nat" where
  "evictions s = length (filter (\<lambda>e. fst e = EvictionEvent) (sv_events s))"

lemma evictions_record [simp]:
  "evictions (record_event e i s) = evictions s + (if e = EvictionEvent then 1 else 0)"
  by (simp add: evictions_def record_event_def)

lemma evictions_cong: "sv_events t = sv_events s \<Longrightarrow> evictions t = evictions s"
  by (simp add: evictions_def)

interpretation eviction_count: silent "\<lambda>w. True" "\<lambda>s. evictions s = k" for k
  by unfold_locales (auto simp: touch_def set_activity_def evictions_def)

text \<open>Programs that evict nothing, in front of one that evicts at most \<open>n\<close>.\<close>

lemma spends_quiet:
  "(\<And>k. keeps (\<lambda>w. True) (\<lambda>s. evictions s = k) p) \<Longrightarrow> spends evictions n p"
  by (rule neutral_spends, rule keeps_neutral)

lemma spends_quiet_bind:
  "(\<And>k. keeps (\<lambda>w. True) (\<lambda>s. evictions s = k) p) \<Longrightarrow> (\<And>a. spends evictions n (q a)) \<Longrightarrow>
    spends evictions n (bindp p q)"
  using spends_bind [OF spends_quiet [where n = 0], of p n q] by simp

lemma spends_quiet_bind_ok:
  "(\<And>k. keeps (\<lambda>w. True) (\<lambda>s. evictions s = k) p) \<Longrightarrow> (\<And>a. spends evictions n (q a)) \<Longrightarrow>
    spends evictions n (bind_ok p q)"
  unfolding bind_ok_def by (rule spends_quiet_bind) (auto intro: spends_Return split: sum.splits)

lemma spends_quiet_check_err:
  "(\<And>k. keeps (\<lambda>w. True) (\<lambda>s. evictions s = k) p) \<Longrightarrow> spends evictions n q \<Longrightarrow>
    spends evictions n (check_err p q)"
  unfolding check_err_def by (rule spends_quiet_bind) (auto intro: spends_Return split: option.splits)

lemma evict_instance_spends: "spends evictions 1 (evict_instance c i)"
proof -
  have "spends evictions 1 (bindp (modify (record_event EvictionEvent i)) (\<lambda>_. Return (None :: life_error option)))"
    unfolding modify_def update_def act_def by (auto intro!: spends_Act spends_Return exI [of _ 0])
  then show ?thesis
    unfolding evict_instance_def
    by (auto intro!: spends_quiet_check_err spends_quiet_bind spends_Return eviction_count.keeps_claim_eviction
        eviction_count.keeps_abort_drain_claim eviction_count.keeps_stop_worker eviction_count.keeps_marks
        keeps_readp keeps_Return split: option.splits)
qed

lemmas launch_quiet = spends_quiet_bind_ok spends_quiet_bind spends_Return
  eviction_count.keeps_ledger_acquire eviction_count.keeps_on_ledger eviction_count.keeps_eviction_candidates
  eviction_count.keeps_plan_eviction eviction_count.keeps_release_reservation eviction_count.keeps_get
  eviction_count.keeps_hardware_snapshot

lemma launch_last_round_spends: "spends evictions 0 (launch_round c i req allow None skip s)"
  unfolding launch_round_def by (auto intro!: launch_quiet split: prod.splits)

lemma launch_round_spends:
  assumes f: "\<And>skip s. spends evictions n (f skip s)"
  shows "spends evictions (Suc n) (launch_round c i req allow (Some f) skip s)"
proof -
  have next_round: "spends evictions (Suc n) (f skip s)" for skip s
    by (rule spends_weaken [OF f]) simp
  have evict: "spends evictions (Suc n) (bindp (evict_instance c v) q)" if "\<And>a. spends evictions n (q a)" for v
    and q :: "life_error option \<Rightarrow> (life_error + runtime_plan) go"
    using spends_bind [OF evict_instance_spends that] by simp
  show ?thesis
    unfolding launch_round_def
    by (auto intro!: evict f next_round launch_quiet split: option.splits prod.splits)
qed

lemma launch_rounds_spends: "spends evictions n (launch_rounds n c i req allow skip s)"
  by (induction n arbitrary: skip s) (simp_all add: launch_last_round_spends launch_round_spends)

text \<open>
  One launch disturbs at most eight Instances: among the actions of \<open>prepareRuntimeLaunch\<close> there
  are at most eight completed evictions, whatever the world answers and whatever other programs do
  between its actions, as long as these do not evict themselves.
\<close>

theorem launch_disruption_bounded:
  assumes "outcome R (prepare_runtime_launch c row b path opts p allow) s r t"
    and "\<And>u v. R u v \<Longrightarrow> evictions v = evictions u"
  shows "evictions t \<le> evictions s + max_eviction_plan_attempts"
proof (rule spends_outcome [OF assms(1)])
  show "spends evictions max_eviction_plan_attempts (prepare_runtime_launch c row b path opts p allow)"
    unfolding prepare_runtime_launch_def
    by (auto intro!: spends_quiet_bind spends_Return keeps_readp eviction_count.keeps_hardware_snapshot launch_rounds_spends
        split: option.splits)
qed (rule assms(2))

section \<open>The plan of a launch\<close>

text \<open>
  The last action before \<open>t\<close> was an acquisition of the Instance for the request of this launch, with no
  credits for victims, that granted the plan and left its lease pending in the ledger.
\<close>

definition granted :: "(service \<Rightarrow> service \<Rightarrow> bool) \<Rightarrow> instance_row \<Rightarrow> profile \<Rightarrow> runtime_plan \<Rightarrow> service \<Rightarrow> bool" where
  "granted R row p plan t \<longleftrightarrow>
     (\<exists>u l (w :: world) now_seen first_seen d lease.
        acquire_runtime (sv_ledger u) (wo_now w) (wo_later w) (wo_lease w)
          \<lparr>ra_instance = in_id row, ra_snapshot = now_seen, ra_plan = launch_request row p d first_seen, ra_credits = []\<rparr>
          = Some (l, Inr (lease, plan)) \<and>
        rp_fits plan \<and> map_of (lg_leases l) (ls_id lease) = Some lease \<and> ls_state lease = Pending \<and> R (u\<lparr>sv_ledger := l\<rparr>) t)"

lemma granted_recorded:
  assumes "acquire_runtime l0 now later fresh req = Some (l, Inr (lease, plan))" and "rp_fits plan"
  shows "map_of (lg_leases l) (ls_id lease) = Some lease \<and> ls_state lease = Pending"
  using assms by (auto simp: acquire_runtime_def Let_def record_lease_def update_conv' split: if_splits prod.splits option.splits sum.splits)

lemma ledger_acquire_outcome:
  assumes "outcome R (ledger_acquire i s req credits) u (Inr (lease, plan)) t"
  obtains v and w :: world and l where "acquire_runtime (sv_ledger v) (wo_now w) (wo_later w) (wo_lease w)
      \<lparr>ra_instance = i, ra_snapshot = s, ra_plan = req, ra_credits = credits\<rparr> = Some (l, Inr (lease, plan))"
    and "R (v\<lparr>sv_ledger := l\<rparr>) t"
proof -
  from assms obtain w :: world and v where
    "(case acquire_runtime (sv_ledger u) (wo_now w) (wo_later w) (wo_lease w)
            \<lparr>ra_instance = i, ra_snapshot = s, ra_plan = req, ra_credits = credits\<rparr> of
       None \<Rightarrow> None
     | Some (l, Inl e) \<Rightarrow> Some (u\<lparr>sv_ledger := l\<rparr>, Inl (ErrLedger e))
     | Some (l, Inr r) \<Rightarrow> Some (u\<lparr>sv_ledger := l\<rparr>, Inr r)) = Some (v, Inr (lease, plan))" and "R v t"
    unfolding ledger_acquire_def by (auto elim!: outcome_awaitE)
  then show thesis using that [of u w] by (auto split: option.splits prod.splits sum.splits)
qed

text \<open>The candidates of an Instance never include itself.\<close>

lemma candidates_not_own:
  "outcome R (candidates_loop own skip s rows) u (Inr cs) t \<Longrightarrow> c \<in> set cs \<Longrightarrow> cd_instance c \<noteq> own"
proof (induction rows arbitrary: u cs)
  case (Cons row rows)
  then show ?case
    by (auto elim!: outcome_bindE outcome_bind_okE split: if_splits option.splits simp: candidate_for_def Let_def)
qed simp

lemma eviction_candidates_not_own:
  "outcome R (eviction_candidates own skip s) u (Inr cs) t \<Longrightarrow> c \<in> set cs \<Longrightarrow> cd_instance c \<noteq> own"
  unfolding eviction_candidates_def
  by (auto elim!: outcome_bindE split: option.splits dest: candidates_not_own)

lemma plan_eviction_outcome:
  assumes "outcome R (plan_eviction i s req base cs) u p t"
  obtains view where "plan_runtime_evictions_with_snapshots cs req (Some view) = Some p"
  using assms unfolding plan_eviction_def by (auto elim!: outcome_awaitE)

lemma no_victim_credits:
  assumes "plan_runtime_evictions_with_snapshots cs req (Some view) = Some p"
    and "\<And>c. c \<in> set cs \<Longrightarrow> cd_instance c \<noteq> i" and "first_victim i (ep_evict p) = None"
  shows "credits_from_candidates (ep_evict p) = []"
proof -
  have "set (ep_evict p) \<subseteq> set cs"
    using runtime_evictions_aux [OF assms(1)] set_subseq [of "ep_evict p" "rank_eviction_candidates cs"] by auto
  then have "cd_instance c = []" if "c \<in> set (ep_evict p)" for c
    using assms(2,3) that by (auto simp: first_victim_def find_None_iff)
  then show ?thesis by (auto simp: credits_from_candidates_def filter_empty_conv)
qed

lemma launch_round_grants:
  assumes run: "outcome R (launch_round c (in_id row) (launch_request row p d s0) allow retry skip s) u (Inr plan) t"
    and later: "\<And>f skip s v. retry = Some f \<Longrightarrow> outcome R (f skip s) v (Inr plan) t \<Longrightarrow> granted R row p plan t"
  shows "granted R row p plan t"
proof -
  let ?i = "in_id row" and ?r = "launch_request row p d s0"
  have grant: "granted R row p plan t" if "outcome R (ledger_acquire ?i s ?r credits) v (Inr (lease, plan)) t"
    "rp_fits plan" "credits = []" for credits v lease
    using ledger_acquire_outcome [OF that(1)] granted_recorded that(2,3) unfolding granted_def by metis
  have claim: "granted R row p plan t" if "outcome R (eviction_candidates ?i skip planning) v1 (Inr cs) v2"
    "outcome R (plan_eviction ?i s ?r [] cs) v2 e v3" "first_victim ?i (ep_evict e) = None" "rp_fits plan"
    "outcome R (ledger_acquire ?i s ?r (credits_from_candidates (ep_evict e))) v3 (Inr (lease, plan)) t"
    for planning v1 cs v2 e v3 lease
  proof (rule grant [OF that(5,4)])
    from that(2) obtain view where "plan_runtime_evictions_with_snapshots cs ?r (Some view) = Some e"
      by (rule plan_eviction_outcome)
    then show "credits_from_candidates (ep_evict e) = []"
      by (rule no_victim_credits [OF _ _ that(3)]) (rule eviction_candidates_not_own [OF that(1)])
  qed
  have none: "credits_from_candidates [] = []" by (simp add: credits_from_candidates_def)
  note free = grant [OF _ _ refl]
  show ?thesis
  proof (cases retry)
    case None
    with run show ?thesis
      unfolding launch_round_def none
      by (auto elim!: outcome_bind_okE outcome_bindE split: if_splits dest: free)
  next
    case (Some f)
    note next_round = later [OF Some]
    from run show ?thesis
      unfolding launch_round_def none Some
      by (auto elim!: outcome_bind_okE outcome_bindE split: if_splits option.splits)
        (erule free claim next_round; assumption)+
  qed
qed

lemma launch_rounds_grant:
  "outcome R (launch_rounds n c (in_id row) (launch_request row p d s0) allow skip s) u (Inr plan) t \<Longrightarrow>
    granted R row p plan t"
proof (induction n arbitrary: skip s u)
  case 0
  then show ?case by simp (erule launch_round_grants, simp)
next
  case (Suc n)
  then show ?case by simp (erule launch_round_grants, auto)
qed



text \<open>The launch of the sample Instance, alone on an empty manager.\<close>

lemma sample_prepare:
  obtains plan t where "outcome (=) (prepare_runtime_launch Background (sample_row ''a'') 8000000000 ''/m.gguf''
      [''n-gpu-layers'' \<mapsto> ''16''] zero_profile True) (new_service 0) (Inr plan) t"
    and "rp_mode plan \<noteq> ''unmanaged''" and "lease_by_instance (sv_ledger t) ''a'' \<noteq> None"
proof -
  let ?host = "sample_host [(''CUDA0'', 20000000000)]"
  obtain l x p where g: "acquire_runtime (new_ledger 0) 5 6 ''lease'' \<lparr>ra_instance = ''a'', ra_snapshot = ?host,
      ra_plan = sample_launch, ra_credits = []\<rparr> = Some (l, Inr (x, p))"
    and p: "rp_fits p" "rp_mode p \<noteq> ''unmanaged''" "lease_by_instance l ''a'' = Some x" "ls_state x = Pending"
    by (rule sample_grant)
  let ?t = "(new_service 0)\<lparr>sv_ledger := l\<rparr>"
  have manual: "\<not> equal_fold (trim_space (in_gpu_mode (sample_row ''a''))) ''manual''" by code_simp
  have id: "in_id (sample_row ''a'') = ''a''" by (simp add: sample_row_def)
  have led: "sv_ledger (new_service 0) = new_ledger 0" by (simp add: new_service_def)
  have world: "wo_now launch_world = 5" "wo_later launch_world = 6" "wo_lease launch_world = ''lease''"
    "wo_profile launch_world = None" "wo_snapshot launch_world = Some ?host"
    by (simp_all add: launch_world_def sample_world_def)
  have none: "credits_from_candidates [] = []" by (simp add: credits_from_candidates_def)
  have acq: "outcome (=) (ledger_acquire ''a'' ?host sample_launch []) (new_service 0) (Inr (x, p)) ?t"
    unfolding ledger_acquire_def await_def
    by (rule acts [where w = launch_world and s' = ?t and p = "Return (Inr (x, p))"])
      (simp_all add: led world g finished)
  have seen: "outcome (=) hardware_snapshot (new_service 0) (Some ?host) (new_service 0)"
    unfolding hardware_snapshot_def readp_def
    by (rule outcome_actI [where w = launch_world])
      (simp_all add: world filter_devices_def runtime_devices_from_getter_def)
  have round: "outcome (=) (launch_rounds max_eviction_plan_attempts Background ''a'' sample_launch True {} ?host)
      (new_service 0) (Inr p) ?t"
    unfolding max_eviction_plan_attempts_def
    by (simp add: launch_round_def none bind_ok_def eval_nat_numeral)
      (rule outcome_bindI [OF acq], simp add: p)
  have demand: "outcome (=) (readp (\<lambda>w s. demand_input_now w 8000000000 ''/m.gguf'' [''n-gpu-layers'' \<mapsto> ''16'']))
      (new_service 0) (demand_input_now launch_world 8000000000 ''/m.gguf'' [''n-gpu-layers'' \<mapsto> ''16'']) (new_service 0)"
    unfolding readp_def by (rule outcome_actI [where w = launch_world]) simp_all
  have "outcome (=) (prepare_runtime_launch Background (sample_row ''a'') 8000000000 ''/m.gguf''
      [''n-gpu-layers'' \<mapsto> ''16''] zero_profile True) (new_service 0) (Inr p) ?t"
    unfolding prepare_runtime_launch_def using manual
    by (simp add: id) (rule outcome_bindI [OF demand], rule outcome_bindI [OF seen],
        use round in \<open>simp add: sample_launch_def\<close>)
  then show thesis by (rule that) (simp_all add: p)
qed


theorem launch_disruption_bounded_witness:
  "\<exists>plan t. outcome (=) (prepare_runtime_launch Background (sample_row ''a'') 8000000000 ''/m.gguf''
      [''n-gpu-layers'' \<mapsto> ''16''] zero_profile True) (new_service 0) (Inr plan) t \<and>
    evictions t \<le> evictions (new_service 0) + 8"
proof -
  obtain plan t where run: "outcome (=) (prepare_runtime_launch Background (sample_row ''a'') 8000000000 ''/m.gguf''
      [''n-gpu-layers'' \<mapsto> ''16''] zero_profile True) (new_service 0) (Inr plan) t"
    by (rule sample_prepare)
  have "evictions t \<le> evictions (new_service 0) + 8"
    using launch_disruption_bounded [OF run] by (simp add: max_eviction_plan_attempts_def)
  then show ?thesis using run by blast
qed

end
