(* ===== verification/Superseded_Start.thy ===== *)
theory Superseded_Start
  imports Service_Frame Sample_Service
begin

text \<open>
  Two starts of one Instance. A start that was superseded (by a restart, a stop or a kill) gives up the
  lease of its Instance in its deferred function, and so the lease that the newer start holds by then.
\<close>

section \<open>Leases of an Instance\<close>

abbreviation instance_key :: "string \<Rightarrow> string" where
  "instance_key i \<equiv> resource_owner_key \<lparr>ow_kind = owner_instance, ow_id = i\<rparr>"

lemma normalize_instance:
  assumes "trim_space i = i" and "i \<noteq> []"
  shows "normalize_owner \<lparr>ow_kind = owner_instance, ow_id = i\<rparr> [] = Inr \<lparr>ow_kind = owner_instance, ow_id = i\<rparr>"
proof -
  have "to_lower (trim_space owner_instance) = owner_instance" "trim_space [] = []" by code_simp+
  then show ?thesis using assms by (simp add: normalize_owner_def Let_def)
qed

lemma release_instance_drops:
  assumes "ledger_inv l" and "trim_space i = i" and "i \<noteq> []"
  shows "ledger_inv (release_instance i l) \<and> lease_at (release_instance i l) (instance_key i) = None"
proof -
  have "release_instance i l = release_owner_locked \<lparr>ow_kind = owner_instance, ow_id = i\<rparr> l"
    using assms by (simp add: release_instance_def release_owner_def normalize_instance [OF assms(2,3)])
  then show ?thesis using assms(1) by (simp add: release_owner_inv lease_at_release_owner)
qed

lemma commit_without_lease:
  assumes "ledger_inv l" and "trim_space i = i" and "i \<noteq> []" and "lease_at l (instance_key i) = None"
  shows "commit_instance i l = (l, None)"
  using assms lookup_owner(1) [OF assms(1), of "instance_key i"]
  by (simp add: commit_instance_def commit_owner_def normalize_instance [OF assms(2,3)] Let_def)

lemma get_without_lease:
  assumes "ledger_inv l" and "trim_space i = i" and "i \<noteq> []" and "lease_at l (instance_key i) = None"
  shows "get_by_instance now i l = (sweep_expired now l, None)"
  using assms lookup_owner(1) [OF sweep_inv [OF assms(1)], of now "instance_key i"]
  by (simp add: get_by_instance_def get_by_owner_def normalize_instance [OF assms(2,3)] Let_def lease_at_sweep [OF assms(1)])

lemma get_sweeps:
  assumes "trim_space i = i" and "i \<noteq> []"
  obtains x where "get_by_instance now i l = (sweep_expired now l, x)"
  using that assms by (simp add: get_by_instance_def get_by_owner_def normalize_instance [OF assms] Let_def)

section \<open>The lost lease\<close>

text \<open>
  C5. A superseded start takes the lease of its successor: take any state in which a start of an Instance
  under the current generation has its worker ready, and is about to commit the lease the ledger has
  granted it. If the deferred function of an older, killed start of this Instance runs first - it releases by
  Instance, not by lease - the newer start still succeeds: committing nothing is no error, the
  endpoint is returned, and the worker serves with no lease in the ledger and untracked, so
  that later launches plan with memory that is in use.
\<close>

theorem superseded_start_drops_lease:
  assumes "ledger_inv (sv_ledger s)" and "trim_space i = i" and "i \<noteq> []"
    and "rt_state (status (sv_sup s) i) = Ready" and "sv_gen s i = g" and "(i, g) \<notin> sv_cancelled s"
  shows "\<exists>url t. outcome (=) (bindp (start_cleanup i (Inl ErrStartupKilled)) (\<lambda>_. finish_launch (Startup i g) i rt))
      s (Inr url) t \<and>
    lease_at (sv_ledger t) (instance_key i) = None \<and> rt_state (status (sv_sup t) i) = Ready \<and>
    sv_tracked t = sv_tracked s"
proof -
  fix w :: world
  let ?now = "wo_now w"
  define l1 where "l1 = sweep_expired ?now (sv_ledger s)"
  define l2 where "l2 = release_instance i l1"
  define l3 where "l3 = sweep_expired ?now l2"
  have inv: "ledger_inv l1" "ledger_inv l2" "ledger_inv l3"
    using assms(1-3) by (auto simp: l1_def l2_def l3_def sweep_inv release_instance_drops)
  have none: "lease_at l2 (instance_key i) = None" "lease_at l3 (instance_key i) = None"
    using release_instance_drops [OF inv(1) assms(2,3)] lease_at_sweep [OF inv(2)] by (auto simp: l2_def l3_def)
  obtain x where first: "get_by_instance ?now i (sv_ledger s) = (l1, x)"
    using get_sweeps [OF assms(2,3)] unfolding l1_def by metis
  note gone = commit_without_lease [OF inv(2) assms(2,3) none(1)] get_without_lease [OF inv(2) assms(2,3) none(1)]
    get_without_lease [OF inv(3) assms(2,3) none(2)]
  define l4 where "l4 = sweep_expired ?now l3"
  obtain url where served: "endpoint (sc_host (wo_supervisor w)) (sv_sup s) i = Some url"
    using assms(4) by (auto simp: endpoint_def)
  let ?s = "s\<lparr>sv_ledger := l2\<rparr>" and ?t = "touch ?now i (s\<lparr>sv_ledger := l4\<rparr>)"
  have cleanup: "outcome (=) (start_cleanup i (Inl ErrStartupKilled)) s () ?s"
    by (rule alone_outcome [where w = w])
      (simp add: start_cleanup_def release_reservation_def alone_simps on_ledger_def first l2_def)
  have finish: "outcome (=) (finish_launch (Startup i g) i rt) ?s (Inr url) ?t"
    by (rule alone_outcome [where w = w])
      (simp add: finish_launch_def check_def commit_reservation_def ctx_err_def generation_live_def startup_live_def get_def
        sup_endpoint_def on_ledger_def alone_simps cancelled_def assms(5,6) served gone flip: l3_def l4_def)
  have "outcome (=) (bindp (start_cleanup i (Inl ErrStartupKilled)) (\<lambda>_. finish_launch (Startup i g) i rt))
      s (Inr url) ?t"
    by (rule outcome_bindI [OF cleanup finish])
  moreover have "lease_at l4 (instance_key i) = None"
    using none(2) lease_at_sweep [OF inv(3)] by (simp add: l4_def)
  ultimately show ?thesis
    using assms(4) by (intro exI [of _ url] exI [of _ ?t]) (simp add: touch_def set_activity_def)
qed

text \<open>The second start of the sample Instance, with its worker ready and its lease pending.\<close>

definition second_start :: "ledger \<Rightarrow> service" where
  "second_start l = (new_service 0)\<lparr>sv_ledger := l, sv_gen := (\<lambda>i. 1), sv_sup := set_worker ''a''
     \<lparr>wk_serial = 0, wk_runtime = \<lparr>rt_instance = ''a'', rt_model = ''m'', rt_state = Ready, rt_pid = 42, rt_port = 9000\<rparr>,
      wk_process = True, wk_generation = []\<rparr> new_supervisor\<rparr>"

theorem superseded_start_drops_lease_witness:
  "\<exists>l x url t. lease_by_instance (sv_ledger (second_start l)) ''a'' = Some x \<and> ls_state x = Pending \<and>
     outcome (=) (bindp (start_cleanup ''a'' (Inl ErrStartupKilled)) (\<lambda>_. finish_launch (Startup ''a'' 1) ''a''
       (status (sv_sup (second_start l)) ''a''))) (second_start l) (Inr url) t \<and>
     lease_at (sv_ledger t) (instance_key ''a'') = None \<and> rt_state (status (sv_sup t) ''a'') = Ready"
proof -
  obtain l x p where g: "acquire_runtime (new_ledger 0) 5 6 ''lease'' \<lparr>ra_instance = ''a'',
      ra_snapshot = sample_host [(''CUDA0'', 20000000000)], ra_plan = sample_launch, ra_credits = []\<rparr> = Some (l, Inr (x, p))"
    and x: "rp_fits p" "lease_by_instance l ''a'' = Some x" "ls_state x = Pending"
    by (rule sample_grant)
  have "ledger_inv l"
    by (rule acquire_runtime_inv [OF new_ledger_inv _ g]) (simp add: fresh_id_def new_ledger_def)
  then have inv: "ledger_inv (sv_ledger (second_start l))" by (simp add: second_start_def)
  have ok: "trim_space ''a'' = ''a''" "''a'' \<noteq> []"
    "rt_state (status (sv_sup (second_start l)) ''a'') = Ready" "sv_gen (second_start l) ''a'' = 1"
    "(''a'', 1) \<notin> sv_cancelled (second_start l)"
    by (code_simp) (simp_all add: second_start_def new_service_def status_def worker_of_def set_worker_def new_supervisor_def)
  then show ?thesis
    using superseded_start_drops_lease [OF inv ok, of "status (sv_sup (second_start l)) ''a''"] x
    by (intro exI [of _ l] exI [of _ x]) (auto simp: second_start_def)
qed

end
