(* ===== verification/Stale_Workers.thy ===== *)
theory Stale_Workers
  imports Supervisor
begin

text \<open>
  \<open>ReconcileStaleWorkers\<close> (\<open>supervisor/reconcile.go\<close>, \<open>proc.go\<close>): after a crash of the manager the workers it
  had started are found by the identity in their environment, or by the rows the crashed manager had
  stored, and terminated. The state holds the processes of the host in the order of the listing, the PIDs
  whose files the manager may not read, the stored rows, and the signals sent with the process each one
  reached. The interface \<open>ProcScanner\<close> is its \<open>LinuxProcScanner\<close>.
\<close>

section \<open>Reading \<open>/proc\<close>\<close>

definition env_installation :: string where
  "env_installation = ''LLAMARACK_INSTALLATION_ID''"

definition env_instance :: string where
  "env_instance = ''LLAMARACK_INSTANCE_ID''"

definition env_generation :: string where
  "env_generation = ''LLAMARACK_WORKER_GENERATION''"

definition env_port :: string where
  "env_port = ''LLAMARACK_WORKER_PORT''"

text \<open>\<open>strings.Fields\<close>.\<close>

fun take_word :: "string \<Rightarrow> string \<times> string" where
  "take_word [] = ([], [])"
| "take_word (c # s) = (if starts_space (c # s) then ([], c # s) else let (w, r) = take_word s in (c # w, r))"

lemma take_word_length: "length (snd (take_word s)) \<le> length s"
  by (induction s) (auto split: prod.splits)

lemma trim_left_length: "length (trim_left s) \<le> length s"
  using trim_left_suffix by (metis suffix_length_le)

function fields_of :: "string \<Rightarrow> string list" where
  "fields_of s =
     (case trim_left s of
        [] \<Rightarrow> []
      | c # t \<Rightarrow> let (w, r) = take_word t in (c # w) # fields_of r)"
  by auto
termination
proof (relation "measure length", simp)
  fix s c t x w r
  assume "trim_left s = c # t" "x = take_word t" "(w, r) = x"
  then have "length r \<le> length t" "Suc (length t) \<le> length s"
    using take_word_length [of t] trim_left_length [of s] by (metis snd_conv, simp)
  then show "(r, s) \<in> measure length" by simp
qed

definition after_last :: "char \<Rightarrow> string \<Rightarrow> string option" where
  "after_last c s = (if c \<in> set s then Some (rev (takeWhile (\<lambda>x. x \<noteq> c) (rev s))) else None)"

definition parse_start_ticks :: "string \<Rightarrow> int option" where
  "parse_start_ticks stat =
     (case after_last (CHR '')'') stat of
        None \<Rightarrow> None
      | Some rest \<Rightarrow> let fs = fields_of rest in if length fs < 20 then None else parse_uint (fs ! 19))"

definition cut_entry :: "string \<Rightarrow> (string \<times> string) option" where
  "cut_entry e = (if CHR ''='' \<in> set e then Some (env_key e, tl (dropWhile (\<lambda>c. c \<noteq> CHR ''='') e)) else None)"

definition add_entry :: "(string \<rightharpoonup> string) \<Rightarrow> string \<Rightarrow> (string \<rightharpoonup> string)" where
  "add_entry m e =
     (if e = [] then m
      else case cut_entry e of
        None \<Rightarrow> m
      | Some (k, v) \<Rightarrow> if k = [] then m else m(k \<mapsto> v))"

definition parse_environ :: "string \<Rightarrow> (string \<rightharpoonup> string)" where
  "parse_environ raw = foldl add_entry Map.empty (split_on CHR 0x00 raw)"

definition parse_port_env :: "(string \<rightharpoonup> string) \<Rightarrow> i64" where
  "parse_port_env env =
     (case parse_int (trim_space (lookup_string env env_port)) of
        None \<Rightarrow> 0
      | Some p \<Rightarrow> if p \<le> 0 then 0 else p)"

section \<open>Ownership\<close>

record proc =
  pc_pid :: int
  pc_ticks :: int
  pc_environ :: "string \<rightharpoonup> string"

record worker_record =
  wr_instance :: string
  wr_generation :: string
  wr_pid :: int
  wr_ticks :: int
  wr_port :: i64

definition owned_by_installation :: "proc \<Rightarrow> string \<Rightarrow> bool" where
  "owned_by_installation p installation \<longleftrightarrow>
     lookup_string (pc_environ p) env_installation = installation \<and>
     lookup_string (pc_environ p) env_instance \<noteq> [] \<and> lookup_string (pc_environ p) env_generation \<noteq> []"

definition start_identity_mismatch :: "worker_record \<Rightarrow> proc \<Rightarrow> bool" where
  "start_identity_mismatch r p \<longleftrightarrow> wr_ticks r \<noteq> 0 \<and> pc_ticks p \<noteq> wr_ticks r"

definition record_owns_process :: "worker_record \<Rightarrow> proc \<Rightarrow> string \<Rightarrow> bool" where
  "record_owns_process r p installation \<longleftrightarrow>
     lookup_string (pc_environ p) env_installation = installation \<and>
     lookup_string (pc_environ p) env_instance = wr_instance r \<and>
     lookup_string (pc_environ p) env_generation = wr_generation r"

section \<open>The host\<close>

datatype signal = SigTerm | SigKill

datatype inspected = Found proc | Gone | Unreadable

datatype signalled = Delivered | NoProcess | Refused

record host =
  ho_procs :: "proc list"
  ho_hidden :: "int set"
  ho_listable :: bool
  ho_cancelled :: bool
  ho_records :: "worker_record list"
  ho_signals :: "(proc \<times> signal) list"

text \<open>
  What an action meets outside: whether the process obeys at once, whether a signal is refused, whether
  the deadline of a wait has passed, whether the port is free, whether a statement of the store works.
\<close>

record host_world =
  hw_obeys :: bool
  hw_refused :: bool
  hw_elapsed :: bool
  hw_free :: "i64 \<Rightarrow> bool"
  hw_store :: bool

type_synonym 'a scan = "(host_world, host, 'a) prog"

definition process_at :: "host \<Rightarrow> int \<Rightarrow> proc option" where
  "process_at h pid = find (\<lambda>p. pc_pid p = pid) (ho_procs h)"

definition inspect_process :: "host \<Rightarrow> int \<Rightarrow> inspected" where
  "inspect_process h pid =
     (if pid \<le> 0 then Unreadable
      else case process_at h pid of
        None \<Rightarrow> Gone
      | Some p \<Rightarrow> if pid \<in> ho_hidden h then Unreadable else Found p)"

definition list_processes :: "host \<Rightarrow> proc list option" where
  "list_processes h =
     (if ho_listable h then Some (filter (\<lambda>p. inspect_process h (pc_pid p) = Found p) (ho_procs h)) else None)"

definition alive_process :: "host \<Rightarrow> int \<Rightarrow> int \<Rightarrow> bool" where
  "alive_process h pid ticks =
     (case inspect_process h pid of
        Found p \<Rightarrow> ticks = 0 \<or> pc_ticks p = ticks
      | _ \<Rightarrow> False)"

definition send_signal :: "int \<Rightarrow> signal \<Rightarrow> signalled scan" where
  "send_signal pid sig = act (\<lambda>w h.
     if pid \<le> 0 then (h, Refused)
     else case process_at h pid of
       None \<Rightarrow> (h, NoProcess)
     | Some p \<Rightarrow>
         if hw_refused w then (h, Refused)
         else (h\<lparr>ho_procs := (if hw_obeys w then filter (\<lambda>q. pc_pid q \<noteq> pid) (ho_procs h) else ho_procs h),
                 ho_signals := ho_signals h @ [(p, sig)]\<rparr>, Delivered))"

section \<open>Terminating one process\<close>

datatype stale_error = ScanFailed | InspectFailed | SignalFailed | DidNotExit | PortOccupied | ScanCancelled

text \<open>A waiting loop looks again at every tick; a look that settles nothing is an action that is not enabled.\<close>

definition wait_process_gone :: "int \<Rightarrow> int \<Rightarrow> stale_error option scan" where
  "wait_process_gone pid ticks = await (\<lambda>w h.
     if \<not> alive_process h pid ticks then Some (h, None)
     else if hw_elapsed w then Some (h, Some DidNotExit)
     else if ho_cancelled h then Some (h, Some ScanCancelled)
     else None)"

definition wait_port_released :: "i64 \<Rightarrow> stale_error option scan" where
  "wait_port_released port =
     (if port \<le> 0 then Return None
      else await (\<lambda>w h.
        if hw_free w port then Some (h, None)
        else if hw_elapsed w then Some (h, Some PortOccupied)
        else if ho_cancelled h then Some (h, Some ScanCancelled)
        else None))"

definition terminate_owned :: "worker_record \<Rightarrow> proc \<Rightarrow> stale_error option scan" where
  "terminate_owned r p =
     bindp (send_signal (pc_pid p) SigTerm) (\<lambda>x. if x = Refused then Return (Some SignalFailed)
     else bindp (wait_process_gone (pc_pid p) (pc_ticks p)) (\<lambda>e. case e of
       None \<Rightarrow> wait_port_released (wr_port r)
     | Some _ \<Rightarrow>
         bindp (send_signal (pc_pid p) SigKill) (\<lambda>x. if x = Refused then Return (Some SignalFailed)
         else bindp (wait_process_gone (pc_pid p) (pc_ticks p)) (\<lambda>e. case e of
           Some e \<Rightarrow> Return (Some e)
         | None \<Rightarrow> wait_port_released (wr_port r)))))"

section \<open>The reconciliation\<close>

record reconcile_result =
  rc_detected :: nat
  rc_terminated :: nat
  rc_rejected :: nat
  rc_cleaned :: nat
  rc_blocked :: "string \<rightharpoonup> stale_error"

definition no_result :: reconcile_result where
  "no_result = \<lparr>rc_detected = 0, rc_terminated = 0, rc_rejected = 0, rc_cleaned = 0, rc_blocked = Map.empty\<rparr>"

definition block_instance :: "string \<Rightarrow> stale_error \<Rightarrow> reconcile_result \<Rightarrow> reconcile_result" where
  "block_instance i e res = res\<lparr>rc_blocked := (rc_blocked res)(i \<mapsto> e)\<rparr>"

definition detected :: "reconcile_result \<Rightarrow> reconcile_result" where
  "detected res = res\<lparr>rc_detected := rc_detected res + 1\<rparr>"

definition terminated :: "reconcile_result \<Rightarrow> reconcile_result" where
  "terminated res = res\<lparr>rc_terminated := rc_terminated res + 1\<rparr>"

definition rejected :: "reconcile_result \<Rightarrow> reconcile_result" where
  "rejected res = res\<lparr>rc_rejected := rc_rejected res + 1\<rparr>"

definition delete_record :: "string \<Rightarrow> reconcile_result \<Rightarrow> reconcile_result scan" where
  "delete_record i res = act (\<lambda>w h.
     if hw_store w
     then (h\<lparr>ho_records := filter (\<lambda>r. wr_instance r \<noteq> i) (ho_records h)\<rparr>, res\<lparr>rc_cleaned := rc_cleaned res + 1\<rparr>)
     else (h, res))"

definition list_records :: "worker_record list option scan" where
  "list_records = readp (\<lambda>w h. if hw_store w then Some (ho_records h) else None)"

definition get_record :: "string \<Rightarrow> worker_record option scan" where
  "get_record i = readp (\<lambda>w h. if hw_store w then find (\<lambda>r. wr_instance r = i) (ho_records h) else None)"

type_synonym progress = "reconcile_result \<times> string set"

definition handled_key :: "string \<Rightarrow> string \<Rightarrow> string" where
  "handled_key i generation = i @ CHR ''/'' # generation"

definition identity_instance :: "proc \<Rightarrow> string" where
  "identity_instance p = lookup_string (pc_environ p) env_instance"

definition identity_generation :: "proc \<Rightarrow> string" where
  "identity_generation p = lookup_string (pc_environ p) env_generation"

text \<open>One stored row that is not the one of a running generation.\<close>

definition reconcile_record :: "string \<Rightarrow> worker_record \<Rightarrow> progress \<Rightarrow> progress scan" where
  "reconcile_record installation r = (\<lambda>(res, handled).
     let i = wr_instance r; key = handled_key i (wr_generation r)
     in bindp (readp (\<lambda>w h. inspect_process h (wr_pid r))) (\<lambda>x. case x of
          Unreadable \<Rightarrow> Return (block_instance i InspectFailed res, handled)
        | Gone \<Rightarrow> bindp (delete_record i res) (\<lambda>res. Return (res, handled))
        | Found p \<Rightarrow>
            if start_identity_mismatch r p
            then bindp (delete_record i res) (\<lambda>res. Return (rejected res, handled))
            else if \<not> record_owns_process r p installation
            then bindp (delete_record i (rejected res)) (\<lambda>res. Return (res, handled))
            else bindp (terminate_owned r p) (\<lambda>e. case e of
              Some e \<Rightarrow> Return (block_instance i e (detected res), insert key handled)
            | None \<Rightarrow> bindp (delete_record i (detected res)) (\<lambda>res. Return (terminated res, insert key handled)))))"

primrec records_loop ::
    "string \<Rightarrow> (string \<rightharpoonup> string) \<Rightarrow> worker_record list \<Rightarrow> progress \<Rightarrow> progress scan" where
  "records_loop installation live [] acc = Return acc"
| "records_loop installation live (r # rs) acc =
     bindp (readp (\<lambda>w h. ho_cancelled h)) (\<lambda>stop.
     if stop then Return acc
     else if lookup_string live (wr_instance r) = wr_generation r then records_loop installation live rs acc
     else bindp (reconcile_record installation r acc) (records_loop installation live rs))"

text \<open>One process that carries the identity of the installation, seen in the listing at the start.\<close>

definition reconcile_owned :: "bool \<Rightarrow> proc \<Rightarrow> progress \<Rightarrow> progress scan" where
  "reconcile_owned stored p = (\<lambda>(res, handled).
     let i = identity_instance p; generation = identity_generation p;
         r = \<lparr>wr_instance = i, wr_generation = generation, wr_pid = pc_pid p, wr_ticks = pc_ticks p,
              wr_port = parse_port_env (pc_environ p)\<rparr>
     in if handled_key i generation \<in> handled then Return (res, handled)
        else bindp (terminate_owned r p) (\<lambda>e. case e of
          Some e \<Rightarrow> Return (block_instance i e (detected res), handled)
        | None \<Rightarrow>
            bindp (if stored then get_record i else Return None) (\<lambda>x.
            bindp (if map_option wr_generation x = Some generation then delete_record i (detected res)
                   else Return (detected res)) (\<lambda>res.
            Return (terminated res, insert (handled_key i generation) handled)))))"

primrec owned_loop :: "(string \<rightharpoonup> string) \<Rightarrow> bool \<Rightarrow> proc list \<Rightarrow> progress \<Rightarrow> progress scan" where
  "owned_loop live stored [] acc = Return acc"
| "owned_loop live stored (p # ps) acc =
     bindp (readp (\<lambda>w h. ho_cancelled h)) (\<lambda>stop.
     if stop then Return acc
     else if lookup_string live (identity_instance p) = identity_generation p then owned_loop live stored ps acc
     else bindp (reconcile_owned stored p acc) (owned_loop live stored ps))"

text \<open>A failing listing blocks every stored row that does not run.\<close>

definition block_all :: "(string \<rightharpoonup> string) \<Rightarrow> worker_record list \<Rightarrow> reconcile_result" where
  "block_all live rs =
     foldl (\<lambda>res r. if lookup_string live (wr_instance r) = wr_generation r then res
       else block_instance (wr_instance r) ScanFailed res) no_result rs"

definition incomplete_identity :: "string \<Rightarrow> proc \<Rightarrow> bool" where
  "incomplete_identity installation p \<longleftrightarrow> \<not> owned_by_installation p installation \<and>
     (lookup_string (pc_environ p) env_installation \<noteq> [] \<or> identity_instance p \<noteq> [] \<or> identity_generation p \<noteq> [])"

definition reconcile_stale_workers :: "string \<Rightarrow> bool \<Rightarrow> (string \<rightharpoonup> string) \<Rightarrow> reconcile_result scan" where
  "reconcile_stale_workers installation stored live =
     (if installation = [] then Return no_result
      else bindp (readp (\<lambda>w h. list_processes h)) (\<lambda>x. case x of
        None \<Rightarrow>
          bindp (if stored then list_records else Return None) (\<lambda>rs.
          Return (case rs of None \<Rightarrow> no_result | Some rs \<Rightarrow> block_all live rs))
      | Some ps \<Rightarrow>
          let start = (no_result\<lparr>rc_rejected := length (filter (incomplete_identity installation) ps)\<rparr>, {})
          in bindp (if stored then list_records else Return None) (\<lambda>rs.
             bindp (case rs of None \<Rightarrow> Return start | Some rs \<Rightarrow> records_loop installation live rs start) (\<lambda>acc.
             bindp (owned_loop live stored (filter (\<lambda>p. owned_by_installation p installation) ps) acc)
               (\<lambda>(res, handled). Return res)))))"

section \<open>Only workers of this installation are signalled\<close>

text \<open>
  \<open>who\<close> names the one process of each PID during the run. \<open>stale\<close>: the process carries the identity of
  this installation, of a generation that does not run.
\<close>

definition named :: "(int \<Rightarrow> proc) \<Rightarrow> host \<Rightarrow> bool" where
  "named who h \<longleftrightarrow> (\<forall>p \<in> set (ho_procs h). who (pc_pid p) = p)"

definition stale :: "string \<Rightarrow> (string \<rightharpoonup> string) \<Rightarrow> proc \<Rightarrow> bool" where
  "stale installation live p \<longleftrightarrow> lookup_string (pc_environ p) env_installation = installation \<and>
     lookup_string live (identity_instance p) \<noteq> identity_generation p"

lemma record_stale:
  "record_owns_process r p installation \<Longrightarrow> lookup_string live (wr_instance r) \<noteq> wr_generation r \<Longrightarrow>
    stale installation live p"
  by (simp add: stale_def record_owns_process_def identity_instance_def identity_generation_def)

lemma owned_stale:
  "owned_by_installation p installation \<Longrightarrow> lookup_string live (identity_instance p) \<noteq> identity_generation p \<Longrightarrow>
    stale installation live p"
  by (simp add: stale_def owned_by_installation_def)

lemma process_at_named: "named who h \<Longrightarrow> process_at h pid = Some p \<Longrightarrow> p = who pid \<and> pc_pid p = pid"
  by (auto simp: process_at_def named_def find_Some_iff)

lemma inspected_named: "named who h \<Longrightarrow> inspect_process h pid = Found p \<Longrightarrow> p = who pid \<and> pc_pid p = pid \<and> 0 < pid"
  by (auto simp: inspect_process_def process_at_named split: if_splits option.splits)

definition only_stale :: "(int \<Rightarrow> proc) \<Rightarrow> string \<Rightarrow> (string \<rightharpoonup> string) \<Rightarrow> host \<Rightarrow> host \<Rightarrow> bool" where
  "only_stale who installation live s h \<longleftrightarrow> named who h \<and>
     (\<exists>xs. ho_signals h = ho_signals s @ xs \<and> (\<forall>(p, sig) \<in> set xs. stale installation live p))"

locale one_process_per_pid =
  fixes R :: "host \<Rightarrow> host \<Rightarrow> bool" and who :: "int \<Rightarrow> proc" and installation :: string
    and live :: "string \<rightharpoonup> string" and s :: host
  assumes others: "R u v \<Longrightarrow> named who u \<Longrightarrow> named who v \<and> ho_signals v = ho_signals u"
begin

abbreviation I :: "host \<Rightarrow> bool" where
  "I \<equiv> only_stale who installation live s"

abbreviation safe :: "'a scan \<Rightarrow> bool" where
  "safe p \<equiv> meets R I p (\<lambda>a. I)"

lemma stable: "I u \<Longrightarrow> R u v \<Longrightarrow> I v"
  using others by (auto simp: only_stale_def)

lemma signal_safe:
  assumes "stale installation live p" and "who (pc_pid p) = p"
  shows "safe (send_signal (pc_pid p) sig)"
  unfolding send_signal_def
proof (rule meets_act, rule stable)
  fix w h h' x
  assume h: "I h"
    and f: "(if pc_pid p \<le> 0 then (h, Refused)
     else case process_at h (pc_pid p) of None \<Rightarrow> (h, NoProcess)
     | Some q \<Rightarrow> if hw_refused w then (h, Refused)
         else (h\<lparr>ho_procs := (if hw_obeys w then filter (\<lambda>q. pc_pid q \<noteq> pc_pid p) (ho_procs h) else ho_procs h),
                 ho_signals := ho_signals h @ [(q, sig)]\<rparr>, Delivered)) = (h', x)"
  obtain xs where xs: "named who h" "ho_signals h = ho_signals s @ xs" "\<forall>(p, sig) \<in> set xs. stale installation live p"
    using h by (auto simp: only_stale_def)
  show "I h'"
  proof (cases "h' = h")
    case False
    then obtain q where q: "process_at h (pc_pid p) = Some q"
      and h': "ho_signals h' = ho_signals h @ [(q, sig)]" "set (ho_procs h') \<subseteq> set (ho_procs h)"
      using f by (auto split: if_splits option.splits)
    have "q = p" using process_at_named [OF xs(1) q] assms(2) by simp
    then show ?thesis using xs h' assms(1) by (auto simp: only_stale_def named_def intro!: exI [of _ "xs @ [(p, sig)]"])
  qed (use h in simp)
qed simp

lemma wait_safe: "safe (wait_process_gone pid ticks)" "safe (wait_port_released port)"
  unfolding wait_process_gone_def wait_port_released_def
  by (auto intro!: meets_await meets_Return intro: stable split: if_splits)

lemma read_safe: "safe (readp f)"
  by (rule meets_readp) (rule stable)

lemma read_fact: "(\<And>w h. I h \<Longrightarrow> G (f w h)) \<Longrightarrow> meets R I (readp f) (\<lambda>x u. I u \<and> G x)"
  by (rule meets_readp) (use stable in blast)

lemma named_safe: "I h \<Longrightarrow> named who h"
  by (simp add: only_stale_def)

lemma delete_safe: "safe (delete_record i res)"
  unfolding delete_record_def
  by (rule meets_act, rule stable) (auto simp: only_stale_def named_def split: if_splits)

lemma return_safe: "safe (Return a)"
  by (rule meets_Return)

lemmas safe_flow = meets_bind_keep return_safe wait_safe read_safe delete_safe

lemma terminate_safe: "stale installation live p \<Longrightarrow> who (pc_pid p) = p \<Longrightarrow> safe (terminate_owned r p)"
  unfolding terminate_owned_def by (auto intro!: safe_flow signal_safe split: option.splits)

lemma record_safe:
  assumes "lookup_string live (wr_instance r) \<noteq> wr_generation r"
  shows "safe (reconcile_record installation r acc)"
proof -
  have found: "meets R I (readp (\<lambda>w h. inspect_process h (wr_pid r))) (\<lambda>x u. I u \<and> (\<forall>p. x = Found p \<longrightarrow> who (pc_pid p) = p))"
    by (rule read_fact) (metis inspected_named named_safe)
  show ?thesis
    unfolding reconcile_record_def Let_def using assms
    by (auto intro!: meets_bind_fact [OF found] safe_flow terminate_safe intro: record_stale
        split: prod.splits inspected.splits option.splits)
qed

lemma records_safe: "safe (records_loop installation live rs acc)"
  by (induction rs arbitrary: acc) (auto intro!: safe_flow record_safe)

lemma owned_safe:
  assumes "\<forall>p \<in> set ps. who (pc_pid p) = p \<and> owned_by_installation p installation"
  shows "safe (owned_loop live stored ps acc)"
  using assms
proof (induction ps arbitrary: acc)
  case (Cons p ps)
  have "safe (reconcile_owned stored p acc)" if "lookup_string live (identity_instance p) \<noteq> identity_generation p"
    unfolding reconcile_owned_def Let_def get_record_def using Cons.prems that
    by (auto intro!: safe_flow terminate_safe intro: owned_stale split: prod.splits option.splits)
  then show ?case using Cons by (cases acc) (auto intro!: safe_flow)
qed (auto intro!: safe_flow)

lemma reconcile_safe: "safe (reconcile_stale_workers installation stored live)"
proof -
  have listed: "meets R I (readp (\<lambda>w h. list_processes h))
      (\<lambda>x u. I u \<and> (\<forall>ps. x = Some ps \<longrightarrow> (\<forall>p \<in> set ps. who (pc_pid p) = p)))"
    by (rule read_fact) (auto simp: list_processes_def named_def dest: named_safe split: if_splits)
  show ?thesis
  proof (cases "installation = []")
    case True
    then show ?thesis using return_safe unfolding reconcile_stale_workers_def by simp
  next
    case False
    then show ?thesis
      unfolding reconcile_stale_workers_def Let_def list_records_def
      by (auto intro!: meets_bind_fact [OF listed] safe_flow records_safe owned_safe split: option.splits prod.splits)
  qed
qed

end

text \<open>Steps of others that neither reuse a PID nor send signals in the name of the manager.\<close>

definition undisturbed :: "(int \<Rightarrow> proc) \<Rightarrow> host \<Rightarrow> host \<Rightarrow> bool" where
  "undisturbed who u v \<longleftrightarrow> (named who u \<longrightarrow> named who v) \<and> ho_signals v = ho_signals u"

interpretation scan: one_process_per_pid "undisturbed who" who installation live s
  for who installation live s
  by unfold_locales (simp add: undisturbed_def)


section \<open>No stale worker is forgotten\<close>

text \<open>Others only exit; what the manager may read does not change, and a cancelled context stays cancelled.\<close>

definition processes_exit :: "host \<Rightarrow> host \<Rightarrow> bool" where
  "processes_exit u v \<longleftrightarrow> set (ho_procs v) \<subseteq> set (ho_procs u) \<and> ho_hidden v = ho_hidden u \<and>
     ho_listable v = ho_listable u \<and> (ho_cancelled u \<longrightarrow> ho_cancelled v)"

definition identity_key :: "proc \<Rightarrow> string" where
  "identity_key p = handled_key (identity_instance p) (identity_generation p)"

text \<open>Every process can be read, has a PID of its own, and shares its identity with no other.\<close>

definition tidy_host :: "string \<Rightarrow> host \<Rightarrow> bool" where
  "tidy_host installation h \<longleftrightarrow> ho_listable h \<and> ho_hidden h = {} \<and> (\<forall>p \<in> set (ho_procs h). 0 < pc_pid p) \<and>
     (\<forall>p \<in> set (ho_procs h). \<forall>q \<in> set (ho_procs h). pc_pid p = pc_pid q \<longrightarrow> p = q) \<and>
     (\<forall>p \<in> set (ho_procs h). \<forall>q \<in> set (ho_procs h).
        lookup_string (pc_environ p) env_installation = installation \<longrightarrow>
        lookup_string (pc_environ q) env_installation = installation \<longrightarrow> identity_key p = identity_key q \<longrightarrow> p = q)"

definition shrunk :: "host \<Rightarrow> host \<Rightarrow> bool" where
  "shrunk s h \<longleftrightarrow> set (ho_procs h) \<subseteq> set (ho_procs s) \<and> ho_hidden h = ho_hidden s \<and> ho_listable h = ho_listable s"

definition keys_settled :: "string \<Rightarrow> progress \<Rightarrow> host \<Rightarrow> bool" where
  "keys_settled installation acc h \<longleftrightarrow> (\<forall>p \<in> set (ho_procs h). owned_by_installation p installation \<longrightarrow>
     identity_key p \<in> snd acc \<longrightarrow> rc_blocked (fst acc) (identity_instance p) \<noteq> None)"

definition accounted :: "string \<Rightarrow> (string \<rightharpoonup> string) \<Rightarrow> proc set \<Rightarrow> progress \<Rightarrow> host \<Rightarrow> bool" where
  "accounted installation live ps acc h \<longleftrightarrow> (\<forall>p \<in> ps \<inter> set (ho_procs h). owned_by_installation p installation \<longrightarrow>
     lookup_string live (identity_instance p) \<noteq> identity_generation p \<longrightarrow>
     ho_cancelled h \<or> rc_blocked (fst acc) (identity_instance p) \<noteq> None)"

lemma alive_listed:
  assumes "tidy_host installation s" and "shrunk s h" and "p \<in> set (ho_procs h)"
  shows "inspect_process h (pc_pid p) = Found p" and "alive_process h (pc_pid p) (pc_ticks p)"
proof -
  have "process_at h (pc_pid p) = Some p"
    unfolding process_at_def
  proof (cases "find (\<lambda>q. pc_pid q = pc_pid p) (ho_procs h)")
    case None
    then show "find (\<lambda>q. pc_pid q = pc_pid p) (ho_procs h) = Some p" using assms(3) by (auto simp: find_None_iff)
  next
    case (Some q)
    then have "q \<in> set (ho_procs h)" "pc_pid q = pc_pid p" by (auto simp: find_Some_iff)
    then have "q = p" using assms unfolding tidy_host_def shrunk_def by blast
    then show "find (\<lambda>q. pc_pid q = pc_pid p) (ho_procs h) = Some p" using Some by simp
  qed
  moreover have "0 < pc_pid p" using assms by (auto simp: tidy_host_def shrunk_def)
  ultimately show "inspect_process h (pc_pid p) = Found p" using assms(1,2)
    by (auto simp: inspect_process_def tidy_host_def shrunk_def)
  then show "alive_process h (pc_pid p) (pc_ticks p)" by (simp add: alive_process_def)
qed

abbreviation reduces :: "(host \<Rightarrow> bool) \<Rightarrow> 'a scan \<Rightarrow> ('a \<Rightarrow> host \<Rightarrow> bool) \<Rightarrow> bool" where
  "reduces \<equiv> meets processes_exit"

text \<open>What a host with fewer processes still satisfies.\<close>

definition downward :: "(host \<Rightarrow> bool) \<Rightarrow> bool" where
  "downward P \<longleftrightarrow> (\<forall>u v. P u \<longrightarrow> processes_exit u v \<longrightarrow> P v)"

named_theorems downwards

lemma downward_conj [downwards]: "downward P \<Longrightarrow> downward Q \<Longrightarrow> downward (\<lambda>h. P h \<and> Q h)"
  by (auto simp: downward_def)

lemma downward_shrunk [downwards]: "downward (shrunk s)"
  by (auto simp: downward_def shrunk_def processes_exit_def)

lemma downward_absent [downwards]: "downward (\<lambda>h. p \<notin> set (ho_procs h))"
  by (auto simp: downward_def processes_exit_def)

lemma downward_settled [downwards]: "downward (keys_settled installation acc)"
  by (auto simp: downward_def keys_settled_def processes_exit_def)

lemma downward_accounted [downwards]: "downward (accounted installation live ps acc)"
  unfolding downward_def accounted_def processes_exit_def by blast

lemma downward_const [downwards]: "downward (\<lambda>h. Q)"
  by (simp add: downward_def)

lemma downward_imp [downwards]: "downward P \<Longrightarrow> downward (\<lambda>h. Q \<longrightarrow> P h)"
  by (auto simp: downward_def)

lemma downward_step: "downward P \<Longrightarrow> P u \<Longrightarrow> processes_exit u v \<Longrightarrow> processes_exit v z \<Longrightarrow> P z"
  by (auto simp: downward_def)

lemma send_reduces: "downward P \<Longrightarrow> reduces P (send_signal pid sig) (\<lambda>x. P)"
  unfolding send_signal_def
  by (rule meets_act, erule downward_step, assumption) (auto simp: processes_exit_def split: if_splits option.splits)

lemma delete_reduces: "downward P \<Longrightarrow> reduces P (delete_record i res) (\<lambda>x. P)"
  unfolding delete_record_def
  by (rule meets_act, erule downward_step, assumption) (auto simp: processes_exit_def split: if_splits)

lemma read_reduces: "downward P \<Longrightarrow> (\<And>w h. P h \<Longrightarrow> G (f w h)) \<Longrightarrow> reduces P (readp f) (\<lambda>x h. P h \<and> G x)"
  by (rule meets_readp) (auto simp: downward_def)

lemma port_reduces: "downward P \<Longrightarrow> reduces P (wait_port_released port) (\<lambda>x. P)"
  unfolding wait_port_released_def
  by (auto intro!: meets_Return meets_await simp: downward_def split: if_splits)

lemma gone_reduces:
  assumes "tidy_host installation s" and "downward P"
  shows "reduces (\<lambda>h. shrunk s h \<and> P h) (wait_process_gone (pc_pid p) (pc_ticks p))
     (\<lambda>e h. shrunk s h \<and> P h \<and> (e = None \<longrightarrow> p \<notin> set (ho_procs h)))"
  unfolding wait_process_gone_def
proof (rule meets_await)
  fix w h h' e t
  assume h: "shrunk s h \<and> P h" and exits: "processes_exit h' t"
    and f: "(if \<not> alive_process h (pc_pid p) (pc_ticks p) then Some (h, None)
     else if hw_elapsed w then Some (h, Some DidNotExit)
     else if ho_cancelled h then Some (h, Some ScanCancelled) else None) = Some (h', e)"
  have "h' = h" and "e = None \<longrightarrow> p \<notin> set (ho_procs h)"
    using f alive_listed(2) [OF assms(1)] h by (auto split: if_splits)
  moreover have "downward (\<lambda>h. shrunk s h \<and> P h \<and> (e = None \<longrightarrow> p \<notin> set (ho_procs h)))"
    by (intro downwards assms(2))
  ultimately show "shrunk s t \<and> P t \<and> (e = None \<longrightarrow> p \<notin> set (ho_procs t))"
    using h exits unfolding downward_def by blast
qed

lemma terminate_reduces:
  assumes "tidy_host installation s" and "downward P"
  shows "reduces (\<lambda>h. shrunk s h \<and> P h) (terminate_owned r p)
     (\<lambda>e h. shrunk s h \<and> P h \<and> (e = None \<longrightarrow> p \<notin> set (ho_procs h)))"
proof -
  have P: "downward (\<lambda>h. shrunk s h \<and> P h)" by (intro downwards assms(2))
  have port: "reduces (\<lambda>h. shrunk s h \<and> P h \<and> p \<notin> set (ho_procs h)) (wait_port_released port)
     (\<lambda>e h. shrunk s h \<and> P h \<and> (e = None \<longrightarrow> p \<notin> set (ho_procs h)))" for port
    by (rule meets_post, rule port_reduces) (intro downwards assms(2), simp)
  note gone = gone_reduces [OF assms]
  have kill: "reduces (\<lambda>h. shrunk s h \<and> P h) (bindp (send_signal (pc_pid p) SigKill) (\<lambda>x. if x = Refused then Return (Some SignalFailed)
         else bindp (wait_process_gone (pc_pid p) (pc_ticks p)) (\<lambda>e. case e of
           Some e \<Rightarrow> Return (Some e) | None \<Rightarrow> wait_port_released (wr_port r))))
     (\<lambda>e h. shrunk s h \<and> P h \<and> (e = None \<longrightarrow> p \<notin> set (ho_procs h)))"
    by (rule meets_bind [OF send_reduces [OF P]])
      (auto intro!: meets_Return meets_bind [OF gone] port split: option.splits)
  show ?thesis
    unfolding terminate_owned_def
    by (rule meets_bind [OF send_reduces [OF P]])
      (auto intro!: meets_Return meets_bind [OF gone] port meets_pre [OF kill] split: option.splits)
qed

lemma settled_grows:
  assumes "keys_settled installation (res, handled) h" and "\<And>i. rc_blocked res i \<noteq> None \<Longrightarrow> rc_blocked res' i \<noteq> None"
  shows "keys_settled installation (res', handled) h"
  using assms unfolding keys_settled_def fst_conv snd_conv by blast

lemma blocked_simps [simp]:
  "rc_blocked (detected res) = rc_blocked res" "rc_blocked (terminated res) = rc_blocked res"
  "rc_blocked (rejected res) = rc_blocked res"
  "rc_blocked (block_instance i e res) = (rc_blocked res)(i \<mapsto> e)"
  by (simp_all add: detected_def terminated_def rejected_def block_instance_def)

lemma delete_settled:
  assumes "downward Q"
  shows "reduces (\<lambda>h. shrunk s h \<and> keys_settled installation (res, handled) h \<and> Q h) (delete_record i res)
     (\<lambda>res' h. shrunk s h \<and> keys_settled installation (res', handled) h \<and> Q h \<and> rc_blocked res' = rc_blocked res)"
  unfolding delete_record_def
proof (rule meets_act)
  fix w h h' res' t
  let ?P = "\<lambda>h. shrunk s h \<and> keys_settled installation (res, handled) h \<and> Q h"
  assume h: "?P h" and exits: "processes_exit h' t"
    and f: "(if hw_store w
     then (h\<lparr>ho_records := filter (\<lambda>r. wr_instance r \<noteq> i) (ho_records h)\<rparr>, res\<lparr>rc_cleaned := rc_cleaned res + 1\<rparr>)
     else (h, res)) = (h', res')"
  have step: "processes_exit h h'" and res: "rc_blocked res' = rc_blocked res"
    using f by (auto simp: processes_exit_def split: if_splits)
  have "downward ?P" by (intro downwards assms)
  then have t: "?P t" using h step exits by (rule downward_step)
  have "keys_settled installation (res', handled) t" by (rule settled_grows [of installation res handled t]) (use t res in simp_all)
  then show "shrunk s t \<and> keys_settled installation (res', handled) t \<and> Q t \<and> rc_blocked res' = rc_blocked res"
    using t res by simp
qed

text \<open>The identity that \<open>p\<close> carries is handled: \<open>p\<close> is gone, or its Instance is blocked.\<close>

lemma settle_key:
  assumes "tidy_host installation s" and "shrunk s h" and "keys_settled installation (res, handled) h"
    and "p \<in> set (ho_procs s)" and "lookup_string (pc_environ p) env_installation = installation"
    and "p \<notin> set (ho_procs h) \<or> rc_blocked res (identity_instance p) \<noteq> None"
  shows "keys_settled installation (res, insert (identity_key p) handled) h"
  unfolding keys_settled_def
proof (intro ballI impI)
  fix q
  assume q: "q \<in> set (ho_procs h)" "owned_by_installation q installation"
    "identity_key q \<in> snd (res, insert (identity_key p) handled)"
  show "rc_blocked (fst (res, insert (identity_key p) handled)) (identity_instance q) \<noteq> None"
  proof (cases "identity_key q = identity_key p")
    case True
    then have "q = p" using assms(1,2,4,5) q(1,2) unfolding tidy_host_def shrunk_def owned_by_installation_def by blast
    then show ?thesis using assms(6) q(1) by simp
  next
    case False
    then show ?thesis using assms(3) q unfolding keys_settled_def by auto
  qed
qed

lemma record_reduces:
  assumes tidy: "tidy_host installation s"
  shows "reduces (\<lambda>h. shrunk s h \<and> keys_settled installation acc h) (reconcile_record installation r acc)
     (\<lambda>acc h. shrunk s h \<and> keys_settled installation acc h)"
proof -
  obtain res handled where acc: "acc = (res, handled)" by fastforce
  let ?K = "\<lambda>res h. shrunk s h \<and> keys_settled installation (res, handled) h"
  have down: "downward (\<lambda>h. ?K res h)" for res by (intro downwards)
  have found: "reduces (?K res) (readp (\<lambda>w h. inspect_process h (wr_pid r)))
     (\<lambda>x h. ?K res h \<and> (\<forall>p. x = Found p \<longrightarrow> p \<in> set (ho_procs s)))"
    by (rule read_reduces [OF down])
      (auto simp: inspect_process_def process_at_def shrunk_def find_Some_iff split: if_splits option.splits)
  have delete: "reduces (?K res) (delete_record (wr_instance r) res) (\<lambda>res h. ?K res h)" for res
    by (rule meets_post, rule meets_pre [OF delete_settled [where Q = "\<lambda>h. True"]]) (auto intro: downwards)
  have grow: "?K res h \<Longrightarrow> rc_blocked res' = rc_blocked res \<Longrightarrow> ?K res' h" for res res' h
    using settled_grows [of installation res handled h res'] by auto
  have owns: "reduces (?K res) (bindp (terminate_owned r p) (\<lambda>e. case e of
              Some e \<Rightarrow> Return (block_instance (wr_instance r) e (detected res),
                insert (handled_key (wr_instance r) (wr_generation r)) handled)
            | None \<Rightarrow> bindp (delete_record (wr_instance r) (detected res)) (\<lambda>res. Return (terminated res,
                insert (handled_key (wr_instance r) (wr_generation r)) handled))))
      (\<lambda>acc h. shrunk s h \<and> keys_settled installation acc h)"
    if p: "p \<in> set (ho_procs s)" "record_owns_process r p installation" for p
  proof (rule meets_bind [OF terminate_reduces [OF tidy, where P = "keys_settled installation (res, handled)"]])
    have key: "handled_key (wr_instance r) (wr_generation r) = identity_key p" "identity_instance p = wr_instance r"
      and inst: "lookup_string (pc_environ p) env_installation = installation"
      using p(2) by (simp_all add: record_owns_process_def identity_key_def identity_instance_def identity_generation_def)
    note settle = settle_key [OF tidy _ _ p(1) inst]
    fix e :: "stale_error option"
    let ?P = "\<lambda>h. shrunk s h \<and> keys_settled installation (res, handled) h \<and> (e = None \<longrightarrow> p \<notin> set (ho_procs h))"
    show "reduces ?P (case e of
              Some e \<Rightarrow> Return (block_instance (wr_instance r) e (detected res),
                insert (handled_key (wr_instance r) (wr_generation r)) handled)
            | None \<Rightarrow> bindp (delete_record (wr_instance r) (detected res)) (\<lambda>res. Return (terminated res,
                insert (handled_key (wr_instance r) (wr_generation r)) handled)))
      (\<lambda>acc h. shrunk s h \<and> keys_settled installation acc h)"
    proof (cases e)
      case None
      have "reduces ?P (delete_record (wr_instance r) (detected res))
         (\<lambda>res h. ?K res h \<and> p \<notin> set (ho_procs h))"
        by (rule meets_post, rule meets_pre [OF delete_settled [where Q = "\<lambda>h. p \<notin> set (ho_procs h)" and res = "detected res"]])
          (auto simp: None intro: downwards elim: settled_grows)
      then show ?thesis
        unfolding None option.case
        by (rule meets_bind) (auto intro!: meets_Return settle elim: settled_grows simp: key)
    next
      case (Some x)
      show ?thesis
        unfolding Some option.case
        by (rule meets_Return) (auto intro!: settle elim: settled_grows simp: key)
    qed
  qed (rule downwards)
  show ?thesis
    unfolding reconcile_record_def Let_def acc prod.case
    by (rule meets_bind_fact [OF found])
      (auto split: inspected.splits intro!: meets_Return meets_bind [OF delete] owns meets_pre [OF meets_bind [OF delete]]
        elim: settled_grows)
qed

lemma records_reduces:
  assumes "tidy_host installation s"
  shows "reduces (\<lambda>h. shrunk s h \<and> keys_settled installation acc h) (records_loop installation live rs acc)
     (\<lambda>acc h. shrunk s h \<and> keys_settled installation acc h)"
proof (induction rs arbitrary: acc)
  case (Cons r rs)
  let ?P = "\<lambda>acc h. shrunk s h \<and> keys_settled installation acc h"
  have stop: "reduces (?P acc) (readp (\<lambda>w h. ho_cancelled h)) (\<lambda>x. ?P acc)"
    by (rule meets_post, rule read_reduces [where G = "\<lambda>x. True"]) (auto intro: downwards)
  show ?case
    unfolding records_loop.simps
  proof (rule meets_bind [OF stop], intro meets_if)
    show "reduces (?P acc) (bindp (reconcile_record installation r acc) (records_loop installation live rs)) ?P"
      by (rule meets_bind [OF record_reduces [OF assms]]) (rule Cons.IH)
  qed (auto intro: meets_Return Cons.IH)
qed (auto intro: meets_Return)

definition grows :: "progress \<Rightarrow> progress \<Rightarrow> bool" where
  "grows acc acc' \<longleftrightarrow> (\<forall>i. rc_blocked (fst acc) i \<noteq> None \<longrightarrow> rc_blocked (fst acc') i \<noteq> None)"

lemma grows_refl [simp]: "grows acc acc"
  by (simp add: grows_def)

lemma grows_trans: "grows a b \<Longrightarrow> grows b c \<Longrightarrow> grows a c"
  by (simp add: grows_def)

lemma accounted_grows: "accounted installation live ps acc h \<Longrightarrow> grows acc acc' \<Longrightarrow> accounted installation live ps acc' h"
  unfolding accounted_def grows_def by blast

lemma accounted_Cons:
  "accounted installation live {p} acc h \<Longrightarrow> accounted installation live (set ps) acc h \<Longrightarrow>
     accounted installation live (set (p # ps)) acc h"
  unfolding accounted_def by simp blast

lemma accounted_cancelled: "ho_cancelled h \<Longrightarrow> accounted installation live ps acc h"
  by (simp add: accounted_def)

lemma downward_cancelled [downwards]: "downward ho_cancelled"
  by (auto simp: downward_def processes_exit_def)

lemma read_cancelled:
  assumes "downward P"
  shows "reduces P (readp (\<lambda>w h. ho_cancelled h)) (\<lambda>x h. P h \<and> (x \<longrightarrow> ho_cancelled h))"
proof (rule meets_readp)
  fix h t
  assume "P h" and "processes_exit h t"
  then show "P t \<and> (ho_cancelled h \<longrightarrow> ho_cancelled t)"
    using assms unfolding downward_def by (blast intro: downward_cancelled [unfolded downward_def, rule_format])
qed

lemma owned_reduces:
  assumes tidy: "tidy_host installation s" and p: "p \<in> set (ho_procs s)" "owned_by_installation p installation"
    and Q: "downward Q"
  shows "reduces (\<lambda>h. shrunk s h \<and> keys_settled installation acc h \<and> Q h) (reconcile_owned stored p acc)
     (\<lambda>acc' h. shrunk s h \<and> keys_settled installation acc' h \<and> Q h \<and> grows acc acc' \<and>
        (p \<in> set (ho_procs h) \<longrightarrow> rc_blocked (fst acc') (identity_instance p) \<noteq> None))"
proof -
  obtain res handled where acc: "acc = (res, handled)" by fastforce
  let ?i = "identity_instance p"
  let ?P = "\<lambda>h. keys_settled installation (res, handled) h \<and> Q h"
  let ?post = "\<lambda>acc' h. shrunk s h \<and> keys_settled installation acc' h \<and> Q h \<and> grows acc acc' \<and>
        (p \<in> set (ho_procs h) \<longrightarrow> rc_blocked (fst acc') ?i \<noteq> None)"
  have inst: "lookup_string (pc_environ p) env_installation = installation"
    using p(2) by (simp add: owned_by_installation_def)
  have key: "handled_key ?i (identity_generation p) = identity_key p" by (simp add: identity_key_def)
  have P: "downward ?P" by (intro downwards Q)
  let ?gone = "\<lambda>h. shrunk s h \<and> keys_settled installation (res, handled) h \<and> Q h \<and> p \<notin> set (ho_procs h)"
  have gone: "downward ?gone" by (intro downwards Q)
  have read: "reduces ?gone (readp f) (\<lambda>x. ?gone)" for f :: "host_world \<Rightarrow> host \<Rightarrow> worker_record option"
    by (rule meets_post, rule read_reduces [where G = "\<lambda>x. True", OF gone]) auto
  have delete: "reduces ?gone (delete_record ?i (detected res))
     (\<lambda>res' h. shrunk s h \<and> keys_settled installation (res', handled) h \<and> Q h \<and> p \<notin> set (ho_procs h) \<and> rc_blocked res' = rc_blocked res)"
    by (rule meets_post, rule meets_pre [OF delete_settled [where Q = "\<lambda>h. Q h \<and> p \<notin> set (ho_procs h)" and res = "detected res"]])
      (auto intro: downwards Q elim: settled_grows)
  have skip: "reduces ?gone (Return (detected res))
     (\<lambda>res' h. shrunk s h \<and> keys_settled installation (res', handled) h \<and> Q h \<and> p \<notin> set (ho_procs h) \<and> rc_blocked res' = rc_blocked res)"
    by (rule meets_Return) (auto elim: settled_grows)
  have finish: "reduces (\<lambda>h. shrunk s h \<and> keys_settled installation (res', handled) h \<and> Q h \<and> p \<notin> set (ho_procs h) \<and> rc_blocked res' = rc_blocked res)
     (Return (terminated res', insert (identity_key p) handled)) ?post" for res'
    by (rule meets_Return) (auto intro!: settle_key [OF tidy _ _ p(1) inst] elim: settled_grows simp: grows_def acc)
  have last: "reduces ?gone (bindp (if b then delete_record ?i (detected res) else Return (detected res))
     (\<lambda>res. Return (terminated res, insert (identity_key p) handled))) ?post" for b
    by (rule meets_bind, rule meets_if [OF delete skip], rule finish)
  have rest: "reduces ?gone (bindp (if stored then get_record ?i else Return None) (\<lambda>x.
            bindp (if map_option wr_generation x = Some (identity_generation p) then delete_record ?i (detected res)
                   else Return (detected res)) (\<lambda>res. Return (terminated res, insert (identity_key p) handled)))) ?post"
    unfolding get_record_def
    by (rule meets_bind [where Q = "\<lambda>x. ?gone"], rule meets_if, rule read, rule meets_Return, assumption, rule last)
  have blocked: "reduces (\<lambda>h. shrunk s h \<and> ?P h) (Return (block_instance ?i e (detected res), handled)) ?post" for e
    by (rule meets_Return) (auto elim: settled_grows simp: grows_def acc)
  show ?thesis
  proof (cases "identity_key p \<in> handled")
    case True
    then show ?thesis
      unfolding reconcile_owned_def Let_def acc prod.case key using p(2)
      by (auto intro!: meets_Return simp: keys_settled_def)
  next
    case False
    have "reduces (\<lambda>h. shrunk s h \<and> ?P h \<and> (e = None \<longrightarrow> p \<notin> set (ho_procs h)))
       (case e of Some e \<Rightarrow> Return (block_instance ?i e (detected res), handled)
        | None \<Rightarrow> bindp (if stored then get_record ?i else Return None) (\<lambda>x.
            bindp (if map_option wr_generation x = Some (identity_generation p) then delete_record ?i (detected res)
                   else Return (detected res)) (\<lambda>res. Return (terminated res, insert (identity_key p) handled)))) ?post" for e
    proof (cases e)
      case None
      show ?thesis unfolding None option.case by (rule meets_pre [OF rest]) simp
    next
      case (Some x)
      show ?thesis unfolding Some option.case by (rule meets_pre [OF blocked]) simp
    qed
    note step = this [unfolded acc]
    show ?thesis
      unfolding reconcile_owned_def Let_def acc prod.case key if_not_P [OF False]
      by (rule meets_bind [OF meets_pre [OF terminate_reduces [OF tidy P]] step]) simp
  qed
qed

lemma owned_loop_reduces:
  assumes tidy: "tidy_host installation s"
    and ps: "\<forall>p \<in> set ps. p \<in> set (ho_procs s) \<and> owned_by_installation p installation" and Q: "downward Q"
  shows "reduces (\<lambda>h. shrunk s h \<and> keys_settled installation acc h \<and> Q h) (owned_loop live stored ps acc)
     (\<lambda>acc' h. Q h \<and> grows acc acc' \<and> accounted installation live (set ps) acc' h)"
  using ps Q
proof (induction ps arbitrary: acc Q)
  case Nil
  then show ?case by (auto intro!: meets_Return simp: accounted_def)
next
  case (Cons p ps)
  let ?pre = "\<lambda>h. shrunk s h \<and> keys_settled installation acc h \<and> Q h"
  let ?post = "\<lambda>acc' h. Q h \<and> grows acc acc' \<and> accounted installation live (set (p # ps)) acc' h"
  have pre: "downward ?pre" by (intro downwards Cons.prems(2))
  have stop: "reduces ?pre (readp (\<lambda>w h. ho_cancelled h)) (\<lambda>x h. ?pre h \<and> (x \<longrightarrow> ho_cancelled h))"
    by (rule read_cancelled) (rule pre)
  have skip: "reduces ?pre (owned_loop live stored ps acc) ?post"
    if "lookup_string live (identity_instance p) = identity_generation p"
  proof (rule meets_post [OF Cons.IH])
    have "accounted installation live {p} acc' h" for acc' h using that by (simp add: accounted_def)
    then show "Q h \<and> grows acc acc' \<and> accounted installation live (set ps) acc' h \<Longrightarrow> ?post acc' h" for acc' h
      by (simp only: accounted_Cons)
  qed (use Cons.prems in auto)
  have work: "reduces ?pre (bindp (reconcile_owned stored p acc) (owned_loop live stored ps)) ?post"
  proof (rule meets_bind)
    show "reduces ?pre (reconcile_owned stored p acc)
       (\<lambda>acc' h. shrunk s h \<and> keys_settled installation acc' h \<and> Q h \<and> grows acc acc' \<and>
          (p \<in> set (ho_procs h) \<longrightarrow> rc_blocked (fst acc') (identity_instance p) \<noteq> None))"
      by (rule owned_reduces) (use tidy Cons.prems in auto)
    fix acc'
    let ?Q = "\<lambda>h. Q h \<and> grows acc acc' \<and> accounted installation live {p} acc' h"
    have "reduces (\<lambda>h. shrunk s h \<and> keys_settled installation acc' h \<and> ?Q h) (owned_loop live stored ps acc')
       (\<lambda>acc'' h. ?Q h \<and> grows acc' acc'' \<and> accounted installation live (set ps) acc'' h)"
    proof (rule Cons.IH)
      show "downward ?Q" by (intro downwards Cons.prems(2))
    qed (use Cons.prems in auto)
    then show "reduces (\<lambda>h. shrunk s h \<and> keys_settled installation acc' h \<and> Q h \<and> grows acc acc' \<and>
          (p \<in> set (ho_procs h) \<longrightarrow> rc_blocked (fst acc') (identity_instance p) \<noteq> None))
        (owned_loop live stored ps acc') ?post"
    proof (rule meets_pre [OF meets_post])
      fix acc'' h
      assume h: "?Q h \<and> grows acc' acc'' \<and> accounted installation live (set ps) acc'' h"
      then have "accounted installation live {p} acc'' h" using accounted_grows by blast
      then show "?post acc'' h" using h accounted_Cons grows_trans by blast
    qed (auto simp: accounted_def)
  qed
  show ?case
    unfolding owned_loop.simps
  proof (rule meets_bind [OF stop], intro meets_if)
    fix x
    show "reduces (\<lambda>h. ?pre h \<and> (x \<longrightarrow> ho_cancelled h)) (Return acc) ?post" if x
      by (rule meets_Return) (use that in \<open>simp add: accounted_cancelled\<close>)
    show "reduces (\<lambda>h. ?pre h \<and> (x \<longrightarrow> ho_cancelled h)) (owned_loop live stored ps acc) ?post"
      if "lookup_string live (identity_instance p) = identity_generation p"
      by (rule meets_pre [OF skip [OF that]]) simp
    show "reduces (\<lambda>h. ?pre h \<and> (x \<longrightarrow> ho_cancelled h)) (bindp (reconcile_owned stored p acc) (owned_loop live stored ps)) ?post"
      by (rule meets_pre [OF work]) simp
  qed
qed


section \<open>A started worker is recognised\<close>

text \<open>The file \<open>environ\<close> of a process: its environment, every entry followed by a zero byte.\<close>

definition environ_file :: "string list \<Rightarrow> string" where
  "environ_file es = concat (map (\<lambda>e. e @ [CHR 0x00]) es)"

lemma split_environ: "\<forall>e \<in> set es. CHR 0x00 \<notin> set e \<Longrightarrow> split_on CHR 0x00 (environ_file es) = es @ [[]]"
  by (induction es) (auto simp: environ_file_def split_on_append)

lemma add_entry_pair: "k \<noteq> [] \<Longrightarrow> CHR ''='' \<notin> set k \<Longrightarrow> add_entry m (k @ CHR ''='' # v) = m(k \<mapsto> v)"
proof -
  assume "k \<noteq> []" and k: "CHR ''='' \<notin> set k"
  moreover have "takeWhile (\<lambda>c. c \<noteq> CHR ''='') (k @ CHR ''='' # v) = k" "dropWhile (\<lambda>c. c \<noteq> CHR ''='') (k @ CHR ''='' # v) = CHR ''='' # v"
    using k by (induction k) auto
  ultimately show ?thesis by (simp add: add_entry_def cut_entry_def env_key_def)
qed

lemma parse_environ_file: "\<forall>e \<in> set es. CHR 0x00 \<notin> set e \<Longrightarrow> parse_environ (environ_file es) = foldl add_entry Map.empty es"
  by (simp add: parse_environ_def split_environ add_entry_def)

lemma identity_entries:
  assumes "installation \<noteq> []" and "i \<noteq> []" and "generation \<noteq> []"
  shows "foldl add_entry m (identity_env installation i generation port) =
     m(env_installation \<mapsto> installation, env_instance \<mapsto> i, env_generation \<mapsto> generation, env_port \<mapsto> format_int port)"
  using assms add_entry_pair [of env_installation] add_entry_pair [of env_instance] add_entry_pair [of env_generation]
    add_entry_pair [of env_port]
  by (simp add: identity_env_def env_installation_def env_instance_def env_generation_def env_port_def)

text \<open>
  The manager recognises the workers it has started: whatever environment it inherited and the launch
  added, a process that runs with the environment of a start of this installation, Instance, generation
  and port is found to be owned by this installation, with that Instance and generation, matches a stored
  row of that start, and its port is read back.
\<close>

theorem started_worker_recognised:
  assumes "installation \<noteq> []" and "i \<noteq> []" and "generation \<noteq> []" and "0 < port" and "is_i64 port"
    and "es = worker_environ inherited (env @ identity_env installation i generation port)"
    and "\<forall>e \<in> set es. CHR 0x00 \<notin> set e" and "pc_environ p = parse_environ (environ_file es)"
  shows "owned_by_installation p installation \<and> identity_instance p = i \<and> identity_generation p = generation \<and>
     parse_port_env (pc_environ p) = port \<and>
     (wr_instance r = i \<longrightarrow> wr_generation r = generation \<longrightarrow> record_owns_process r p installation)"
proof -
  obtain m where m: "pc_environ p = foldl add_entry m (identity_env installation i generation port)"
    using assms(6-8) by (auto simp: worker_environ_def parse_environ_file)
  have names: "env_installation \<noteq> env_instance" "env_installation \<noteq> env_generation" "env_installation \<noteq> env_port"
    "env_instance \<noteq> env_generation" "env_instance \<noteq> env_port" "env_generation \<noteq> env_port"
    by (simp_all add: env_installation_def env_instance_def env_generation_def env_port_def)
  have look: "lookup_string (pc_environ p) env_installation = installation" "identity_instance p = i"
    "identity_generation p = generation" "lookup_string (pc_environ p) env_port = format_int port"
    unfolding m identity_entries [OF assms(1-3)] identity_instance_def identity_generation_def lookup_string_def
    using names by simp_all
  show ?thesis
    using look assms(1-5) unfolding owned_by_installation_def record_owns_process_def parse_port_env_def
    by (simp add: identity_instance_def identity_generation_def parse_format_int)
qed

theorem started_worker_recognised_witness:
  "\<exists>p. owned_by_installation p ''home'' \<and> identity_instance p = ''a'' \<and> identity_generation p = ''g1'' \<and>
     parse_port_env (pc_environ p) = 9000"
proof -
  let ?es = "worker_environ [''PATH=/bin''] ([''CUDA_VISIBLE_DEVICES=0''] @ identity_env ''home'' ''a'' ''g1'' 9000)"
  let ?p = "\<lparr>pc_pid = 10, pc_ticks = 7, pc_environ = parse_environ (environ_file ?es)\<rparr>"
  have "\<forall>e \<in> set ?es. CHR 0x00 \<notin> set e" by code_simp
  then show ?thesis
    using started_worker_recognised [of "''home''" "''a''" "''g1''" 9000 ?es "[''PATH=/bin'']" "[''CUDA_VISIBLE_DEVICES=0'']" ?p]
    by (intro exI [of _ ?p]) (simp add: is_i64_def)
qed

section \<open>A sample host\<close>

definition sample_identity :: "string \<Rightarrow> string \<Rightarrow> (string \<rightharpoonup> string)" where
  "sample_identity i generation =
     [env_installation \<mapsto> ''home'', env_instance \<mapsto> i, env_generation \<mapsto> generation]"

definition sample_worker :: proc where
  "sample_worker = \<lparr>pc_pid = 10, pc_ticks = 7, pc_environ = sample_identity ''a'' ''g1''\<rparr>"

definition foreign_process :: proc where
  "foreign_process = \<lparr>pc_pid = 10, pc_ticks = 99, pc_environ = Map.empty\<rparr>"

definition scan_host :: "proc list \<Rightarrow> host" where
  "scan_host ps = \<lparr>ho_procs = ps, ho_hidden = {}, ho_listable = True, ho_cancelled = False, ho_records = [], ho_signals = []\<rparr>"

text \<open>A worker that ignores every signal, or obeys at once.\<close>

definition scan_world :: "bool \<Rightarrow> host_world" where
  "scan_world obeys = \<lparr>hw_obeys = obeys, hw_refused = False, hw_elapsed = True, hw_free = (\<lambda>p. True), hw_store = True\<rparr>"

lemma sample_names: "env_installation \<noteq> env_instance" "env_installation \<noteq> env_generation" "env_instance \<noteq> env_generation"
  "env_installation \<noteq> env_port" "env_instance \<noteq> env_port" "env_generation \<noteq> env_port"
  by (simp_all add: env_installation_def env_instance_def env_generation_def env_port_def)

lemma sample_facts:
  "owned_by_installation sample_worker ''home''" "identity_instance sample_worker = ''a''"
  "identity_generation sample_worker = ''g1''" "parse_port_env (pc_environ sample_worker) = 0"
  "lookup_string (pc_environ sample_worker) env_installation = ''home''"
  "pc_pid sample_worker = 10" "pc_ticks sample_worker = 7"
  using sample_names
  by (auto simp: owned_by_installation_def identity_instance_def identity_generation_def lookup_string_def sample_worker_def
      sample_identity_def parse_port_env_def trim_space_def parse_int_def)

lemma sample_tidy: "tidy_host ''home'' (scan_host [sample_worker])"
  by (simp add: tidy_host_def scan_host_def sample_facts)

lemmas scan_defs = reconcile_stale_workers_def reconcile_owned_def terminate_owned_def send_signal_def
  wait_process_gone_def wait_port_released_def list_processes_def inspect_process_def process_at_def alive_process_def
  scan_host_def scan_world_def

lemma sample_lookup: "lookup_string Map.empty i = []"
  by (simp add: lookup_string_def)

lemma stubborn_run:
  "\<exists>res t. alone (scan_world False) (reconcile_stale_workers ''home'' False Map.empty) (scan_host [sample_worker]) = Some (res, t) \<and>
     ho_procs t = [sample_worker] \<and> ho_signals t = [(sample_worker, SigTerm), (sample_worker, SigKill)] \<and> \<not> ho_cancelled t"
  by (simp add: scan_defs alone_simps sample_facts sample_lookup Let_def incomplete_identity_def cong: bindp_weak)

text \<open>
  C40. Ownership is checked on the listing, not on the process that gets the signal: a process without
  any identity of this installation is terminated if it has got the PID of a stale worker after the
  listing and before the signal, and the loop over the listing waits up to 25 seconds for every worker
  before the next one. The start time that the listing has read for the PID is not compared again.
\<close>

theorem stale_pid_reuse_signalled:
  "\<exists>res t. tidy_host ''home'' (scan_host [sample_worker]) \<and>
     outcome (\<lambda>(u :: host) (v :: host). ho_signals v = ho_signals u) (reconcile_stale_workers ''home'' False Map.empty)
       (scan_host [sample_worker]) res t \<and>
     pc_environ foreign_process = Map.empty \<and> (foreign_process, SigTerm) \<in> set (ho_signals t)"
proof -
  let ?R = "\<lambda>(u :: host) (v :: host). ho_signals v = ho_signals u"
  let ?rest = "bindp (owned_loop Map.empty False [sample_worker] (no_result\<lparr>rc_rejected := 0\<rparr>, {})) (\<lambda>(res, handled). Return res)"
  obtain res t where run: "alone (scan_world True) ?rest (scan_host [foreign_process]) = Some (res, t)"
    and t: "(foreign_process, SigTerm) \<in> set (ho_signals t)"
    by (simp add: scan_defs alone_simps sample_facts sample_lookup Let_def foreign_process_def cong: bindp_weak)
  have rest: "outcome ?R ?rest (scan_host [foreign_process]) res t"
    by (rule outcome_mono [OF alone_outcome [OF run]]) simp
  have listed: "list_processes (scan_host [sample_worker]) = Some [sample_worker]" "\<And>ps. ho_signals (scan_host ps) = []"
    by (simp_all add: scan_defs sample_facts)
  have list: "outcome ?R (readp (\<lambda>(w :: host_world) (h :: host). list_processes h)) (scan_host [sample_worker])
      (Some [sample_worker]) (scan_host [foreign_process])"
    unfolding readp_def
    by (rule outcome_actI [where w = "scan_world True" and s' = "scan_host [sample_worker]"]) (simp_all add: listed)
  have "outcome ?R (reconcile_stale_workers ''home'' False Map.empty) (scan_host [sample_worker]) res t"
    unfolding reconcile_stale_workers_def using rest
    by (simp, intro outcome_bindI [OF list])
      (simp add: sample_facts incomplete_identity_def Let_def del: owned_loop.simps)
  then show ?thesis using t sample_tidy by (auto simp: foreign_process_def)
qed



end
