(* ===== verification/Settings.thy ===== *)
theory Settings
  imports Go_Strings
begin

text \<open>
  The manager settings (\<open>settings/service.go\<close>). A setting has a definition with its kind and its bounds; its
  value comes from the environment, from the table \<open>manager_settings\<close> or from the default. The environment
  and the table are one record; a statement of the database fails when \<open>sw_down\<close> says so.
\<close>

section \<open>Definitions of settings\<close>

record defaults =
  de_session_lifetime :: i64
  de_allowed_origins :: string
  de_startup_timeout :: i64
  de_always_on_reconcile :: i64
  de_data_dir :: string
  de_models_dir :: string
  de_database_path :: string
  de_listen_addr :: string
  de_llama_server_path :: string

record runtime_info =
  ri_data_dir :: string
  ri_models_dir :: string
  ri_database_path :: string
  ri_listen_addr :: string
  ri_llama_server_path :: string

definition runtime_info_of :: "defaults \<Rightarrow> runtime_info" where
  "runtime_info_of d =
     \<lparr>ri_data_dir = de_data_dir d, ri_models_dir = de_models_dir d, ri_database_path = de_database_path d,
      ri_listen_addr = de_listen_addr d, ri_llama_server_path = de_llama_server_path d\<rparr>"

record setting_def =
  sd_env :: string
  sd_default :: string
  sd_kind :: string
  sd_min :: i64
  sd_max :: i64
  sd_database_first :: bool

datatype setting_value = VString string | VBool bool | VInt i64 | VInt64 i64

record resolved =
  rv_value :: setting_value
  rv_source :: string
  rv_editable :: bool

datatype setting_error =
    UnknownSetting
  | InvalidStored setting_error
  | InvalidEnvironment setting_error
  | NotBoolean
  | NotInteger
  | OutOfBounds
  | UnsupportedType
  | DatabaseFailed
  | EnvironmentControlled
  | WrongType

record settings_world =
  sw_env :: "string \<rightharpoonup> string"
  sw_rows :: "string \<rightharpoonup> string"
  sw_down :: bool

definition int_def :: "string \<Rightarrow> string \<Rightarrow> i64 \<Rightarrow> i64 \<Rightarrow> setting_def" where
  "int_def env dflt lo hi =
     \<lparr>sd_env = env, sd_default = dflt, sd_kind = ''int'', sd_min = lo, sd_max = hi, sd_database_first = False\<rparr>"

definition bool_def :: "string \<Rightarrow> string \<Rightarrow> setting_def" where
  "bool_def env dflt =
     \<lparr>sd_env = env, sd_default = dflt, sd_kind = ''bool'', sd_min = 0, sd_max = 0, sd_database_first = False\<rparr>"

definition string_def :: "string \<Rightarrow> string \<Rightarrow> bool \<Rightarrow> setting_def" where
  "string_def env dflt database_first =
     \<lparr>sd_env = env, sd_default = dflt, sd_kind = ''string'', sd_min = 0, sd_max = 0, sd_database_first = database_first\<rparr>"

definition second :: i64 where
  "second = 1000000000"

definition default_max_download_bytes :: i64 where
  "default_max_download_bytes = 1099511627776"

definition max_max_download_bytes :: i64 where
  "max_max_download_bytes = 1125899906842624"

definition setting_defs :: "defaults \<Rightarrow> (string \<times> setting_def) list" where
  "setting_defs d =
     [(''session_lifetime_seconds'', int_def ''LLAMARACK_SESSION_LIFETIME_SECONDS''
         (format_int (go_div (de_session_lifetime d) second)) 60 31536000),
      (''login_protection_enabled'', bool_def ''LLAMARACK_LOGIN_PROTECTION_ENABLED'' ''true''),
      (''login_failure_threshold'', int_def ''LLAMARACK_LOGIN_FAILURE_THRESHOLD'' ''5'' 2 100),
      (''login_lockout_seconds'', int_def ''LLAMARACK_LOGIN_LOCKOUT_SECONDS'' ''900'' 1 86400),
      (''local_login_enabled'', bool_def [] ''true''),
      (''oidc_jit_provisioning_enabled'', bool_def [] ''true''),
      (''oidc_auto_link_enabled'', bool_def [] ''false''),
      (''oidc_allow_http'', bool_def ''LLAMARACK_OIDC_ALLOW_HTTP'' ''false''),
      (''oidc_allowed_hosts'', string_def ''LLAMARACK_OIDC_ALLOWED_HOSTS'' [] False),
      (''trusted_proxies'', string_def ''LLAMARACK_TRUSTED_PROXIES'' [] False),
      (''allowed_origins'', string_def ''LLAMARACK_ALLOWED_ORIGIN'' (de_allowed_origins d) True),
      (''external_url'', string_def ''LLAMARACK_EXTERNAL_URL'' [] False),
      (''frontend_url'', string_def [] [] False),
      (''startup_timeout_seconds'', int_def ''LLAMARACK_STARTUP_TIMEOUT_SECONDS''
         (format_int (go_div (de_startup_timeout d) second)) 1 3600),
      (''idle_unload_seconds'', int_def [] ''300'' 0 604800),
      (''always_on_reconcile_seconds'', int_def ''LLAMARACK_ALWAYS_ON_RECONCILE_SECONDS''
         (format_int (go_div (de_always_on_reconcile d) second)) 0 3600),
      (''max_pending_requests_per_instance'', int_def ''LLAMARACK_MAX_PENDING_REQUESTS_PER_INSTANCE'' ''32'' 0 10000),
      (''max_pending_requests_global'', int_def ''LLAMARACK_MAX_PENDING_REQUESTS_GLOBAL'' ''128'' 0 10000),
      (''observability_retention_days'', int_def [] ''30'' 1 3650),
      (''max_download_bytes'', \<lparr>sd_env = ''LLAMARACK_MAX_DOWNLOAD_BYTES'', sd_default = format_int default_max_download_bytes,
         sd_kind = ''int64'', sd_min = 1, sd_max = max_max_download_bytes, sd_database_first = False\<rparr>)]"

section \<open>Reading and writing a value\<close>

text \<open>\<open>strconv.ParseBool\<close>.\<close>

definition parse_bool :: "string \<Rightarrow> bool option" where
  "parse_bool s =
     (if s \<in> {''1'', ''t'', ''T'', ''TRUE'', ''true'', ''True''} then Some True
      else if s \<in> {''0'', ''f'', ''F'', ''FALSE'', ''false'', ''False''} then Some False
      else None)"

definition format_bool :: "bool \<Rightarrow> string" where
  "format_bool b = (if b then ''true'' else ''false'')"

definition parse_setting :: "setting_def \<Rightarrow> string \<Rightarrow> setting_error + setting_value" where
  "parse_setting d s =
     (let v = trim_space s in
      if sd_kind d = ''string'' then Inr (VString v)
      else if sd_kind d = ''bool'' then
        (case parse_bool v of None \<Rightarrow> Inl NotBoolean | Some b \<Rightarrow> Inr (VBool b))
      else if sd_kind d = ''int'' then
        (case parse_int v of
           None \<Rightarrow> Inl NotInteger
         | Some n \<Rightarrow> if n < sd_min d \<or> sd_max d < n then Inl OutOfBounds else Inr (VInt n))
      else if sd_kind d = ''int64'' then
        (case parse_int v of
           None \<Rightarrow> Inl NotInteger
         | Some n \<Rightarrow> if n < sd_min d \<or> sd_max d < n then Inl OutOfBounds else Inr (VInt64 n))
      else Inl UnsupportedType)"

text \<open>\<open>fmt.Sprint\<close> of a value.\<close>

fun sprint :: "setting_value \<Rightarrow> string" where
  "sprint (VString s) = s"
| "sprint (VBool b) = format_bool b"
| "sprint (VInt n) = format_int n"
| "sprint (VInt64 n) = format_int n"

fun serialize :: "setting_value \<Rightarrow> string" where
  "serialize (VBool b) = format_bool b"
| "serialize (VInt n) = format_int n"
| "serialize (VInt64 n) = format_int n"
| "serialize v = sprint v"

section \<open>The service\<close>

definition env_value :: "settings_world \<Rightarrow> setting_def \<Rightarrow> string option" where
  "env_value w d =
     (if sd_env d = [] then None
      else case sw_env w (sd_env d) of
        None \<Rightarrow> None
      | Some v \<Rightarrow> if trim_space v = [] then None else Some v)"

definition from_source ::
    "setting_def \<Rightarrow> string \<Rightarrow> string \<Rightarrow> bool \<Rightarrow> (setting_error \<Rightarrow> setting_error) \<Rightarrow> setting_error + resolved" where
  "from_source d v source editable wrap =
     (case parse_setting d v of
        Inl e \<Rightarrow> Inl (wrap e)
      | Inr p \<Rightarrow> Inr \<lparr>rv_value = p, rv_source = source, rv_editable = editable\<rparr>)"

definition resolve :: "(string \<times> setting_def) list \<Rightarrow> settings_world \<Rightarrow> string \<Rightarrow> setting_error + resolved" where
  "resolve defs w key =
     (case map_of defs key of
        None \<Rightarrow> Inl UnknownSetting
      | Some d \<Rightarrow>
          if sd_database_first d then
            (if sw_down w then Inl DatabaseFailed
             else case sw_rows w key of
               Some v \<Rightarrow> from_source d v ''database'' True InvalidStored
             | None \<Rightarrow>
                 (case env_value w d of
                    Some v \<Rightarrow> from_source d v ''environment'' True InvalidEnvironment
                  | None \<Rightarrow> from_source d (sd_default d) ''default'' True id))
          else
            (case env_value w d of
               Some v \<Rightarrow> from_source d v ''environment'' False InvalidEnvironment
             | None \<Rightarrow>
                 if sw_down w then Inl DatabaseFailed
                 else case sw_rows w key of
                   Some v \<Rightarrow> from_source d v ''database'' True InvalidStored
                 | None \<Rightarrow> from_source d (sd_default d) ''default'' True id))"

definition validate_write ::
    "(string \<times> setting_def) list \<Rightarrow> settings_world \<Rightarrow> string \<Rightarrow> setting_value \<Rightarrow> setting_error + setting_value \<times> string" where
  "validate_write defs w key v =
     (case map_of defs key of
        None \<Rightarrow> Inl UnknownSetting
      | Some d \<Rightarrow>
          if \<not> sd_database_first d \<and> env_value w d \<noteq> None then Inl EnvironmentControlled
          else case parse_setting d (sprint v) of
            Inl e \<Rightarrow> Inl e
          | Inr p \<Rightarrow> Inr (p, serialize p))"

definition validate_setting ::
    "(string \<times> setting_def) list \<Rightarrow> settings_world \<Rightarrow> string \<Rightarrow> setting_value \<Rightarrow> setting_error option" where
  "validate_setting defs w key v = (case validate_write defs w key v of Inl e \<Rightarrow> Some e | Inr x \<Rightarrow> None)"

definition set_setting ::
    "(string \<times> setting_def) list \<Rightarrow> string \<Rightarrow> setting_value \<Rightarrow> settings_world \<Rightarrow> (setting_error + resolved) \<times> settings_world" where
  "set_setting defs key v w =
     (case validate_write defs w key v of
        Inl e \<Rightarrow> (Inl e, w)
      | Inr (p, s) \<Rightarrow>
          if sw_down w then (Inl DatabaseFailed, w)
          else (Inr \<lparr>rv_value = p, rv_source = ''database'', rv_editable = True\<rparr>, w\<lparr>sw_rows := (sw_rows w)(key \<mapsto> s)\<rparr>))"

definition string_setting :: "(string \<times> setting_def) list \<Rightarrow> settings_world \<Rightarrow> string \<Rightarrow> setting_error + string" where
  "string_setting defs w key =
     (case resolve defs w key of
        Inl e \<Rightarrow> Inl e
      | Inr r \<Rightarrow> (case rv_value r of VString s \<Rightarrow> Inr s | _ \<Rightarrow> Inl WrongType))"

definition int_setting :: "(string \<times> setting_def) list \<Rightarrow> settings_world \<Rightarrow> string \<Rightarrow> setting_error + i64" where
  "int_setting defs w key =
     (case resolve defs w key of
        Inl e \<Rightarrow> Inl e
      | Inr r \<Rightarrow> (case rv_value r of VInt n \<Rightarrow> Inr n | _ \<Rightarrow> Inl WrongType))"

definition int64_setting :: "(string \<times> setting_def) list \<Rightarrow> settings_world \<Rightarrow> string \<Rightarrow> setting_error + i64" where
  "int64_setting defs w key =
     (case resolve defs w key of
        Inl e \<Rightarrow> Inl e
      | Inr r \<Rightarrow> (case rv_value r of VInt n \<Rightarrow> Inr n | VInt64 n \<Rightarrow> Inr n | _ \<Rightarrow> Inl WrongType))"

definition bool_setting :: "(string \<times> setting_def) list \<Rightarrow> settings_world \<Rightarrow> string \<Rightarrow> setting_error + bool" where
  "bool_setting defs w key =
     (case resolve defs w key of
        Inl e \<Rightarrow> Inl e
      | Inr r \<Rightarrow> (case rv_value r of VBool b \<Rightarrow> Inr b | _ \<Rightarrow> Inl WrongType))"

section \<open>The pages of settings\<close>

text \<open>
  \<open>General\<close> reads its keys one after the other and fails with the first that fails. The token of Prometheus is
  a secret of its own: \<open>PrometheusTokenStatus\<close> and \<open>ResolvePrometheusToken\<close> take what the store of secrets
  answers, \<open>None\<close> when the manager has no store.
\<close>

record secret_value =
  sv_configured :: bool
  sv_prefix :: string
  sv_source :: string
  sv_editable :: bool

definition env_prometheus_token :: "settings_world \<Rightarrow> string" where
  "env_prometheus_token w =
     (case sw_env w ''LLAMARACK_PROMETHEUS_AUTH_TOKEN'' of None \<Rightarrow> [] | Some v \<Rightarrow> trim_space v)"

definition prometheus_prefix :: "string \<Rightarrow> string" where
  "prometheus_prefix v = (if 8 < length v then take 8 v else v)"

definition prometheus_env_status :: "settings_world \<Rightarrow> secret_value" where
  "prometheus_env_status w =
     (let env = env_prometheus_token w in
      if env \<noteq> []
      then \<lparr>sv_configured = True, sv_prefix = prometheus_prefix env, sv_source = ''environment'', sv_editable = True\<rparr>
      else \<lparr>sv_configured = False, sv_prefix = [], sv_source = ''default'', sv_editable = True\<rparr>)"

definition prometheus_token_status ::
    "settings_world \<Rightarrow> (setting_error + bool \<times> string) option \<Rightarrow> setting_error + secret_value" where
  "prometheus_token_status w store =
     (case store of
        None \<Rightarrow> Inr (prometheus_env_status w)
      | Some (Inl e) \<Rightarrow> Inl e
      | Some (Inr (configured, shown)) \<Rightarrow>
          if configured
          then Inr \<lparr>sv_configured = True, sv_prefix = shown, sv_source = ''database'', sv_editable = True\<rparr>
          else Inr (prometheus_env_status w))"

definition resolve_prometheus_token :: "settings_world \<Rightarrow> (setting_error + string) option \<Rightarrow> setting_error + string" where
  "resolve_prometheus_token w store =
     (case store of
        None \<Rightarrow> Inr (env_prometheus_token w)
      | Some (Inl e) \<Rightarrow> Inl e
      | Some (Inr secret) \<Rightarrow> if trim_space secret \<noteq> [] then Inr secret else Inr (env_prometheus_token w))"

record general =
  ge_values :: "(string \<times> resolved) list"
  ge_token :: secret_value
  ge_runtime :: runtime_info

definition general_keys :: "string list" where
  "general_keys =
     [''session_lifetime_seconds'', ''login_protection_enabled'', ''login_failure_threshold'', ''login_lockout_seconds'',
      ''local_login_enabled'', ''oidc_jit_provisioning_enabled'', ''oidc_auto_link_enabled'', ''trusted_proxies'',
      ''allowed_origins'', ''external_url'', ''frontend_url'', ''startup_timeout_seconds'', ''idle_unload_seconds'',
      ''always_on_reconcile_seconds'', ''max_pending_requests_per_instance'', ''max_pending_requests_global'',
      ''observability_retention_days'']"

fun resolve_all ::
    "(string \<times> setting_def) list \<Rightarrow> settings_world \<Rightarrow> string list \<Rightarrow> setting_error + (string \<times> resolved) list" where
  "resolve_all defs w [] = Inr []"
| "resolve_all defs w (key # keys) =
     (case resolve defs w key of
        Inl e \<Rightarrow> Inl e
      | Inr v \<Rightarrow> (case resolve_all defs w keys of Inl e \<Rightarrow> Inl e | Inr vs \<Rightarrow> Inr ((key, v) # vs)))"

definition general_settings ::
    "(string \<times> setting_def) list \<Rightarrow> runtime_info \<Rightarrow> settings_world \<Rightarrow> setting_error + general" where
  "general_settings defs runtime w =
     (case resolve_all defs w general_keys of
        Inl e \<Rightarrow> Inl e
      | Inr values \<Rightarrow>
          (case prometheus_token_status w None of
             Inl e \<Rightarrow> Inl e
           | Inr token \<Rightarrow> Inr \<lparr>ge_values = values, ge_token = token, ge_runtime = runtime\<rparr>))"

definition huggingface_settings :: "(string \<times> setting_def) list \<Rightarrow> settings_world \<Rightarrow> setting_error + resolved" where
  "huggingface_settings defs w = resolve defs w ''max_download_bytes''"

definition discover_settings :: "settings_world \<Rightarrow> setting_error + resolved" where
  "discover_settings w =
     (if sw_down w then Inl DatabaseFailed
      else case sw_rows w ''discover_hybrid_recommendations'' of
        Some stored \<Rightarrow>
          (case parse_bool stored of
             None \<Rightarrow> Inl NotBoolean
           | Some b \<Rightarrow> Inr \<lparr>rv_value = VBool b, rv_source = ''database'', rv_editable = True\<rparr>)
      | None \<Rightarrow> Inr \<lparr>rv_value = VBool True, rv_source = ''default'', rv_editable = True\<rparr>)"

definition set_discover_hybrid_recommendations ::
    "bool \<Rightarrow> settings_world \<Rightarrow> (setting_error + resolved) \<times> settings_world" where
  "set_discover_hybrid_recommendations enabled w =
     (if sw_down w then (Inl DatabaseFailed, w)
      else (Inr \<lparr>rv_value = VBool enabled, rv_source = ''database'', rv_editable = True\<rparr>,
            w\<lparr>sw_rows := (sw_rows w)(''discover_hybrid_recommendations'' \<mapsto> format_bool enabled)\<rparr>))"


section \<open>Values are of their kind\<close>

fun value_ok :: "setting_def \<Rightarrow> setting_value \<Rightarrow> bool" where
  "value_ok d (VString s) \<longleftrightarrow> sd_kind d = ''string''"
| "value_ok d (VBool b) \<longleftrightarrow> sd_kind d = ''bool''"
| "value_ok d (VInt n) \<longleftrightarrow> sd_kind d = ''int'' \<and> sd_min d \<le> n \<and> n \<le> sd_max d"
| "value_ok d (VInt64 n) \<longleftrightarrow> sd_kind d = ''int64'' \<and> sd_min d \<le> n \<and> n \<le> sd_max d"

fun root_error :: "setting_error \<Rightarrow> setting_error" where
  "root_error (InvalidStored e) = root_error e"
| "root_error (InvalidEnvironment e) = root_error e"
| "root_error e = e"

lemmas parse_cases = option.splits if_splits sum.splits

lemma parse_setting_ok: "parse_setting d s = Inr v \<Longrightarrow> value_ok d v"
  by (auto simp: parse_setting_def Let_def split: parse_cases)

lemma parse_setting_error:
  "parse_setting d s = Inl e \<Longrightarrow> sd_kind d \<in> {''string'', ''bool'', ''int'', ''int64''} \<Longrightarrow>
    e \<in> {NotBoolean, NotInteger, OutOfBounds}"
  by (auto simp: parse_setting_def Let_def split: parse_cases)

lemma from_source_ok: "from_source d s src ed wrap = Inr r \<Longrightarrow> value_ok d (rv_value r)"
  by (auto simp: from_source_def dest: parse_setting_ok split: sum.splits)

lemma from_source_error:
  "from_source d s src ed wrap = Inl e \<Longrightarrow> sd_kind d \<in> {''string'', ''bool'', ''int'', ''int64''} \<Longrightarrow>
    (\<And>x. root_error (wrap x) = root_error x) \<Longrightarrow> root_error e \<in> {NotBoolean, NotInteger, OutOfBounds}"
  by (auto simp: from_source_def dest!: parse_setting_error split: sum.splits)

lemma resolve_ok: "resolve defs w key = Inr r \<Longrightarrow> \<exists>d. map_of defs key = Some d \<and> value_ok d (rv_value r)"
  by (auto simp: resolve_def dest: from_source_ok split: parse_cases)

lemma resolve_error:
  assumes "resolve defs w key = Inl e" and "map_of defs key = Some d" and "sd_kind d \<in> {''string'', ''bool'', ''int'', ''int64''}"
  shows "root_error e \<in> {NotBoolean, NotInteger, OutOfBounds, DatabaseFailed}"
proof (cases "e = DatabaseFailed")
  case False
  then obtain s src ed wrap where "from_source d s src ed wrap = Inl e" and "\<And>x. root_error (wrap x) = root_error x"
    using assms(1,2) by (fastforce simp: resolve_def split: parse_cases)
  from from_source_error [OF this(1) assms(3) this(2)] show ?thesis by auto
qed simp

lemma kinds_known: "map_of (setting_defs d) key = Some sd \<Longrightarrow> sd_kind sd \<in> {''string'', ''bool'', ''int'', ''int64''}"
  by (auto simp: setting_defs_def int_def_def bool_def_def string_def_def split: if_splits)

text \<open>
  C24. Settings have their type: whatever is in the environment and in the table, the value of a setting is
  of the kind its definition declares and within its bounds, an error is one of the four that can be
  reported, and the accessor of its kind never finds a value of another type.
\<close>

theorem settings_well_typed:
  assumes "map_of (setting_defs d) key = Some sd"
  shows "(case resolve (setting_defs d) w key of
       Inr r \<Rightarrow> value_ok sd (rv_value r)
     | Inl e \<Rightarrow> root_error e \<in> {NotBoolean, NotInteger, OutOfBounds, DatabaseFailed}) \<and>
     (sd_kind sd = ''string'' \<longrightarrow> string_setting (setting_defs d) w key \<noteq> Inl WrongType) \<and>
     (sd_kind sd = ''bool'' \<longrightarrow> bool_setting (setting_defs d) w key \<noteq> Inl WrongType) \<and>
     (sd_kind sd = ''int'' \<longrightarrow> int_setting (setting_defs d) w key \<noteq> Inl WrongType) \<and>
     (sd_kind sd = ''int64'' \<longrightarrow> int64_setting (setting_defs d) w key \<noteq> Inl WrongType)"
proof (cases "resolve (setting_defs d) w key")
  case (Inl e)
  have "root_error e \<in> {NotBoolean, NotInteger, OutOfBounds, DatabaseFailed}"
    by (rule resolve_error [OF Inl assms kinds_known [OF assms]])
  moreover from this have "e \<noteq> WrongType" by auto
  ultimately show ?thesis
    by (simp add: Inl string_setting_def bool_setting_def int_setting_def int64_setting_def)
next
  case (Inr r)
  then have "value_ok sd (rv_value r)" using resolve_ok assms by fastforce
  then show ?thesis
    by (cases "rv_value r") (simp_all add: Inr string_setting_def bool_setting_def int_setting_def int64_setting_def)
qed

section \<open>What is set is read\<close>

lemma parse_format_bool [simp]: "parse_bool (format_bool b) = Some b"
  by (simp add: parse_bool_def format_bool_def)

lemma trim_format_bool [simp]: "trim_space (format_bool b) = format_bool b"
  by (cases b) (simp_all add: format_bool_def trim_no_space plain_char_def space1_def)

lemma parse_serialize: "parse_setting d s = Inr v \<Longrightarrow> parse_setting d (serialize v) = Inr v"
  by (auto simp: parse_setting_def Let_def dest: parse_int_is_i64 simp: parse_format_int split: parse_cases)

text \<open>
  C38. What is set is what is read: when a setting has been written, reading it gives the value that the
  writer was told, from the database, and every other setting reads as before.
\<close>

theorem set_then_resolve:
  assumes "set_setting defs key v w = (Inr r, w')"
  shows "resolve defs w' key = Inr r \<and> (\<forall>k. k \<noteq> key \<longrightarrow> resolve defs w' k = resolve defs w k)"
proof -
  obtain d p where d: "map_of defs key = Some d" and e: "sd_database_first d \<or> env_value w d = None"
    and p: "parse_setting d (sprint v) = Inr p" and up: "\<not> sw_down w"
      "r = \<lparr>rv_value = p, rv_source = ''database'', rv_editable = True\<rparr>" "w' = w\<lparr>sw_rows := (sw_rows w)(key \<mapsto> serialize p)\<rparr>"
    using assms by (auto simp: set_setting_def validate_write_def split: parse_cases)
  have env: "env_value w' x = env_value w x" for x unfolding up by (simp add: env_value_def)
  have "from_source d (serialize p) ''database'' True InvalidStored = Inr r"
    by (simp add: from_source_def parse_serialize [OF p] up)
  then have "resolve defs w' key = Inr r"
    using d e env up(1) by (auto simp: resolve_def up(3))
  moreover have "resolve defs w' k = resolve defs w k" if "k \<noteq> key" for k
  proof -
    have "sw_rows w' k = sw_rows w k" "sw_down w' = sw_down w" using that by (simp_all add: up(3))
    then show ?thesis using env by (simp add: resolve_def split: option.split)
  qed
  ultimately show ?thesis by blast
qed

text \<open>The page of general settings has a value for each key, and it fails exactly when one of the keys does.\<close>

lemma resolve_all_values:
  "resolve_all defs w keys = Inr vs \<Longrightarrow> map fst vs = keys \<and> (\<forall>kv \<in> set vs. resolve defs w (fst kv) = Inr (snd kv))"
  by (induction keys arbitrary: vs) (auto split: sum.splits)

lemma resolve_all_fails:
  "(\<exists>e. resolve_all defs w keys = Inl e) \<longleftrightarrow> (\<exists>k \<in> set keys. \<exists>e. resolve defs w k = Inl e)"
  by (induction keys) (auto split: sum.splits)

lemma general_settings_fail:
  "(\<exists>e. general_settings defs runtime w = Inl e) \<longleftrightarrow> (\<exists>k \<in> set general_keys. \<exists>e. resolve defs w k = Inl e)"
  unfolding resolve_all_fails [symmetric]
  by (simp add: general_settings_def prometheus_token_status_def split: sum.split)

lemma discover_set_read:
  assumes "set_discover_hybrid_recommendations b w = (Inr r, w')"
  shows "discover_settings w' = Inr r"
  using assms by (auto simp: set_discover_hybrid_recommendations_def discover_settings_def format_bool_def parse_bool_def
      split: if_splits)

section \<open>Witnesses\<close>

definition sample_defaults :: defaults where
  "sample_defaults = \<lparr>de_session_lifetime = 86400000000000, de_allowed_origins = [], de_startup_timeout = 180000000000,
     de_always_on_reconcile = 30000000000, de_data_dir = ''/data'', de_models_dir = ''/models'',
     de_database_path = ''/data/db'', de_listen_addr = '':8080'', de_llama_server_path = ''/bin/llama-server''\<rparr>"

definition sample_settings :: settings_world where
  "sample_settings = \<lparr>sw_env = Map.empty, sw_rows = [''login_failure_threshold'' \<mapsto> ''many''], sw_down = False\<rparr>"

theorem settings_well_typed_witness:
  "int_setting (setting_defs sample_defaults) sample_settings ''login_failure_threshold'' \<noteq> Inl WrongType"
  using settings_well_typed [of sample_defaults "''login_failure_threshold''" "int_def ''LLAMARACK_LOGIN_FAILURE_THRESHOLD'' ''5'' 2 100"
      sample_settings]
  by (simp add: setting_defs_def int_def_def)

theorem set_then_resolve_witness:
  "\<exists>w'. resolve (setting_defs sample_defaults) w' ''login_failure_threshold'' =
     Inr \<lparr>rv_value = VInt 7, rv_source = ''database'', rv_editable = True\<rparr>"
proof -
  let ?r = "\<lparr>rv_value = VInt 7, rv_source = ''database'', rv_editable = True\<rparr>"
  obtain w' where "set_setting (setting_defs sample_defaults) ''login_failure_threshold'' (VString '' 7'') sample_settings = (Inr ?r, w')"
    by (simp add: set_setting_def validate_write_def setting_defs_def int_def_def sample_settings_def env_value_def parse_setting_def
        trim_space_def space1_def parse_int_def parse_uint_def digit_val_def)
  then show ?thesis using set_then_resolve by blast
qed

end
