(* ===== verification/Login_Protection.thy ===== *)
theory Login_Protection
  imports Settings Go_Sort "HOL-Library.AList"
begin

text \<open>
  \<open>LoginProtector\<close> of \<open>security/security.go\<close>: the failed logins of every pair of user and address, the
  failed logins of every address, and what they cost the next attempt. Every operation is one critical
  section. A Go map is an association list, and a function \<open>it\<close> that permutes it stands for the order of
  one iteration. Times are nanoseconds since the zero time.
\<close>

section \<open>State\<close>

record login_attempt =
  la_failures :: i64
  la_updated :: int
  la_locked :: int

type_synonym attempts = "(string \<times> login_attempt) list"

type_synonym iteration = "attempts \<Rightarrow> attempts"

record protector =
  lp_attempts :: attempts
  lp_addresses :: attempts
  lp_max_items :: i64
  lp_max_addresses :: i64

definition new_protector :: protector where
  "new_protector = \<lparr>lp_attempts = [], lp_addresses = [], lp_max_items = 4096, lp_max_addresses = 1024\<rparr>"

definition no_attempt :: login_attempt where
  "no_attempt = \<lparr>la_failures = 0, la_updated = 0, la_locked = 0\<rparr>"

definition attempt_of :: "attempts \<Rightarrow> string \<Rightarrow> login_attempt" where
  "attempt_of m k = (case map_of m k of None \<Rightarrow> no_attempt | Some a \<Rightarrow> a)"

text \<open>\<open>Time.Sub\<close> saturates.\<close>

definition time_sub :: "int \<Rightarrow> int \<Rightarrow> i64" where
  "time_sub a b = max (- 9223372036854775808) (min 9223372036854775807 (a - b))"

definition login_address_delay_after :: i64 where
  "login_address_delay_after = 8"

definition login_address_ttl :: i64 where
  "login_address_ttl = 600000000000"

definition login_attempt_ttl :: i64 where
  "login_attempt_ttl = 86400000000000"

definition login_key :: "string \<Rightarrow> string \<Rightarrow> string" where
  "login_key username address = to_lower (trim_space username) @ CHR 0x00 # trim_space address"

definition login_attempt_penalty :: "login_attempt \<Rightarrow> int \<Rightarrow> i64 \<Rightarrow> i64 \<times> bool" where
  "login_attempt_penalty a now delay_after =
     (if now < la_locked a then (time_sub (la_locked a) now, True)
      else if la_failures a < delay_after then (0, False)
      else (100000000 * 2 ^ nat (min 4 (la_failures a - delay_after)), False))"

section \<open>Making room\<close>

text \<open>The loops for the oldest entry; the empty key is their mark for none.\<close>

definition older :: "(login_attempt \<Rightarrow> bool) \<Rightarrow> string \<times> int \<Rightarrow> string \<times> login_attempt \<Rightarrow> string \<times> int" where
  "older skip best e =
     (if skip (snd e) then best
      else if fst best = [] \<or> la_updated (snd e) < snd best then (fst e, la_updated (snd e))
      else best)"

definition oldest_key :: "(login_attempt \<Rightarrow> bool) \<Rightarrow> attempts \<Rightarrow> string" where
  "oldest_key skip m = fst (foldl (older skip) ([], 0) m)"

definition evict_oldest :: "(login_attempt \<Rightarrow> bool) \<Rightarrow> iteration \<Rightarrow> attempts \<Rightarrow> attempts option" where
  "evict_oldest skip it m =
     (let k = oldest_key skip (it m) in if k = [] then None else Some (AList.delete k m))"

definition evict_oldest_address :: "iteration \<Rightarrow> int \<Rightarrow> attempts \<Rightarrow> attempts option" where
  "evict_oldest_address it now m =
     evict_oldest (\<lambda>a. 0 < fst (login_attempt_penalty a now login_address_delay_after)) it m"

definition make_attempt_room :: "iteration \<Rightarrow> int \<Rightarrow> protector \<Rightarrow> protector option" where
  "make_attempt_room it now p =
     (if lp_max_items p \<le> 0 then None
      else if int (length (lp_attempts p)) < lp_max_items p then Some p
      else case evict_oldest (\<lambda>a. now < la_locked a) it (lp_attempts p) of
        None \<Rightarrow> None
      | Some m \<Rightarrow> Some (p\<lparr>lp_attempts := m\<rparr>))"

definition record_address_failure :: "iteration \<Rightarrow> string \<Rightarrow> int \<Rightarrow> protector \<Rightarrow> protector" where
  "record_address_failure it address now p =
     (if address = [] \<or> lp_max_addresses p \<le> 0 then p
      else case (if map_of (lp_addresses p) address = None \<and> lp_max_addresses p \<le> int (length (lp_addresses p))
                 then evict_oldest_address it now (lp_addresses p) else Some (lp_addresses p)) of
        None \<Rightarrow> p
      | Some m \<Rightarrow>
          let a = attempt_of m address
          in p\<lparr>lp_addresses := AList.update address (a\<lparr>la_failures := wrap64 (la_failures a + 1), la_updated := now\<rparr>) m\<rparr>)"

section \<open>Pruning\<close>

text \<open>An iteration visits the entries of its map, so an eviction removes one; the test is for termination.\<close>

function trim_addresses :: "iteration \<Rightarrow> int \<Rightarrow> i64 \<Rightarrow> attempts \<Rightarrow> attempts" where
  "trim_addresses it now limit m =
     (if int (length m) \<le> limit then m
      else case evict_oldest_address it now m of
        None \<Rightarrow> m
      | Some m' \<Rightarrow> if length m' < length m then trim_addresses it now limit m' else m)"
  by auto
termination
  by (relation "measure (\<lambda>(it, now, limit, m). length m)") auto

declare trim_addresses.simps [simp del]

definition prune_addresses :: "iteration \<Rightarrow> int \<Rightarrow> protector \<Rightarrow> protector" where
  "prune_addresses it now p =
     p\<lparr>lp_addresses := trim_addresses it now (lp_max_addresses p)
         (filter (\<lambda>(k, a). time_sub now (la_updated a) \<le> login_address_ttl) (lp_addresses p))\<rparr>"

definition prune_attempts :: "iteration \<Rightarrow> int \<Rightarrow> i64 \<Rightarrow> attempts \<Rightarrow> attempts" where
  "prune_attempts it now limit m =
     (let live = filter (\<lambda>(k, a). \<not> (login_attempt_ttl < time_sub now (la_updated a) \<and> la_locked a \<le> now)) m in
      if int (length live) \<le> limit then live
      else
        let items = sort_by (\<lambda>x y. la_updated (snd x) < la_updated (snd y)) (filter (\<lambda>(k, a). la_locked a \<le> now) (it live));
            remove = min (int (length live) - limit) (int (length items))
        in foldl (\<lambda>m e. AList.delete (fst e) m) live (take (nat remove) items))"

definition prune_locked :: "iteration \<Rightarrow> int \<Rightarrow> protector \<Rightarrow> protector" where
  "prune_locked it now p =
     prune_addresses it now (p\<lparr>lp_attempts := prune_attempts it now (lp_max_items p) (lp_attempts p)\<rparr>)"

section \<open>The operations\<close>

type_synonym setting_defs = "(string \<times> setting_def) list"

definition protection_enabled :: "setting_defs \<Rightarrow> settings_world \<Rightarrow> bool" where
  "protection_enabled defs w \<longleftrightarrow> bool_setting defs w ''login_protection_enabled'' = Inr True"

definition failure_threshold :: "setting_defs \<Rightarrow> settings_world \<Rightarrow> i64" where
  "failure_threshold defs w = (case int_setting defs w ''login_failure_threshold'' of Inl e \<Rightarrow> 5 | Inr n \<Rightarrow> n)"

definition lockout_seconds :: "setting_defs \<Rightarrow> settings_world \<Rightarrow> i64" where
  "lockout_seconds defs w = (case int_setting defs w ''login_lockout_seconds'' of Inl e \<Rightarrow> 900 | Inr n \<Rightarrow> n)"

definition lockout :: "setting_defs \<Rightarrow> settings_world \<Rightarrow> i64" where
  "lockout defs w = wrap64 (lockout_seconds defs w * second)"

definition before_attempt ::
    "setting_defs \<Rightarrow> settings_world \<Rightarrow> iteration \<Rightarrow> int \<Rightarrow> string \<Rightarrow> string \<Rightarrow> protector \<Rightarrow> (i64 \<times> bool) \<times> protector" where
  "before_attempt defs w it now username address p =
     (if \<not> protection_enabled defs w then ((0, False), p)
      else
        let q = prune_locked it now p;
            (delay, locked) = login_attempt_penalty (attempt_of (lp_attempts q) (login_key username address)) now 2;
            (address_delay, _) =
              login_attempt_penalty (attempt_of (lp_addresses q) (trim_space address)) now login_address_delay_after
        in if locked then ((delay, True), q)
           else if delay < address_delay then ((address_delay, False), q)
           else ((delay, False), q))"

definition count_failure :: "i64 \<Rightarrow> i64 \<Rightarrow> int \<Rightarrow> login_attempt \<Rightarrow> login_attempt \<times> bool" where
  "count_failure threshold duration now a =
     (let n = wrap64 (la_failures a + 1); locked = (threshold \<le> n)
      in (a\<lparr>la_failures := n, la_updated := now, la_locked := (if locked then now + duration else la_locked a)\<rparr>, locked))"

definition login_failure ::
    "setting_defs \<Rightarrow> settings_world \<Rightarrow> iteration \<Rightarrow> int \<Rightarrow> string \<Rightarrow> string \<Rightarrow> protector \<Rightarrow> bool \<times> protector" where
  "login_failure defs w it now username address p =
     (if \<not> protection_enabled defs w then (False, p)
      else
        let key = login_key username address;
            q = record_address_failure it (trim_space address) now (prune_locked it now p)
        in case (if map_of (lp_attempts q) key = None then make_attempt_room it now q else Some q) of
             None \<Rightarrow> (False, q)
           | Some q' \<Rightarrow>
               let (a, locked) = count_failure (failure_threshold defs w) (lockout defs w) now (attempt_of (lp_attempts q) key)
               in (locked, q'\<lparr>lp_attempts := AList.update key a (lp_attempts q')\<rparr>))"

definition login_success :: "string \<Rightarrow> string \<Rightarrow> protector \<Rightarrow> protector" where
  "login_success username address p = p\<lparr>lp_attempts := AList.delete (login_key username address) (lp_attempts p)\<rparr>"


section \<open>The tables stay small and nothing locked leaves them\<close>

definition iterates :: "iteration \<Rightarrow> bool" where
  "iterates it \<longleftrightarrow> (\<forall>m. mset (it m) = mset m)"

lemma iterates_set: "iterates it \<Longrightarrow> set (it m) = set m"
  by (metis iterates_def set_mset_mset)

definition protector_ok :: "protector \<Rightarrow> bool" where
  "protector_ok p \<longleftrightarrow> distinct (map fst (lp_attempts p)) \<and> distinct (map fst (lp_addresses p)) \<and>
     int (length (lp_attempts p)) \<le> lp_max_items p \<and> int (length (lp_addresses p)) \<le> lp_max_addresses p"

lemma oldest_key_fold:
  "fst (foldl (older skip) best m) \<in> insert (fst best) {k. \<exists>a. (k, a) \<in> set m \<and> \<not> skip a}"
proof (induction m arbitrary: best)
  case (Cons e m)
  have "fst (older skip best e) \<in> insert (fst best) {k. \<exists>a. (k, a) \<in> set (e # m) \<and> \<not> skip a}"
    by (cases e) (auto simp: older_def)
  then show ?case using Cons [of "older skip best e"] by auto
qed simp

lemma evict_oldest_Some:
  assumes "evict_oldest skip it m = Some m'" and "iterates it"
  obtains k a where "(k, a) \<in> set m" and "\<not> skip a" and "m' = AList.delete k m"
  using assms oldest_key_fold [of skip "([], 0)" "it m"] iterates_set [OF assms(2), of m]
  by (auto simp: evict_oldest_def oldest_key_def Let_def split: if_splits)

lemma length_delete: "distinct (map fst m) \<Longrightarrow> (k, a) \<in> set m \<Longrightarrow> Suc (length (AList.delete k m)) = length m"
proof (induction m)
  case (Cons e m)
  show ?case
  proof (cases "fst e = k")
    case True
    then have "k \<notin> fst ` set m" using Cons.prems by auto
    then show ?thesis using True by (cases e) simp
  next
    case False
    then show ?thesis using Cons by (cases e) auto
  qed
qed simp

lemma length_update: "length (AList.update k a m) = (if k \<in> fst ` set m then length m else Suc (length m))"
  by (induction m) auto

lemma map_of_None_keys: "map_of m k = None \<longleftrightarrow> k \<notin> fst ` set m"
  by (rule map_of_eq_None_iff)

lemmas table_simps = AList.distinct_update AList.distinct_delete length_update update_conv delete_conv' map_of_None_keys

lemma distinct_filter_keys: "distinct (map fst m) \<Longrightarrow> distinct (map fst (filter P m))"
  by (simp add: distinct_map_filter)

lemma map_of_filter_keys:
  "distinct (map fst m) \<Longrightarrow> map_of (filter P m) k = (case map_of m k of None \<Rightarrow> None | Some a \<Rightarrow> if P (k, a) then Some a else None)"
proof (induction m)
  case (Cons e m)
  have "fst e = k \<Longrightarrow> map_of (filter P m) k = None" using Cons.prems by (auto simp: map_of_eq_None_iff image_iff)
  then show ?case using Cons by (cases e) (auto split: option.split)
qed simp

lemma trim_within [simp]: "int (length m) \<le> limit \<Longrightarrow> trim_addresses it now limit m = m"
  by (simp add: trim_addresses.simps)

definition kept :: "int \<Rightarrow> login_attempt \<Rightarrow> bool" where
  "kept now a \<longleftrightarrow> \<not> (login_attempt_ttl < time_sub now (la_updated a) \<and> la_locked a \<le> now)"

lemma prune_ok:
  assumes "protector_ok p"
  shows "lp_attempts (prune_locked it now p) = filter (\<lambda>(k, a). kept now a) (lp_attempts p)"
    and "protector_ok (prune_locked it now p)"
    and "lp_max_items (prune_locked it now p) = lp_max_items p" "lp_max_addresses (prune_locked it now p) = lp_max_addresses p"
proof -
  have a: "int (length (filter P (lp_attempts p))) \<le> lp_max_items p" "int (length (filter P (lp_addresses p))) \<le> lp_max_addresses p" for P
    using assms length_filter_le [of P "lp_attempts p"] length_filter_le [of P "lp_addresses p"] unfolding protector_ok_def by linarith+
  show "lp_attempts (prune_locked it now p) = filter (\<lambda>(k, a). kept now a) (lp_attempts p)"
    using a by (simp add: prune_locked_def prune_addresses_def prune_attempts_def Let_def kept_def)
  then show "protector_ok (prune_locked it now p)"
    using assms a by (simp add: protector_ok_def prune_locked_def prune_addresses_def distinct_filter_keys)
qed (simp_all add: prune_locked_def prune_addresses_def)

lemma address_ok:
  assumes "protector_ok p" and "iterates it"
  shows "protector_ok (record_address_failure it address now p)"
    and "lp_attempts (record_address_failure it address now p) = lp_attempts p"
    and "lp_max_items (record_address_failure it address now p) = lp_max_items p"
    and "lp_max_addresses (record_address_failure it address now p) = lp_max_addresses p"
proof -
  let ?m = "lp_addresses p"
  have d: "distinct (map fst ?m)" "int (length ?m) \<le> lp_max_addresses p" using assms(1) by (simp_all add: protector_ok_def)
  have room: "distinct (map fst m) \<and> (address \<in> fst ` set m \<and> length m \<le> length ?m \<or> int (length m) < lp_max_addresses p)"
    if "(if map_of ?m address = None \<and> lp_max_addresses p \<le> int (length ?m) then evict_oldest_address it now ?m else Some ?m) = Some m"
    for m
  proof (cases "map_of ?m address = None \<and> lp_max_addresses p \<le> int (length ?m)")
    case True
    with that obtain k a where "(k, a) \<in> set ?m" "m = AList.delete k ?m"
      by (auto simp: evict_oldest_address_def elim!: evict_oldest_Some [OF _ assms(2)])
    then show ?thesis using length_delete [OF d(1)] d by (force simp: table_simps)
  next
    case False
    with that have "m = ?m" by (auto split: if_splits)
    then show ?thesis using False d by (auto simp: table_simps)
  qed
  show "protector_ok (record_address_failure it address now p)"
    using assms(1) d room by (fastforce simp: record_address_failure_def protector_ok_def table_simps Let_def split: option.split)
qed (simp_all add: record_address_failure_def Let_def split: option.split)

lemma room_ok:
  assumes "protector_ok p" and "iterates it" and "make_attempt_room it now p = Some q"
  shows "protector_ok q" and "int (length (lp_attempts q)) < lp_max_items p"
    and "lp_attempts q = lp_attempts p \<or>
        (\<exists>k a. map_of (lp_attempts p) k = Some a \<and> la_locked a \<le> now \<and> lp_attempts q = AList.delete k (lp_attempts p))"
    and "lp_max_items q = lp_max_items p" "lp_max_addresses q = lp_max_addresses p"
proof -
  let ?m = "lp_attempts p"
  have d: "distinct (map fst ?m)" "int (length ?m) \<le> lp_max_items p" using assms(1) by (simp_all add: protector_ok_def)
  have q: "q = p \<and> int (length ?m) < lp_max_items p \<or> (\<exists>k a. (k, a) \<in> set ?m \<and> la_locked a \<le> now \<and> q = p\<lparr>lp_attempts := AList.delete k ?m\<rparr>)"
  proof (cases "evict_oldest (\<lambda>a. now < la_locked a) it ?m")
    case (Some m')
    then obtain k a where "(k, a) \<in> set ?m" "\<not> now < la_locked a" "m' = AList.delete k ?m"
      by (rule evict_oldest_Some [OF _ assms(2)])
    then show ?thesis using assms(3) Some by (force simp: make_attempt_room_def split: if_splits)
  qed (use assms(3) in \<open>auto simp: make_attempt_room_def split: if_splits\<close>)
  then show "protector_ok q" "int (length (lp_attempts q)) < lp_max_items p"
    using assms(1) d length_delete [OF d(1)] by (fastforce simp: protector_ok_def table_simps)+
  from q show "lp_attempts q = ?m \<or> (\<exists>k a. map_of ?m k = Some a \<and> la_locked a \<le> now \<and> lp_attempts q = AList.delete k ?m)"
  proof (elim disjE exE conjE)
    fix k a
    assume "(k, a) \<in> set ?m" "la_locked a \<le> now" "q = p\<lparr>lp_attempts := AList.delete k ?m\<rparr>"
    then have "map_of ?m k = Some a \<and> la_locked a \<le> now \<and> lp_attempts q = AList.delete k ?m" using d(1) by simp
    then show ?thesis by blast
  qed simp
  show "lp_max_items q = lp_max_items p" "lp_max_addresses q = lp_max_addresses p" using q by auto
qed

section \<open>Runs\<close>

datatype login_op = Check string string | Fail string string | Succeed string string

datatype login_answer = Penalty i64 bool | Refused bool | Cleared

type_synonym login_event = "settings_world \<times> int \<times> iteration \<times> login_op"

fun login_step :: "setting_defs \<Rightarrow> login_event \<Rightarrow> protector \<Rightarrow> login_answer \<times> protector" where
  "login_step defs (w, now, it, Check u a) p = (let ((delay, locked), p') = before_attempt defs w it now u a p in (Penalty delay locked, p'))"
| "login_step defs (w, now, it, Fail u a) p = (let (locked, p') = login_failure defs w it now u a p in (Refused locked, p'))"
| "login_step defs (w, now, it, Succeed u a) p = (Cleared, login_success u a p)"

fun login_run :: "setting_defs \<Rightarrow> login_event list \<Rightarrow> protector \<Rightarrow> login_answer list \<times> protector" where
  "login_run defs [] p = ([], p)"
| "login_run defs (e # es) p =
     (let (r, p') = login_step defs e p; (rs, p'') = login_run defs es p' in (r # rs, p''))"

text \<open>The events happen one after the other, none before \<open>t\<close> and none after \<open>t'\<close>.\<close>

fun timed :: "int \<Rightarrow> login_event list \<Rightarrow> int \<Rightarrow> bool" where
  "timed t [] t' \<longleftrightarrow> t \<le> t'"
| "timed t ((w, now, it, op) # es) t' \<longleftrightarrow> t \<le> now \<and> iterates it \<and> timed now es t'"

lemma timed_le: "timed t es t' \<Longrightarrow> t \<le> t'"
  by (induction t es t' rule: timed.induct) auto

text \<open>What an operation does to the table of attempts, with the entry of one key in view.\<close>

lemma success_ok: "protector_ok p \<Longrightarrow> protector_ok (login_success u a p)"
  using length_delete_le [of "login_key u a" "lp_attempts p"] by (auto simp: protector_ok_def login_success_def AList.distinct_delete)

lemma check_ok: "protector_ok p \<Longrightarrow> protector_ok (snd (before_attempt defs w it now u a p))"
  by (auto simp: before_attempt_def prune_ok Let_def split: prod.split)

definition live :: "int \<Rightarrow> protector \<Rightarrow> attempts" where
  "live now p = filter (\<lambda>(k, a). kept now a) (lp_attempts p)"

lemma failure_cases:
  assumes "protector_ok p" and "iterates it" and "protection_enabled defs w"
  obtains (counted) q where "protector_ok q" "lp_max_items q = lp_max_items p" "lp_max_addresses q = lp_max_addresses p"
      "lp_attempts q = live now p \<or> map_of (live now p) (login_key u a) = None \<and>
        (\<exists>k b. map_of (live now p) k = Some b \<and> la_locked b \<le> now \<and> lp_attempts q = AList.delete k (live now p))"
      "map_of (lp_attempts q) (login_key u a) = None \<Longrightarrow> int (length (lp_attempts q)) < lp_max_items p"
      "login_failure defs w it now u a p =
        (let (b, locked) = count_failure (failure_threshold defs w) (lockout defs w) now (attempt_of (live now p) (login_key u a))
         in (locked, q\<lparr>lp_attempts := AList.update (login_key u a) b (lp_attempts q)\<rparr>))"
      "int (length (live now p)) < lp_max_items p \<or> map_of (live now p) (login_key u a) \<noteq> None \<Longrightarrow> lp_attempts q = live now p"
  | (full) q where "protector_ok q" "lp_max_items q = lp_max_items p" "lp_max_addresses q = lp_max_addresses p"
      "lp_attempts q = live now p"
      "map_of (live now p) (login_key u a) = None" "lp_max_items p \<le> int (length (live now p))"
      "login_failure defs w it now u a p = (False, q)"
proof -
  let ?q = "record_address_failure it (trim_space a) now (prune_locked it now p)" and ?k = "login_key u a"
  note pr = prune_ok [OF assms(1), of it now, folded live_def]
  note ad = address_ok [OF pr(2) assms(2), of "trim_space a" now, unfolded pr]
  have f: "login_failure defs w it now u a p =
    (case (if map_of (live now p) ?k = None then make_attempt_room it now ?q else Some ?q) of
       None \<Rightarrow> (False, ?q)
     | Some q' \<Rightarrow> let (b, locked) = count_failure (failure_threshold defs w) (lockout defs w) now (attempt_of (live now p) ?k)
         in (locked, q'\<lparr>lp_attempts := AList.update ?k b (lp_attempts q')\<rparr>))"
    using assms(3) unfolding login_failure_def Let_def ad(2) by simp
  consider (known) "map_of (live now p) ?k \<noteq> None" | (none) "map_of (live now p) ?k = None" "make_attempt_room it now ?q = None"
    | (some) q where "map_of (live now p) ?k = None" "make_attempt_room it now ?q = Some q"
    by blast
  then show thesis
  proof cases
    case known
    have "login_failure defs w it now u a p =
        (let (b, locked) = count_failure (failure_threshold defs w) (lockout defs w) now (attempt_of (live now p) ?k)
         in (locked, ?q\<lparr>lp_attempts := AList.update ?k b (lp_attempts ?q)\<rparr>))"
      by (simp only: f known if_False option.case)
    then show thesis by (rule counted [OF ad(1) ad(3) ad(4) disjI1 [OF ad(2)], rotated]) (use known ad(2) in simp_all)
  next
    case none
    moreover from none(2) have "lp_max_items p \<le> int (length (live now p))"
      by (auto simp: make_attempt_room_def ad not_less split: if_splits)
    ultimately show thesis using f by (intro full [OF ad(1) ad(3) ad(4) ad(2)]) simp_all
  next
    case (some q)
    note ro = room_ok [OF ad(1) assms(2) some(2), unfolded ad(2,3,4)]
    have "login_failure defs w it now u a p =
        (let (b, locked) = count_failure (failure_threshold defs w) (lockout defs w) now (attempt_of (live now p) ?k)
         in (locked, q\<lparr>lp_attempts := AList.update ?k b (lp_attempts q)\<rparr>))"
      by (simp only: f some if_True simp_thms option.case)
    moreover have "lp_attempts q = live now p" if "int (length (live now p)) < lp_max_items p \<or> map_of (live now p) ?k \<noteq> None"
      using that some by (auto simp: make_attempt_room_def ad split: if_splits)
    ultimately show thesis by (rule counted [OF ro(1) ro(4) ro(5) _ ro(2), rotated]) (use ro(3) some(1) in blast)+
  qed
qed

lemma count_failure_simps:
  "fst (count_failure threshold duration now a) = a\<lparr>la_failures := wrap64 (la_failures a + 1), la_updated := now,
     la_locked := (if threshold \<le> wrap64 (la_failures a + 1) then now + duration else la_locked a)\<rparr>"
  "snd (count_failure threshold duration now a) = (threshold \<le> wrap64 (la_failures a + 1))"
  by (simp_all add: count_failure_def Let_def)

lemma failure_ok:
  assumes "protector_ok p" and "iterates it"
  shows "protector_ok (snd (login_failure defs w it now u a p)) \<and>
    lp_max_items (snd (login_failure defs w it now u a p)) = lp_max_items p \<and>
    lp_max_addresses (snd (login_failure defs w it now u a p)) = lp_max_addresses p"
proof (cases "protection_enabled defs w")
  case True
  show ?thesis
  proof (rule failure_cases [OF assms True, of now u a])
    fix q
    assume "protector_ok q" "map_of (lp_attempts q) (login_key u a) = None \<Longrightarrow> int (length (lp_attempts q)) < lp_max_items p"
      and "lp_max_items q = lp_max_items p" "lp_max_addresses q = lp_max_addresses p"
      "login_failure defs w it now u a p =
        (let (b, locked) = count_failure (failure_threshold defs w) (lockout defs w) now (attempt_of (live now p) (login_key u a))
         in (locked, q\<lparr>lp_attempts := AList.update (login_key u a) b (lp_attempts q)\<rparr>))"
    then show ?thesis by (auto simp: protector_ok_def table_simps Let_def split: prod.split)
  qed simp
qed (use assms in \<open>simp add: login_failure_def\<close>)

lemma step_ok:
  assumes "protector_ok p" and "iterates it"
  shows "protector_ok (snd (login_step defs (w, now, it, op) p)) \<and>
    lp_max_items (snd (login_step defs (w, now, it, op) p)) = lp_max_items p \<and>
    lp_max_addresses (snd (login_step defs (w, now, it, op) p)) = lp_max_addresses p"
proof (cases op)
  case (Check u a)
  have "lp_max_items (snd (before_attempt defs w it now u a p)) = lp_max_items p"
    "lp_max_addresses (snd (before_attempt defs w it now u a p)) = lp_max_addresses p"
    by (simp_all add: before_attempt_def prune_locked_def prune_addresses_def Let_def split: prod.split)
  then show ?thesis using check_ok [OF assms(1)] by (simp add: Check Let_def split: prod.split) (metis snd_conv)
next
  case (Fail u a)
  then show ?thesis using failure_ok [OF assms] by (simp add: Let_def split: prod.split) (metis snd_conv)
next
  case (Succeed u a)
  then show ?thesis using success_ok [OF assms(1)] by (simp add: login_success_def)
qed

lemma run_ok:
  "protector_ok p \<Longrightarrow> timed t es t' \<Longrightarrow> protector_ok (snd (login_run defs es p)) \<and>
    lp_max_items (snd (login_run defs es p)) = lp_max_items p \<and>
    lp_max_addresses (snd (login_run defs es p)) = lp_max_addresses p"
proof (induction es arbitrary: p t)
  case (Cons e es)
  obtain w now it op where e: "e = (w, now, it, op)" by (cases e)
  with Cons.prems have t: "iterates it" "timed now es t'" by simp_all
  show ?case using step_ok [OF Cons.prems(1) t(1), of defs w now op] Cons.IH [OF _ t(2)]
    by (simp add: e split: prod.split) (metis snd_conv)
qed simp

text \<open>
  C36. The tables of the login protection stay small: whatever is tried, by whom and in which order,
  from the start of the manager on there are never more than 4096 entries for accounts and 1024 for
  addresses, and no key has two of them.
\<close>

theorem login_tables_bounded:
  assumes "timed t es t'"
  shows "length (lp_attempts (snd (login_run defs es new_protector))) \<le> 4096 \<and>
     length (lp_addresses (snd (login_run defs es new_protector))) \<le> 1024 \<and>
     distinct (map fst (lp_attempts (snd (login_run defs es new_protector)))) \<and>
     distinct (map fst (lp_addresses (snd (login_run defs es new_protector))))"
proof -
  have "protector_ok new_protector" by (simp add: protector_ok_def new_protector_def)
  from run_ok [OF this assms, of defs] show ?thesis by (simp add: protector_ok_def new_protector_def)
qed

section \<open>A lockout lasts\<close>

lemma live_locked:
  "protector_ok p \<Longrightarrow> map_of (lp_attempts p) key = Some x \<Longrightarrow> now < la_locked x \<Longrightarrow> map_of (live now p) key = Some x"
  by (simp add: live_def map_of_filter_keys protector_ok_def kept_def)

lemma live_Some: "protector_ok p \<Longrightarrow> map_of (live now p) key = Some x \<Longrightarrow> map_of (lp_attempts p) key = Some x"
  by (simp add: live_def map_of_filter_keys protector_ok_def split: option.splits if_splits)

lemma check_attempts:
  "protector_ok p \<Longrightarrow> protection_enabled defs w \<Longrightarrow> lp_attempts (snd (before_attempt defs w it now u a p)) = live now p"
  by (simp add: before_attempt_def prune_ok live_def Let_def split: prod.split)

definition clears :: "string \<Rightarrow> login_op \<Rightarrow> bool" where
  "clears key op \<longleftrightarrow> (case op of Succeed u a \<Rightarrow> login_key u a = key | _ \<Rightarrow> False)"

lemma failure_keeps_lock:
  assumes "protector_ok p" "iterates it" "map_of (lp_attempts p) key = Some x" "T \<le> la_locked x" "now < T"
    and "T \<le> now + lockout defs w"
  shows "\<exists>y. map_of (lp_attempts (snd (login_failure defs w it now u a p))) key = Some y \<and> T \<le> la_locked y"
proof (cases "protection_enabled defs w")
  case True
  have x: "map_of (live now p) key = Some x" using live_locked assms(1,3,4,5) by simp
  show ?thesis
  proof (rule failure_cases [OF assms(1,2) True, of now u a])
    fix q
    assume q: "lp_attempts q = live now p \<or> map_of (live now p) (login_key u a) = None \<and>
        (\<exists>k b. map_of (live now p) k = Some b \<and> la_locked b \<le> now \<and> lp_attempts q = AList.delete k (live now p))"
      and f: "login_failure defs w it now u a p =
        (let (b, locked) = count_failure (failure_threshold defs w) (lockout defs w) now (attempt_of (live now p) (login_key u a))
         in (locked, q\<lparr>lp_attempts := AList.update (login_key u a) b (lp_attempts q)\<rparr>))"
    have key: "map_of (lp_attempts q) key = Some x" using q x assms(4,5) by (auto simp: delete_conv')
    show ?thesis
    proof (cases "login_key u a = key")
      case True
      then show ?thesis using x assms(4,6) by (simp add: f Let_def split_def count_failure_simps attempt_of_def update_conv)
    next
      case False
      then show ?thesis using key assms(4) by (simp add: f Let_def split_def update_conv)
    qed
  qed (use x assms(4) in simp)
qed (use assms in \<open>simp add: login_failure_def\<close>)

lemma step_keeps_lock:
  assumes "protector_ok p" "iterates it" "map_of (lp_attempts p) key = Some x" "T \<le> la_locked x" "now < T"
    and "T \<le> now + lockout defs w" and "\<not> clears key op"
  shows "\<exists>y. map_of (lp_attempts (snd (login_step defs (w, now, it, op) p))) key = Some y \<and> T \<le> la_locked y"
proof (cases op)
  case (Check u a)
  then show ?thesis using assms live_locked [OF assms(1,3), of now] check_attempts [OF assms(1), of defs w it now u a]
    by (cases "protection_enabled defs w") (auto simp: before_attempt_def split: prod.split)
next
  case (Fail u a)
  then show ?thesis using failure_keeps_lock [OF assms(1-6), of u a] by (simp split: prod.split) (metis snd_conv)
next
  case (Succeed u a)
  then show ?thesis using assms by (simp add: login_success_def delete_conv' clears_def)
qed

lemma run_keeps_lock:
  assumes "protector_ok p" "map_of (lp_attempts p) key = Some x" "T \<le> la_locked x" "timed t es t'" "t' < T"
    and "T \<le> t + L" "\<forall>(w, now, it, op) \<in> set es. lockout defs w = L \<and> \<not> clears key op"
  shows "\<exists>y. map_of (lp_attempts (snd (login_run defs es p))) key = Some y \<and> T \<le> la_locked y"
  using assms
proof (induction es arbitrary: p x t)
  case (Cons e es)
  obtain w now it op where e: "e = (w, now, it, op)" by (cases e)
  with Cons.prems have t: "t \<le> now" "iterates it" "timed now es t'" "lockout defs w = L" "\<not> clears key op" by auto
  then have now: "now < T" "T \<le> now + L" using timed_le [OF t(3)] Cons.prems by simp_all
  obtain y where y: "map_of (lp_attempts (snd (login_step defs e p))) key = Some y" "T \<le> la_locked y"
    using step_keeps_lock [OF Cons.prems(1) t(2) Cons.prems(2,3) now(1) _ t(5)] now t(4) by (auto simp: e)
  have "protector_ok (snd (login_step defs e p))" using step_ok [OF Cons.prems(1) t(2)] by (simp add: e)
  from Cons.IH [OF this y t(3) Cons.prems(5) now(2)] Cons.prems(7) show ?case
    by (simp split: prod.split) (metis snd_conv)
qed auto

text \<open>
  C22. A lockout lasts: once a failed login has locked a user at an address, every check of that pair is
  told to wait for the rest of the lockout, whatever else is tried in the meantime, by whomever, as long as
  the lockout time is not changed and no login of that pair that was under way succeeds.
\<close>

theorem login_lock_holds:
  assumes "protector_ok p" and "iterates it0" and "login_failure defs w0 it0 t u a p = (True, p1)"
    and "timed t es now" and "now < t + lockout defs w0" and "protection_enabled defs w"
    and "\<forall>(w, now, it, op) \<in> set es. lockout defs w = lockout defs w0 \<and> \<not> clears (login_key u a) op"
  shows "\<exists>d. fst (before_attempt defs w it now u a (snd (login_run defs es p1))) = (d, True) \<and> t + lockout defs w0 - now \<le> d"
proof -
  let ?key = "login_key u a" and ?T = "t + lockout defs w0" and ?p2 = "snd (login_run defs es p1)"
  have "protection_enabled defs w0" using assms(3) by (auto simp: login_failure_def split: if_splits)
  from failure_cases [OF assms(1,2) this, of t u a] obtain x where
    x: "map_of (lp_attempts p1) ?key = Some x" "la_locked x = ?T"
    using assms(3) by cases (auto simp: Let_def split_def update_conv count_failure_simps)
  have ok: "protector_ok p1" using failure_ok [OF assms(1,2), of defs w0 t u a] assms(3) by simp
  obtain y where y: "map_of (lp_attempts ?p2) ?key = Some y" "?T \<le> la_locked y"
    using run_keeps_lock [OF ok x(1) eq_refl [OF x(2) [symmetric]] assms(4,5) order.refl assms(7)] by blast
  have "protector_ok ?p2" using run_ok [OF ok assms(4)] by blast
  then have "map_of (live now ?p2) ?key = Some y" using live_locked y assms(5) by simp
  moreover have "lp_attempts (prune_locked it now ?p2) = live now ?p2"
    using prune_ok(1) [OF \<open>protector_ok ?p2\<close>] by (simp add: live_def)
  ultimately have "fst (before_attempt defs w it now u a ?p2) = (time_sub (la_locked y) now, True)"
    using assms(5,6) y(2) by (simp add: before_attempt_def attempt_of_def login_attempt_penalty_def Let_def split_def)
  moreover have "?T - now \<le> 9223372036854775807"
    using timed_le [OF assms(4)] is_i64_wrap64 [of "lockout_seconds defs w0 * second"] by (simp add: lockout_def is_i64_def)
  ultimately show ?thesis using y(2) by (simp add: time_sub_def)
qed

section \<open>Every account has its own counter\<close>

text \<open>The specification: a counter for every pair, without any limit on their number.\<close>

type_synonym counters = "string \<rightharpoonup> login_attempt"

definition unexpired :: "int \<Rightarrow> counters \<Rightarrow> counters" where
  "unexpired now m = (\<lambda>k. case m k of None \<Rightarrow> None | Some a \<Rightarrow> if kept now a then Some a else None)"

definition counter_of :: "counters \<Rightarrow> string \<Rightarrow> login_attempt" where
  "counter_of m k = (case m k of None \<Rightarrow> no_attempt | Some a \<Rightarrow> a)"

fun counter_step :: "setting_defs \<Rightarrow> login_event \<Rightarrow> counters \<Rightarrow> bool \<times> counters" where
  "counter_step defs (w, now, it, Check u a) m =
     (if protection_enabled defs w
      then (snd (login_attempt_penalty (counter_of (unexpired now m) (login_key u a)) now 2), unexpired now m)
      else (False, m))"
| "counter_step defs (w, now, it, Fail u a) m =
     (if protection_enabled defs w
      then let (b, locked) = count_failure (failure_threshold defs w) (lockout defs w) now (counter_of (unexpired now m) (login_key u a))
           in (locked, (unexpired now m)(login_key u a \<mapsto> b))
      else (False, m))"
| "counter_step defs (w, now, it, Succeed u a) m = (False, m(login_key u a := None))"

fun counter_run :: "setting_defs \<Rightarrow> login_event list \<Rightarrow> counters \<Rightarrow> bool list" where
  "counter_run defs [] m = []"
| "counter_run defs (e # es) m = (let (r, m') = counter_step defs e m in r # counter_run defs es m')"

fun verdict :: "login_answer \<Rightarrow> bool" where
  "verdict (Penalty d locked) = locked"
| "verdict (Refused locked) = locked"
| "verdict Cleared = False"

fun failed_key :: "login_event \<Rightarrow> string list" where
  "failed_key (w, now, it, Fail u a) = [login_key u a]"
| "failed_key e = []"

definition failed_keys :: "login_event list \<Rightarrow> string set" where
  "failed_keys es = set (concat (map failed_key es))"

definition counts :: "string set \<Rightarrow> protector \<Rightarrow> counters \<Rightarrow> bool" where
  "counts K p m \<longleftrightarrow> protector_ok p \<and> map_of (lp_attempts p) = m \<and> fst ` set (lp_attempts p) \<subseteq> K"

lemma live_unexpired: "protector_ok p \<Longrightarrow> map_of (live now p) = unexpired now (map_of (lp_attempts p))"
  by (rule ext) (simp add: live_def unexpired_def map_of_filter_keys protector_ok_def split: option.split)

lemma live_keys: "fst ` set (lp_attempts p) \<subseteq> K \<Longrightarrow> e \<in> set (live now p) \<Longrightarrow> fst e \<in> K"
  by (auto simp: live_def)

lemma attempt_counter: "attempt_of m k = counter_of (map_of m) k"
  by (simp add: attempt_of_def counter_of_def)

lemma room_for_key:
  assumes "protector_ok p" "finite K" "int (card K) \<le> lp_max_items p" "fst ` set (lp_attempts p) \<subseteq> K" "key \<in> K"
  shows "int (length (live now p)) < lp_max_items p \<or> map_of (live now p) key \<noteq> None"
proof (cases "map_of (live now p) key = None")
  case True
  have d: "distinct (map fst (live now p))" using assms(1) by (simp add: protector_ok_def live_def distinct_filter_keys)
  have "fst ` set (live now p) \<subset> K" using True assms(5) live_keys [OF assms(4)] by (auto simp: map_of_None_keys)
  then have "card (fst ` set (live now p)) < card K" by (rule psubset_card_mono [OF assms(2)])
  then show ?thesis using distinct_card [OF d] assms(3) by simp
qed simp

lemma step_counts:
  assumes "counts K p m" "iterates it" "finite K" "int (card K) \<le> lp_max_items p" "set (failed_key (w, now, it, op)) \<subseteq> K"
  shows "verdict (fst (login_step defs (w, now, it, op) p)) = fst (counter_step defs (w, now, it, op) m) \<and>
    counts K (snd (login_step defs (w, now, it, op) p)) (snd (counter_step defs (w, now, it, op) m))"
proof -
  have ok: "protector_ok p" and m: "map_of (lp_attempts p) = m" and K: "fst ` set (lp_attempts p) \<subseteq> K"
    using assms(1) by (simp_all add: counts_def)
  note lv = live_unexpired [OF ok, unfolded m]
  have ok': "protector_ok (snd (login_step defs (w, now, it, op) p))" using step_ok [OF ok assms(2)] by blast
  show ?thesis
  proof (cases op)
    case (Check u a)
    show ?thesis
    proof (cases "protection_enabled defs w")
      case True
      have "verdict (fst (login_step defs (w, now, it, op) p)) = snd (login_attempt_penalty (attempt_of (live now p) (login_key u a)) now 2)"
        using True prune_ok(1) [OF ok, folded live_def] by (simp add: Check before_attempt_def Let_def split: prod.split)
      moreover have "lp_attempts (snd (login_step defs (w, now, it, op) p)) = live now p"
        using check_attempts [OF ok True, of it now u a] by (simp add: Check split: prod.split) (metis snd_conv)
      ultimately show ?thesis using True ok' lv live_keys [OF K] by (auto simp: counts_def Check attempt_counter)
    qed (use ok m K in \<open>simp add: Check before_attempt_def counts_def\<close>)
  next
    case (Fail u a)
    show ?thesis
    proof (cases "protection_enabled defs w")
      case True
      have key: "login_key u a \<in> K" using assms(5) Fail by simp
      note room = room_for_key [OF ok assms(3,4) K key, of now]
      show ?thesis
      proof (rule failure_cases [OF ok assms(2) True, of now u a])
        fix q
        assume q: "int (length (live now p)) < lp_max_items p \<or> map_of (live now p) (login_key u a) \<noteq> None \<Longrightarrow> lp_attempts q = live now p"
          and f: "login_failure defs w it now u a p =
            (let (b, locked) = count_failure (failure_threshold defs w) (lockout defs w) now (attempt_of (live now p) (login_key u a))
             in (locked, q\<lparr>lp_attempts := AList.update (login_key u a) b (lp_attempts q)\<rparr>))"
        show ?thesis using ok' q [OF room] f True lv key live_keys [OF K]
          by (auto simp: counts_def Fail attempt_counter Let_def update_conv dom_update split: prod.split)
      qed (use room in auto)
    qed (use ok m K in \<open>simp add: Fail login_failure_def counts_def\<close>)
  next
    case (Succeed u a)
    then show ?thesis using ok' m K subset_trans [OF dom_delete_subset K, of "login_key u a"]
      by (simp add: counts_def login_success_def delete_conv')
  qed
qed

lemma run_counts:
  assumes "counts K p m" "timed t es t'" "finite K" "int (card K) \<le> lp_max_items p" "failed_keys es \<subseteq> K"
  shows "map verdict (fst (login_run defs es p)) = counter_run defs es m"
  using assms
proof (induction es arbitrary: p m t)
  case (Cons e es)
  obtain w now it op where e: "e = (w, now, it, op)" by (cases e)
  have it: "iterates it" "timed now es t'" and key: "set (failed_key (w, now, it, op)) \<subseteq> K" "failed_keys es \<subseteq> K"
    using Cons.prems by (auto simp: e failed_keys_def)
  note st = step_counts [OF Cons.prems(1) it(1) Cons.prems(3,4) key(1), of defs]
  have "lp_max_items (snd (login_step defs e p)) = lp_max_items p"
    using step_ok [OF _ it(1)] Cons.prems(1) by (simp add: e counts_def)
  from Cons.IH [OF conjunct2 [OF st] it(2) Cons.prems(3) _ key(2)] this Cons.prems(4) st
  show ?case by (simp add: e split_def Let_def)
qed simp


section \<open>A full table\<close>

definition saturated :: "int \<Rightarrow> protector \<Rightarrow> bool" where
  "saturated T p \<longleftrightarrow> protector_ok p \<and> int (length (lp_attempts p)) = lp_max_items p \<and>
     (\<forall>(k, a) \<in> set (lp_attempts p). T \<le> la_locked a)"

lemma saturated_live: "saturated T p \<Longrightarrow> now < T \<Longrightarrow> live now p = lp_attempts p"
  unfolding live_def by (rule filter_True) (auto simp: saturated_def kept_def)

lemma update_member: "e \<in> set (AList.update k b m) \<Longrightarrow> e = (k, b) \<or> e \<in> set m"
  by (induction m) (auto split: if_splits)

lemma saturated_step:
  assumes "saturated T p" "iterates it" "now < T" "T \<le> now + lockout defs w" "\<forall>k \<in> fst ` set (lp_attempts p). \<not> clears k op"
  shows "saturated T (snd (login_step defs (w, now, it, op) p)) \<and>
    fst ` set (lp_attempts (snd (login_step defs (w, now, it, op) p))) = fst ` set (lp_attempts p)"
proof -
  have ok: "protector_ok p" and full: "int (length (lp_attempts p)) = lp_max_items p"
    and T: "\<And>k a. (k, a) \<in> set (lp_attempts p) \<Longrightarrow> T \<le> la_locked a"
    using assms(1) by (auto simp: saturated_def)
  note lv = saturated_live [OF assms(1,3)]
  note so = step_ok [OF ok assms(2), of defs w now op]
  show ?thesis
  proof (cases op)
    case (Check u a)
    have "lp_attempts (snd (login_step defs (w, now, it, op) p)) = lp_attempts p"
      using check_attempts [OF ok, of defs w it now u a] lv
      by (cases "protection_enabled defs w") (simp_all add: Check before_attempt_def split: prod.split, metis snd_conv)
    then show ?thesis using so assms(1) by (simp add: saturated_def)
  next
    case (Fail u a)
    show ?thesis
    proof (cases "protection_enabled defs w")
      case True
      show ?thesis
      proof (rule failure_cases [OF ok assms(2) True, of now u a])
        fix q
        assume q: "lp_attempts q = live now p \<or> map_of (live now p) (login_key u a) = None \<and>
            (\<exists>k b. map_of (live now p) k = Some b \<and> la_locked b \<le> now \<and> lp_attempts q = AList.delete k (live now p))"
          and lt: "map_of (lp_attempts q) (login_key u a) = None \<Longrightarrow> int (length (lp_attempts q)) < lp_max_items p"
          and f: "login_failure defs w it now u a p =
            (let (b, locked) = count_failure (failure_threshold defs w) (lockout defs w) now (attempt_of (live now p) (login_key u a))
             in (locked, q\<lparr>lp_attempts := AList.update (login_key u a) b (lp_attempts q)\<rparr>))"
        have qm: "lp_attempts q = lp_attempts p"
        proof (rule ccontr)
          assume "lp_attempts q \<noteq> lp_attempts p"
          then obtain k b where "(k, b) \<in> set (lp_attempts p)" "la_locked b \<le> now" using q lv by (auto dest: map_of_SomeD)
          then show False using T assms(3) by fastforce
        qed
        then obtain x where x: "map_of (lp_attempts p) (login_key u a) = Some x" using lt full by (cases "map_of (lp_attempts p) (login_key u a)") auto
        obtain b locked where b: "count_failure (failure_threshold defs w) (lockout defs w) now x = (b, locked)" by (rule prod.exhaust)
        have "T \<le> la_locked b" using b T [OF map_of_SomeD [OF x]] assms(4) by (auto simp: count_failure_def Let_def)
        moreover have st: "lp_attempts (snd (login_step defs (w, now, it, op) p)) = AList.update (login_key u a) b (lp_attempts p)"
          using f b x qm lv by (simp add: Fail attempt_of_def)
        moreover have "login_key u a \<in> fst ` set (lp_attempts p)" using x by (metis map_of_None_keys option.distinct(1))
        moreover have "T \<le> la_locked c" if "(k, c) \<in> set (AList.update (login_key u a) b (lp_attempts p))" for k c
          using update_member [OF that] T \<open>T \<le> la_locked b\<close> by auto
        ultimately show ?thesis
          using so full by (auto simp: saturated_def length_update AList.dom_update)
      qed (use assms(1) so lv in \<open>simp add: Fail saturated_def\<close>)
    qed (use assms(1) in \<open>simp add: Fail login_failure_def\<close>)
  next
    case (Succeed u a)
    then have "login_key u a \<notin> fst ` set (lp_attempts p)" using assms(5) by (auto simp: clears_def)
    then have "AList.delete (login_key u a) (lp_attempts p) = lp_attempts p" by (simp add: delete_id)
    then show ?thesis using assms(1) so by (simp add: Succeed login_success_def saturated_def)
  qed
qed

fun op_key :: "login_event \<Rightarrow> string" where
  "op_key (w, now, it, Check u a) = login_key u a"
| "op_key (w, now, it, Fail u a) = login_key u a"
| "op_key (w, now, it, Succeed u a) = login_key u a"

lemma saturated_verdict:
  assumes "saturated T p" "iterates it" "0 \<le> now" "now < T" "op_key (w, now, it, op) \<notin> fst ` set (lp_attempts p)"
  shows "\<not> verdict (fst (login_step defs (w, now, it, op) p))"
proof -
  have ok: "protector_ok p" and full: "int (length (lp_attempts p)) = lp_max_items p" using assms(1) by (simp_all add: saturated_def)
  note lv = saturated_live [OF assms(1,4)]
  show ?thesis
  proof (cases op)
    case (Check u a)
    show ?thesis
    proof (cases "protection_enabled defs w")
      case True
      have "map_of (lp_attempts p) (login_key u a) = None" using assms(5) by (simp add: Check map_of_None_keys)
      then show ?thesis using True prune_ok(1) [OF ok, folded live_def] lv assms(3)
        by (auto simp: Check before_attempt_def Let_def attempt_of_def login_attempt_penalty_def no_attempt_def split: prod.split)
    qed (simp add: Check before_attempt_def)
  next
    case (Fail u a)
    then have none: "map_of (lp_attempts p) (login_key u a) = None" using assms(5) by (simp add: map_of_None_keys)
    show ?thesis
    proof (cases "protection_enabled defs w")
      case True
      show ?thesis
      proof (rule failure_cases [OF ok assms(2) True, of now u a])
        fix q
        assume q: "lp_attempts q = live now p \<or> map_of (live now p) (login_key u a) = None \<and>
            (\<exists>k b. map_of (live now p) k = Some b \<and> la_locked b \<le> now \<and> lp_attempts q = AList.delete k (live now p))"
          and lt: "map_of (lp_attempts q) (login_key u a) = None \<Longrightarrow> int (length (lp_attempts q)) < lp_max_items p"
        then have "\<exists>k b. (k, b) \<in> set (lp_attempts p) \<and> la_locked b \<le> now"
          using none full lv by (metis map_of_SomeD less_irrefl)
        then have False using assms(1,4) by (fastforce simp: saturated_def)
        then show ?thesis ..
      qed (simp add: Fail)
    qed (simp add: Fail login_failure_def)
  qed simp
qed

text \<open>
  C37. A full table fails open: while every entry of the table is a lockout that lasts, no failed login of any
  other pair is counted and no check of it is refused, however many passwords are tried.
\<close>

theorem login_full_table_fails_open:
  assumes "saturated T p" and "timed t es t'" and "0 \<le> t" and "t' < T" and "T \<le> t + L"
    and "\<forall>(w, now, it, op) \<in> set es. lockout defs w = L \<and> (\<forall>k \<in> fst ` set (lp_attempts p). \<not> clears k op)"
  shows "\<forall>(e, r) \<in> set (zip es (fst (login_run defs es p))). op_key e \<notin> fst ` set (lp_attempts p) \<longrightarrow> \<not> verdict r"
  using assms
proof (induction es arbitrary: p t)
  case (Cons e es)
  obtain w now it op where e: "e = (w, now, it, op)" by (cases e)
  have t: "t \<le> now" "iterates it" "timed now es t'" and w: "lockout defs w = L" "\<forall>k \<in> fst ` set (lp_attempts p). \<not> clears k op"
    using Cons.prems by (auto simp: e)
  have now: "0 \<le> now" "now < T" "T \<le> now + L" using timed_le [OF t(3)] t(1) Cons.prems(3,4,5) by simp_all
  have st: "saturated T (snd (login_step defs e p))" "fst ` set (lp_attempts (snd (login_step defs e p))) = fst ` set (lp_attempts p)"
    using saturated_step [OF Cons.prems(1) t(2) now(2) _ w(2), of defs] now(3) w(1) by (simp_all add: e)
  have "\<forall>(e, r) \<in> set (zip es (fst (login_run defs es (snd (login_step defs e p))))). op_key e \<notin> fst ` set (lp_attempts p) \<longrightarrow> \<not> verdict r"
    using Cons.IH [OF st(1) t(3) now(1) Cons.prems(4) now(3)] Cons.prems(6) unfolding st(2) by simp
  moreover have "op_key e \<notin> fst ` set (lp_attempts p) \<longrightarrow> \<not> verdict (fst (login_step defs e p))"
    using saturated_verdict [OF Cons.prems(1) t(2) now(1,2), of w op defs] by (simp add: e)
  ultimately show ?case by (simp add: split_def Let_def)
qed simp

section \<open>Witnesses\<close>

definition quick :: settings_world where
  "quick = \<lparr>sw_env = Map.empty, sw_rows = [''login_failure_threshold'' \<mapsto> ''2''], sw_down = False\<rparr>"

lemma quick_settings:
  "protection_enabled (setting_defs sample_defaults) quick" "failure_threshold (setting_defs sample_defaults) quick = 2"
  "lockout (setting_defs sample_defaults) quick = 900000000000"
proof -
  have trims: "trim_space ''true'' = ''true''" "trim_space ''2'' = ''2''" "trim_space ''900'' = ''900''" by code_simp+
  have r: "resolve (setting_defs sample_defaults) quick ''login_protection_enabled'' = Inr \<lparr>rv_value = VBool True, rv_source = ''default'', rv_editable = True\<rparr>"
    "resolve (setting_defs sample_defaults) quick ''login_failure_threshold'' = Inr \<lparr>rv_value = VInt 2, rv_source = ''database'', rv_editable = True\<rparr>"
    "resolve (setting_defs sample_defaults) quick ''login_lockout_seconds'' = Inr \<lparr>rv_value = VInt 900, rv_source = ''default'', rv_editable = True\<rparr>"
    using trims by (simp_all add: resolve_def setting_defs_def int_def_def bool_def_def quick_def env_value_def from_source_def
        parse_setting_def parse_bool_def parse_int_def parse_uint_def digit_val_def)
  show "protection_enabled (setting_defs sample_defaults) quick" "failure_threshold (setting_defs sample_defaults) quick = 2"
    "lockout (setting_defs sample_defaults) quick = 900000000000"
    by (simp_all add: r protection_enabled_def failure_threshold_def lockout_def lockout_seconds_def bool_setting_def int_setting_def
        second_def wrap64_def)
qed

lemma iterates_id: "iterates (\<lambda>m. m)"
  by (simp add: iterates_def)

definition one_failure :: protector where
  "one_failure = \<lparr>lp_attempts = [(login_key ''ann'' ''h'', \<lparr>la_failures = 1, la_updated = 0, la_locked = 0\<rparr>)], lp_addresses = [],
     lp_max_items = 1, lp_max_addresses = 1\<rparr>"

lemma second_failure:
  "\<exists>p1. login_failure (setting_defs sample_defaults) quick (\<lambda>m. m) 10 ''ann'' ''h'' one_failure = (True, p1) \<and>
     lp_attempts p1 = [(login_key ''ann'' ''h'', \<lparr>la_failures = 2, la_updated = 10, la_locked = 900000000010\<rparr>)] \<and> protector_ok p1 \<and>
     lp_max_items p1 = 1"
proof -
  let ?r = "login_failure (setting_defs sample_defaults) quick (\<lambda>m. m) 10 ''ann'' ''h'' one_failure"
  have ok: "protector_ok one_failure" by (simp add: protector_ok_def one_failure_def)
  have l: "live 10 one_failure = lp_attempts one_failure"
    by (simp add: live_def one_failure_def kept_def login_attempt_ttl_def time_sub_def)
  have "fst ?r \<and> lp_attempts (snd ?r) = [(login_key ''ann'' ''h'', \<lparr>la_failures = 2, la_updated = 10, la_locked = 900000000010\<rparr>)]"
  proof (rule failure_cases [OF ok iterates_id quick_settings(1), of 10 "''ann''" "''h''"])
    fix q
    assume "lp_attempts q = live 10 one_failure \<or> map_of (live 10 one_failure) (login_key ''ann'' ''h'') = None \<and>
        (\<exists>k b. map_of (live 10 one_failure) k = Some b \<and> la_locked b \<le> 10 \<and> lp_attempts q = AList.delete k (live 10 one_failure))"
      and f: "?r = (let (b, locked) = count_failure (failure_threshold (setting_defs sample_defaults) quick)
            (lockout (setting_defs sample_defaults) quick) 10 (attempt_of (live 10 one_failure) (login_key ''ann'' ''h''))
         in (locked, q\<lparr>lp_attempts := AList.update (login_key ''ann'' ''h'') b (lp_attempts q)\<rparr>))"
    then have "lp_attempts q = lp_attempts one_failure" by (simp add: l) (simp add: one_failure_def)
    moreover have "attempt_of (live 10 one_failure) (login_key ''ann'' ''h'') = \<lparr>la_failures = 1, la_updated = 0, la_locked = 0\<rparr>"
      unfolding attempt_of_def l by (simp add: one_failure_def)
    ultimately show ?thesis using f by (simp add: quick_settings count_failure_def wrap64_def) (simp add: one_failure_def)
  qed (simp only: l, simp add: one_failure_def)
  moreover note failure_ok [OF ok iterates_id, of "setting_defs sample_defaults" quick 10 "''ann''" "''h''"]
  ultimately show ?thesis by (cases ?r) (simp add: one_failure_def)
qed

theorem login_tables_bounded_witness:
  "length (lp_attempts (snd (login_run (setting_defs sample_defaults) [(quick, 5, \<lambda>m. m, Fail ''ann'' ''h'')] new_protector))) \<le> 4096"
  using login_tables_bounded [of 0 "[(quick, 5, \<lambda>m. m, Fail ''ann'' ''h'')]" 5 "setting_defs sample_defaults"] by (simp add: iterates_id)

theorem login_lock_holds_witness:
  "\<exists>p d. fst (before_attempt (setting_defs sample_defaults) quick (\<lambda>m. m) 20 ''ann'' ''h'' p) = (d, True) \<and> 899999999990 \<le> d"
proof -
  have ok: "protector_ok one_failure" by (simp add: protector_ok_def one_failure_def)
  obtain p1 where f: "login_failure (setting_defs sample_defaults) quick (\<lambda>m. m) 10 ''ann'' ''h'' one_failure = (True, p1)"
    using second_failure by blast
  from login_lock_holds [OF ok iterates_id f, of "[(quick, 15, \<lambda>m. m, Fail ''bob'' ''h'')]" 20 quick "\<lambda>m. m"] show ?thesis
    by (auto simp: iterates_id quick_settings clears_def)
qed


theorem login_full_table_fails_open_witness:
  "\<exists>p. \<not> verdict (fst (login_step (setting_defs sample_defaults) (quick, 20, \<lambda>m. m, Fail ''bob'' ''h'') p)) \<and>
     length (lp_attempts p) = 1"
proof -
  obtain p1 where p1: "lp_attempts p1 = [(login_key ''ann'' ''h'', \<lparr>la_failures = 2, la_updated = 10, la_locked = 900000000010\<rparr>)]"
      "protector_ok p1" "lp_max_items p1 = 1"
    using second_failure by blast
  then have "saturated 900000000010 p1" by (simp add: saturated_def)
  from login_full_table_fails_open [OF this, of 20 "[(quick, 20, \<lambda>m. m, Fail ''bob'' ''h'')]" 20 900000000000 "setting_defs sample_defaults"]
  have "login_key ''bob'' ''h'' \<noteq> login_key ''ann'' ''h'' \<longrightarrow>
      \<not> verdict (fst (login_step (setting_defs sample_defaults) (quick, 20, \<lambda>m. m, Fail ''bob'' ''h'') p1))"
    using p1(1) by (simp add: iterates_id quick_settings clears_def split_def Let_def)
  moreover have "login_key ''bob'' ''h'' \<noteq> login_key ''ann'' ''h''" by code_simp
  ultimately show ?thesis using p1(1) by (intro exI [of _ p1]) simp
qed

end
