(* ===== verification/Net_Address.thy ===== *)
theory Net_Address
  imports Go_Sort
begin

text \<open>
  What the code uses of \<open>net/netip\<close> and \<open>net\<close>: addresses, their text, prefixes, and the split of a host and
  a port. An IPv4 address is its number, an IPv6 address its eight groups and its zone; the invalid address
  of Go is \<open>None\<close>.
\<close>

section \<open>Strings\<close>

definition cut_at :: "char \<Rightarrow> string \<Rightarrow> (string \<times> string) option" where
  "cut_at c s = (if c \<in> set s then Some (takeWhile (\<lambda>x. x \<noteq> c) s, tl (dropWhile (\<lambda>x. x \<noteq> c) s)) else None)"

definition cut_last :: "char \<Rightarrow> string \<Rightarrow> (string \<times> string) option" where
  "cut_last c s = (case cut_at c (rev s) of None \<Rightarrow> None | Some (b, a) \<Rightarrow> Some (rev a, rev b))"

definition trim_chars :: "char set \<Rightarrow> string \<Rightarrow> string" where
  "trim_chars cs s = rev (dropWhile (\<lambda>x. x \<in> cs) (rev (dropWhile (\<lambda>x. x \<in> cs) s)))"

lemma trim_chars_id: "\<forall>c \<in> set s. c \<notin> cs \<Longrightarrow> trim_chars cs s = s"
proof -
  have *: "dropWhile (\<lambda>x. x \<in> cs) s = s" if "\<forall>c \<in> set s. c \<notin> cs" for s :: string
    using that by (cases s) auto
  show "\<forall>c \<in> set s. c \<notin> cs \<Longrightarrow> trim_chars cs s = s" by (simp add: trim_chars_def *)
qed

definition brackets :: "char set" where
  "brackets = {CHR ''['', CHR '']''}"

text \<open>\<open>net.SplitHostPort\<close>; every error is \<open>None\<close>.\<close>

definition split_host_port :: "string \<Rightarrow> (string \<times> string) option" where
  "split_host_port s =
     (case cut_last (CHR '':'') s of
        None \<Rightarrow> None
      | Some (before, port) \<Rightarrow>
          if s \<noteq> [] \<and> hd s = CHR ''['' then
            (case cut_at (CHR '']'') s of
               None \<Rightarrow> None
             | Some (start, rest) \<Rightarrow>
                 if rest \<noteq> CHR '':'' # port then None
                 else if CHR ''['' \<in> set (tl s) \<or> CHR '']'' \<in> set rest then None
                 else Some (tl start, port))
          else if CHR '':'' \<in> set before \<or> CHR ''['' \<in> set s \<or> CHR '']'' \<in> set s then None
          else Some (before, port))"

definition join_host_port :: "string \<Rightarrow> string \<Rightarrow> string" where
  "join_host_port host port =
     (if CHR '':'' \<in> set host then CHR ''['' # host @ CHR '']'' # CHR '':'' # port else host @ CHR '':'' # port)"

section \<open>Addresses\<close>

datatype addr = Addr4 int | Addr6 "int list" string

definition parse_octet :: "string \<Rightarrow> int option" where
  "parse_octet s =
     (if s = [] \<or> (1 < length s \<and> hd s = CHR ''0'') then None
      else case dec_acc 0 s of
        None \<Rightarrow> None
      | Some v \<Rightarrow> if v \<le> 255 then Some v else None)"

definition parse_ipv4 :: "string \<Rightarrow> int option" where
  "parse_ipv4 s =
     (case map parse_octet (split_on (CHR ''.'') s) of
        [Some a, Some b, Some c, Some d] \<Rightarrow> Some (a * 16777216 + b * 65536 + c * 256 + d)
      | _ \<Rightarrow> None)"

definition hex_val :: "char \<Rightarrow> int option" where
  "hex_val c =
     (let n = of_char c in
      if 48 \<le> n \<and> n \<le> 57 then Some (n - 48)
      else if 97 \<le> n \<and> n \<le> 102 then Some (n - 87)
      else if 65 \<le> n \<and> n \<le> 70 then Some (n - 55)
      else None)"

definition is_hex :: "char \<Rightarrow> bool" where
  "is_hex c \<longleftrightarrow> hex_val c \<noteq> None"

fun hex_num :: "int \<Rightarrow> string \<Rightarrow> int" where
  "hex_num v [] = v"
| "hex_num v (c # s) = (case hex_val c of None \<Rightarrow> v | Some d \<Rightarrow> hex_num (16 * v + d) s)"

text \<open>The groups of an IPv6 address, with the place of the ellipsis and what is left of the string.\<close>

function ipv6_fields :: "string \<Rightarrow> int list \<Rightarrow> nat option \<Rightarrow> (int list \<times> nat option \<times> string) option" where
  "ipv6_fields s gs ellipsis =
     (if 8 \<le> length gs then Some (gs, ellipsis, s)
      else
        let ds = takeWhile is_hex s; r = dropWhile is_hex s; gs' = gs @ [hex_num 0 ds] in
        if ds = [] \<or> 4 < length ds then None
        else case r of
          [] \<Rightarrow> Some (gs', ellipsis, [])
        | c # t \<Rightarrow>
            if c = CHR ''.'' then
              (if ellipsis = None \<and> length gs \<noteq> 6 then None
               else if 6 < length gs then None
               else case parse_ipv4 s of
                 None \<Rightarrow> None
               | Some n \<Rightarrow> Some (gs @ [n div 65536, n mod 65536], ellipsis, []))
            else if c \<noteq> CHR '':'' \<or> t = [] then None
            else if hd t = CHR '':'' then
              (if ellipsis \<noteq> None then None
               else if tl t = [] then Some (gs', Some (length gs'), [])
               else ipv6_fields (tl t) gs' (Some (length gs')))
            else ipv6_fields t gs' ellipsis)"
  by auto
termination
proof (relation "measure (\<lambda>(s, gs, ellipsis). length s)", simp)
  fix s gs ellipsis ds r gs' c t
  assume "r = dropWhile is_hex s" "r = c # t"
  then have "length (c # t) \<le> length s" by (metis length_dropWhile_le)
  then show "((tl t, gs', Some (length gs')), s, gs, ellipsis) \<in> measure (\<lambda>(s, gs, ellipsis). length s)"
    and "((t, gs', ellipsis), s, gs, ellipsis) \<in> measure (\<lambda>(s, gs, ellipsis). length s)"
    by auto
qed

declare ipv6_fields.simps [simp del]

definition expand_ellipsis :: "int list \<times> nat option \<times> string \<Rightarrow> int list option" where
  "expand_ellipsis = (\<lambda>(gs, ellipsis, rest).
     if rest \<noteq> [] then None
     else if length gs < 8 then
       (case ellipsis of None \<Rightarrow> None | Some e \<Rightarrow> Some (take e gs @ replicate (8 - length gs) 0 @ drop e gs))
     else if ellipsis = None then Some gs
     else None)"

definition parse_ipv6 :: "string \<Rightarrow> addr option" where
  "parse_ipv6 s =
     (let (body, zone) = (case cut_at (CHR ''%'') s of None \<Rightarrow> (s, []) | Some bz \<Rightarrow> bz) in
      if CHR ''%'' \<in> set s \<and> zone = [] then None
      else if body = ''::'' then Some (Addr6 (replicate 8 0) zone)
      else
        let start = (if has_prefix body ''::'' then ipv6_fields (drop 2 body) [] (Some 0) else ipv6_fields body [] None)
        in case start of
          None \<Rightarrow> None
        | Some r \<Rightarrow> map_option (\<lambda>gs. Addr6 gs zone) (expand_ellipsis r))"

text \<open>\<open>netip.ParseAddr\<close>: the first of the three characters decides.\<close>

definition parse_addr :: "string \<Rightarrow> addr option" where
  "parse_addr s =
     (case dropWhile (\<lambda>c. c \<notin> {CHR ''.'', CHR '':'', CHR ''%''}) s of
        [] \<Rightarrow> None
      | c # _ \<Rightarrow>
          if c = CHR ''.'' then map_option Addr4 (parse_ipv4 s)
          else if c = CHR '':'' then parse_ipv6 s
          else None)"

definition is_4in6 :: "int list \<Rightarrow> bool" where
  "is_4in6 gs \<longleftrightarrow> take 6 gs = [0, 0, 0, 0, 0, 65535]"

fun unmap :: "addr \<Rightarrow> addr" where
  "unmap (Addr4 n) = Addr4 n"
| "unmap (Addr6 gs zone) = (if is_4in6 gs then Addr4 (gs ! 6 * 65536 + gs ! 7) else Addr6 gs zone)"

section \<open>Text of an address\<close>

definition octet :: "int \<Rightarrow> nat \<Rightarrow> int" where
  "octet n i = n div 256 ^ (3 - i) mod 256"

definition string4 :: "int \<Rightarrow> string" where
  "string4 n = join_with ''.'' (map (\<lambda>i. dec_string (octet n i)) [0, 1, 2, 3])"

definition hex_group :: "int \<Rightarrow> string" where
  "hex_group g =
     (let ds = map (\<lambda>i. ''0123456789abcdef'' ! nat (g div 16 ^ i mod 16)) [3, 2, 1, 0 :: nat]
      in if g = 0 then ''0'' else dropWhile (\<lambda>c. c = CHR ''0'') ds)"

definition zero_run :: "int list \<Rightarrow> nat \<times> nat" where
  "zero_run gs =
     foldl (\<lambda>(s, e) i. let l = length (takeWhile (\<lambda>g. g = 0) (drop i gs)) in if 2 \<le> l \<and> e - s < l then (i, i + l) else (s, e))
       (0, 0) [0..<8]"

definition string6 :: "int list \<Rightarrow> string" where
  "string6 gs =
     (let (s, e) = zero_run gs in
      if s = e then join_with '':'' (map hex_group gs)
      else join_with '':'' (map hex_group (take s gs)) @ ''::'' @ join_with '':'' (map hex_group (drop e gs)))"

fun addr_string :: "addr \<Rightarrow> string" where
  "addr_string (Addr4 n) = string4 n"
| "addr_string (Addr6 gs zone) =
     (if is_4in6 gs then ''::ffff:'' @ string4 (gs ! 6 * 65536 + gs ! 7) else string6 gs) @
     (if zone = [] then [] else CHR ''%'' # zone)"

definition addr_text :: "addr option \<Rightarrow> string" where
  "addr_text a = (case a of None \<Rightarrow> ''invalid IP'' | Some a \<Rightarrow> addr_string a)"

section \<open>Prefixes\<close>

fun addr_bits :: "addr \<Rightarrow> nat" where
  "addr_bits (Addr4 n) = 32"
| "addr_bits (Addr6 gs zone) = 128"

fun addr_number :: "addr \<Rightarrow> int" where
  "addr_number (Addr4 n) = n"
| "addr_number (Addr6 gs zone) = foldl (\<lambda>n g. 65536 * n + g) 0 gs"

fun addr_zone :: "addr \<Rightarrow> string" where
  "addr_zone (Addr4 n) = []"
| "addr_zone (Addr6 gs zone) = zone"

type_synonym prefix_range = "addr \<times> nat"

definition parse_prefix :: "string \<Rightarrow> prefix_range option" where
  "parse_prefix s =
     (case cut_last (CHR ''/'') s of
        None \<Rightarrow> None
      | Some (text, bits) \<Rightarrow>
          (case parse_addr text of
             None \<Rightarrow> None
           | Some a \<Rightarrow>
               if addr_zone a \<noteq> [] then None
               else if 1 < length bits \<and> hd bits \<notin> set ''123456789'' then None
               else case parse_int bits of
                 None \<Rightarrow> None
               | Some n \<Rightarrow> if n < 0 \<or> int (addr_bits a) < n then None else Some (a, nat n)))"

definition prefix_contains :: "prefix_range \<Rightarrow> addr \<Rightarrow> bool" where
  "prefix_contains = (\<lambda>(p, bits) a.
     addr_zone a = [] \<and> addr_bits p = addr_bits a \<and>
     addr_number a div 2 ^ (addr_bits a - bits) = addr_number p div 2 ^ (addr_bits a - bits))"

section \<open>Reading back an IPv4 address\<close>

lemma dec_string_hd: "0 < n \<Longrightarrow> hd (dec_string n) \<noteq> CHR ''0''"
proof (induction n rule: dec_string.induct)
  case (1 n)
  show ?case
  proof (cases "n < 10")
    case True
    then have "n \<in> {1, 2, 3, 4, 5, 6, 7, 8, 9}" using 1 by auto
    then show ?thesis using True by (subst dec_string.simps) (auto simp: digit_char_def)
  next
    case False
    then show ?thesis using 1 by (subst dec_string.simps) simp
  qed
qed

lemma dec_string_one: "0 \<le> n \<Longrightarrow> n < 10 \<Longrightarrow> length (dec_string n) = 1"
  by (subst dec_string.simps) simp

lemma parse_octet_dec: "0 \<le> n \<Longrightarrow> n < 256 \<Longrightarrow> parse_octet (dec_string n) = Some n"
  using dec_string_hd [of n] dec_string_one [of n] by (cases "n = 0") (simp_all add: parse_octet_def dec_acc_dec_string)

lemma octet_range: "0 \<le> octet n i \<and> octet n i < 256"
  by (simp add: octet_def)

lemma dec_string_digits: "0 \<le> n \<Longrightarrow> c \<in> set (dec_string n) \<Longrightarrow> c \<notin> {CHR ''.'', CHR '':'', CHR ''%'', CHR '','', CHR ''/''}"
  using set_dec_string [of n c] by (auto dest!: digit_cases simp: digit_char_def)

lemma split_string4: "split_on (CHR ''.'') (string4 n) = map (\<lambda>i. dec_string (octet n i)) [0, 1, 2, 3]"
  unfolding string4_def by (rule split_join) (use dec_string_digits octet_range in \<open>auto\<close>)

lemma base256: "a = 256 * b + r0 \<Longrightarrow> b = 256 * c + r1 \<Longrightarrow> c = 256 * d + r2 \<Longrightarrow> d * 16777216 + r2 * 65536 + r1 * 256 + r0 = a"
  for a :: int
  by simp

lemma parse_string4:
  assumes "0 \<le> n" and "n < 4294967296"
  shows "parse_ipv4 (string4 n) = Some n"
proof -
  have o: "octet n 0 = n div 16777216 mod 256" "octet n 1 = n div 65536 mod 256" "octet n 2 = n div 256 mod 256" "octet n 3 = n mod 256"
    by (simp_all add: octet_def)
  have "n div 16777216 \<le> 4294967295 div 16777216" "0 \<le> n div 16777216"
    by (rule zdiv_mono1, use assms in simp_all)
  then have top: "n div 16777216 mod 256 = n div 16777216" by (intro mod_pos_pos_trivial) simp_all
  have q: "n div 65536 = n div 256 div 256" "n div 16777216 = n div 256 div 256 div 256"
    using zdiv_zmult2_eq [of 256 n 256] zdiv_zmult2_eq [of 256 "n div 256" 256] zdiv_zmult2_eq [of 65536 n 256] by simp_all
  have "octet n 0 * 16777216 + octet n 1 * 65536 + octet n 2 * 256 + octet n 3 = n"
    unfolding o top unfolding q
    by (rule base256 [OF mult_div_mod_eq [symmetric] mult_div_mod_eq [symmetric] mult_div_mod_eq [symmetric]])
  then show ?thesis by (simp add: parse_ipv4_def split_string4 parse_octet_dec octet_range)
qed

lemma parse_addr_string4:
  assumes "0 \<le> n" and "n < 4294967296"
  shows "parse_addr (string4 n) = Some (Addr4 n)"
proof -
  have d: "\<forall>c \<in> set (dec_string (octet n 0)). c \<notin> {CHR ''.'', CHR '':'', CHR ''%''}"
    using dec_string_digits octet_range by blast
  have s: "string4 n = dec_string (octet n 0) @ CHR ''.'' # join_with ''.'' (map (\<lambda>i. dec_string (octet n i)) [1, 2, 3])"
    by (simp add: string4_def)
  have "dropWhile (\<lambda>c. c \<notin> {CHR ''.'', CHR '':'', CHR ''%''}) (string4 n) =
      CHR ''.'' # join_with ''.'' (map (\<lambda>i. dec_string (octet n i)) [1, 2, 3])"
    unfolding s using d by (subst dropWhile_append2) auto
  then show ?thesis by (simp add: parse_addr_def parse_string4 [OF assms])
qed

end
