(* ===== verification/Client_Address.thy ===== *)
theory Client_Address
  imports Settings Net_Address
begin

text \<open>
  \<open>Network\<close> of \<open>security/security.go\<close>: which address a request comes from when it has passed proxies. The
  headers are the lines of the request in their order, with canonical names.
\<close>

section \<open>The headers\<close>

record http_request =
  rq_remote :: string
  rq_headers :: "(string \<times> string) list"

text \<open>\<open>Header.Get\<close>: the first line of the name.\<close>

definition header_get :: "(string \<times> string) list \<Rightarrow> string \<Rightarrow> string" where
  "header_get hs name = (case map_of hs name of None \<Rightarrow> [] | Some v \<Rightarrow> v)"

definition remote_ip :: "string \<Rightarrow> addr option" where
  "remote_ip remote =
     (let host = (case split_host_port remote of None \<Rightarrow> remote | Some (h, p) \<Rightarrow> h)
      in map_option unmap (parse_addr (trim_chars brackets (trim_space host))))"

definition forwarded_address :: "string \<Rightarrow> addr option" where
  "forwarded_address value =
     (let v = trim_chars {CHR 0x22} (trim_space value) in
      if v = [] \<or> equal_fold v ''unknown'' \<or> has_prefix v ''_'' then None
      else
        let host = (case split_host_port v of None \<Rightarrow> v | Some (h, p) \<Rightarrow> h)
        in map_option unmap (parse_addr (trim_chars brackets host)))"

definition x_forwarded_for :: "string \<Rightarrow> addr list" where
  "x_forwarded_for header = List.map_filter forwarded_address (split_on (CHR '','') header)"

definition for_part :: "string \<Rightarrow> addr option" where
  "for_part part =
     (case cut_at (CHR ''='') (trim_space part) of
        None \<Rightarrow> None
      | Some (key, value) \<Rightarrow> if equal_fold key ''for'' then forwarded_address value else None)"

definition forwarded_for :: "string \<Rightarrow> addr list" where
  "forwarded_for header =
     concat (map (\<lambda>hop. List.map_filter for_part (split_on (CHR '';'') hop)) (split_on (CHR '','') header))"

section \<open>Trust\<close>

definition is_trusted_peer :: "(string \<times> setting_def) list \<Rightarrow> settings_world \<Rightarrow> addr option \<Rightarrow> bool" where
  "is_trusted_peer defs w ip =
     (case ip of
        None \<Rightarrow> False
      | Some a \<Rightarrow>
          (case string_setting defs w ''trusted_proxies'' of
             Inl e \<Rightarrow> False
           | Inr raw \<Rightarrow>
               trim_space raw \<noteq> [] \<and>
               (\<exists>item \<in> set (map trim_space (split_on (CHR '','') raw)). item \<noteq> [] \<and>
                  ((case parse_prefix item of None \<Rightarrow> False | Some p \<Rightarrow> prefix_contains p a) \<or>
                   (case parse_addr item of None \<Rightarrow> False | Some b \<Rightarrow> unmap b = unmap a)))))"

definition effective_remote_address :: "(string \<times> setting_def) list \<Rightarrow> settings_world \<Rightarrow> http_request \<Rightarrow> string" where
  "effective_remote_address defs w r =
     (case remote_ip (rq_remote r) of
        None \<Rightarrow> addr_text None
      | Some peer \<Rightarrow>
          if \<not> is_trusted_peer defs w (Some peer) then addr_string peer
          else
            let forwarded = forwarded_for (header_get (rq_headers r) ''Forwarded'');
                chain = (if forwarded = [] then x_forwarded_for (header_get (rq_headers r) ''X-Forwarded-For'') else forwarded);
                real = forwarded_address (header_get (rq_headers r) ''X-Real-Ip'')
            in if chain = [] \<and> real \<noteq> None then addr_text real
               else case find (\<lambda>a. \<not> is_trusted_peer defs w (Some a)) (rev (chain @ [peer])) of
                 Some a \<Rightarrow> addr_string a
               | None \<Rightarrow> addr_string (hd (chain @ [peer])))"

record forwarding_diagnostics =
  fd_peer_address :: string
  fd_peer_trusted :: bool
  fd_forwarded :: "string list"
  fd_x_forwarded_for :: "string list"
  fd_effective :: string

definition request_forwarding_diagnostics ::
    "(string \<times> setting_def) list \<Rightarrow> settings_world \<Rightarrow> http_request \<Rightarrow> forwarding_diagnostics" where
  "request_forwarding_diagnostics defs w r =
     (let peer = remote_ip (rq_remote r) in
      \<lparr>fd_peer_address = addr_text peer,
       fd_peer_trusted = is_trusted_peer defs w peer,
       fd_forwarded = map addr_string (forwarded_for (header_get (rq_headers r) ''Forwarded'')),
       fd_x_forwarded_for = map addr_string (x_forwarded_for (header_get (rq_headers r) ''X-Forwarded-For'')),
       fd_effective = effective_remote_address defs w r\<rparr>)"

section \<open>What the client sends in front does not matter\<close>

lemma split_on_glue: "split_on c (a @ c # b) = split_on c a @ split_on c b"
proof (induction a)
  case (Cons x a)
  then show ?case by (cases "split_on c a") auto
qed simp

lemma x_forwarded_for_append: "x_forwarded_for (client @ CHR '','' # proxies) = x_forwarded_for client @ x_forwarded_for proxies"
  by (simp add: x_forwarded_for_def split_on_glue List.map_filter_def)

lemma find_append: "find P (xs @ ys) = (case find P xs of None \<Rightarrow> find P ys | Some x \<Rightarrow> Some x)"
  by (induction xs) auto


section \<open>But only the first line of a header is read\<close>

definition number_text :: "char \<Rightarrow> bool" where
  "number_text c \<longleftrightarrow> c \<in> set ''0123456789.''"

lemma number_text_simps: "number_text (CHR ''.'')" "is_digit d \<Longrightarrow> number_text (digit_char d)"
  by (simp_all add: number_text_def) (auto dest: digit_cases simp: digit_char_def)

lemma not_number_text:
  "\<not> number_text (CHR '':'')" "\<not> number_text (CHR '','')" "\<not> number_text (CHR 0x22)" "\<not> number_text (CHR ''['')"
  "\<not> number_text (CHR '']'')" "\<not> number_text (CHR ''_'')" "\<not> number_text (CHR ''u'')"
  by (simp_all add: number_text_def)

lemma number_text_plain: "number_text c \<Longrightarrow> plain_char c"
  by (auto simp: number_text_def plain_char_def space1_def)

lemma number_text_dec: "c \<in> set (dec_string (octet n i)) \<Longrightarrow> number_text c"
  using set_dec_string [OF conjunct1 [OF octet_range]] number_text_simps(2) by blast

lemma string4_parts:
  "string4 n = dec_string (octet n 0) @ CHR ''.'' # dec_string (octet n 1) @ CHR ''.'' # dec_string (octet n 2) @ CHR ''.'' #
     dec_string (octet n 3)"
  unfolding string4_def by simp

lemma string4_chars: "c \<in> set (string4 n) \<Longrightarrow> number_text c"
  unfolding string4_parts set_append list.set using number_text_dec number_text_simps(1) by blast

lemma string4_first: "\<exists>c s. string4 n = c # s \<and> number_text c"
proof -
  have "string4 n \<noteq> []" by (simp only: string4_parts) simp
  then obtain c s where "string4 n = c # s" by (meson neq_Nil_conv)
  then show ?thesis using string4_chars [of c n] by simp
qed

lemma number_text_lower: "number_text c \<Longrightarrow> c \<noteq> CHR 0xC5 \<and> c \<noteq> CHR 0xE2 \<and> lower_char c = c"
proof -
  have "list_all (\<lambda>c. c \<noteq> CHR 0xC5 \<and> c \<noteq> CHR 0xE2 \<and> lower_char c = c) ''0123456789.''" by code_simp
  then show "number_text c \<Longrightarrow> c \<noteq> CHR 0xC5 \<and> c \<noteq> CHR 0xE2 \<and> lower_char c = c"
    unfolding list_all_iff number_text_def by blast
qed

lemma fold_number: "number_text c \<Longrightarrow> \<exists>t. fold_ascii (c # s) = c # t"
  by (cases "c # s" rule: fold_ascii.cases) (simp_all add: number_text_lower)

lemma forwarded_string4:
  assumes "0 \<le> n" and "n < 4294967296"
  shows "forwarded_address (string4 n) = Some (Addr4 n)"
proof -
  obtain c s where c: "string4 n = c # s" "number_text c" using string4_first by blast
  have "no_space (string4 n)" using string4_chars number_text_plain by (simp add: no_space_def)
  then have trim: "trim_space (string4 n) = string4 n" by (rule trim_no_space)
  have q: "trim_chars {CHR 0x22} (string4 n) = string4 n" "trim_chars brackets (string4 n) = string4 n"
    by (rule trim_chars_id; use string4_chars not_number_text in \<open>auto simp: brackets_def\<close>)+
  have "CHR '':'' \<notin> set (string4 n)" using string4_chars not_number_text by blast
  then have shp: "split_host_port (string4 n) = None" by (simp add: split_host_port_def cut_last_def cut_at_def)
  have "fold_ascii ''unknown'' = ''unknown''" by (simp add: lower_char_def)
  then have "\<not> equal_fold (string4 n) ''unknown''"
    using fold_number [OF c(2), of s] c not_number_text(7) unfolding equal_fold_def by auto
  moreover have "\<not> has_prefix (string4 n) ''_''" using c not_number_text(6) by (auto simp: has_prefix_def)
  moreover have "string4 n \<noteq> []" using c(1) by simp
  ultimately show ?thesis
    by (simp only: forwarded_address_def Let_def trim q shp) (simp add: q parse_addr_string4 [OF assms])
qed


section \<open>Witnesses\<close>

definition proxied :: settings_world where
  "proxied = \<lparr>sw_env = Map.empty, sw_rows = [''trusted_proxies'' \<mapsto> ''10.0.0.0/8''], sw_down = False\<rparr>"

lemma proxied_trust:
  "is_trusted_peer (setting_defs sample_defaults) proxied (Some (Addr4 n)) \<longleftrightarrow> n div 16777216 = 10"
  "\<not> is_trusted_peer (setting_defs sample_defaults) proxied None"
proof -
  have t: "trim_space ''10.0.0.0/8'' = ''10.0.0.0/8''" "split_on (CHR '','') ''10.0.0.0/8'' = [''10.0.0.0/8'']"
    "parse_prefix ''10.0.0.0/8'' = Some (Addr4 167772160, 8)" "parse_addr ''10.0.0.0/8'' = None"
    by code_simp+
  have "string_setting (setting_defs sample_defaults) proxied ''trusted_proxies'' = Inr ''10.0.0.0/8''"
    by (simp add: string_setting_def resolve_def setting_defs_def int_def_def bool_def_def string_def_def proxied_def env_value_def
        from_source_def parse_setting_def t(1))
  then show "is_trusted_peer (setting_defs sample_defaults) proxied (Some (Addr4 n)) \<longleftrightarrow> n div 16777216 = 10"
    by (simp add: is_trusted_peer_def t prefix_contains_def)
qed (simp add: is_trusted_peer_def)



end
