(* ===== verification/Outbound.thy ===== *)
theory Outbound
  imports Settings Net_Address
begin

text \<open>
  The outbound policy of the OIDC client (\<open>security/outbound.go\<close>): which hosts the manager may be made to
  call by the configuration of an identity provider. A URL is given by its parsed parts. The resolver is an
  argument: the addresses it answers, \<open>None\<close> for one that is not an IP address.
\<close>

section \<open>Hosts\<close>

datatype oidc_error = OIDCDestination | OIDCRedirect | OIDCHTTPS | OIDCCredentials | OIDCNotAbsolute | TooManyRedirects
  | OIDCSettings setting_error | AddressError | LookupFailed

record oidc_snapshot =
  os_allow_http :: bool
  os_allowed_hosts :: "string list"

definition trim_suffix :: "string \<Rightarrow> string \<Rightarrow> string" where
  "trim_suffix s p = rev (trim_prefix (rev s) (rev p))"

text \<open>\<open>strings.FieldsFunc\<close>.\<close>

fun split_any :: "char set \<Rightarrow> string \<Rightarrow> string list" where
  "split_any cs [] = [[]]"
| "split_any cs (x # xs) =
     (if x \<in> cs then [] # split_any cs xs
      else case split_any cs xs of [] \<Rightarrow> [[x]] | w # ws \<Rightarrow> (x # w) # ws)"

definition fields_func :: "char set \<Rightarrow> string \<Rightarrow> string list" where
  "fields_func cs s = filter (\<lambda>w. w \<noteq> []) (split_any cs s)"

definition normalize_oidc_host :: "string \<Rightarrow> string" where
  "normalize_oidc_host value =
     (let v = trim_space value in
      if v = [] then []
      else
        let host = (case split_host_port v of None \<Rightarrow> v | Some (h, p) \<Rightarrow> h)
        in to_lower (trim_space (trim_suffix (trim_prefix host ''['') '']'')))"

fun add_host :: "string list \<Rightarrow> string \<Rightarrow> string list" where
  "add_host out field =
     (let host = normalize_oidc_host field in if host = [] \<or> host \<in> set out then out else out @ [host])"

definition parse_oidc_allowed_hosts :: "string \<Rightarrow> string list" where
  "parse_oidc_allowed_hosts value =
     foldl add_host [] (fields_func {CHR '','', CHR '';'', CHR '' '', CHR 0x09, CHR 0x0A} value)"

definition host_allowed :: "string \<Rightarrow> string list \<Rightarrow> bool" where
  "host_allowed host allowed =
     (let h = normalize_oidc_host host in h \<noteq> [] \<and> h \<in> set allowed)"

definition oidc_snapshot_now :: "(string \<times> setting_def) list \<Rightarrow> settings_world \<Rightarrow> oidc_error + oidc_snapshot" where
  "oidc_snapshot_now defs w =
     (case bool_setting defs w ''oidc_allow_http'' of
        Inl e \<Rightarrow> Inl (OIDCSettings e)
      | Inr allow_http \<Rightarrow>
          (case string_setting defs w ''oidc_allowed_hosts'' of
             Inl e \<Rightarrow> Inl (OIDCSettings e)
           | Inr raw \<Rightarrow> Inr \<lparr>os_allow_http = allow_http, os_allowed_hosts = parse_oidc_allowed_hosts raw\<rparr>))"

section \<open>Addresses\<close>

text \<open>The classes of \<open>netip\<close> after \<open>Unmap\<close>. Only the test for the unspecified address looks at the zone.\<close>

fun is_loopback :: "addr \<Rightarrow> bool" where
  "is_loopback (Addr4 n) \<longleftrightarrow> octet n 0 = 127"
| "is_loopback (Addr6 gs zone) \<longleftrightarrow> gs = [0, 0, 0, 0, 0, 0, 0, 1]"

fun is_link_local_unicast :: "addr \<Rightarrow> bool" where
  "is_link_local_unicast (Addr4 n) \<longleftrightarrow> octet n 0 = 169 \<and> octet n 1 = 254"
| "is_link_local_unicast (Addr6 gs zone) \<longleftrightarrow> hd gs div 64 = 0xfe80 div 64"

fun is_link_local_multicast :: "addr \<Rightarrow> bool" where
  "is_link_local_multicast (Addr4 n) \<longleftrightarrow> octet n 0 = 224 \<and> octet n 1 = 0 \<and> octet n 2 = 0"
| "is_link_local_multicast (Addr6 gs zone) \<longleftrightarrow> hd gs div 256 = 255 \<and> hd gs mod 16 = 2"

fun is_multicast :: "addr \<Rightarrow> bool" where
  "is_multicast (Addr4 n) \<longleftrightarrow> octet n 0 div 16 = 14"
| "is_multicast (Addr6 gs zone) \<longleftrightarrow> hd gs div 256 = 255"

fun is_unspecified :: "addr \<Rightarrow> bool" where
  "is_unspecified (Addr4 n) \<longleftrightarrow> n = 0"
| "is_unspecified (Addr6 gs zone) \<longleftrightarrow> gs = replicate 8 0 \<and> zone = []"

fun is_private :: "addr \<Rightarrow> bool" where
  "is_private (Addr4 n) \<longleftrightarrow> octet n 0 = 10 \<or> octet n 0 = 172 \<and> octet n 1 div 16 = 1 \<or> octet n 0 = 192 \<and> octet n 1 = 168"
| "is_private (Addr6 gs zone) \<longleftrightarrow> hd gs div 512 = 0xfc00 div 512"

definition cgnat_range :: prefix_range where
  "cgnat_range = (Addr4 0x64400000, 10)"

definition six_to_four_range :: prefix_range where
  "six_to_four_range = (Addr6 [0x2002, 0, 0, 0, 0, 0, 0, 0] [], 16)"

definition teredo_range :: prefix_range where
  "teredo_range = (Addr6 [0x2001, 0, 0, 0, 0, 0, 0, 0] [], 32)"

definition blocked_oidc_addr :: "addr option \<Rightarrow> bool" where
  "blocked_oidc_addr ip =
     (case ip of
        None \<Rightarrow> True
      | Some a \<Rightarrow>
          let a = unmap a in
          is_loopback a \<or> is_link_local_unicast a \<or> is_link_local_multicast a \<or> is_multicast a \<or> is_unspecified a \<or> is_private a \<or>
          prefix_contains cgnat_range a \<or> prefix_contains six_to_four_range a \<or> prefix_contains teredo_range a)"

definition allow_oidc_ip :: "addr \<Rightarrow> string \<Rightarrow> string list \<Rightarrow> oidc_error option" where
  "allow_oidc_ip ip hostname allowed =
     (if \<not> blocked_oidc_addr (Some (unmap ip)) then None
      else if host_allowed hostname allowed then None
      else Some OIDCDestination)"

section \<open>URLs\<close>

record url =
  ur_scheme :: string
  ur_host :: string
  ur_opaque :: string
  ur_user :: bool

text \<open>\<open>URL.Hostname\<close> and \<open>URL.Port\<close>.\<close>

definition url_host_port :: "string \<Rightarrow> string \<times> string" where
  "url_host_port s =
     (let (host, port) = (case cut_last (CHR '':'') s of
            None \<Rightarrow> (s, [])
          | Some (h, p) \<Rightarrow> if \<forall>c \<in> set p. digit_val c \<noteq> None then (h, p) else (s, []))
      in (if has_prefix host ''['' \<and> host \<noteq> [] \<and> last host = CHR '']'' then butlast (tl host) else host, port))"

definition hostname :: "url \<Rightarrow> string" where
  "hostname u = fst (url_host_port (ur_host u))"

definition effective_url_port :: "url \<Rightarrow> string" where
  "effective_url_port u =
     (let port = snd (url_host_port (ur_host u)) in
      if port \<noteq> [] then port
      else if to_lower (ur_scheme u) = ''https'' then ''443''
      else if to_lower (ur_scheme u) = ''http'' then ''80''
      else [])"

definition same_origin :: "url \<Rightarrow> url \<Rightarrow> bool" where
  "same_origin left right \<longleftrightarrow> equal_fold (ur_scheme left) (ur_scheme right) \<and> equal_fold (hostname left) (hostname right) \<and>
     effective_url_port left = effective_url_port right"

definition oidc_endpoint_host_trusted :: "url option \<Rightarrow> url option \<Rightarrow> string list \<Rightarrow> bool \<Rightarrow> bool" where
  "oidc_endpoint_host_trusted endpoint issuer allowed discovered =
     (case (endpoint, issuer) of
        (Some e, Some i) \<Rightarrow> discovered \<or> same_origin e i \<or> host_allowed (hostname e) allowed
      | _ \<Rightarrow> False)"

definition validate_oidc_url :: "url \<Rightarrow> bool \<Rightarrow> oidc_error option" where
  "validate_oidc_url u allow_http =
     (if ur_host u = [] \<or> ur_opaque u \<noteq> [] then Some OIDCNotAbsolute
      else if ur_user u then Some OIDCCredentials
      else if ur_scheme u \<noteq> ''https'' \<and> ur_scheme u \<noteq> ''http'' then Some OIDCNotAbsolute
      else if ur_scheme u \<noteq> ''https'' \<and> \<not> allow_http then Some OIDCHTTPS
      else if hostname u = [] then Some OIDCNotAbsolute
      else None)"

definition validate_request_url :: "(string \<times> setting_def) list \<Rightarrow> settings_world \<Rightarrow> url \<Rightarrow> oidc_error option" where
  "validate_request_url defs w u =
     (case oidc_snapshot_now defs w of
        Inl e \<Rightarrow> Some e
      | Inr snap \<Rightarrow>
          (case validate_oidc_url u (os_allow_http snap) of
             Some e \<Rightarrow> Some e
           | None \<Rightarrow>
               if parse_addr (hostname u) \<noteq> None \<and> blocked_oidc_addr (parse_addr (hostname u)) \<and>
                  \<not> host_allowed (hostname u) (os_allowed_hosts snap)
               then Some OIDCDestination else None))"

definition check_redirect :: "(string \<times> setting_def) list \<Rightarrow> settings_world \<Rightarrow> url \<Rightarrow> url list \<Rightarrow> oidc_error option" where
  "check_redirect defs w u via =
     (if 10 \<le> length via then Some TooManyRedirects
      else case validate_request_url defs w u of
        Some e \<Rightarrow> Some e
      | None \<Rightarrow>
          (case via of
             [] \<Rightarrow> Some OIDCRedirect
           | first # _ \<Rightarrow> if same_origin u first then None else Some OIDCRedirect))"

section \<open>Dialling\<close>

text \<open>The loop over the answers of the resolver, with the first refusal so far.\<close>

fun pick_resolved :: "addr option list \<Rightarrow> string \<Rightarrow> string \<Rightarrow> string list \<Rightarrow> oidc_error option \<Rightarrow> oidc_error + string" where
  "pick_resolved [] host port allowed blocked = (case blocked of Some e \<Rightarrow> Inl e | None \<Rightarrow> Inl OIDCDestination)"
| "pick_resolved (None # as) host port allowed blocked = pick_resolved as host port allowed blocked"
| "pick_resolved (Some a # as) host port allowed blocked =
     (case allow_oidc_ip a host allowed of
        Some e \<Rightarrow> pick_resolved as host port allowed (if blocked = None then Some e else blocked)
      | None \<Rightarrow> Inr (join_host_port (addr_string (unmap a)) port))"

definition pick_dial_addr ::
    "(string \<times> setting_def) list \<Rightarrow> settings_world \<Rightarrow> (string \<Rightarrow> addr option list option) \<Rightarrow> string \<Rightarrow> string \<Rightarrow> oidc_error + string" where
  "pick_dial_addr defs w lookup host port =
     (case oidc_snapshot_now defs w of
        Inl e \<Rightarrow> Inl e
      | Inr snap \<Rightarrow>
          let host = trim_chars brackets host in
          (case parse_addr host of
             Some ip \<Rightarrow>
               (case allow_oidc_ip ip host (os_allowed_hosts snap) of
                  Some e \<Rightarrow> Inl e
                | None \<Rightarrow> Inr (join_host_port (addr_string (unmap ip)) port))
           | None \<Rightarrow>
               (case lookup host of
                  None \<Rightarrow> Inl LookupFailed
                | Some as \<Rightarrow> pick_resolved as host port (os_allowed_hosts snap) None)))"

definition dial_target ::
    "(string \<times> setting_def) list \<Rightarrow> settings_world \<Rightarrow> (string \<Rightarrow> addr option list option) \<Rightarrow> string \<Rightarrow> string \<Rightarrow> oidc_error + string" where
  "dial_target defs w lookup network addr =
     (if network \<notin> {''tcp'', ''tcp4'', ''tcp6''} then Inl OIDCDestination
      else case split_host_port addr of
        None \<Rightarrow> Inl AddressError
      | Some (host, port) \<Rightarrow> pick_dial_addr defs w lookup host port)"

section \<open>Addresses that are parsed are well formed\<close>

definition group_ok :: "int \<Rightarrow> bool" where
  "group_ok g \<longleftrightarrow> 0 \<le> g \<and> g < 65536"

fun addr_ok :: "addr \<Rightarrow> bool" where
  "addr_ok (Addr4 n) \<longleftrightarrow> 0 \<le> n \<and> n < 4294967296"
| "addr_ok (Addr6 gs zone) \<longleftrightarrow> length gs = 8 \<and> (\<forall>g \<in> set gs. group_ok g)"

lemma parse_octet_ok: "parse_octet s = Some v \<Longrightarrow> 0 \<le> v \<and> v \<le> 255"
  by (auto simp: parse_octet_def dest: dec_acc_nonneg split: if_splits option.splits)

lemma parse_ipv4_ok: "parse_ipv4 s = Some n \<Longrightarrow> 0 \<le> n \<and> n < 4294967296"
proof -
  assume "parse_ipv4 s = Some n"
  then obtain a b c d where o: "map parse_octet (split_on (CHR ''.'') s) = [Some a, Some b, Some c, Some d]"
    and n: "n = a * 16777216 + b * 65536 + c * 256 + d"
    by (auto simp: parse_ipv4_def split: list.splits option.splits)
  have "Some v \<in> set (map parse_octet (split_on (CHR ''.'') s)) \<Longrightarrow> 0 \<le> v \<and> v \<le> 255" for v
    using parse_octet_ok by fastforce
  then have "0 \<le> a \<and> a \<le> 255" "0 \<le> b \<and> b \<le> 255" "0 \<le> c \<and> c \<le> 255" "0 \<le> d \<and> d \<le> 255"
    unfolding o by simp_all
  then show ?thesis unfolding n by linarith
qed

lemma hex_val_range: "hex_val c = Some d \<Longrightarrow> 0 \<le> d \<and> d \<le> 15"
  by (auto simp: hex_val_def Let_def split: if_splits)

lemma hex_num_bound: "0 \<le> v \<Longrightarrow> 0 \<le> hex_num v s \<and> hex_num v s < (v + 1) * 16 ^ length s"
proof (induction s arbitrary: v)
  case (Cons c s)
  have "(1 :: int) \<le> 16 ^ Suc (length s)" by (rule one_le_power) simp
  then have "(v + 1) * 1 \<le> (v + 1) * 16 ^ Suc (length s)" using Cons.prems by (intro mult_left_mono) simp_all
  then have big: "v < (v + 1) * 16 ^ Suc (length s)" by (rule less_le_trans [rotated]) simp
  show ?case
  proof (cases "hex_val c")
    case None
    then show ?thesis using Cons.prems big by simp
  next
    case (Some d)
    have "(16 * v + d + 1) * 16 ^ length s \<le> (v + 1) * 16 * 16 ^ length s"
      using hex_val_range [OF Some] by (intro mult_right_mono) simp_all
    also have "\<dots> = (v + 1) * 16 ^ length (c # s)" by simp
    finally have le: "(16 * v + d + 1) * 16 ^ length s \<le> (v + 1) * 16 ^ length (c # s)" .
    have "0 \<le> hex_num (16 * v + d) s \<and> hex_num (16 * v + d) s < (16 * v + d + 1) * 16 ^ length s"
      using Cons.IH [of "16 * v + d"] hex_val_range [OF Some] Cons.prems by simp
    then show ?thesis using less_le_trans [OF _ le] Some by (simp only: hex_num.simps option.case)
  qed
qed simp

lemma hex_group_ok: "length ds \<le> 4 \<Longrightarrow> group_ok (hex_num 0 ds)"
proof -
  assume "length ds \<le> 4"
  then have "(16 :: int) ^ length ds \<le> 16 ^ 4" by (intro power_increasing) simp_all
  then show ?thesis using hex_num_bound [of 0 ds] by (simp add: group_ok_def)
qed

lemma ipv6_fields_ok:
  "ipv6_fields s gs e = Some (gs', e', r) \<Longrightarrow> \<forall>g \<in> set gs. group_ok g \<Longrightarrow> length gs \<le> 8 \<Longrightarrow>
    (\<forall>g \<in> set gs'. group_ok g) \<and> length gs' \<le> 8"
proof (induction s gs e arbitrary: gs' e' r rule: ipv6_fields.induct)
  case (1 s gs e)
  let ?ds = "takeWhile is_hex s" and ?r = "dropWhile is_hex s"
  let ?gs = "gs @ [hex_num 0 ?ds]"
  show ?case
  proof (cases "8 \<le> length gs")
    case True
    then show ?thesis using 1 by (simp add: ipv6_fields.simps [of s gs e])
  next
    case False
    note step = "1.prems"(1) [unfolded ipv6_fields.simps [of s gs e] Let_def if_not_P [OF False]]
    have dn: "\<not> (?ds = [] \<or> 4 < length ?ds)" using step by (auto split: if_splits)
    note step = step [unfolded if_not_P [OF dn]]
    have ok: "\<forall>g \<in> set ?gs. group_ok g" "length ?gs \<le> 8" using hex_group_ok [of ?ds] dn "1.prems"(2) False by auto
    show ?thesis
    proof (cases ?r)
      case Nil
      show ?thesis using step [unfolded Nil list.case] ok by simp
    next
      case (Cons c t)
      note step = step [unfolded Cons list.case]
      show ?thesis
      proof (cases "c = CHR ''.''")
        case True
        then obtain n where n: "parse_ipv4 s = Some n" "gs' = gs @ [n div 65536, n mod 65536]" "length gs \<le> 6"
          using step by (auto split: if_splits option.splits)
        have "n div 65536 \<le> 4294967295 div 65536" by (rule zdiv_mono1) (use parse_ipv4_ok [OF n(1)] in simp_all)
        then have "group_ok (n div 65536)" "group_ok (n mod 65536)"
          using parse_ipv4_ok [OF n(1)] by (simp_all add: group_ok_def pos_imp_zdiv_nonneg_iff)
        then show ?thesis using n "1.prems"(2) by auto
      next
        case dot: False
        note step = step [unfolded if_not_P [OF dot]]
        have colon: "\<not> (c \<noteq> CHR '':'' \<or> t = [])" using step by (auto split: if_splits)
        note step = step [unfolded if_not_P [OF colon]]
        show ?thesis
        proof (cases "hd t = CHR '':''")
          case True
          note step = step [unfolded if_P [OF True]]
          have el: "\<not> e \<noteq> None" using step by (auto split: if_splits)
          note step = step [unfolded if_not_P [OF el]]
          show ?thesis
          proof (cases "tl t = []")
            case True
            then show ?thesis using step ok by auto
          next
            case tl: False
            show ?thesis
              by (rule "1.IH"(1) [OF False refl refl refl dn Cons dot colon True el tl step [unfolded if_not_P [OF tl]] ok])
          qed
        next
          case hd: False
          show ?thesis
            by (rule "1.IH"(2) [OF False refl refl refl dn Cons dot colon hd step [unfolded if_not_P [OF hd]] ok])
        qed
      qed
    qed
  qed
qed

lemma ipv6_fields_count: "ipv6_fields s [] e = Some (gs, e', r) \<Longrightarrow> (\<forall>g \<in> set gs. group_ok g) \<and> length gs \<le> 8"
  using ipv6_fields_ok by fastforce

lemma expand_ok:
  "expand_ellipsis (gs, e, r) = Some gs' \<Longrightarrow> (\<forall>g \<in> set gs. group_ok g) \<and> length gs \<le> 8 \<Longrightarrow> addr_ok (Addr6 gs' zone)"
  by (auto simp: expand_ellipsis_def split: if_splits option.splits dest!: in_set_takeD in_set_dropD) (simp add: group_ok_def)

lemma parse_ipv6_ok: "parse_ipv6 s = Some a \<Longrightarrow> addr_ok a"
  by (auto simp: parse_ipv6_def Let_def group_ok_def split: if_splits option.splits prod.splits
      dest!: ipv6_fields_count dest: expand_ok)

lemma parse_addr_ok: "parse_addr s = Some a \<Longrightarrow> addr_ok a"
  by (auto simp: parse_addr_def parse_ipv4_ok parse_ipv6_ok split: list.splits if_splits)

lemma length_8:
  assumes "length gs = 8"
  obtains a b c d e f g h where "gs = [a, b, c, d, e, f, g, h]"
  using assms by (auto simp: length_Suc_conv numeral_eq_Suc)

lemma unmap_ok: "addr_ok a \<Longrightarrow> addr_ok (unmap a)"
proof (cases a)
  case (Addr6 gs zone)
  then show "addr_ok a \<Longrightarrow> addr_ok (unmap a)" by (auto simp: group_ok_def elim!: length_8)
qed simp

section \<open>The manager does not call inside\<close>

definition in_block :: "int \<Rightarrow> nat \<Rightarrow> int \<Rightarrow> bool" where
  "in_block base bits n \<longleftrightarrow> base \<le> n \<and> n < base + 2 ^ (32 - bits)"

text \<open>
  The specification: the blocks of internal addresses by their bounds. The last test leaves out the unspecified
  address of IPv6 with a zone.
\<close>

fun internal_addr :: "addr \<Rightarrow> bool" where
  "internal_addr (Addr4 n) \<longleftrightarrow> n = 0 \<or> in_block 0x0A000000 8 n \<or> in_block 0x64400000 10 n \<or> in_block 0x7F000000 8 n \<or>
     in_block 0xA9FE0000 16 n \<or> in_block 0xAC100000 12 n \<or> in_block 0xC0A80000 16 n \<or> in_block 0xE0000000 4 n"
| "internal_addr (Addr6 gs zone) \<longleftrightarrow> is_4in6 gs \<or> gs = [0, 0, 0, 0, 0, 0, 0, 1] \<or> 0xfc00 \<le> hd gs \<and> hd gs < 0xfe00 \<or>
     0xfe80 \<le> hd gs \<and> hd gs < 0xfec0 \<or> 0xff00 \<le> hd gs \<or> gs = replicate 8 0 \<and> zone = []"

lemma div_block: "0 < m \<Longrightarrow> k * m \<le> n \<Longrightarrow> n < k * m + m \<Longrightarrow> n div m = k"
  for n :: int
  by (rule int_div_pos_eq [of n m k "n - k * m"]) simp_all

lemma block_divides:
  "in_block (k * 2 ^ (32 - bits)) bits n \<Longrightarrow> n div 2 ^ (32 - bits) = k"
  by (rule div_block) (simp_all add: in_block_def)

lemma blocks:
  "in_block 0x0A000000 8 n \<Longrightarrow> n div 16777216 = 10"
  "in_block 0x64400000 10 n \<Longrightarrow> n div 4194304 = 401"
  "in_block 0x7F000000 8 n \<Longrightarrow> n div 16777216 = 127"
  "in_block 0xA9FE0000 16 n \<Longrightarrow> n div 65536 = 43518"
  "in_block 0xAC100000 12 n \<Longrightarrow> n div 1048576 = 2753"
  "in_block 0xC0A80000 16 n \<Longrightarrow> n div 65536 = 49320"
  "in_block 0xE0000000 4 n \<Longrightarrow> n div 268435456 = 14"
  using block_divides [of 10 8 n] block_divides [of 401 10 n] block_divides [of 127 8 n] block_divides [of 43518 16 n]
    block_divides [of 2753 12 n] block_divides [of 49320 16 n] block_divides [of 14 4 n]
  by simp_all

lemma octets:
  "octet n 0 = n div 16777216 mod 256" "octet n 0 = n div 65536 div 256 mod 256" "octet n 1 = n div 65536 mod 256"
  "octet n 0 = n div 1048576 div 16 mod 256" "octet n 0 div 16 = n div 268435456 mod 16"
proof -
  show "octet n 0 = n div 16777216 mod 256" "octet n 1 = n div 65536 mod 256" by (simp_all add: octet_def)
  then show "octet n 0 = n div 65536 div 256 mod 256" "octet n 0 = n div 1048576 div 16 mod 256"
    using zdiv_zmult2_eq [of 256 n 65536] zdiv_zmult2_eq [of 16 n 1048576] by simp_all
  have "k mod 256 div 16 = k div 16 mod 16" for k :: int
    using zmod_zmult2_eq [of 16 k 16] by simp
  then show "octet n 0 div 16 = n div 268435456 mod 16"
    using zdiv_zmult2_eq [of 16 n 16777216] by (simp add: octet_def)
qed

lemma octet_172: "n div 1048576 = 2753 \<Longrightarrow> octet n 1 div 16 = 1"
proof -
  assume "n div 1048576 = 2753"
  then have "n div 65536 div 16 = 2753" using zdiv_zmult2_eq [of 16 n 65536] by simp
  moreover have "k mod 256 div 16 = k div 16 mod 16" for k :: int
    using zmod_zmult2_eq [of 16 k 16] by simp
  ultimately show ?thesis unfolding octets(3) by simp
qed

lemma blocked_internal:
  assumes "addr_ok a" and "\<not> blocked_oidc_addr (Some a)"
  shows "\<not> internal_addr (unmap a)"
proof -
  have ok: "addr_ok (unmap a)" by (rule unmap_ok [OF assms(1)])
  show ?thesis
  proof (cases "unmap a")
    case (Addr4 n)
    then have b: "\<not> is_loopback (Addr4 n)" "\<not> is_link_local_unicast (Addr4 n)" "\<not> is_multicast (Addr4 n)" "n \<noteq> 0"
      "\<not> is_private (Addr4 n)" "\<not> prefix_contains cgnat_range (Addr4 n)"
      using assms(2) by (simp_all add: blocked_oidc_addr_def Let_def)
    have "\<not> in_block 0x0A000000 8 n" "\<not> in_block 0x7F000000 8 n"
      using b(1,5) blocks(1,3) octets(1) by fastforce+
    moreover have "\<not> in_block 0x64400000 10 n" using b(6) blocks(2) by (auto simp: prefix_contains_def cgnat_range_def)
    moreover have "\<not> in_block 0xA9FE0000 16 n" using b(2) blocks(4) octets(2,3) by fastforce
    moreover have "\<not> in_block 0xC0A80000 16 n" using b(5) blocks(6) octets(2,3) by fastforce
    moreover have "\<not> in_block 0xAC100000 12 n" using b(5) blocks(5) octets(4) octet_172 by fastforce
    moreover have "\<not> in_block 0xE0000000 4 n" using b(3) blocks(7) octets(5) by fastforce
    ultimately show ?thesis using b(4) Addr4 by simp
  next
    case (Addr6 gs zone)
    have "\<not> is_4in6 gs" using Addr6 by (cases a) (auto split: if_splits)
    then have b: "\<not> is_loopback (Addr6 gs zone)" "\<not> is_link_local_unicast (Addr6 gs zone)" "\<not> is_multicast (Addr6 gs zone)"
      "\<not> is_private (Addr6 gs zone)" "\<not> is_unspecified (Addr6 gs zone)" "\<not> is_4in6 gs"
      using assms(2) Addr6 by (simp_all add: blocked_oidc_addr_def Let_def)
    have g: "0 \<le> hd gs" "hd gs < 65536" using ok Addr6 by (auto simp: group_ok_def elim!: length_8)
    have "\<not> (0xfc00 \<le> hd gs \<and> hd gs < 0xfe00)" using b(4) div_block [of 512 126 "hd gs"] by auto
    moreover have "\<not> (0xfe80 \<le> hd gs \<and> hd gs < 0xfec0)" using b(2) div_block [of 64 1018 "hd gs"] by auto
    moreover have "\<not> 0xff00 \<le> hd gs" using b(3) div_block [of 256 255 "hd gs"] g by auto
    ultimately show ?thesis using b(1,5,6) Addr6 by simp
  qed
qed

lemma pick_resolved_sound:
  "pick_resolved as host port allowed blocked = Inr t \<Longrightarrow>
    \<exists>a. Some a \<in> set as \<and> t = join_host_port (addr_string (unmap a)) port \<and> allow_oidc_ip a host allowed = None"
  by (induction as host port allowed blocked rule: pick_resolved.induct) (auto split: option.splits)

lemma allowed_public:
  "allow_oidc_ip a host allowed = None \<Longrightarrow> addr_ok a \<Longrightarrow> \<not> internal_addr (unmap a) \<or> host_allowed host allowed"
  using blocked_internal [of "unmap a"] unmap_ok [of a] by (cases a) (auto simp: allow_oidc_ip_def split: if_splits)


section \<open>The unspecified address with a zone\<close>

text \<open>
  One internal address gets through: the unspecified address with any zone passes the check of the request
  and of the dialler, although without a zone it is refused, and connecting to it reaches the manager's own host.
\<close>

theorem zoned_unspecified_dialled:
  assumes "oidc_snapshot_now defs w = Inr snap" and "os_allow_http snap \<or> scheme = ''https''" and "scheme \<in> {''http'', ''https''}"
    and "zone \<noteq> []" and "set zone \<subseteq> set ''0123456789abcdefghijklmnopqrstuvwxyz''"
  shows "validate_request_url defs w \<lparr>ur_scheme = scheme, ur_host = ''[::%'' @ zone @ '']'', ur_opaque = [], ur_user = False\<rparr> = None \<and>
     pick_dial_addr defs w lookup (''::%'' @ zone) port = Inr (''[::%'' @ zone @ '']:'' @ port)"
proof -
  have letters: "c \<notin> brackets \<and> c \<noteq> CHR '':'' \<and> c \<noteq> CHR ''%''" if "c \<in> set zone" for c
    using assms(5) that by (auto simp: brackets_def)
  have zeros: "replicate 8 (0 :: int) = [0, 0, 0, 0, 0, 0, 0, 0]" by (simp add: numeral_eq_Suc)
  have p: "parse_addr (''::%'' @ zone) = Some (Addr6 (replicate 8 0) zone)"
    using assms(4) by (simp add: parse_addr_def parse_ipv6_def cut_at_def)
  have b: "\<not> blocked_oidc_addr (Some (Addr6 (replicate 8 0) zone))"
    using assms(4) unfolding zeros
    by (simp add: blocked_oidc_addr_def Let_def is_4in6_def zeros prefix_contains_def cgnat_range_def six_to_four_range_def teredo_range_def)
  have t: "trim_chars brackets (''::%'' @ zone) = ''::%'' @ zone"
    by (rule trim_chars_id) (use letters in \<open>auto simp: brackets_def\<close>)
  have "string6 (replicate 8 0) = ''::''" by code_simp
  then have a: "addr_string (unmap (Addr6 (replicate 8 0) zone)) = ''::%'' @ zone"
    using assms(4) unfolding zeros by (simp add: is_4in6_def)
  have "takeWhile (\<lambda>x. x \<noteq> CHR '':'') (rev zone @ ''%::['') = rev zone @ ''%''"
    by (subst takeWhile_append2) (use letters in auto)
  moreover have "dropWhile (\<lambda>x. x \<noteq> CHR '':'') (rev zone @ ''%::['') = ''::[''"
    by (subst dropWhile_append2) (use letters in auto)
  ultimately have "cut_last (CHR '':'') (''[::%'' @ zone @ '']'') = Some (''[:'', ''%'' @ zone @ '']'')"
    by (simp add: cut_last_def cut_at_def)
  then have h: "hostname \<lparr>ur_scheme = scheme, ur_host = ''[::%'' @ zone @ '']'', ur_opaque = [], ur_user = False\<rparr> = ''::%'' @ zone"
    by (simp add: hostname_def url_host_port_def digit_val_def has_prefix_def butlast_append)
  have "validate_oidc_url \<lparr>ur_scheme = scheme, ur_host = ''[::%'' @ zone @ '']'', ur_opaque = [], ur_user = False\<rparr> (os_allow_http snap) = None"
    using assms(2,3) unfolding validate_oidc_url_def h by auto
  then have "validate_request_url defs w \<lparr>ur_scheme = scheme, ur_host = ''[::%'' @ zone @ '']'', ur_opaque = [], ur_user = False\<rparr> = None"
    using b by (simp only: validate_request_url_def assms(1) sum.case option.case h p) simp
  moreover have "pick_dial_addr defs w lookup (''::%'' @ zone) port = Inr (''[::%'' @ zone @ '']:'' @ port)"
    using assms(1) b by (simp only: pick_dial_addr_def sum.case Let_def t p option.case a)
      (simp add: allow_oidc_ip_def zeros is_4in6_def join_host_port_def)
  ultimately show ?thesis ..
qed

section \<open>Witnesses\<close>

definition secure_only :: settings_world where
  "secure_only = \<lparr>sw_env = Map.empty, sw_rows = [''oidc_allowed_hosts'' \<mapsto> ''idp.lan''], sw_down = False\<rparr>"

lemma secure_snapshot:
  "oidc_snapshot_now (setting_defs sample_defaults) secure_only = Inr \<lparr>os_allow_http = False, os_allowed_hosts = [''idp.lan'']\<rparr>"
proof -
  have t: "trim_space ''false'' = ''false''" "trim_space ''idp.lan'' = ''idp.lan''" "parse_oidc_allowed_hosts ''idp.lan'' = [''idp.lan'']"
    by code_simp+
  have "bool_setting (setting_defs sample_defaults) secure_only ''oidc_allow_http'' = Inr False"
    "string_setting (setting_defs sample_defaults) secure_only ''oidc_allowed_hosts'' = Inr ''idp.lan''"
    by (simp_all add: bool_setting_def string_setting_def resolve_def setting_defs_def int_def_def bool_def_def string_def_def
        secure_only_def env_value_def from_source_def parse_setting_def parse_bool_def t)
  then show ?thesis by (simp add: oidc_snapshot_now_def t)
qed


theorem zoned_unspecified_dialled_witness:
  "pick_dial_addr (setting_defs sample_defaults) secure_only (\<lambda>h. None) ''::%lo'' ''443'' = Inr ''[::%lo]:443'' \<and>
   blocked_oidc_addr (parse_addr ''::'')"
proof -
  have "blocked_oidc_addr (parse_addr ''::'')" by code_simp
  then show ?thesis
    using zoned_unspecified_dialled [OF secure_snapshot, of "''https''" "''lo''" "\<lambda>h. None" "''443''"] by simp
qed

end
