(* ===== verification/Auth_State.thy ===== *)
theory Auth_State
  imports Go_Strings Process
begin

text \<open>
  The state of the authentication service (\<open>auth/types.go\<close>): the tables of the database that it reads and
  writes, the cache of API keys, the times of the last recorded use, the tickets of the WebSockets and the
  gate of the password work. A table is the list of its rows in the order of their insertion; the constraints
  of \<open>database/migrations/00001_baseline.sql\<close> (unique columns, foreign keys, cascades) are in the statements
  that can meet them. A statement fails when the world says that the database is down.
\<close>

section \<open>Rows\<close>

record user_row =
  ur_id :: int
  ur_username :: string
  ur_password :: string
  ur_enabled :: bool
  ur_created :: int
  ur_last_login :: "int option"

record account_row =
  sa_id :: string
  sa_name :: string
  sa_enabled :: bool
  sa_hidden :: bool
  sa_created :: int
  sa_creator :: "int option"

datatype key_owner = OwnerUser int | OwnerAccount string

text \<open>The check of the table \<open>api_keys\<close> leaves a row exactly one owner.\<close>

record key_row =
  kr_id :: string
  kr_name :: string
  kr_prefix :: string
  kr_token :: string
  kr_type :: string
  kr_owner :: key_owner
  kr_enabled :: bool
  kr_expires :: "string option"
  kr_instances :: "string list"
  kr_creator :: "int option"
  kr_created :: int
  kr_used :: "int option"

record session_row =
  se_id :: string
  se_user :: int
  se_token :: string
  se_created :: int
  se_expires :: int
  se_address :: string
  se_agent :: string

record api_key =
  ak_id :: string
  ak_name :: string
  ak_prefix :: string
  ak_type :: string
  ak_owner_kind :: string
  ak_owner_id :: string
  ak_owner_name :: string
  ak_owner_enabled :: bool
  ak_enabled :: bool
  ak_status :: string
  ak_instances :: "string list"
  ak_missing :: "string list"
  ak_expires :: "string option"
  ak_creator :: "int option"
  ak_created :: int
  ak_used :: "int option"
  ak_hidden_owner :: bool
  ak_managed :: bool

record session =
  sn_id :: string
  sn_user :: int
  sn_created :: int
  sn_expires :: int
  sn_address :: string
  sn_agent :: string
  sn_current :: bool
  sn_jti :: string

record ws_ticket =
  tk_session :: string
  tk_jti :: string
  tk_expires :: int

section \<open>The service and its world\<close>

record auth_state =
  au_users :: "user_row list"
  au_accounts :: "account_row list"
  au_keys :: "key_row list"
  au_sessions :: "session_row list"
  au_instances :: "string list"
  au_next_user :: int
  au_generation :: nat
  au_cache :: "string \<rightharpoonup> api_key"
  au_uses :: "string \<rightharpoonup> int"
  au_tickets :: "(string \<times> ws_ticket) list"
  au_lifetime :: int
  au_admitted :: nat
  au_active :: nat
  au_in_transaction :: bool

type_synonym date = "int \<times> int \<times> int"

text \<open>
  What an action meets outside: the clock in nanoseconds and the day in UTC, a database that is down, a
  context that is cancelled, fresh random strings, the answers of Argon2, and how often a loop goes round.
\<close>

record auth_world =
  aw_now :: int
  aw_today :: date
  aw_down :: bool
  aw_cancelled :: bool
  aw_random :: "string option"
  aw_password_hash :: "string \<Rightarrow> string"
  aw_password_ok :: "string \<Rightarrow> string \<Rightarrow> bool"

datatype auth_error =
    InvalidCredentials
  | LastEnabledUser
  | SelfDelete
  | SessionInvalid
  | PasswordWorkBusy
  | KeyMissing
  | KeyInvalid
  | KeyNameRequired
  | KeyTypeInvalid
  | KeyOwnerRequired
  | KeyOwnerDisabled
  | KeyOwnerNotFound
  | KeyInstancesNotAllowed
  | UnknownInstanceID string
  | ExpiresOnInvalid
  | ExpiresOnPast
  | AccountNameRequired
  | ManagedKeyImmutable
  | OwnerIDUnreadable
  | UsernameTooShort
  | PasswordTooShort
  | BootstrapCompleted
  | NoRows
  | DatabaseError
  | RandomFailed
  | ContextDone

type_synonym 'a auth = "(auth_world, auth_state, 'a) prog"

type_synonym 'a failing = "(auth_world, auth_state, auth_error + 'a) prog"

definition new_auth :: "int \<Rightarrow> auth_state" where
  "new_auth lifetime =
     \<lparr>au_users = [], au_accounts = [], au_keys = [], au_sessions = [], au_instances = [], au_next_user = 1,
      au_generation = 0, au_cache = Map.empty, au_uses = Map.empty, au_tickets = [], au_lifetime = lifetime,
      au_admitted = 0, au_active = 0, au_in_transaction = False\<rparr>"

definition set_session_lifetime :: "int \<Rightarrow> unit auth" where
  "set_session_lifetime lifetime =
     (if lifetime \<le> 0 then Return () else update (\<lambda>w s. s\<lparr>au_lifetime := lifetime\<rparr>))"

definition then_ok :: "'a failing \<Rightarrow> ('a \<Rightarrow> 'b failing) \<Rightarrow> 'b failing" where
  "then_ok p k = bindp p (\<lambda>r. case r of Inl e \<Rightarrow> Return (Inl e) | Inr a \<Rightarrow> k a)"

text \<open>
  A statement that reads, and one that writes, with what the database answers. The pool has one connection,
  so a statement waits while a transaction is open; a transaction of SQL statements only is one action.
\<close>

definition query_now :: "(auth_world \<Rightarrow> auth_state \<Rightarrow> auth_error + 'a) \<Rightarrow> 'a failing" where
  "query_now f = await (\<lambda>w s.
     if aw_down w then Some (s, Inl DatabaseError) else if au_in_transaction s then None else Some (s, f w s))"

definition query :: "(auth_state \<Rightarrow> auth_error + 'a) \<Rightarrow> 'a failing" where
  "query f = query_now (\<lambda>w. f)"

definition exec :: "(auth_world \<Rightarrow> auth_state \<Rightarrow> auth_state \<times> (auth_error + 'a)) \<Rightarrow> 'a failing" where
  "exec f = await (\<lambda>w s.
     if aw_down w then Some (s, Inl DatabaseError) else if au_in_transaction s then None else Some (f w s))"

definition row_or_none :: "'a option \<Rightarrow> auth_error + 'a" where
  "row_or_none r = (case r of None \<Rightarrow> Inl NoRows | Some a \<Rightarrow> Inr a)"

definition random_token :: "string failing" where
  "random_token = readp (\<lambda>w s. case aw_random w of None \<Rightarrow> Inl RandomFailed | Some t \<Rightarrow> Inr t)"

definition unix :: "int \<Rightarrow> int" where
  "unix t = t div 1000000000"

definition truncate_string :: "string \<Rightarrow> int \<Rightarrow> string" where
  "truncate_string v n = (if int (length v) \<le> n then v else take (nat n) v)"

section \<open>Dates\<close>

text \<open>\<open>time.Parse\<close> with the layout \<open>2006-01-02\<close>; days are compared as the code compares their midnights.\<close>

definition leap :: "int \<Rightarrow> bool" where
  "leap y \<longleftrightarrow> y mod 4 = 0 \<and> (y mod 100 \<noteq> 0 \<or> y mod 400 = 0)"

definition days_in :: "int \<Rightarrow> int \<Rightarrow> int" where
  "days_in m y = (if m = 2 then if leap y then 29 else 28 else if m \<in> {4, 6, 9, 11} then 30 else 31)"

definition two_digits :: "char \<Rightarrow> char \<Rightarrow> int option" where
  "two_digits a b = (case (digit_val a, digit_val b) of (Some x, Some y) \<Rightarrow> Some (10 * x + y) | _ \<Rightarrow> None)"

fun parse_date :: "string \<Rightarrow> date option" where
  "parse_date [a, b, c, d, h, e, f, k, g, i] =
     (if h = CHR ''-'' \<and> k = CHR ''-'' then
        (case (two_digits a b, two_digits c d, two_digits e f, two_digits g i) of
           (Some y1, Some y2, Some m, Some n) \<Rightarrow>
             let y = 100 * y1 + y2
             in if 1 \<le> m \<and> m \<le> 12 \<and> 1 \<le> n \<and> n \<le> days_in m y then Some (y, m, n) else None
         | _ \<Rightarrow> None)
      else None)"
| "parse_date s = None"

definition day_before :: "date \<Rightarrow> date \<Rightarrow> bool" where
  "day_before d e =
     (case d of (y, m, n) \<Rightarrow> case e of (y', m', n') \<Rightarrow> y < y' \<or> y = y' \<and> (m < m' \<or> m = m' \<and> n < n'))"

definition parse_expires_on :: "string \<Rightarrow> date option" where
  "parse_expires_on v = parse_date (trim_space v)"

definition api_key_expired :: "string option \<Rightarrow> date \<Rightarrow> bool" where
  "api_key_expired expires today =
     (case expires of
        None \<Rightarrow> False
      | Some v \<Rightarrow>
          if trim_space v = [] then False
          else (case parse_expires_on v of None \<Rightarrow> True | Some d \<Rightarrow> day_before d today))"

section \<open>API keys as they are read\<close>

definition compute_api_key_status :: "bool \<Rightarrow> bool \<Rightarrow> string option \<Rightarrow> date \<Rightarrow> string" where
  "compute_api_key_status enabled owner_enabled expires today =
     (if \<not> enabled then ''disabled''
      else if \<not> owner_enabled then ''owner_disabled''
      else if api_key_expired expires today then ''expired''
      else ''enabled'')"

fun unique_trimmed_from :: "string list \<Rightarrow> string list \<Rightarrow> string list" where
  "unique_trimmed_from seen [] = []"
| "unique_trimmed_from seen (v # vs) =
     (let t = trim_space v
      in if t = [] \<or> t \<in> set seen then unique_trimmed_from seen vs else t # unique_trimmed_from (t # seen) vs)"

definition unique_trimmed :: "string list \<Rightarrow> string list" where
  "unique_trimmed vs = unique_trimmed_from [] vs"

definition missing_instance_ids :: "string list \<Rightarrow> string list \<Rightarrow> string list" where
  "missing_instance_ids stored live_ids = filter (\<lambda>i. i \<notin> set live_ids) stored"

definition user_at :: "auth_state \<Rightarrow> int \<Rightarrow> user_row option" where
  "user_at s i = find (\<lambda>u. ur_id u = i) (au_users s)"

definition account_at :: "auth_state \<Rightarrow> string \<Rightarrow> account_row option" where
  "account_at s i = find (\<lambda>a. sa_id a = i) (au_accounts s)"

definition managed_principal_name :: string where
  "managed_principal_name = ''LiteLLM''"

definition scan_api_key :: "auth_state \<Rightarrow> date \<Rightarrow> string list \<Rightarrow> key_row \<Rightarrow> api_key" where
  "scan_api_key s today live_ids r =
     (let ids = unique_trimmed (kr_instances r);
          expires = (case kr_expires r of None \<Rightarrow> None | Some v \<Rightarrow> if trim_space v = [] then None else Some v);
          (kind, owner, name, owner_enabled, hidden) =
            (case kr_owner r of
               OwnerUser i \<Rightarrow>
                 (''user'', format_int i, case user_at s i of None \<Rightarrow> [] | Some u \<Rightarrow> ur_username u,
                  case user_at s i of None \<Rightarrow> False | Some u \<Rightarrow> ur_enabled u, False)
             | OwnerAccount i \<Rightarrow>
                 (''service_account'', i, case account_at s i of None \<Rightarrow> [] | Some a \<Rightarrow> sa_name a,
                  case account_at s i of None \<Rightarrow> False | Some a \<Rightarrow> sa_enabled a,
                  case account_at s i of None \<Rightarrow> False | Some a \<Rightarrow> sa_hidden a))
      in \<lparr>ak_id = kr_id r, ak_name = kr_name r, ak_prefix = kr_prefix r, ak_type = kr_type r, ak_owner_kind = kind,
          ak_owner_id = owner, ak_owner_name = name, ak_owner_enabled = owner_enabled, ak_enabled = kr_enabled r,
          ak_status = compute_api_key_status (kr_enabled r) owner_enabled expires today, ak_instances = ids,
          ak_missing = missing_instance_ids ids live_ids, ak_expires = expires, ak_creator = kr_creator r,
          ak_created = kr_created r, ak_used = kr_used r, ak_hidden_owner = hidden,
          ak_managed = (hidden \<and> kr_name r = managed_principal_name \<and> name = managed_principal_name)\<rparr>)"

section \<open>The cache of API keys\<close>

text \<open>The generation is a counter of 64 bits in the code; nobody clears the cache that often.\<close>

definition cached_api_key :: "string \<Rightarrow> (api_key option \<times> nat) auth" where
  "cached_api_key h = readp (\<lambda>w s. (au_cache s h, au_generation s))"

definition remember_api_key :: "string \<Rightarrow> api_key \<Rightarrow> nat \<Rightarrow> bool auth" where
  "remember_api_key h item g =
     act (\<lambda>w s. if au_generation s \<noteq> g then (s, False) else (s\<lparr>au_cache := (au_cache s)(h \<mapsto> item)\<rparr>, True))"

definition stamp_cached_api_key :: "string \<Rightarrow> int \<Rightarrow> nat \<Rightarrow> api_key option auth" where
  "stamp_cached_api_key h at g =
     act (\<lambda>w s. if au_generation s \<noteq> g then (s, None)
        else case au_cache s h of
          None \<Rightarrow> (s, None)
        | Some item \<Rightarrow>
            let item' = item\<lparr>ak_used := Some at\<rparr> in (s\<lparr>au_cache := (au_cache s)(h \<mapsto> item')\<rparr>, Some item'))"

definition clear_api_key_cache :: "unit auth" where
  "clear_api_key_cache = update (\<lambda>w s. s\<lparr>au_generation := au_generation s + 1, au_cache := Map.empty\<rparr>)"

definition seed_api_use_write :: "string \<Rightarrow> int option \<Rightarrow> unit auth" where
  "seed_api_use_write i used =
     (case used of
        None \<Rightarrow> Return ()
      | Some t \<Rightarrow>
          if t \<le> 0 then Return ()
          else update (\<lambda>w s.
            case au_uses s i of
              None \<Rightarrow> s\<lparr>au_uses := (au_uses s)(i \<mapsto> t * 1000000000)\<rparr>
            | Some c \<Rightarrow> if c < t * 1000000000 then s\<lparr>au_uses := (au_uses s)(i \<mapsto> t * 1000000000)\<rparr> else s))"

definition api_use_write_every :: int where
  "api_use_write_every = 30000000000"

definition reserve_api_use_write :: "string \<Rightarrow> int \<Rightarrow> bool auth" where
  "reserve_api_use_write i now =
     act (\<lambda>w s. case au_uses s i of
        Some prev \<Rightarrow>
          if now - prev < api_use_write_every then (s, False) else (s\<lparr>au_uses := (au_uses s)(i \<mapsto> now)\<rparr>, True)
      | None \<Rightarrow> (s\<lparr>au_uses := (au_uses s)(i \<mapsto> now)\<rparr>, True))"

definition release_api_use_write :: "string \<Rightarrow> int \<Rightarrow> unit auth" where
  "release_api_use_write i reserved =
     update (\<lambda>w s. if au_uses s i = Some reserved then s\<lparr>au_uses := (au_uses s)(i := None)\<rparr> else s)"

definition clear_api_use_write :: "string \<Rightarrow> unit auth" where
  "clear_api_use_write i = update (\<lambda>w s. s\<lparr>au_uses := (au_uses s)(i := None)\<rparr>)"

section \<open>Password work\<close>

definition password_work_max_active :: nat where
  "password_work_max_active = 2"

definition password_work_max_backlog :: nat where
  "password_work_max_backlog = 4"

definition reserve_password_work :: "unit failing" where
  "reserve_password_work =
     act (\<lambda>w s. if au_admitted s < password_work_max_active + password_work_max_backlog
       then (s\<lparr>au_admitted := au_admitted s + 1\<rparr>, Inr ()) else (s, Inl PasswordWorkBusy))"

definition release_password_work :: "unit auth" where
  "release_password_work = update (\<lambda>w s. s\<lparr>au_admitted := au_admitted s - 1\<rparr>)"

text \<open>
  \<open>run\<close> of a reservation: a cancelled context may win the \<open>select\<close> also when a place is free, and is read once
  more after the place has been taken.
\<close>

definition run_password_work :: "(auth_world \<Rightarrow> 'a) \<Rightarrow> 'a failing" where
  "run_password_work work =
     bindp (readp (\<lambda>w s. aw_cancelled w)) (\<lambda>cancelled.
       if cancelled then Return (Inl ContextDone)
       else bindp (await (\<lambda>w s.
           if aw_cancelled w then Some (s, False)
           else if au_active s < password_work_max_active then Some (s\<lparr>au_active := au_active s + 1\<rparr>, True)
           else None)) (\<lambda>entered.
         if \<not> entered then Return (Inl ContextDone)
         else bindp (readp (\<lambda>w s. if aw_cancelled w then Inl ContextDone else Inr (work w))) (\<lambda>r.
           bindp (update (\<lambda>w s. s\<lparr>au_active := au_active s - 1\<rparr>)) (\<lambda>_. Return r))))"

text \<open>The salt is drawn inside \<open>aw_password_hash\<close>: \<open>crypto/rand.Read\<close> never returns an error in this version of Go.\<close>

definition hash_password_with_reservation :: "string \<Rightarrow> string failing" where
  "hash_password_with_reservation password = run_password_work (\<lambda>w. aw_password_hash w password)"

definition base64_char :: "char \<Rightarrow> bool" where
  "base64_char c \<longleftrightarrow> c \<in> set ''ABCDEFGHIJKLMNOPQRSTUVWXYZabcdefghijklmnopqrstuvwxyz0123456789+/''"

text \<open>The length of what \<open>base64.RawStdEncoding.DecodeString\<close> decodes; it skips line breaks.\<close>

definition base64_length :: "string \<Rightarrow> nat option" where
  "base64_length s =
     (let cs = filter (\<lambda>c. c \<noteq> CHR 0x0A \<and> c \<noteq> CHR 0x0D) s
      in if list_all base64_char cs \<and> length cs mod 4 \<noteq> 1 then Some (length cs * 3 div 4) else None)"

definition parse_uint_below :: "int \<Rightarrow> string \<Rightarrow> int option" where
  "parse_uint_below n s = (case parse_uint s of None \<Rightarrow> None | Some k \<Rightarrow> if k < n then Some k else None)"

text \<open>Memory, iterations, threads, and the lengths of salt and key.\<close>

definition parse_password_hash :: "string \<Rightarrow> (int \<times> int \<times> int \<times> nat \<times> nat) option" where
  "parse_password_hash encoded =
     (case split_on (CHR ''$'') encoded of
        [scheme, version, params, salt, key] \<Rightarrow>
          if scheme \<noteq> ''argon2id'' \<or> version \<noteq> ''v=19'' then None
          else (case split_on (CHR '','') params of
             [m, t, p] \<Rightarrow>
               (case (parse_uint_below 4294967296 (trim_prefix m ''m=''), parse_uint_below 4294967296 (trim_prefix t ''t=''),
                      parse_uint_below 256 (trim_prefix p ''p='')) of
                  (Some memory, Some iterations, Some threads) \<Rightarrow>
                    if iterations < 1 \<or> threads < 1 \<or> memory < 8 * threads then None
                    else (case (base64_length salt, base64_length key) of
                       (Some i, Some j) \<Rightarrow> if i = 0 \<or> j = 0 then None else Some (memory, iterations, threads, i, j)
                     | _ \<Rightarrow> None)
                | _ \<Rightarrow> None)
           | _ \<Rightarrow> None)
      | _ \<Rightarrow> None)"

definition password_needs_rehash :: "string \<Rightarrow> bool" where
  "password_needs_rehash encoded =
     (case parse_password_hash encoded of
        None \<Rightarrow> True
      | Some (memory, iterations, threads, _, key) \<Rightarrow> memory \<noteq> 65536 \<or> iterations \<noteq> 3 \<or> threads \<noteq> 2 \<or> key \<noteq> 32)"

definition verify_password_with_reservation :: "string \<Rightarrow> string \<Rightarrow> bool failing" where
  "verify_password_with_reservation password encoded =
     (if parse_password_hash encoded = None then Return (Inr False)
      else run_password_work (\<lambda>w. aw_password_ok w password encoded))"

definition with_password_work :: "'a failing \<Rightarrow> 'a failing" where
  "with_password_work p =
     then_ok reserve_password_work (\<lambda>_. bindp p (\<lambda>r. bindp release_password_work (\<lambda>_. Return r)))"

definition hash_password :: "string \<Rightarrow> string failing" where
  "hash_password password = with_password_work (hash_password_with_reservation password)"

definition verify_password :: "string \<Rightarrow> string \<Rightarrow> bool failing" where
  "verify_password password encoded = with_password_work (verify_password_with_reservation password encoded)"

definition validate_password :: "string \<Rightarrow> auth_error + unit" where
  "validate_password password = (if length password < 10 then Inl PasswordTooShort else Inr ())"

definition validate_credentials :: "string \<Rightarrow> string \<Rightarrow> auth_error + string" where
  "validate_credentials username password =
     (let name = trim_space username
      in if length name < 2 then Inl UsernameTooShort
         else case validate_password password of Inl e \<Rightarrow> Inl e | Inr _ \<Rightarrow> Inr name)"

end
