(* ===== verification/Auth_Service.thy ===== *)
theory Auth_Service
  imports Auth_State Go_Sort
begin

text \<open>
  The operations of the authentication service as programs: API keys with their cache (\<open>auth/api_keys.go\<close>),
  users (\<open>auth/users.go\<close>), service accounts (\<open>auth/service_accounts.go\<close>), sessions and tickets
  (\<open>auth/bearer.go\<close>, \<open>auth/sessions.go\<close>). An action is one SQL statement or transaction, or one critical
  section of a mutex. \<open>tokenHash\<close> is the parameter \<open>digest\<close>.
\<close>

section \<open>Reading API keys\<close>

definition live_instance_ids :: "string list failing" where
  "live_instance_ids = query (\<lambda>s. Inr (au_instances s))"

definition scan_row :: "(key_row \<Rightarrow> bool) \<Rightarrow> string list \<Rightarrow> api_key failing" where
  "scan_row f live_ids =
     query_now (\<lambda>w s. case find f (au_keys s) of None \<Rightarrow> Inl NoRows | Some r \<Rightarrow> Inr (scan_api_key s (aw_today w) live_ids r))"

definition get_api_key_including_hidden :: "string \<Rightarrow> api_key failing" where
  "get_api_key_including_hidden i = then_ok live_instance_ids (scan_row (\<lambda>r. kr_id r = i))"

definition get_api_key :: "string \<Rightarrow> api_key failing" where
  "get_api_key i = get_api_key_including_hidden i"

definition lookup_api_key_by_hash :: "string \<Rightarrow> api_key failing" where
  "lookup_api_key_by_hash h = then_ok live_instance_ids (scan_row (\<lambda>r. kr_token r = h))"

text \<open>\<open>ORDER BY created_at DESC\<close>; the order of rows of one time is that of their insertion.\<close>

definition scan_rows :: "(key_row \<Rightarrow> bool) \<Rightarrow> string list \<Rightarrow> api_key list failing" where
  "scan_rows f live_ids =
     query_now (\<lambda>w s. Inr (map (scan_api_key s (aw_today w) live_ids)
        (sort_by (\<lambda>a b. kr_created b < kr_created a) (filter f (au_keys s)))))"

definition list_api_keys_of :: "string \<Rightarrow> api_key list failing" where
  "list_api_keys_of account =
     then_ok live_instance_ids (scan_rows (\<lambda>r. account = [] \<or> kr_owner r = OwnerAccount account))"

definition list_api_keys :: "api_key list failing" where
  "list_api_keys = list_api_keys_of []"

definition list_api_keys_for_service_account :: "string \<Rightarrow> api_key list failing" where
  "list_api_keys_for_service_account account =
     (if trim_space account = [] then Return (Inl NoRows) else list_api_keys_of (trim_space account))"

definition list_api_keys_including_hidden :: "string \<Rightarrow> api_key list failing" where
  "list_api_keys_including_hidden account =
     then_ok live_instance_ids (scan_rows (\<lambda>r. kr_owner r = OwnerAccount account))"

section \<open>What may be written\<close>

fun reject_unknown :: "string list \<Rightarrow> string list \<Rightarrow> auth_error option" where
  "reject_unknown live_ids [] = None"
| "reject_unknown live_ids (i # is) = (if i \<in> set live_ids then reject_unknown live_ids is else Some (UnknownInstanceID i))"

definition reject_unknown_instance_ids :: "string list \<Rightarrow> unit failing" where
  "reject_unknown_instance_ids ids =
     (if ids = [] then Return (Inr ())
      else then_ok live_instance_ids (\<lambda>live_ids.
        Return (case reject_unknown live_ids ids of None \<Rightarrow> Inr () | Some e \<Rightarrow> Inl e)))"

definition owner_state :: "key_owner \<Rightarrow> bool failing" where
  "owner_state owner = query (\<lambda>s.
     case (case owner of OwnerUser i \<Rightarrow> map_option ur_enabled (user_at s i)
           | OwnerAccount i \<Rightarrow> map_option sa_enabled (account_at s i)) of
       None \<Rightarrow> Inl KeyOwnerNotFound
     | Some enabled \<Rightarrow> Inr enabled)"

definition check_owner :: "key_owner \<Rightarrow> bool \<Rightarrow> unit failing" where
  "check_owner owner validate_enabled =
     then_ok (owner_state owner) (\<lambda>enabled.
       Return (if validate_enabled \<and> \<not> enabled then Inl KeyOwnerDisabled else Inr ()))"

definition check_expires :: "string \<Rightarrow> bool \<Rightarrow> string option failing" where
  "check_expires expires require_future =
     (let v = trim_space expires in
      if v = [] then Return (Inr None)
      else case parse_expires_on v of
        None \<Rightarrow> Return (Inl ExpiresOnInvalid)
      | Some d \<Rightarrow> readp (\<lambda>w s. if require_future \<and> day_before d (aw_today w) then Inl ExpiresOnPast else Inr (Some v)))"

definition normalize_api_key_write ::
    "string \<Rightarrow> string \<Rightarrow> int option \<Rightarrow> string \<Rightarrow> string list \<Rightarrow> string \<Rightarrow> bool \<Rightarrow> bool \<Rightarrow> bool \<Rightarrow>
     (string \<times> string \<times> key_owner \<times> string list \<times> string option) failing" where
  "normalize_api_key_write name key_type user account ids expires require_future validate_owner validate_ids =
     (let name = trim_space name; key_type = trim_space (to_lower key_type);
          key_type = (if key_type = [] then ''inference'' else key_type);
          account = trim_space account;
          has_user = (case user of None \<Rightarrow> False | Some i \<Rightarrow> 0 < i); has_account = (account \<noteq> []);
          owner = (if has_user then OwnerUser (the user) else OwnerAccount account); ids = unique_trimmed ids
      in if name = [] then Return (Inl KeyNameRequired)
         else if key_type \<notin> {''inference'', ''management'', ''full''} then Return (Inl KeyTypeInvalid)
         else if has_user = has_account then Return (Inl KeyOwnerRequired)
         else then_ok (check_owner owner validate_owner) (\<lambda>_.
           if ids \<noteq> [] \<and> key_type \<noteq> ''inference'' then Return (Inl KeyInstancesNotAllowed)
           else then_ok (if validate_ids then reject_unknown_instance_ids ids else Return (Inr ())) (\<lambda>_.
             then_ok (check_expires expires require_future) (\<lambda>expires.
               Return (Inr (name, key_type, owner, ids, expires))))))"

definition service_account_hidden :: "string \<Rightarrow> bool failing" where
  "service_account_hidden i =
     query (\<lambda>s. case account_at s (trim_space i) of None \<Rightarrow> Inl KeyOwnerNotFound | Some a \<Rightarrow> Inr (sa_hidden a))"

definition reject_hidden_ordinary_api_key_owner :: "key_owner \<Rightarrow> unit failing" where
  "reject_hidden_ordinary_api_key_owner owner =
     (case owner of
        OwnerUser i \<Rightarrow> Return (Inr ())
      | OwnerAccount i \<Rightarrow>
          if trim_space i = [] then Return (Inr ())
          else then_ok (service_account_hidden i) (\<lambda>hidden. Return (if hidden then Inl NoRows else Inr ())))"

section \<open>Writing API keys\<close>

definition owner_exists :: "auth_state \<Rightarrow> key_owner \<Rightarrow> bool" where
  "owner_exists s owner =
     (case owner of OwnerUser i \<Rightarrow> user_at s i \<noteq> None | OwnerAccount i \<Rightarrow> account_at s i \<noteq> None)"

definition insert_key_row :: "key_row \<Rightarrow> unit failing" where
  "insert_key_row r = exec (\<lambda>w s.
     if (\<exists>k \<in> set (au_keys s). kr_id k = kr_id r \<or> kr_token k = kr_token r) \<or> \<not> owner_exists s (kr_owner r) \<or>
        (case kr_creator r of None \<Rightarrow> False | Some i \<Rightarrow> user_at s i = None)
     then (s, Inl DatabaseError) else (s\<lparr>au_keys := au_keys s @ [r]\<rparr>, Inr ()))"

text \<open>The secret and the prefix that is shown.\<close>

definition generate_api_key_secret :: "(string \<times> string) failing" where
  "generate_api_key_secret =
     then_ok random_token (\<lambda>r. Return (Inr (''sk-'' @ r, ''sk-'' @ (if 8 < length r then take 8 r else r))))"

definition insert_api_key ::
    "(string \<Rightarrow> string) \<Rightarrow> string \<Rightarrow> string \<Rightarrow> key_owner \<Rightarrow> string list \<Rightarrow> string option \<Rightarrow> int option \<Rightarrow> (api_key \<times> string) failing" where
  "insert_api_key digest name key_type owner ids expires creator =
     then_ok generate_api_key_secret (\<lambda>(secret, shown).
     then_ok random_token (\<lambda>i.
     bindp (readp (\<lambda>w s. unix (aw_now w))) (\<lambda>now.
     then_ok (insert_key_row \<lparr>kr_id = i, kr_name = name, kr_prefix = shown, kr_token = digest secret, kr_type = key_type,
         kr_owner = owner, kr_enabled = True, kr_expires = expires, kr_instances = ids,
         kr_creator = (case creator of None \<Rightarrow> None | Some c \<Rightarrow> if 0 < c then Some c else None),
         kr_created = now, kr_used = None\<rparr>) (\<lambda>_.
     then_ok (get_api_key_including_hidden i) (\<lambda>item. Return (Inr (item, secret)))))))"

record create_api_key_input =
  ci_name :: string
  ci_type :: string
  ci_user :: "int option"
  ci_account :: string
  ci_instances :: "string list"
  ci_expires :: string
  ci_creator :: "int option"

definition create_api_key :: "(string \<Rightarrow> string) \<Rightarrow> create_api_key_input \<Rightarrow> (api_key \<times> string) failing" where
  "create_api_key digest c =
     then_ok (normalize_api_key_write (ci_name c) (ci_type c) (ci_user c) (ci_account c) (ci_instances c) (ci_expires c) True True True)
       (\<lambda>(name, key_type, owner, ids, expires).
     then_ok (reject_hidden_ordinary_api_key_owner owner) (\<lambda>_.
       insert_api_key digest name key_type owner ids expires (ci_creator c)))"

text \<open>\<open>createAPIKey\<close>, for hidden accounts.\<close>

definition create_any_api_key :: "(string \<Rightarrow> string) \<Rightarrow> create_api_key_input \<Rightarrow> (api_key \<times> string) failing" where
  "create_any_api_key digest c =
     then_ok (normalize_api_key_write (ci_name c) (ci_type c) (ci_user c) (ci_account c) (ci_instances c) (ci_expires c) True True True)
       (\<lambda>(name, key_type, owner, ids, expires). insert_api_key digest name key_type owner ids expires (ci_creator c))"

definition create_api_key_for_user :: "(string \<Rightarrow> string) \<Rightarrow> string \<Rightarrow> int \<Rightarrow> (api_key \<times> string) failing" where
  "create_api_key_for_user digest name owner =
     (let o' = (if 0 < owner then Some owner else None)
      in create_api_key digest \<lparr>ci_name = name, ci_type = ''inference'', ci_user = o', ci_account = [], ci_instances = [],
           ci_expires = [], ci_creator = o'\<rparr>)"

definition map_keys :: "(key_row \<Rightarrow> bool) \<Rightarrow> (key_row \<Rightarrow> key_row) \<Rightarrow> auth_state \<Rightarrow> auth_state" where
  "map_keys f g s = s\<lparr>au_keys := map (\<lambda>r. if f r then g r else r) (au_keys s)\<rparr>"

definition affected :: "('a \<Rightarrow> bool) \<Rightarrow> 'a list \<Rightarrow> auth_error + unit" where
  "affected f rows = (if length (filter f rows) = 1 then Inr () else Inl NoRows)"

definition set_api_key_enabled :: "string \<Rightarrow> bool \<Rightarrow> unit failing" where
  "set_api_key_enabled i enabled =
     then_ok (exec (\<lambda>w s. (map_keys (\<lambda>r. kr_id r = i) (\<lambda>r. r\<lparr>kr_enabled := enabled\<rparr>) s, affected (\<lambda>r. kr_id r = i) (au_keys s))))
       (\<lambda>_. bindp clear_api_key_cache (\<lambda>_. Return (Inr ())))"

record update_api_key_input =
  ui_name :: "string option"
  ui_user :: "int option"
  ui_account :: "string option"
  ui_instances :: "string list option"
  ui_expires :: "string option"
  ui_clear_expires :: bool
  ui_enabled :: "bool option"

definition managed_update ::
    "api_key \<Rightarrow> update_api_key_input \<Rightarrow> auth_error + update_api_key_input" where
  "managed_update existing u =
     (if \<not> ak_managed existing then Inr u
      else if (case ui_name u of None \<Rightarrow> False | Some n \<Rightarrow> trim_space n \<noteq> ak_name existing) then Inl ManagedKeyImmutable
      else if ui_user u = None \<and> ui_account u = None then Inr u
      else
        let same_user = (ak_owner_kind existing = ''user'' \<and>
              (case ui_user u of None \<Rightarrow> False | Some i \<Rightarrow> format_int i = ak_owner_id existing));
            same_account = (ak_owner_kind existing = ''service_account'' \<and> ui_account u = Some (ak_owner_id existing))
        in if \<not> same_user \<and> \<not> same_account then Inl ManagedKeyImmutable
           else Inr (u\<lparr>ui_user := None, ui_account := None\<rparr>))"

definition existing_owner :: "api_key \<Rightarrow> auth_error + int option \<times> string" where
  "existing_owner existing =
     (if ak_owner_kind existing = ''user'' then
        (case parse_int (ak_owner_id existing) of None \<Rightarrow> Inl OwnerIDUnreadable | Some i \<Rightarrow> Inr (Some i, []))
      else if ak_owner_kind existing = ''service_account'' then Inr (None, ak_owner_id existing)
      else Inr (None, []))"

definition update_key_row ::
    "string \<Rightarrow> string \<Rightarrow> key_owner \<Rightarrow> string list \<Rightarrow> string option \<Rightarrow> bool \<Rightarrow> unit failing" where
  "update_key_row i name owner ids expires enabled = exec (\<lambda>w s.
     if \<not> owner_exists s owner \<and> (\<exists>r \<in> set (au_keys s). kr_id r = i) then (s, Inl DatabaseError)
     else (map_keys (\<lambda>r. kr_id r = i)
             (\<lambda>r. r\<lparr>kr_name := name, kr_owner := owner, kr_instances := ids, kr_expires := expires, kr_enabled := enabled\<rparr>) s,
           affected (\<lambda>r. kr_id r = i) (au_keys s)))"

definition update_api_key :: "string \<Rightarrow> update_api_key_input \<Rightarrow> unit failing" where
  "update_api_key i u0 =
     then_ok (get_api_key i) (\<lambda>existing.
     case managed_update existing u0 of
       Inl e \<Rightarrow> Return (Inl e)
     | Inr u \<Rightarrow>
     case existing_owner existing of
       Inl e \<Rightarrow> Return (Inl e)
     | Inr (user, account) \<Rightarrow>
       let name = (case ui_name u of None \<Rightarrow> ak_name existing | Some n \<Rightarrow> n);
           owner_changed = (ui_user u \<noteq> None \<or> ui_account u \<noteq> None);
           user = (if owner_changed then ui_user u else user);
           account = (if owner_changed then case_option [] id (ui_account u) else account);
           ids = (case ui_instances u of None \<Rightarrow> ak_instances existing | Some ids \<Rightarrow> ids);
           expires = (if ui_clear_expires u then []
                      else case ui_expires u of Some e \<Rightarrow> e | None \<Rightarrow> case_option [] id (ak_expires existing));
           enabled = (case ui_enabled u of None \<Rightarrow> ak_enabled existing | Some b \<Rightarrow> b)
       in then_ok (normalize_api_key_write name (ak_type existing) user account ids expires
              (ui_expires u \<noteq> None) owner_changed (ui_instances u \<noteq> None)) (\<lambda>(name, _, owner, ids, expires).
          then_ok (if owner_changed then reject_hidden_ordinary_api_key_owner owner else Return (Inr ())) (\<lambda>_.
          then_ok (update_key_row i name owner ids expires enabled) (\<lambda>_.
          bindp clear_api_key_cache (\<lambda>_. Return (Inr ()))))))"

definition rotate_api_key_secret :: "(string \<Rightarrow> string) \<Rightarrow> string \<Rightarrow> (api_key \<times> string) failing" where
  "rotate_api_key_secret digest i =
     then_ok (query (\<lambda>s. row_or_none (find (\<lambda>r. kr_id r = i) (au_keys s)))) (\<lambda>_.
     then_ok generate_api_key_secret (\<lambda>(secret, shown).
     then_ok (exec (\<lambda>w s.
         if \<exists>r \<in> set (au_keys s). kr_id r \<noteq> i \<and> kr_token r = digest secret then (s, Inl DatabaseError)
         else (map_keys (\<lambda>r. kr_id r = i) (\<lambda>r. r\<lparr>kr_prefix := shown, kr_token := digest secret\<rparr>) s,
               affected (\<lambda>r. kr_id r = i) (au_keys s)))) (\<lambda>_.
     bindp (clear_api_use_write i) (\<lambda>_.
     bindp clear_api_key_cache (\<lambda>_.
     then_ok (get_api_key_including_hidden i) (\<lambda>item. Return (Inr (item, secret))))))))"

definition rotate_api_key :: "(string \<Rightarrow> string) \<Rightarrow> string \<Rightarrow> (api_key \<times> string) failing" where
  "rotate_api_key digest i =
     then_ok (get_api_key i) (\<lambda>existing.
       if ak_managed existing then Return (Inl NoRows) else rotate_api_key_secret digest i)"

definition rotate_managed_api_key :: "(string \<Rightarrow> string) \<Rightarrow> string \<Rightarrow> (api_key \<times> string) failing" where
  "rotate_managed_api_key digest i =
     then_ok (get_api_key_including_hidden i) (\<lambda>existing.
       if \<not> ak_managed existing then Return (Inl NoRows) else rotate_api_key_secret digest i)"

definition managed_key_in :: "api_key list \<Rightarrow> api_key option" where
  "managed_key_in keys = find (\<lambda>k. ak_name k = managed_principal_name \<and> ak_type k = ''inference'') keys"

definition ensure_managed_inference_key :: "(string \<Rightarrow> string) \<Rightarrow> string \<Rightarrow> (api_key \<times> string) failing" where
  "ensure_managed_inference_key digest account =
     then_ok (list_api_keys_including_hidden account) (\<lambda>keys.
       case managed_key_in keys of
         Some k \<Rightarrow> Return (Inr (k, []))
       | None \<Rightarrow> create_any_api_key digest \<lparr>ci_name = managed_principal_name, ci_type = ''inference'', ci_user = None,
           ci_account = account, ci_instances = [], ci_expires = [], ci_creator = None\<rparr>)"

section \<open>Authenticating an API key\<close>

text \<open>The key that a request of the playground stands for.\<close>

definition playground_key :: api_key where
  "playground_key =
     \<lparr>ak_id = [], ak_name = ''Management Playground'', ak_prefix = [], ak_type = ''full'', ak_owner_kind = [],
      ak_owner_id = [], ak_owner_name = [], ak_owner_enabled = False, ak_enabled = True, ak_status = ''enabled'',
      ak_instances = [], ak_missing = [], ak_expires = None, ak_creator = None, ak_created = 0, ak_used = None,
      ak_hidden_owner = False, ak_managed = False\<rparr>"

definition record_use :: "api_key \<Rightarrow> int \<Rightarrow> api_key failing" where
  "record_use item now =
     bindp (reserve_api_use_write (ak_id item) now) (\<lambda>reserved.
       if \<not> reserved then Return (Inr item)
       else bindp (exec (\<lambda>w s.
           (map_keys (\<lambda>r. kr_id r = ak_id item \<and> kr_enabled r) (\<lambda>r. r\<lparr>kr_used := Some (unix now)\<rparr>) s, Inr ()))) (\<lambda>r.
         case r of
           Inl e \<Rightarrow> bindp (release_api_use_write (ak_id item) now) (\<lambda>_. Return (Inl e))
         | Inr _ \<Rightarrow> Return (Inr item)))"

text \<open>What follows once the entry is known; \<open>None\<close> goes round again.\<close>

definition use_entry :: "string \<Rightarrow> api_key \<Rightarrow> nat \<Rightarrow> (auth_error + api_key) option auth" where
  "use_entry h item g =
     bindp (readp (\<lambda>w s. aw_today w)) (\<lambda>today.
       if \<not> ak_enabled item \<or> \<not> ak_owner_enabled item \<or> api_key_expired (ak_expires item) today
       then Return (Some (Inl KeyInvalid))
       else bindp (readp (\<lambda>w s. aw_now w)) (\<lambda>now.
         bindp (stamp_cached_api_key h (unix now) g) (\<lambda>stamped.
           case stamped of
             None \<Rightarrow> Return None
           | Some item \<Rightarrow> bindp (record_use item now) (\<lambda>r. Return (Some r)))))"

definition authenticate_round :: "string \<Rightarrow> (auth_error + api_key) option auth" where
  "authenticate_round h =
     bindp (cached_api_key h) (\<lambda>(cached, g).
       case cached of
         Some item \<Rightarrow> use_entry h item g
       | None \<Rightarrow>
           bindp (lookup_api_key_by_hash h) (\<lambda>r.
             case r of
               Inl e \<Rightarrow> Return (Some (Inl (if e = NoRows then KeyInvalid else e)))
             | Inr item \<Rightarrow>
                 bindp (remember_api_key h item g) (\<lambda>remembered.
                   if \<not> remembered then Return None
                   else bindp (seed_api_use_write (ak_id item) (ak_used item)) (\<lambda>_. use_entry h item g))))"

text \<open>
  The loop goes round when the generation has changed. It does so as often as \<open>rounds\<close> says and then blocks.
\<close>

primrec authenticate_rounds :: "nat \<Rightarrow> string \<Rightarrow> api_key failing" where
  "authenticate_rounds 0 h = Act (\<lambda>w s. None)"
| "authenticate_rounds (Suc n) h =
     bindp (authenticate_round h) (\<lambda>r. case r of None \<Rightarrow> authenticate_rounds n h | Some a \<Rightarrow> Return a)"

definition authenticate_api_key_info :: "(string \<Rightarrow> string) \<Rightarrow> nat \<Rightarrow> bool \<Rightarrow> string \<Rightarrow> api_key failing" where
  "authenticate_api_key_info digest rounds trusted token =
     (if trusted then Return (Inr playground_key)
      else if token = [] then Return (Inl KeyMissing)
      else if \<not> has_prefix token ''sk-'' then Return (Inl KeyInvalid)
      else authenticate_rounds rounds (digest token))"

definition authenticate_api_key :: "(string \<Rightarrow> string) \<Rightarrow> nat \<Rightarrow> bool \<Rightarrow> string \<Rightarrow> auth_error option auth" where
  "authenticate_api_key digest rounds trusted token =
     bindp (authenticate_api_key_info digest rounds trusted token) (\<lambda>r.
       Return (case r of Inl e \<Rightarrow> Some e | Inr _ \<Rightarrow> None))"

end
