(* ===== verification/Auth_Users.thy ===== *)
theory Auth_Users
  imports Auth_Service
begin

text \<open>
  Users (\<open>auth/users.go\<close>), service accounts (\<open>auth/service_accounts.go\<close>), logins, bearer sessions and the
  tickets of the WebSockets (\<open>auth/bearer.go\<close>, \<open>auth/sessions.go\<close>, \<open>auth/login_credentials.go\<close>). A
  management token is its claims: signing and checking it is the business of the JWT library, which answers
  with the claims of a valid token.
\<close>

section \<open>Users\<close>

record user =
  us_id :: int
  us_username :: string
  us_enabled :: bool
  us_created :: int
  us_last_login :: "int option"
  us_sessions :: nat

definition scan_user :: "user_row \<Rightarrow> user" where
  "scan_user r =
     \<lparr>us_id = ur_id r, us_username = ur_username r, us_enabled = ur_enabled r, us_created = ur_created r,
      us_last_login = ur_last_login r, us_sessions = 0\<rparr>"

definition insert_user_row :: "string \<Rightarrow> string \<Rightarrow> int \<Rightarrow> auth_state \<Rightarrow> auth_state \<times> (auth_error + int)" where
  "insert_user_row name hash now s =
     (if \<exists>u \<in> set (au_users s). ur_username u = name then (s, Inl DatabaseError)
      else (s\<lparr>au_users := au_users s @ [\<lparr>ur_id = au_next_user s, ur_username = name, ur_password = hash, ur_enabled = True,
               ur_created = now, ur_last_login = None\<rparr>], au_next_user := au_next_user s + 1\<rparr>, Inr (au_next_user s)))"

definition created_user :: "int \<Rightarrow> string \<Rightarrow> int \<Rightarrow> user" where
  "created_user i name now = \<lparr>us_id = i, us_username = name, us_enabled = True, us_created = now, us_last_login = None, us_sessions = 0\<rparr>"

definition bootstrap_required :: "bool failing" where
  "bootstrap_required = query (\<lambda>s. Inr (au_users s = []))"

text \<open>\<open>Bootstrap\<close> keeps its transaction open while it hashes the password.\<close>

definition begin_transaction :: "unit failing" where
  "begin_transaction = await (\<lambda>w s.
     if aw_down w then Some (s, Inl DatabaseError)
     else if au_in_transaction s then None else Some (s\<lparr>au_in_transaction := True\<rparr>, Inr ()))"

definition end_transaction :: "unit auth" where
  "end_transaction = update (\<lambda>w s. s\<lparr>au_in_transaction := False\<rparr>)"

definition in_transaction :: "(auth_world \<Rightarrow> auth_state \<Rightarrow> auth_state \<times> (auth_error + 'a)) \<Rightarrow> 'a failing" where
  "in_transaction f = act (\<lambda>w s. if aw_down w then (s, Inl DatabaseError) else f w s)"

definition bootstrap_body :: "string \<Rightarrow> string \<Rightarrow> user failing" where
  "bootstrap_body name password =
     then_ok (in_transaction (\<lambda>w s. (s, if au_users s \<noteq> [] then Inl BootstrapCompleted else Inr ()))) (\<lambda>_.
     then_ok (hash_password password) (\<lambda>hash.
     bindp (readp (\<lambda>w s. unix (aw_now w))) (\<lambda>now.
     then_ok (in_transaction (\<lambda>w s. insert_user_row name hash now s)) (\<lambda>i.
     Return (Inr (created_user i name now))))))"

definition bootstrap :: "string \<Rightarrow> string \<Rightarrow> user failing" where
  "bootstrap username password =
     (case validate_credentials username password of
        Inl e \<Rightarrow> Return (Inl e)
      | Inr name \<Rightarrow>
          then_ok begin_transaction (\<lambda>_.
          bindp (bootstrap_body name password) (\<lambda>r.
          bindp end_transaction (\<lambda>_. Return r))))"

definition create_user :: "string \<Rightarrow> string \<Rightarrow> user failing" where
  "create_user username password =
     (case validate_credentials username password of
        Inl e \<Rightarrow> Return (Inl e)
      | Inr name \<Rightarrow>
          then_ok (hash_password password) (\<lambda>hash.
          bindp (readp (\<lambda>w s. unix (aw_now w))) (\<lambda>now.
          then_ok (exec (\<lambda>w s. insert_user_row name hash now s)) (\<lambda>i.
          Return (Inr (created_user i name now))))))"

definition user_by_id :: "int \<Rightarrow> user failing" where
  "user_by_id i = query (\<lambda>s. row_or_none (map_option scan_user (user_at s i)))"

text \<open>\<open>COLLATE NOCASE\<close> folds the ASCII letters.\<close>

definition nocase :: "char \<Rightarrow> nat" where
  "nocase c = (let n = of_char c in if 65 \<le> n \<and> n \<le> 90 then n + 32 else n)"

fun before_by :: "(char \<Rightarrow> nat) \<Rightarrow> string \<Rightarrow> string \<Rightarrow> bool" where
  "before_by f s [] = False"
| "before_by f [] (y # ys) = True"
| "before_by f (x # xs) (y # ys) = (f x < f y \<or> f x = f y \<and> before_by f xs ys)"

definition list_users :: "user list failing" where
  "list_users = query_now (\<lambda>w s. Inr (map (\<lambda>u. (scan_user u)\<lparr>us_sessions :=
       length (filter (\<lambda>r. se_user r = ur_id u \<and> unix (aw_now w) < se_expires r) (au_sessions s))\<rparr>)
     (sort_by (\<lambda>a b. before_by nocase (ur_username a) (ur_username b)) (au_users s))))"

definition enabled_users :: "auth_state \<Rightarrow> nat" where
  "enabled_users s = length (filter ur_enabled (au_users s))"

definition drop_sessions :: "(session_row \<Rightarrow> bool) \<Rightarrow> auth_state \<Rightarrow> auth_state" where
  "drop_sessions f s = s\<lparr>au_sessions := filter (\<lambda>r. \<not> f r) (au_sessions s)\<rparr>"

definition map_users :: "(user_row \<Rightarrow> bool) \<Rightarrow> (user_row \<Rightarrow> user_row) \<Rightarrow> auth_state \<Rightarrow> auth_state" where
  "map_users f g s = s\<lparr>au_users := map (\<lambda>u. if f u then g u else u) (au_users s)\<rparr>"

definition set_user_row :: "int \<Rightarrow> bool \<Rightarrow> auth_state \<Rightarrow> auth_state \<times> (auth_error + unit)" where
  "set_user_row i enabled s =
     (case user_at s i of
        None \<Rightarrow> (s, Inl NoRows)
      | Some u \<Rightarrow>
          if \<not> enabled \<and> ur_enabled u \<and> enabled_users s \<le> 1 then (s, Inl LastEnabledUser)
          else
            let t = map_users (\<lambda>u. ur_id u = i) (\<lambda>u. u\<lparr>ur_enabled := enabled\<rparr>) s
            in (if enabled then t else drop_sessions (\<lambda>r. se_user r = i) t, Inr ()))"

definition set_user_enabled :: "int \<Rightarrow> bool \<Rightarrow> unit failing" where
  "set_user_enabled i enabled =
     then_ok (exec (\<lambda>w s. set_user_row i enabled s)) (\<lambda>_. bindp clear_api_key_cache (\<lambda>_. Return (Inr ())))"

text \<open>Deleting a user takes the sessions and the keys along and leaves what the user has created.\<close>

definition drop_user :: "int \<Rightarrow> auth_state \<Rightarrow> auth_state" where
  "drop_user i s = s\<lparr>
     au_users := filter (\<lambda>u. ur_id u \<noteq> i) (au_users s),
     au_sessions := filter (\<lambda>r. se_user r \<noteq> i) (au_sessions s),
     au_keys := map (\<lambda>r. if kr_creator r = Some i then r\<lparr>kr_creator := None\<rparr> else r)
                  (filter (\<lambda>r. kr_owner r \<noteq> OwnerUser i) (au_keys s)),
     au_accounts := map (\<lambda>a. if sa_creator a = Some i then a\<lparr>sa_creator := None\<rparr> else a) (au_accounts s)\<rparr>"

definition delete_user_row :: "int \<Rightarrow> auth_state \<Rightarrow> auth_state \<times> (auth_error + unit)" where
  "delete_user_row i s =
     (case user_at s i of
        None \<Rightarrow> (s, Inl NoRows)
      | Some u \<Rightarrow>
          if ur_enabled u \<and> enabled_users s \<le> 1 then (s, Inl LastEnabledUser) else (drop_user i s, Inr ()))"

definition delete_user :: "int \<Rightarrow> int \<Rightarrow> unit failing" where
  "delete_user actor i =
     (if actor = i then Return (Inl SelfDelete)
      else then_ok (exec (\<lambda>w s. delete_user_row i s)) (\<lambda>_. bindp clear_api_key_cache (\<lambda>_. Return (Inr ()))))"

definition set_password :: "int \<Rightarrow> string \<Rightarrow> auth_state \<Rightarrow> auth_state" where
  "set_password i hash s = map_users (\<lambda>u. ur_id u = i) (\<lambda>u. u\<lparr>ur_password := hash\<rparr>) s"

definition reset_password :: "int \<Rightarrow> string \<Rightarrow> unit failing" where
  "reset_password i password =
     (case validate_password password of
        Inl e \<Rightarrow> Return (Inl e)
      | Inr _ \<Rightarrow>
          then_ok (hash_password password) (\<lambda>hash.
          exec (\<lambda>w s. case affected (\<lambda>u. ur_id u = i) (au_users s) of
              Inl e \<Rightarrow> (s, Inl e)
            | Inr _ \<Rightarrow> (drop_sessions (\<lambda>r. se_user r = i) (set_password i hash s), Inr ()))))"

definition change_password :: "int \<Rightarrow> string \<Rightarrow> string \<Rightarrow> string \<Rightarrow> unit failing" where
  "change_password i current password keep =
     (case validate_password password of
        Inl e \<Rightarrow> Return (Inl e)
      | Inr _ \<Rightarrow>
          bindp (query (\<lambda>s. row_or_none (find (\<lambda>u. ur_id u = i \<and> ur_enabled u) (au_users s)))) (\<lambda>r.
          case r of
            Inl e \<Rightarrow> Return (Inl InvalidCredentials)
          | Inr u \<Rightarrow>
              then_ok (verify_password current (ur_password u)) (\<lambda>verified.
              if \<not> verified then Return (Inl InvalidCredentials)
              else then_ok (hash_password password) (\<lambda>hash.
                exec (\<lambda>w s. (drop_sessions (\<lambda>r. se_user r = i \<and> (keep = [] \<or> se_id r \<noteq> keep)) (set_password i hash s),
                             Inr ()))))))"

section \<open>Service accounts\<close>

record service_account =
  ac_id :: string
  ac_name :: string
  ac_enabled :: bool
  ac_hidden :: bool
  ac_created :: int
  ac_creator :: "int option"
  ac_keys :: "api_key list"

definition scan_service_account :: "account_row \<Rightarrow> service_account" where
  "scan_service_account a =
     \<lparr>ac_id = sa_id a, ac_name = sa_name a, ac_enabled = sa_enabled a, ac_hidden = sa_hidden a, ac_created = sa_created a,
      ac_creator = sa_creator a, ac_keys = []\<rparr>"

definition create_any_service_account :: "string \<Rightarrow> int \<Rightarrow> bool \<Rightarrow> service_account failing" where
  "create_any_service_account name creator hidden =
     (if trim_space name = [] then Return (Inl AccountNameRequired)
      else then_ok random_token (\<lambda>i.
        bindp (readp (\<lambda>w s. unix (aw_now w))) (\<lambda>now.
        let a = \<lparr>sa_id = i, sa_name = trim_space name, sa_enabled = True, sa_hidden = hidden, sa_created = now,
                 sa_creator = (if 0 < creator then Some creator else None)\<rparr>
        in then_ok (exec (\<lambda>w s.
             if account_at s i \<noteq> None \<or> 0 < creator \<and> user_at s creator = None then (s, Inl DatabaseError)
             else (s\<lparr>au_accounts := au_accounts s @ [a]\<rparr>, Inr ())))
           (\<lambda>_. Return (Inr (scan_service_account a))))))"

definition create_service_account :: "string \<Rightarrow> int \<Rightarrow> service_account failing" where
  "create_service_account name creator = create_any_service_account name creator False"

definition find_service_account_by_name :: "string \<Rightarrow> bool \<Rightarrow> service_account failing" where
  "find_service_account_by_name name hidden_only =
     (if trim_space name = [] then Return (Inl NoRows)
      else query (\<lambda>s. row_or_none (map_option scan_service_account
        (find (\<lambda>a. sa_name a = trim_space name \<and> (\<not> hidden_only \<or> sa_hidden a)) (au_accounts s)))))"

definition find_hidden_service_account_by_name :: "string \<Rightarrow> service_account failing" where
  "find_hidden_service_account_by_name name = find_service_account_by_name name True"

definition ensure_hidden_service_account :: "string \<Rightarrow> service_account failing" where
  "ensure_hidden_service_account name =
     (if trim_space name = [] then Return (Inl AccountNameRequired)
      else bindp (find_service_account_by_name (trim_space name) True) (\<lambda>r. case r of
        Inr a \<Rightarrow> Return (Inr a)
      | Inl e \<Rightarrow> if e \<noteq> NoRows then Return (Inl e) else create_any_service_account (trim_space name) 0 True))"

definition account_before :: "account_row \<Rightarrow> account_row \<Rightarrow> bool" where
  "account_before a b \<longleftrightarrow>
     before_by nocase (sa_name a) (sa_name b) \<or>
     \<not> before_by nocase (sa_name b) (sa_name a) \<and> before_by of_char (sa_id a) (sa_id b)"

definition list_service_accounts :: "service_account list failing" where
  "list_service_accounts =
     query (\<lambda>s. Inr (map scan_service_account (sort_by account_before (filter (\<lambda>a. \<not> sa_hidden a) (au_accounts s)))))"

definition account_row_at :: "string \<Rightarrow> service_account failing" where
  "account_row_at i = query (\<lambda>s. row_or_none (map_option scan_service_account (account_at s i)))"

definition get_service_account :: "string \<Rightarrow> service_account failing" where
  "get_service_account i =
     (if trim_space i = [] then Return (Inl NoRows)
      else then_ok (account_row_at (trim_space i)) (\<lambda>a.
        if ac_hidden a then Return (Inl NoRows)
        else then_ok (list_api_keys_for_service_account (trim_space i)) (\<lambda>keys. Return (Inr (a\<lparr>ac_keys := keys\<rparr>)))))"

definition update_service_account :: "string \<Rightarrow> string option \<Rightarrow> bool option \<Rightarrow> unit failing" where
  "update_service_account i name enabled =
     (if trim_space i = [] then Return (Inl NoRows)
      else then_ok (account_row_at (trim_space i)) (\<lambda>existing.
        if ac_hidden existing then Return (Inl NoRows)
        else
          let next_name = (case name of None \<Rightarrow> ac_name existing | Some n \<Rightarrow> trim_space n);
              next_enabled = (case enabled of None \<Rightarrow> ac_enabled existing | Some b \<Rightarrow> b)
          in if name \<noteq> None \<and> next_name = [] then Return (Inl AccountNameRequired)
             else then_ok (exec (\<lambda>w s.
               (s\<lparr>au_accounts := map (\<lambda>a. if sa_id a = trim_space i then a\<lparr>sa_name := next_name, sa_enabled := next_enabled\<rparr> else a)
                    (au_accounts s)\<rparr>, affected (\<lambda>a. sa_id a = trim_space i) (au_accounts s))))
               (\<lambda>_. bindp clear_api_key_cache (\<lambda>_. Return (Inr ())))))"

definition drop_account :: "string \<Rightarrow> auth_state \<Rightarrow> auth_state" where
  "drop_account i s = s\<lparr>
     au_accounts := filter (\<lambda>a. sa_id a \<noteq> i) (au_accounts s),
     au_keys := filter (\<lambda>r. kr_owner r \<noteq> OwnerAccount i) (au_keys s)\<rparr>"

definition delete_any_service_account :: "string \<Rightarrow> unit failing" where
  "delete_any_service_account i =
     then_ok (exec (\<lambda>w s. (drop_account i s, affected (\<lambda>a. sa_id a = i) (au_accounts s))))
       (\<lambda>_. bindp clear_api_key_cache (\<lambda>_. Return (Inr ())))"

definition delete_service_account :: "string \<Rightarrow> unit failing" where
  "delete_service_account i =
     (if trim_space i = [] then Return (Inl NoRows)
      else then_ok (account_row_at (trim_space i)) (\<lambda>existing.
        if ac_hidden existing then Return (Inl NoRows) else delete_any_service_account (trim_space i)))"

definition delete_hidden_service_account_by_name :: "string \<Rightarrow> unit failing" where
  "delete_hidden_service_account_by_name name =
     bindp (find_service_account_by_name name True) (\<lambda>r. case r of
       Inl e \<Rightarrow> Return (if e = NoRows then Inr () else Inl e)
     | Inr a \<Rightarrow> delete_any_service_account (ac_id a))"

definition managed_inference_key :: "api_key failing" where
  "managed_inference_key =
     then_ok (find_hidden_service_account_by_name managed_principal_name) (\<lambda>a.
     then_ok (list_api_keys_including_hidden (ac_id a)) (\<lambda>keys.
     Return (row_or_none (managed_key_in keys))))"

section \<open>Sessions\<close>

record claims =
  cl_subject :: string
  cl_session :: string
  cl_jti :: string
  cl_expires :: int

record login_result =
  lr_token :: claims
  lr_expires :: int
  lr_user :: user

definition session_by_identity :: "(string \<Rightarrow> string) \<Rightarrow> int \<Rightarrow> string \<Rightarrow> string \<Rightarrow> (user \<times> session) failing" where
  "session_by_identity digest user_id session_id jti =
     bindp (query_now (\<lambda>w s.
       case find (\<lambda>r. se_id r = session_id \<and> se_user r = user_id \<and> se_token r = digest jti \<and> unix (aw_now w) < se_expires r)
              (au_sessions s) of
         None \<Rightarrow> Inl NoRows
       | Some r \<Rightarrow> (case user_at s (se_user r) of None \<Rightarrow> Inl NoRows | Some u \<Rightarrow> Inr (u, r)))) (\<lambda>q.
       case q of
         Inl e \<Rightarrow> Return (Inl SessionInvalid)
       | Inr (u, r) \<Rightarrow>
           if \<not> ur_enabled u then Return (Inl SessionInvalid)
           else Return (Inr (scan_user u, \<lparr>sn_id = se_id r, sn_user = se_user r, sn_created = se_created r,
             sn_expires = se_expires r, sn_address = se_address r, sn_agent = se_agent r, sn_current = True, sn_jti = jti\<rparr>)))"

definition create_bearer_session :: "(string \<Rightarrow> string) \<Rightarrow> user \<Rightarrow> string \<Rightarrow> string \<Rightarrow> login_result failing" where
  "create_bearer_session digest u address agent =
     (if us_id u \<le> 0 \<or> \<not> us_enabled u then Return (Inl SessionInvalid)
      else then_ok random_token (\<lambda>session_id.
        then_ok random_token (\<lambda>jti.
        bindp (readp (\<lambda>w s. (aw_now w, aw_now w + au_lifetime s))) (\<lambda>(now, expires).
        then_ok (exec (\<lambda>w s.
          if (\<exists>r \<in> set (au_sessions s). se_id r = session_id \<or> se_token r = digest jti) \<or> user_at s (us_id u) = None
          then (s, Inl DatabaseError)
          else (s\<lparr>au_sessions := au_sessions s @ [\<lparr>se_id = session_id, se_user = us_id u, se_token = digest jti,
                   se_created = unix now, se_expires = unix expires, se_address = trim_space address,
                   se_agent = truncate_string agent 512\<rparr>]\<rparr>, Inr ()))) (\<lambda>_.
        Return (Inr \<lparr>lr_token = \<lparr>cl_subject = format_int (us_id u), cl_session = session_id, cl_jti = jti,
            cl_expires = unix expires\<rparr>, lr_expires = unix expires, lr_user = u\<rparr>))))))"

text \<open>\<open>AuthenticateBearer\<close> on the claims of a token that the library has accepted, \<open>None\<close> when it has not.\<close>

definition authenticate_bearer :: "(string \<Rightarrow> string) \<Rightarrow> claims option \<Rightarrow> (user \<times> session) failing" where
  "authenticate_bearer digest token =
     (case token of
        None \<Rightarrow> Return (Inl SessionInvalid)
      | Some c \<Rightarrow>
          (case parse_int (cl_subject c) of
             None \<Rightarrow> Return (Inl SessionInvalid)
           | Some i \<Rightarrow>
               if i \<le> 0 \<or> cl_session c = [] \<or> cl_jti c = [] then Return (Inl SessionInvalid)
               else session_by_identity digest i (cl_session c) (cl_jti c)))"

definition dummy_password_hash :: string where
  "dummy_password_hash =
     ''argon2id$v=19$m=65536,t=3,p=2$bGxhbWFyYWNrLWR1bW15IQ$a6Cr0DiCWqUX8furaAqzoBPmehriMwC0QbbXDWi5QyQ''"

definition verify_login_credentials :: "string \<Rightarrow> string \<Rightarrow> (user \<times> string) failing" where
  "verify_login_credentials username password =
     bindp (query (\<lambda>s. row_or_none (find (\<lambda>u. ur_username u = trim_space username) (au_users s)))) (\<lambda>r.
       case r of
         Inl e \<Rightarrow>
           if e \<noteq> NoRows then Return (Inl e)
           else then_ok (verify_password_with_reservation password dummy_password_hash)
             (\<lambda>verified. Return (Inl InvalidCredentials))
       | Inr u \<Rightarrow>
           then_ok (verify_password_with_reservation password (if ur_enabled u then ur_password u else dummy_password_hash))
             (\<lambda>verified.
               if \<not> ur_enabled u \<or> \<not> verified then Return (Inl InvalidCredentials)
               else Return (Inr (scan_user u, ur_password u))))"

definition verified_login :: "string \<Rightarrow> string \<Rightarrow> (user \<times> string \<times> string) failing" where
  "verified_login username password =
     with_password_work (
       then_ok (verify_login_credentials username password) (\<lambda>(u, hash).
       then_ok (if password_needs_rehash hash then hash_password_with_reservation password else Return (Inr [])) (\<lambda>rehashed.
       Return (Inr (u, hash, rehashed)))))"

definition login_bearer :: "(string \<Rightarrow> string) \<Rightarrow> string \<Rightarrow> string \<Rightarrow> string \<Rightarrow> string \<Rightarrow> login_result failing" where
  "login_bearer digest username password address agent =
     then_ok (verified_login username password) (\<lambda>(u, hash, rehashed).
     bindp (readp (\<lambda>w s. unix (aw_now w))) (\<lambda>now.
     then_ok (exec (\<lambda>w s.
         if rehashed \<noteq> [] \<and> length (filter (\<lambda>x. ur_id x = us_id u \<and> ur_password x = hash) (au_users s)) \<noteq> 1
         then (s, Inl InvalidCredentials)
         else (map_users (\<lambda>x. ur_id x = us_id u) (\<lambda>x. x\<lparr>ur_last_login := Some now\<rparr>)
                 (if rehashed = [] then s else set_password (us_id u) rehashed s), Inr ()))) (\<lambda>_.
     create_bearer_session digest (u\<lparr>us_last_login := Some now\<rparr>) address agent)))"

definition scan_session :: "string \<Rightarrow> session_row \<Rightarrow> session" where
  "scan_session current r =
     \<lparr>sn_id = se_id r, sn_user = se_user r, sn_created = se_created r, sn_expires = se_expires r, sn_address = se_address r,
      sn_agent = se_agent r, sn_current = (current \<noteq> [] \<and> se_id r = current), sn_jti = []\<rparr>"

definition list_sessions :: "int \<Rightarrow> string \<Rightarrow> session list failing" where
  "list_sessions user_id current =
     query_now (\<lambda>w s. Inr (map (scan_session current) (sort_by (\<lambda>a b. se_created b < se_created a)
       (filter (\<lambda>r. se_user r = user_id \<and> unix (aw_now w) < se_expires r) (au_sessions s)))))"

definition revoke_session :: "string \<Rightarrow> unit failing" where
  "revoke_session i = exec (\<lambda>w s. (drop_sessions (\<lambda>r. se_id r = i) s, affected (\<lambda>r. se_id r = i) (au_sessions s)))"

definition revoke_own_session :: "int \<Rightarrow> string \<Rightarrow> unit failing" where
  "revoke_own_session user_id i =
     (if trim_space i = [] \<or> user_id \<le> 0 then Return (Inl NoRows)
      else exec (\<lambda>w s. (drop_sessions (\<lambda>r. se_id r = trim_space i \<and> se_user r = user_id) s,
        affected (\<lambda>r. se_id r = trim_space i \<and> se_user r = user_id) (au_sessions s))))"

definition revoke_where :: "(session_row \<Rightarrow> bool) \<Rightarrow> int failing" where
  "revoke_where f = exec (\<lambda>w s. (drop_sessions f s, Inr (int (length (filter f (au_sessions s))))))"

definition revoke_other_sessions :: "int \<Rightarrow> string \<Rightarrow> int failing" where
  "revoke_other_sessions user_id keep = revoke_where (\<lambda>r. se_user r = user_id \<and> se_id r \<noteq> keep)"

definition revoke_all_sessions :: "int \<Rightarrow> int failing" where
  "revoke_all_sessions user_id = revoke_where (\<lambda>r. se_user r = user_id)"

section \<open>Tickets\<close>

definition ws_ticket_lifetime :: int where
  "ws_ticket_lifetime = 30000000000"

definition max_tickets_per_session :: nat where
  "max_tickets_per_session = 8"

definition max_tickets_global :: nat where
  "max_tickets_global = 1024"

text \<open>
  The ticket that expires first, of those of a session or of all. The map is the list in the order of one
  iteration; the order decides between tickets of one time only.
\<close>

definition oldest_ticket :: "(ws_ticket \<Rightarrow> bool) \<Rightarrow> (string \<times> ws_ticket) list \<Rightarrow> string \<times> int" where
  "oldest_ticket f m =
     foldl (\<lambda>(k, t) (key, item).
       if \<not> f item then (k, t) else if k = [] \<or> tk_expires item < t then (key, tk_expires item) else (k, t)) ([], 0) m"

definition drop_ticket :: "string \<Rightarrow> (string \<times> ws_ticket) list \<Rightarrow> (string \<times> ws_ticket) list" where
  "drop_ticket k m = filter (\<lambda>e. fst e \<noteq> k) m"

text \<open>
  Both loops drop one ticket a round, so they end after as many rounds as there are tickets; the first has no
  test for an empty key in the code, since a ticket never is the empty string.
\<close>

primrec make_session_room :: "nat \<Rightarrow> string \<Rightarrow> (string \<times> ws_ticket) list \<Rightarrow> (string \<times> ws_ticket) list" where
  "make_session_room 0 i m = m"
| "make_session_room (Suc n) i m =
     (if length (filter (\<lambda>e. tk_session (snd e) = i) m) < max_tickets_per_session then m
      else make_session_room n i (drop_ticket (fst (oldest_ticket (\<lambda>t. tk_session t = i) m)) m))"

primrec make_global_room :: "nat \<Rightarrow> (string \<times> ws_ticket) list \<Rightarrow> (string \<times> ws_ticket) list" where
  "make_global_room 0 m = m"
| "make_global_room (Suc n) m =
     (if length m < max_tickets_global then m
      else let k = fst (oldest_ticket (\<lambda>t. True) m) in if k = [] then m else make_global_room n (drop_ticket k m))"

definition put_ticket :: "string \<Rightarrow> session \<Rightarrow> int \<Rightarrow> int \<Rightarrow> (string \<times> ws_ticket) list \<Rightarrow> (string \<times> ws_ticket) list" where
  "put_ticket ticket sn expires now m =
     (let live = filter (\<lambda>e. now < tk_expires (snd e)) m;
          room = make_session_room (length live) (sn_id sn) live;
          room = make_global_room (length room) room
      in drop_ticket ticket room @ [(ticket, \<lparr>tk_session = sn_id sn, tk_jti = sn_jti sn, tk_expires = expires\<rparr>)])"

definition issue_web_socket_ticket :: "(string \<Rightarrow> string) \<Rightarrow> session \<Rightarrow> (string \<times> int) failing" where
  "issue_web_socket_ticket digest sn =
     (if sn_id sn = [] \<or> sn_jti sn = [] then Return (Inl SessionInvalid)
      else then_ok (session_by_identity digest (sn_user sn) (sn_id sn) (sn_jti sn)) (\<lambda>_.
        then_ok random_token (\<lambda>ticket.
        bindp (readp (\<lambda>w s. aw_now w + ws_ticket_lifetime)) (\<lambda>expires.
        bindp (update (\<lambda>w s. s\<lparr>au_tickets := put_ticket ticket sn expires (aw_now w) (au_tickets s)\<rparr>)) (\<lambda>_.
        Return (Inr (ticket, unix expires)))))))"

definition take_ticket :: "string \<Rightarrow> ws_ticket option auth" where
  "take_ticket ticket = act (\<lambda>w s. (s\<lparr>au_tickets := drop_ticket ticket (au_tickets s)\<rparr>, map_of (au_tickets s) ticket))"

definition consume_web_socket_ticket :: "(string \<Rightarrow> string) \<Rightarrow> string \<Rightarrow> (user \<times> session) failing" where
  "consume_web_socket_ticket digest raw =
     (let ticket = trim_space raw in
      if ticket = [] then Return (Inl SessionInvalid)
      else bindp (take_ticket ticket) (\<lambda>item.
        case item of
          None \<Rightarrow> Return (Inl SessionInvalid)
        | Some t \<Rightarrow>
            bindp (readp (\<lambda>w s. aw_now w)) (\<lambda>now.
            if tk_expires t \<le> now then Return (Inl SessionInvalid)
            else bindp (query (\<lambda>s. row_or_none (find (\<lambda>r. se_id r = tk_session t \<and> se_token r = digest (tk_jti t)) (au_sessions s))))
              (\<lambda>r. case r of
                 Inl e \<Rightarrow> Return (Inl SessionInvalid)
               | Inr row \<Rightarrow> session_by_identity digest (se_user row) (tk_session t) (tk_jti t)))))"

end
