(* ===== verification/Guarantee.thy ===== *)
theory Guarantee
  imports Process
begin

text \<open>
  Rely and guarantee for a pool of programs, with assertions about the states that have been visited.
  Every action of every program has to obey the guarantee \<open>G H s s'\<close>, where \<open>H\<close> is the set of the states
  visited so far; what a program knows between its actions has to be stable under it.
\<close>

type_synonym ('w, 's, 'a) config = "'s set \<times> 's \<times> ('w, 's, 'a) prog list"

inductive pool_visits ::
    "('w \<Rightarrow> bool) \<Rightarrow> ('s \<Rightarrow> ('w, 's, 'a) prog \<Rightarrow> bool) \<Rightarrow> ('w, 's, 'a) config \<Rightarrow> ('w, 's, 'a) config \<Rightarrow> bool"
  for W starts where
  visits_refl: "pool_visits W starts c c"
| visits_step: "pool_visits W starts c (H, s, ps) \<Longrightarrow> pool_step W starts (s, ps) (s', ps') \<Longrightarrow>
    pool_visits W starts c (insert s' H, s', ps')"

definition stable :: "('s set \<Rightarrow> 's \<Rightarrow> 's \<Rightarrow> bool) \<Rightarrow> ('s set \<Rightarrow> 's \<Rightarrow> bool) \<Rightarrow> bool" where
  "stable G A \<longleftrightarrow> (\<forall>H s s'. s \<in> H \<longrightarrow> A H s \<longrightarrow> G H s s' \<longrightarrow> A (insert s' H) s')"

inductive proves ::
    "('w \<Rightarrow> bool) \<Rightarrow> ('s set \<Rightarrow> 's \<Rightarrow> 's \<Rightarrow> bool) \<Rightarrow> ('s set \<Rightarrow> 's \<Rightarrow> bool) \<Rightarrow> ('w, 's, 'a) prog \<Rightarrow>
     ('a \<Rightarrow> 's set \<Rightarrow> 's \<Rightarrow> bool) \<Rightarrow> bool"
  for W G where
  proves_Return: "(\<And>H s. s \<in> H \<Longrightarrow> A H s \<Longrightarrow> Q a H s) \<Longrightarrow> proves W G A (Return a) Q"
| proves_Act: "(\<And>H s w s' p. s \<in> H \<Longrightarrow> A H s \<Longrightarrow> W w \<Longrightarrow> f w s = Some (s', p) \<Longrightarrow>
      G H s s' \<and> (\<exists>B. B (insert s' H) s' \<and> stable G B \<and> proves W G B p Q)) \<Longrightarrow> proves W G A (Act f) Q"

inductive_cases proves_ReturnE: "proves W G A (Return a) Q"
inductive_cases proves_ActE: "proves W G A (Act f) Q"

lemma stable_True [simp]: "stable G (\<lambda>H s. True)"
  by (simp add: stable_def)

lemma stable_const [simp]: "stable G (\<lambda>H s. c)"
  by (simp add: stable_def)

lemma stable_conj [intro]: "stable G A \<Longrightarrow> stable G B \<Longrightarrow> stable G (\<lambda>H s. A H s \<and> B H s)"
  by (auto simp: stable_def)

lemma proves_pre:
  assumes "proves W G A p Q" and "\<And>H s. s \<in> H \<Longrightarrow> B H s \<Longrightarrow> A H s"
  shows "proves W G B p Q"
  using assms(1)
proof cases
  case (proves_Return a)
  then show ?thesis using assms(2) by (auto intro: proves.proves_Return)
next
  case (proves_Act f)
  show ?thesis unfolding proves_Act(1) by (rule proves.proves_Act) (use proves_Act(2) assms(2) in blast)
qed

lemma proves_post: "proves W G A p Q \<Longrightarrow> (\<And>a H s. s \<in> H \<Longrightarrow> Q a H s \<Longrightarrow> Q' a H s) \<Longrightarrow> proves W G A p Q'"
proof (induction rule: proves.induct)
  case (proves_Return A Q a)
  then show ?case by (auto intro: proves.proves_Return)
next
  case (proves_Act A f Q)
  show ?case
  proof (rule proves.proves_Act)
    fix H s w s' p
    assume s: "s \<in> H" "A H s" "W w" "f w s = Some (s', p)"
    from proves_Act(1) [OF s] proves_Act(2)
    show "G H s s' \<and> (\<exists>B. B (insert s' H) s' \<and> stable G B \<and> proves W G B p Q')" by blast
  qed
qed

lemma proves_bind: "proves W G A p Q \<Longrightarrow> (\<And>a. proves W G (Q a) (k a) S) \<Longrightarrow> proves W G A (bindp p k) S"
proof (induction rule: proves.induct)
  case (proves_Return A Q a)
  have "proves W G A (k a) S" by (rule proves_pre [OF proves_Return(2)]) (rule proves_Return(1))
  then show ?case by simp
next
  case (proves_Act A f Q)
  show ?case
    unfolding bindp.simps
  proof (rule proves.proves_Act)
    fix H s w s' q
    assume s: "s \<in> H" "A H s" "W w" and "map_option (map_prod id (\<lambda>p. bindp p k)) (f w s) = Some (s', q)"
    then obtain p where p: "f w s = Some (s', p)" "q = bindp p k" by auto
    from proves_Act(1) [OF s p(1)] proves_Act(2) p(2)
    show "G H s s' \<and> (\<exists>B. B (insert s' H) s' \<and> stable G B \<and> proves W G B q S)" by blast
  qed
qed

lemma proves_await:
  assumes "\<And>H s w s' a. s \<in> H \<Longrightarrow> A H s \<Longrightarrow> W w \<Longrightarrow> f w s = Some (s', a) \<Longrightarrow> G H s s' \<and> Q a (insert s' H) s'"
    and "\<And>a. stable G (Q a)"
  shows "proves W G A (await f) Q"
  unfolding await_def
  by (rule proves.proves_Act) (use assms in \<open>auto split: option.splits prod.splits intro!: exI [where x = "Q _"] proves_Return\<close>)

lemma proves_act:
  assumes "\<And>H s w s' a. s \<in> H \<Longrightarrow> A H s \<Longrightarrow> W w \<Longrightarrow> f w s = (s', a) \<Longrightarrow> G H s s' \<and> Q a (insert s' H) s'"
    and "\<And>a. stable G (Q a)"
  shows "proves W G A (act f) Q"
  unfolding act_def
  by (rule proves.proves_Act) (use assms in \<open>auto split: prod.splits intro!: exI [where x = "Q _"] proves_Return\<close>)

text \<open>A program that only has to obey, and one whose results do not matter.\<close>

abbreviation obeys :: "('w \<Rightarrow> bool) \<Rightarrow> ('s set \<Rightarrow> 's \<Rightarrow> 's \<Rightarrow> bool) \<Rightarrow> ('w, 's, 'a) prog \<Rightarrow> bool" where
  "obeys W G p \<equiv> proves W G (\<lambda>H s. True) p (\<lambda>a H s. True)"

lemma obeys_bind: "obeys W G p \<Longrightarrow> (\<And>a. obeys W G (k a)) \<Longrightarrow> obeys W G (bindp p k)"
  by (rule proves_bind)

lemma obeys_Return: "obeys W G (Return a)"
  by (rule proves_Return) simp

lemma obeys_await: "(\<And>H s w s' a. W w \<Longrightarrow> f w s = Some (s', a) \<Longrightarrow> G H s s') \<Longrightarrow> obeys W G (await f)"
  by (rule proves_await) auto

lemma obeys_act: "(\<And>H s w. W w \<Longrightarrow> G H s (fst (f w s))) \<Longrightarrow> obeys W G (act f)"
  by (rule proves_act) (auto, metis fst_conv)

lemma obeys_readp: "(\<And>H s. G H s s) \<Longrightarrow> obeys W G (readp f)"
  unfolding readp_def by (rule obeys_act) simp

lemma obeys_update: "(\<And>H s w. W w \<Longrightarrow> G H s (f w s)) \<Longrightarrow> obeys W G (update f)"
  unfolding update_def by (rule obeys_act) simp

section \<open>Programs whose actions are steps of a relation\<close>

inductive acts_in :: "('w \<Rightarrow> bool) \<Rightarrow> ('s \<Rightarrow> 's \<Rightarrow> bool) \<Rightarrow> ('w, 's, 'a) prog \<Rightarrow> bool" for W T where
  acts_in_Return: "acts_in W T (Return a)"
| acts_in_Act: "(\<And>w s s' p. W w \<Longrightarrow> f w s = Some (s', p) \<Longrightarrow> T s s' \<and> acts_in W T p) \<Longrightarrow> acts_in W T (Act f)"

inductive_cases acts_in_ActE: "acts_in W T (Act f)"

lemma acts_in_bind: "acts_in W T p \<Longrightarrow> (\<And>a. acts_in W T (k a)) \<Longrightarrow> acts_in W T (bindp p k)"
proof (induction rule: acts_in.induct)
  case (acts_in_Act f)
  show ?case unfolding bindp.simps by (rule acts_in.acts_in_Act) (use acts_in_Act in auto)
qed simp

lemma acts_in_await: "(\<And>w s s' a. W w \<Longrightarrow> f w s = Some (s', a) \<Longrightarrow> T s s') \<Longrightarrow> acts_in W T (await f)"
  unfolding await_def by (auto intro!: acts_in_Act acts_in_Return split: option.splits prod.splits)

lemma acts_in_act: "(\<And>w s. W w \<Longrightarrow> T s (fst (f w s))) \<Longrightarrow> acts_in W T (act f)"
  unfolding act_def by (auto intro!: acts_in_Act acts_in_Return split: prod.splits) (metis fst_conv)

lemma acts_in_update: "(\<And>w s. W w \<Longrightarrow> T s (f w s)) \<Longrightarrow> acts_in W T (update f)"
  unfolding update_def by (rule acts_in_act) simp

lemma acts_in_readp: "(\<And>s. T s s) \<Longrightarrow> acts_in W T (readp f)"
  unfolding readp_def by (rule acts_in_act) simp

lemma acts_in_mono: "acts_in W T p \<Longrightarrow> (\<And>s s'. T s s' \<Longrightarrow> U s s') \<Longrightarrow> acts_in W U p"
  by (induction rule: acts_in.induct) (auto intro: acts_in.intros)

lemma acts_in_keeps: "acts_in W T p \<Longrightarrow> (\<And>s s'. T s s' \<Longrightarrow> I s \<Longrightarrow> I s') \<Longrightarrow> keeps W I p"
proof (induction rule: acts_in.induct)
  case (acts_in_Act f)
  show ?case by (rule keeps_Act) (use acts_in_Act in blast)
qed (rule keeps_Return)

lemma acts_in_proves:
  assumes "acts_in W T p" and "\<And>H s s'. s \<in> H \<Longrightarrow> T s s' \<Longrightarrow> G H s s'" and "stable G A"
  shows "proves W G A p (\<lambda>a. A)"
  using assms(1)
proof induction
  case (acts_in_Act f)
  show ?case
  proof (rule proves_Act)
    fix H s w s' p
    assume s: "s \<in> H" "A H s" and f: "W w" "f w s = Some (s', p)"
    from acts_in_Act [OF f] have p: "T s s'" "proves W G A p (\<lambda>a. A)" by auto
    moreover have "G H s s'" using assms(2) s(1) p(1) .
    moreover have "A (insert s' H) s'" using assms(3) s \<open>G H s s'\<close> unfolding stable_def by blast
    ultimately show "G H s s' \<and> (\<exists>B. B (insert s' H) s' \<and> stable G B \<and> proves W G B p (\<lambda>a. A))"
      using assms(3) by blast
  qed
qed (rule proves_Return)

lemma acts_in_obeys: "acts_in W T p \<Longrightarrow> (\<And>H s s'. s \<in> H \<Longrightarrow> T s s' \<Longrightarrow> G H s s') \<Longrightarrow> obeys W G p"
  using acts_in_proves [where A = "\<lambda>H s. True" and G = G and T = T] stable_True by blast

section \<open>The pool\<close>

definition known :: "('w \<Rightarrow> bool) \<Rightarrow> ('s set \<Rightarrow> 's \<Rightarrow> 's \<Rightarrow> bool) \<Rightarrow> ('a \<Rightarrow> 's set \<Rightarrow> 's \<Rightarrow> bool) \<Rightarrow> 's set \<Rightarrow> 's \<Rightarrow> ('w, 's, 'a) prog \<Rightarrow> bool" where
  "known W G Q H s p \<longleftrightarrow> (\<exists>A. A H s \<and> stable G A \<and> proves W G A p Q)"

lemma known_stable: "known W G Q H s p \<Longrightarrow> s \<in> H \<Longrightarrow> G H s s' \<Longrightarrow> known W G Q (insert s' H) s' p"
  unfolding known_def stable_def by metis

lemma known_start: "A H s \<Longrightarrow> stable G A \<Longrightarrow> proves W G A p Q \<Longrightarrow> known W G Q H s p"
  unfolding known_def by blast

lemma known_acts:
  "known W G Q H s (Act f) \<Longrightarrow> s \<in> H \<Longrightarrow> W w \<Longrightarrow> f w s = Some (s', p) \<Longrightarrow> G H s s' \<and> known W G Q (insert s' H) s' p"
  unfolding known_def by (blast elim: proves_ActE)

text \<open>
  An assertion that the guarantee cannot break and that holds at the beginning holds throughout when every
  program that starts in it obeys; and a program keeps what it is known for.
\<close>

lemma pool_obeys:
  assumes "pool_visits W starts c d" and "\<And>s p. starts s p \<Longrightarrow> proves W G J p (\<lambda>a H s. True)" and "\<And>H s. G H s s"
    and "c = (H0, s0, ps0)" and "s0 \<in> H0" and "\<And>p. p \<in> set ps0 \<Longrightarrow> known W G (\<lambda>a H s. True) H0 s0 p"
    and "i < length ps0 \<Longrightarrow> known W G Q H0 s0 (ps0 ! i)" and "stable G J" and "J H0 s0"
  shows "case d of (H, s, ps) \<Rightarrow> s \<in> H \<and> length ps0 \<le> length ps \<and> (\<forall>p \<in> set ps. known W G (\<lambda>a H s. True) H s p) \<and>
     (i < length ps0 \<longrightarrow> known W G Q H s (ps ! i)) \<and> J H s"
  using assms(1,4)
proof (induction rule: pool_visits.induct)
  case (visits_refl c)
  then show ?case using assms by simp
next
  case (visits_step c H s ps s' ps')
  then have I: "s \<in> H" "length ps0 \<le> length ps" "\<And>p. p \<in> set ps \<Longrightarrow> known W G (\<lambda>a H s. True) H s p"
    "i < length ps0 \<Longrightarrow> known W G Q H s (ps ! i)" "J H s"
    by auto
  from visits_step(2) show ?case
  proof cases
    case (pool_start p)
    have "known W G (\<lambda>a H s. True) H s p"
      using known_start [OF I(5) assms(8,2)] pool_start by blast
    then show ?thesis using I pool_start by (auto simp: nth_append insert_absorb)
  next
    case (pool_act w j f p)
    have "Act f \<in> set ps" using pool_act by (metis nth_mem)
    from known_acts [OF I(3) [OF this] I(1) pool_act(2,5)]
    have k: "G H s s'" "known W G (\<lambda>a H s. True) (insert s' H) s' p" by auto
    have "known W G Q (insert s' H) s' (ps' ! i)" if l: "i < length ps0"
    proof (cases "i = j")
      case True
      then have "known W G Q H s (Act f)" using I(4) [OF l] pool_act(4) by simp
      from known_acts [OF this I(1) pool_act(2,5)] show ?thesis using pool_act True by simp
    next
      case False
      then show ?thesis using known_stable [OF I(4) [OF l] I(1) k(1)] pool_act by simp
    qed
    moreover have "known W G (\<lambda>a H s. True) (insert s' H) s' q" if "q \<in> set ps'" for q
      using that k(2) known_stable [OF I(3) I(1) k(1)] pool_act(1) by (auto dest!: set_update_subset_insert [THEN subsetD])
    moreover have "J (insert s' H) s'" using assms(8) I(1,5) k(1) by (simp add: stable_def)
    ultimately show ?thesis using I(2) pool_act by simp
  qed
qed

lemma pool_asserts:
  assumes "pool_visits W starts (H0, s0, []) (H, s, ps)" and "\<And>s p. starts s p \<Longrightarrow> proves W G J p (\<lambda>a H s. True)"
    and "\<And>H s. G H s s" and "s0 \<in> H0" and "stable G J" and "J H0 s0"
  shows "s \<in> H \<and> (\<forall>p \<in> set ps. known W G (\<lambda>a H s. True) H s p) \<and> J H s"
  using pool_obeys [OF assms(1-3) refl assms(4) _ _ assms(5,6), where i = 0 and Q = "\<lambda>a H s. True"] by simp

lemma known_returned: "known W G Q H s (Return a) \<Longrightarrow> s \<in> H \<Longrightarrow> Q a H s"
  unfolding known_def by (blast elim: proves_ReturnE)

primrec returned :: "('w, 's, 'a) prog \<Rightarrow> 'a option" where
  "returned (Return a) = Some a"
| "returned (Act f) = None"

lemma returned_Some: "returned p = Some a \<longleftrightarrow> p = Return a"
  by (cases p) auto

text \<open>What a run by a schedule answers.\<close>

definition run_answers :: "('w \<times> nat) list \<Rightarrow> 's \<Rightarrow> ('w, 's, 'a) prog list \<Rightarrow> ('s \<times> 'a option list) option" where
  "run_answers xs s ps = map_option (map_prod id (map returned)) (pool_run xs (s, ps))"

lemma run_answersD: "run_answers xs s ps = Some (t, rs) \<Longrightarrow> \<exists>qs. pool_run xs (s, ps) = Some (t, qs) \<and> map returned qs = rs"
  by (auto simp: run_answers_def)

text \<open>A run by a schedule visits what it passes.\<close>

lemma pool_run_visits:
  "pool_visits W starts c (H, s, ps) \<Longrightarrow> list_all (\<lambda>x. W (fst x)) xs \<Longrightarrow> pool_run xs (s, ps) = Some (t, qs) \<Longrightarrow>
    \<exists>K. pool_visits W starts c (K, t, qs)"
proof (induction xs "(s, ps)" arbitrary: H s ps rule: pool_run.induct)
  case (1 s ps)
  then show ?case by auto
next
  case (2 w i xs s ps)
  from 2(4) obtain f s' p where f: "i < length ps" "ps ! i = Act f" "f w s = Some (s', p)" "pool_run xs (s', ps[i := p]) = Some (t, qs)"
    by (auto split: if_splits prog.splits option.splits)
  then have "pool_step W starts (s, ps) (s', ps[i := p])" using 2(3) by (auto intro: pool_act)
  then have "pool_visits W starts c (insert s' H, s', ps[i := p])" using 2(2) by (rule visits_step [rotated])
  with 2 f show ?case by auto
qed

end
