(* ===== verification/Auth_Steps.thy ===== *)
theory Auth_Steps
  imports Auth_Users Guarantee
begin

text \<open>
  What the operations of the authentication service may do to its state. \<open>quiet_step\<close> has one rule for each
  effect of an action; authenticating an API key writes the cache in addition. Every operation is shown to act
  in these steps once, and an invariant is then a property of the steps.
\<close>

inductive quiet_step :: "auth_state \<Rightarrow> auth_state \<Rightarrow> bool" where
  clears: "quiet_step s (s\<lparr>au_generation := au_generation s + 1, au_cache := Map.empty\<rparr>)"
| uses: "quiet_step s (s\<lparr>au_uses := m\<rparr>)"
| lifetime: "quiet_step s (s\<lparr>au_lifetime := n\<rparr>)"
| admitted: "k \<le> 6 \<or> k \<le> au_admitted s \<Longrightarrow> quiet_step s (s\<lparr>au_admitted := k\<rparr>)"
| active: "k \<le> 2 \<or> k \<le> au_active s \<Longrightarrow> quiet_step s (s\<lparr>au_active := k\<rparr>)"
| transaction: "quiet_step s (s\<lparr>au_in_transaction := b\<rparr>)"
| ticket_put: "t \<noteq> [] \<Longrightarrow> quiet_step s (s\<lparr>au_tickets := put_ticket t sn expires now (au_tickets s)\<rparr>)"
| ticket_taken: "quiet_step s (s\<lparr>au_tickets := drop_ticket t (au_tickets s)\<rparr>)"
| key_inserted: "\<forall>k \<in> set (au_keys s). kr_id k \<noteq> kr_id r \<and> kr_token k \<noteq> kr_token r \<Longrightarrow> owner_exists s (kr_owner r) \<Longrightarrow>
    quiet_step s (s\<lparr>au_keys := au_keys s @ [r]\<rparr>)"
| keys_changed: "(\<And>r. r \<in> set (au_keys s) \<Longrightarrow> f r \<Longrightarrow> kr_id (g r) = kr_id r \<and> kr_token (g r) = kr_token r \<and>
      kr_type (g r) = kr_type r \<and> (kr_owner (g r) = kr_owner r \<or> owner_exists s (kr_owner (g r)))) \<Longrightarrow>
    quiet_step s (map_keys f g s)"
| key_rotated: "\<forall>r \<in> set (au_keys s). kr_id r = i \<or> kr_token r \<noteq> token \<Longrightarrow>
    quiet_step s (map_keys (\<lambda>r. kr_id r = i) (\<lambda>r. r\<lparr>kr_prefix := shown, kr_token := token\<rparr>) s)"
| user_inserted: "quiet_step s (fst (insert_user_row name hash now s))"
| user_set: "quiet_step s (fst (set_user_row i enabled s))"
| user_deleted: "quiet_step s (fst (delete_user_row i s))"
| users_changed: "(\<And>u. ur_id (g u) = ur_id u \<and> ur_username (g u) = ur_username u \<and> ur_enabled (g u) = ur_enabled u) \<Longrightarrow>
    quiet_step s (map_users f g s)"
| sessions_dropped: "quiet_step s (drop_sessions f s)"
| session_inserted: "\<forall>r \<in> set (au_sessions s). se_id r \<noteq> se_id e \<and> se_token r \<noteq> se_token e \<Longrightarrow> user_at s (se_user e) \<noteq> None \<Longrightarrow>
    quiet_step s (s\<lparr>au_sessions := au_sessions s @ [e]\<rparr>)"
| account_inserted: "account_at s (sa_id a) = None \<Longrightarrow> quiet_step s (s\<lparr>au_accounts := au_accounts s @ [a]\<rparr>)"
| account_changed: "quiet_step s (s\<lparr>au_accounts :=
      map (\<lambda>a. if sa_id a = i then a\<lparr>sa_name := name, sa_enabled := enabled\<rparr> else a) (au_accounts s)\<rparr>)"
| account_dropped: "quiet_step s (drop_account i s)"

definition auth_step :: "auth_state \<Rightarrow> auth_state \<Rightarrow> bool" where
  "auth_step s s' \<longleftrightarrow> quiet_step s s' \<or> (\<exists>c. s' = s\<lparr>au_cache := c\<rparr>)"

text \<open>Random strings are not empty.\<close>

definition auth_world_ok :: "auth_world \<Rightarrow> bool" where
  "auth_world_ok w \<longleftrightarrow> aw_random w \<noteq> Some []"

abbreviation quiet :: "'a auth \<Rightarrow> bool" where
  "quiet p \<equiv> acts_in auth_world_ok quiet_step\<^sup>*\<^sup>* p"

section \<open>The parts of a program\<close>

lemma quiet_step1: "quiet_step s t \<Longrightarrow> quiet_step\<^sup>*\<^sup>* s t"
  by (rule r_into_rtranclp)

lemmas quiet_intros = quiet_step.intros [THEN quiet_step1]

lemma quiet_Return: "quiet (Return a)"
  by (rule acts_in_Return)

lemma quiet_readp: "quiet (readp f)"
  by (rule acts_in_readp) simp

lemma quiet_query: "quiet (query f)" "quiet (query_now g)"
  unfolding query_def query_now_def by (auto intro!: acts_in_await split: if_splits)

lemma quiet_exec: "(\<And>w s. quiet_step\<^sup>*\<^sup>* s (fst (f w s))) \<Longrightarrow> quiet (exec f)"
  unfolding exec_def by (rule acts_in_await) (auto split: if_splits, metis fst_conv)

lemma quiet_then_ok: "quiet p \<Longrightarrow> (\<And>a. quiet (k a)) \<Longrightarrow> quiet (then_ok p k)"
  unfolding then_ok_def by (rule acts_in_bind) (auto split: sum.split intro: quiet_Return)

lemma quiet_random: "quiet random_token"
  unfolding random_token_def by (rule quiet_readp)

lemma quiet_random_then:
  assumes "\<And>t. t \<noteq> [] \<Longrightarrow> quiet (k t)"
  shows "quiet (then_ok random_token k)"
  unfolding then_ok_def random_token_def readp_def act_def bindp.simps
  by (rule acts_in_Act) (use assms in \<open>auto simp: auth_world_ok_def intro: quiet_Return split: option.splits\<close>)

lemma quiet_clear: "quiet clear_api_key_cache"
  unfolding clear_api_key_cache_def by (rule acts_in_update) (rule quiet_intros)

lemmas quiet_rules = quiet_Return quiet_readp quiet_query quiet_then_ok quiet_random quiet_clear acts_in_bind

lemma quiet_uses:
  "quiet (seed_api_use_write i used)" "quiet (reserve_api_use_write i now)" "quiet (release_api_use_write i now)"
  "quiet (clear_api_use_write i)"
  unfolding seed_api_use_write_def reserve_api_use_write_def release_api_use_write_def clear_api_use_write_def
  by (auto intro!: quiet_Return acts_in_act acts_in_update quiet_intros split: option.split)

lemma quiet_gate:
  "quiet (run_password_work work)" "quiet reserve_password_work" "quiet release_password_work"
proof -
  show "quiet reserve_password_work" "quiet release_password_work"
    unfolding reserve_password_work_def release_password_work_def
    by (auto intro!: acts_in_act acts_in_update quiet_intros simp: password_work_max_active_def password_work_max_backlog_def)
  show "quiet (run_password_work work)"
    unfolding run_password_work_def
    by (auto intro!: quiet_rules acts_in_await acts_in_update quiet_intros split: if_splits simp: password_work_max_active_def)
qed

lemma quiet_with_password_work: "quiet p \<Longrightarrow> quiet (with_password_work p)"
  unfolding with_password_work_def by (intro quiet_rules quiet_gate)

lemma quiet_passwords:
  "quiet (hash_password_with_reservation password)" "quiet (verify_password_with_reservation password encoded)"
  "quiet (hash_password password)" "quiet (verify_password password encoded)"
  unfolding hash_password_with_reservation_def verify_password_with_reservation_def hash_password_def verify_password_def
  by (auto intro!: quiet_with_password_work quiet_gate quiet_Return)

section \<open>API keys\<close>

lemma quiet_reads:
  "quiet live_instance_ids" "quiet (scan_row f ids)" "quiet (scan_rows f ids)" "quiet (get_api_key_including_hidden i)"
  "quiet (get_api_key i)" "quiet (lookup_api_key_by_hash h)" "quiet (list_api_keys_including_hidden a)"
  "quiet (list_api_keys_of a)" "quiet (owner_state owner)" "quiet (check_owner owner b)" "quiet (check_expires e b)"
  "quiet (reject_unknown_instance_ids ids)" "quiet (service_account_hidden i)" "quiet (reject_hidden_ordinary_api_key_owner owner)"
  unfolding live_instance_ids_def scan_row_def scan_rows_def get_api_key_including_hidden_def get_api_key_def
    lookup_api_key_by_hash_def list_api_keys_including_hidden_def list_api_keys_of_def owner_state_def check_owner_def
    check_expires_def reject_unknown_instance_ids_def service_account_hidden_def reject_hidden_ordinary_api_key_owner_def Let_def
  by (auto intro!: quiet_rules split: option.split key_owner.split)

lemma quiet_normalize: "quiet (normalize_api_key_write name ty user account ids expires f o' i)"
  unfolding normalize_api_key_write_def Let_def by (auto intro!: quiet_rules quiet_reads)

lemma quiet_insert_key: "quiet (insert_api_key digest name ty owner ids expires creator)"
  unfolding insert_api_key_def generate_api_key_secret_def insert_key_row_def
  by (auto intro!: quiet_rules quiet_reads quiet_exec quiet_intros)

lemma quiet_create_key:
  "quiet (create_api_key digest c)" "quiet (create_any_api_key digest c)" "quiet (create_api_key_for_user digest name i)"
  "quiet (ensure_managed_inference_key digest account)"
  unfolding create_api_key_def create_any_api_key_def create_api_key_for_user_def ensure_managed_inference_key_def Let_def
  by (auto intro!: quiet_rules quiet_reads quiet_normalize quiet_insert_key split: option.split)

lemma quiet_set_enabled: "quiet (set_api_key_enabled i b)"
  unfolding set_api_key_enabled_def by (auto intro!: quiet_rules quiet_exec quiet_intros)

lemma quiet_update_row: "quiet (update_key_row i name owner ids expires enabled)"
  unfolding update_key_row_def by (auto intro!: quiet_exec quiet_intros)

lemma quiet_cases:
  "(\<And>x. quiet (f x)) \<Longrightarrow> quiet (Let a f)" "(\<And>x y. quiet (g x y)) \<Longrightarrow> quiet (case p of (x, y) \<Rightarrow> g x y)"
  "(\<And>e. quiet (h1 e)) \<Longrightarrow> (\<And>x. quiet (h2 x)) \<Longrightarrow> quiet (case r of Inl e \<Rightarrow> h1 e | Inr x \<Rightarrow> h2 x)"
  "quiet q1 \<Longrightarrow> quiet q2 \<Longrightarrow> quiet (if c then q1 else q2)"
  by (auto split: prod.split sum.split)

lemma quiet_update_key: "quiet (update_api_key i u)"
  unfolding update_api_key_def
  by (intro quiet_rules quiet_cases quiet_reads quiet_normalize quiet_update_row)

lemma quiet_rotate:
  "quiet (rotate_api_key_secret digest i)" "quiet (rotate_api_key digest i)" "quiet (rotate_managed_api_key digest i)"
  unfolding rotate_api_key_def rotate_managed_api_key_def rotate_api_key_secret_def generate_api_key_secret_def
  by (auto intro!: quiet_rules quiet_reads quiet_exec quiet_intros quiet_uses)

lemma quiet_record_use: "quiet (record_use item now)"
  unfolding record_use_def by (auto intro!: quiet_rules quiet_uses quiet_exec quiet_intros split: sum.split)

section \<open>Users, accounts, sessions, tickets\<close>

lemma quiet_users:
  "quiet (bootstrap name password)" "quiet (create_user name password)" "quiet (set_user_enabled i b)"
  "quiet (delete_user j i)" "quiet (reset_password i password)" "quiet (change_password i current password keep)"
proof -
  have step: "quiet_step\<^sup>*\<^sup>* s (fst (case affected f (au_users s) of Inl e \<Rightarrow> (s, Inl e)
      | Inr _ \<Rightarrow> (drop_sessions g (set_password i hash s), Inr ())))"
    "quiet_step\<^sup>*\<^sup>* s (drop_sessions g (set_password i hash s))" for s f g hash and i :: int
  proof -
    have "quiet_step\<^sup>*\<^sup>* s (set_password i hash s)" unfolding set_password_def by (rule quiet_intros) simp
    then show "quiet_step\<^sup>*\<^sup>* s (drop_sessions g (set_password i hash s))" by (rule rtranclp_trans) (rule quiet_intros)
    then show "quiet_step\<^sup>*\<^sup>* s (fst (case affected f (au_users s) of Inl e \<Rightarrow> (s, Inl e)
      | Inr _ \<Rightarrow> (drop_sessions g (set_password i hash s), Inr ())))" by (auto split: sum.split)
  qed
  show "quiet (bootstrap name password)"
    unfolding bootstrap_def bootstrap_body_def begin_transaction_def end_transaction_def in_transaction_def
    by (auto intro!: quiet_rules quiet_passwords acts_in_await acts_in_act acts_in_update quiet_intros split: if_splits sum.split)
  show "quiet (create_user name password)"
    unfolding create_user_def by (auto intro!: quiet_rules quiet_passwords quiet_exec quiet_intros split: sum.split)
  show "quiet (set_user_enabled i b)" "quiet (delete_user j i)"
    unfolding set_user_enabled_def delete_user_def by (auto intro!: quiet_rules quiet_exec quiet_intros)
  show "quiet (reset_password i password)" "quiet (change_password i current password keep)"
    unfolding reset_password_def change_password_def
    by (auto intro!: quiet_rules quiet_passwords quiet_exec step split: sum.split)
qed

lemma quiet_accounts:
  "quiet (create_any_service_account name creator hidden)" "quiet (find_service_account_by_name name hidden)"
  "quiet (account_row_at i)" "quiet (update_service_account i next b)" "quiet (delete_any_service_account i)"
  "quiet (delete_service_account i)" "quiet (delete_hidden_service_account_by_name name)"
  "quiet (ensure_hidden_service_account name)"
proof -
  show c: "quiet (create_any_service_account name creator hidden)" for name hidden creator
    unfolding create_any_service_account_def Let_def by (auto intro!: quiet_rules quiet_exec quiet_intros)
  show f: "quiet (find_service_account_by_name name hidden)" for name hidden
    unfolding find_service_account_by_name_def by (auto intro!: quiet_rules)
  show r: "quiet (account_row_at i)" for i
    unfolding account_row_at_def by (rule quiet_rules)
  show d: "quiet (delete_any_service_account i)" for i
    unfolding delete_any_service_account_def by (auto intro!: quiet_rules quiet_exec quiet_intros)
  show "quiet (update_service_account i next b)"
    unfolding update_service_account_def Let_def by (auto intro!: quiet_rules r quiet_exec quiet_intros)
  show "quiet (delete_service_account i)" "quiet (delete_hidden_service_account_by_name name)"
    "quiet (ensure_hidden_service_account name)"
    unfolding delete_service_account_def delete_hidden_service_account_by_name_def ensure_hidden_service_account_def
    by (auto intro!: quiet_rules c d f r split: sum.split)
qed

lemma quiet_sessions:
  "quiet (session_by_identity digest i sid jti)" "quiet (create_bearer_session digest u address agent)"
  "quiet (authenticate_bearer digest token)" "quiet (login_bearer digest name password address agent)"
  "quiet (revoke_session sid)" "quiet (revoke_own_session i sid)" "quiet (revoke_where f)"
proof -
  show s: "quiet (session_by_identity digest i sid jti)" for i sid jti
    unfolding session_by_identity_def by (auto intro!: quiet_rules split: sum.split)
  show c: "quiet (create_bearer_session digest u address agent)" for u
    unfolding create_bearer_session_def by (auto intro!: quiet_rules quiet_exec quiet_intros)
  show "quiet (authenticate_bearer digest token)"
    unfolding authenticate_bearer_def by (auto intro!: quiet_rules s split: option.split)
  show "quiet (revoke_session sid)" "quiet (revoke_own_session i sid)" "quiet (revoke_where f)"
    unfolding revoke_session_def revoke_own_session_def revoke_where_def
    by (auto intro!: quiet_rules quiet_exec quiet_intros)
  have seen: "quiet_step\<^sup>*\<^sup>* s (map_users f (ur_last_login_update (\<lambda>_. l)) s)" for s f l
    by (rule quiet_intros) simp
  have rehashed: "quiet_step\<^sup>*\<^sup>* s (map_users f (ur_last_login_update (\<lambda>_. l)) (set_password i h s))" for s f l i h
  proof -
    have "quiet_step\<^sup>*\<^sup>* s (set_password i h s)" unfolding set_password_def by (rule quiet_intros) simp
    then show ?thesis by (rule rtranclp_trans) (rule seen)
  qed
  show "quiet (login_bearer digest name password address agent)"
    unfolding login_bearer_def verified_login_def verify_login_credentials_def
    by (auto intro!: quiet_rules quiet_with_password_work quiet_passwords c quiet_exec seen rehashed split: sum.split)
qed

lemma quiet_tickets:
  "quiet (issue_web_socket_ticket digest sn)" "quiet (take_ticket ticket)" "quiet (consume_web_socket_ticket digest ticket)"
proof -
  show t: "quiet (take_ticket ticket)" for ticket
    unfolding take_ticket_def by (auto intro!: acts_in_act quiet_intros)
  show "quiet (issue_web_socket_ticket digest sn)" "quiet (consume_web_socket_ticket digest ticket)"
    unfolding issue_web_socket_ticket_def consume_web_socket_ticket_def Let_def
    by (auto intro!: quiet_random_then quiet_rules quiet_sessions t acts_in_update quiet_intros split: sum.split option.split)
qed

end
