(* ===== verification/Auth_Safety.thy ===== *)
theory Auth_Safety
  imports Auth_Steps
begin

text \<open>
  The invariant of the authentication service, over all interleavings of its operations: the keys of the
  tables are unique and its references resolve, an enabled user is left as soon as there is one, and the
  tickets and the password work stay within their limits.
\<close>

section \<open>The invariant\<close>

definition users_ok :: "auth_state \<Rightarrow> bool" where
  "users_ok s \<longleftrightarrow> distinct (map ur_id (au_users s)) \<and> distinct (map ur_username (au_users s)) \<and>
     (\<forall>u \<in> set (au_users s). ur_id u < au_next_user s) \<and> (au_users s \<noteq> [] \<longrightarrow> (\<exists>u \<in> set (au_users s). ur_enabled u))"

definition accounts_ok :: "auth_state \<Rightarrow> bool" where
  "accounts_ok s \<longleftrightarrow> distinct (map sa_id (au_accounts s))"

definition keys_ok :: "auth_state \<Rightarrow> bool" where
  "keys_ok s \<longleftrightarrow> distinct (map kr_id (au_keys s)) \<and> distinct (map kr_token (au_keys s)) \<and>
     (\<forall>r \<in> set (au_keys s). owner_exists s (kr_owner r))"

definition sessions_ok :: "auth_state \<Rightarrow> bool" where
  "sessions_ok s \<longleftrightarrow> distinct (map se_id (au_sessions s)) \<and> distinct (map se_token (au_sessions s)) \<and>
     (\<forall>e \<in> set (au_sessions s). user_at s (se_user e) \<noteq> None)"

definition gate_ok :: "auth_state \<Rightarrow> bool" where
  "gate_ok s \<longleftrightarrow> au_admitted s \<le> password_work_max_active + password_work_max_backlog \<and> au_active s \<le> password_work_max_active"

definition tickets_of :: "string \<Rightarrow> (string \<times> ws_ticket) list \<Rightarrow> nat" where
  "tickets_of i m = length (filter (\<lambda>e. tk_session (snd e) = i) m)"

definition tickets_ok :: "(string \<times> ws_ticket) list \<Rightarrow> bool" where
  "tickets_ok m \<longleftrightarrow> distinct (map fst m) \<and> [] \<notin> fst ` set m \<and> length m \<le> max_tickets_global \<and>
     (\<forall>i. tickets_of i m \<le> max_tickets_per_session)"

definition auth_ok :: "auth_state \<Rightarrow> bool" where
  "auth_ok s \<longleftrightarrow> users_ok s \<and> accounts_ok s \<and> keys_ok s \<and> sessions_ok s \<and> gate_ok s \<and> tickets_ok (au_tickets s)"

section \<open>Rows\<close>

lemma find_None_keys: "find (\<lambda>x. f x = i) xs = None \<longleftrightarrow> i \<notin> f ` set xs"
  by (auto simp: find_None_iff)

lemma user_at_None: "user_at s i = None \<longleftrightarrow> i \<notin> ur_id ` set (au_users s)"
  unfolding user_at_def by (rule find_None_keys)

lemma account_at_None: "account_at s i = None \<longleftrightarrow> i \<notin> sa_id ` set (au_accounts s)"
  unfolding account_at_def by (rule find_None_keys)

lemma owner_exists_iff:
  "owner_exists s owner \<longleftrightarrow>
     (case owner of OwnerUser i \<Rightarrow> i \<in> ur_id ` set (au_users s) | OwnerAccount i \<Rightarrow> i \<in> sa_id ` set (au_accounts s))"
  by (simp add: owner_exists_def user_at_None account_at_None split: key_owner.split)

lemma map_if_same: "(\<And>x. x \<in> set xs \<Longrightarrow> f x \<Longrightarrow> h (g x) = h x) \<Longrightarrow> map h (map (\<lambda>x. if f x then g x else x) xs) = map h xs"
  by simp

lemma image_if_same: "(\<And>x. x \<in> set xs \<Longrightarrow> f x \<Longrightarrow> h (g x) = h x) \<Longrightarrow> h ` (\<lambda>x. if f x then g x else x) ` set xs = h ` set xs"
  unfolding image_image by (rule image_cong) auto

lemma distinct_map_filter': "distinct (map f xs) \<Longrightarrow> distinct (map f (filter p xs))"
  by (rule distinct_map_filter)

lemma enabled_left:
  assumes "distinct (map ur_id (au_users s))" and "1 < enabled_users s"
  shows "\<exists>v \<in> set (au_users s). ur_enabled v \<and> ur_id v \<noteq> i"
proof (rule ccontr)
  assume no: "\<not> (\<exists>v \<in> set (au_users s). ur_enabled v \<and> ur_id v \<noteq> i)"
  let ?e = "filter ur_enabled (au_users s)"
  have "distinct (map ur_id ?e)" using assms(1) by (rule distinct_map_filter)
  then have "card (ur_id ` set ?e) = length ?e" by (metis distinct_card length_map set_map)
  moreover have "ur_id ` set ?e \<subseteq> {i}" using no by auto
  then have "card (ur_id ` set ?e) \<le> 1" by (metis card_mono finite.emptyI finite_insert card.empty card_insert_disjoint empty_iff One_nat_def)
  ultimately show False using assms(2) by (simp add: enabled_users_def)
qed

lemma user_at_member: "user_at s i = Some u \<Longrightarrow> u \<in> set (au_users s) \<and> ur_id u = i"
  unfolding user_at_def by (auto simp: find_Some_iff)

section \<open>Steps\<close>

lemma insert_user_ok:
  assumes "users_ok s"
  shows "users_ok (fst (insert_user_row name hash now s))"
  using assms by (fastforce simp: users_ok_def insert_user_row_def)

lemma set_user_ok:
  assumes "users_ok s"
  shows "users_ok (fst (set_user_row i enabled s))"
proof (cases "user_at s i")
  case (Some u)
  let ?g = "\<lambda>u. u\<lparr>ur_enabled := enabled\<rparr>"
  let ?t = "map_users (\<lambda>u. ur_id u = i) ?g s"
  consider "\<not> enabled" "ur_enabled u" "enabled_users s \<le> 1" | "enabled \<or> \<not> ur_enabled u \<or> 1 < enabled_users s" by linarith
  then show ?thesis
  proof cases
    case 2
    have d: "distinct (map ur_id (au_users s))" using assms by (simp add: users_ok_def)
    have u: "u \<in> set (au_users s)" "ur_id u = i" using user_at_member Some by auto
    have "\<exists>v \<in> set (au_users ?t). ur_enabled v"
    proof (cases enabled)
      case True
      have "u\<lparr>ur_enabled := enabled\<rparr> \<in> set (au_users ?t)" using u by (auto simp: map_users_def intro!: image_eqI [where x = u])
      then show ?thesis using True by force
    next
      case False
      have "\<exists>v \<in> set (au_users s). ur_enabled v \<and> ur_id v \<noteq> i"
      proof (cases "1 < enabled_users s")
        case False
        then have "\<not> ur_enabled u" using 2 \<open>\<not> enabled\<close> by simp
        moreover obtain v where "v \<in> set (au_users s)" "ur_enabled v" using assms u(1) by (auto simp: users_ok_def)
        ultimately show ?thesis using u d by (metis distinct_map inj_on_def)
      qed (rule enabled_left [OF d])
      then show ?thesis by (force simp: map_users_def)
    qed
    then have "users_ok ?t" using assms unfolding users_ok_def map_users_def by (force simp: comp_def if_distrib cong: if_cong)
    moreover have "users_ok (drop_sessions (\<lambda>r. se_user r = i) ?t) = users_ok ?t" by (simp add: users_ok_def drop_sessions_def)
    moreover have "fst (set_user_row i enabled s) \<in> {?t, drop_sessions (\<lambda>r. se_user r = i) ?t}"
      using 2 Some by (auto simp: set_user_row_def Let_def)
    ultimately show ?thesis by auto
  qed (use assms Some in \<open>simp add: set_user_row_def\<close>)
qed (use assms in \<open>simp add: set_user_row_def\<close>)

lemma delete_user_ok:
  assumes "users_ok s"
  shows "users_ok (fst (delete_user_row i s))"
proof (cases "user_at s i")
  case (Some u)
  consider "ur_enabled u" "enabled_users s \<le> 1" | "\<not> ur_enabled u \<or> 1 < enabled_users s" by linarith
  then show ?thesis
  proof cases
    case 2
    have d: "distinct (map ur_id (au_users s))" using assms by (simp add: users_ok_def)
    have u: "u \<in> set (au_users s)" "ur_id u = i" using user_at_member Some by auto
    have "\<exists>v \<in> set (au_users s). ur_enabled v \<and> ur_id v \<noteq> i"
    proof (cases "1 < enabled_users s")
      case False
      then have "\<not> ur_enabled u" using 2 by simp
      moreover obtain v where "v \<in> set (au_users s)" "ur_enabled v" using assms u(1) by (auto simp: users_ok_def)
      ultimately show ?thesis using u d by (metis distinct_map inj_on_def)
    qed (rule enabled_left [OF d])
    then have "users_ok (drop_user i s)" using assms by (auto simp: users_ok_def drop_user_def intro: distinct_map_filter)
    then show ?thesis using 2 Some by (auto simp: delete_user_row_def)
  qed (use assms Some in \<open>simp add: delete_user_row_def\<close>)
qed (use assms in \<open>simp add: delete_user_row_def\<close>)

lemma quiet_users_ok: "quiet_step s t \<Longrightarrow> users_ok s \<Longrightarrow> users_ok t"
proof (induction rule: quiet_step.induct)
  case (users_changed g s f)
  have "map ur_id (au_users (map_users f g s)) = map ur_id (au_users s)"
    "map ur_username (au_users (map_users f g s)) = map ur_username (au_users s)"
    using users_changed.hyps by (auto simp: map_users_def)
  moreover have "\<forall>u \<in> set (au_users (map_users f g s)). ur_id u < au_next_user (map_users f g s)"
    using users_changed.hyps users_changed.prems by (auto simp: users_ok_def map_users_def)
  moreover have "\<exists>u \<in> set (au_users (map_users f g s)). ur_enabled u" if "au_users (map_users f g s) \<noteq> []"
  proof -
    from that obtain v where v: "v \<in> set (au_users s)" "ur_enabled v"
      using users_changed.prems by (auto simp: users_ok_def map_users_def)
    have "(if f v then g v else v) \<in> set (au_users (map_users f g s))" using v(1) by (simp add: map_users_def)
    moreover have "ur_enabled (if f v then g v else v)" using v(2) users_changed.hyps by simp
    ultimately show ?thesis by blast
  qed
  ultimately show ?case using users_changed.prems unfolding users_ok_def by simp
qed (simp_all add: insert_user_ok set_user_ok delete_user_ok, simp_all add: users_ok_def map_keys_def drop_sessions_def drop_account_def)

lemma quiet_accounts_ok: "quiet_step s t \<Longrightarrow> accounts_ok s \<Longrightarrow> accounts_ok t"
proof (induction rule: quiet_step.induct)
  case (account_inserted s a)
  then show ?case by (auto simp: accounts_ok_def account_at_None)
next
  case (account_changed s i name enabled)
  then show ?case by (simp add: accounts_ok_def comp_def if_distrib cong: if_cong)
next
  case (user_deleted i s)
  then show ?case
    by (auto simp: accounts_ok_def delete_user_row_def drop_user_def comp_def if_distrib cong: if_cong split: option.split)
next
  case (user_set i enabled s)
  then show ?case by (simp add: accounts_ok_def set_user_row_def Let_def map_users_def drop_sessions_def split: option.split)
qed (auto simp: accounts_ok_def map_keys_def map_users_def drop_sessions_def drop_account_def insert_user_row_def
    intro: distinct_map_filter)

lemma quiet_gate_ok: "quiet_step s t \<Longrightarrow> gate_ok s \<Longrightarrow> gate_ok t"
  by (induction rule: quiet_step.induct)
    (auto simp: gate_ok_def map_keys_def map_users_def drop_sessions_def drop_account_def insert_user_row_def set_user_row_def
      delete_user_row_def drop_user_def Let_def password_work_max_active_def password_work_max_backlog_def split: option.split)

text \<open>Which rows an owner or a session may refer to changes with the users and the accounts only.\<close>

definition user_ids :: "auth_state \<Rightarrow> int set" where
  "user_ids s = set (map ur_id (au_users s))"

definition account_ids :: "auth_state \<Rightarrow> string set" where
  "account_ids s = set (map sa_id (au_accounts s))"

lemma owner_exists_ids:
  "owner_exists s owner \<longleftrightarrow> (case owner of OwnerUser i \<Rightarrow> i \<in> user_ids s | OwnerAccount i \<Rightarrow> i \<in> account_ids s)"
  by (simp add: owner_exists_iff user_ids_def account_ids_def split: key_owner.split)

lemma user_at_ids: "user_at s i \<noteq> None \<longleftrightarrow> i \<in> user_ids s"
  by (simp add: user_at_None user_ids_def)

lemma map_users_ids: "(\<And>u. ur_id (g u) = ur_id u) \<Longrightarrow> user_ids (map_users f g s) = user_ids s"
  unfolding user_ids_def map_users_def by (simp add: comp_def if_distrib cong: if_cong)

lemma set_user_rows:
  "fst (set_user_row i b s) \<in> {s, map_users (\<lambda>u. ur_id u = i) (\<lambda>u. u\<lparr>ur_enabled := b\<rparr>) s,
     drop_sessions (\<lambda>r. se_user r = i) (map_users (\<lambda>u. ur_id u = i) (\<lambda>u. u\<lparr>ur_enabled := b\<rparr>) s)}"
  by (auto simp: set_user_row_def Let_def split: option.split)

lemma delete_user_rows: "fst (delete_user_row i s) \<in> {s, drop_user i s}"
  by (auto simp: delete_user_row_def split: option.split)

lemma keys_ok_frame:
  "au_keys t = au_keys s \<Longrightarrow> user_ids s \<subseteq> user_ids t \<Longrightarrow> account_ids s \<subseteq> account_ids t \<Longrightarrow> keys_ok s \<Longrightarrow> keys_ok t"
  by (auto simp: keys_ok_def owner_exists_ids split: key_owner.splits)

lemma sessions_ok_frame: "au_sessions t = au_sessions s \<Longrightarrow> user_ids s \<subseteq> user_ids t \<Longrightarrow> sessions_ok s \<Longrightarrow> sessions_ok t"
  unfolding sessions_ok_def user_at_ids by auto

lemma ids_simps [simp]:
  "user_ids (map_keys f g s) = user_ids s" "account_ids (map_keys f g s) = account_ids s"
  "user_ids (drop_sessions h s) = user_ids s" "account_ids (drop_sessions h s) = account_ids s"
  "account_ids (map_users k l s) = account_ids s" "user_ids (drop_account i s) = user_ids s"
  "au_keys (map_users k l s) = au_keys s" "au_keys (drop_sessions h s) = au_keys s"
  "au_sessions (map_users k l s) = au_sessions s" "au_sessions (map_keys f g s) = au_sessions s"
  by (simp_all add: user_ids_def account_ids_def map_keys_def drop_sessions_def map_users_def drop_account_def)

lemma drop_user_keys_ok: "keys_ok s \<Longrightarrow> keys_ok (drop_user i s)"
proof -
  assume k: "keys_ok s"
  have "map kr_id (au_keys (drop_user i s)) = map kr_id (filter (\<lambda>r. kr_owner r \<noteq> OwnerUser i) (au_keys s))"
    "map kr_token (au_keys (drop_user i s)) = map kr_token (filter (\<lambda>r. kr_owner r \<noteq> OwnerUser i) (au_keys s))"
    by (simp_all add: drop_user_def comp_def if_distrib cong: if_cong)
  moreover have "account_ids (drop_user i s) = account_ids s" "user_ids (drop_user i s) = user_ids s - {i}"
    by (auto simp: account_ids_def user_ids_def drop_user_def)
  moreover have o': "owner_exists (drop_user i s) (kr_owner r)" if "r \<in> set (au_keys s)" "kr_owner r \<noteq> OwnerUser i" for r
    using k that calculation(3,4) by (auto simp: keys_ok_def owner_exists_ids split: key_owner.splits)
  moreover have "\<exists>q \<in> set (au_keys s). kr_owner r = kr_owner q \<and> kr_owner q \<noteq> OwnerUser i" if "r \<in> set (au_keys (drop_user i s))" for r
    using that by (auto simp: drop_user_def)
  then have "\<forall>r \<in> set (au_keys (drop_user i s)). owner_exists (drop_user i s) (kr_owner r)"
    using o' by metis
  ultimately show "keys_ok (drop_user i s)"
    using k unfolding keys_ok_def by (metis distinct_map_filter)
qed

lemma map_keys_ok:
  assumes "keys_ok s" and "\<And>r. r \<in> set (au_keys s) \<Longrightarrow> f r \<Longrightarrow> kr_id (g r) = kr_id r \<and> owner_exists s (kr_owner (g r))"
    and "distinct (map kr_token (au_keys (map_keys f g s)))"
  shows "keys_ok (map_keys f g s)"
proof -
  have "map kr_id (au_keys (map_keys f g s)) = map kr_id (au_keys s)" using assms(2) by (simp add: map_keys_def)
  then have "distinct (map kr_id (au_keys (map_keys f g s)))" using assms(1) unfolding keys_ok_def by metis
  moreover have "owner_exists (map_keys f g s) x = owner_exists s x" for x by (simp add: owner_exists_ids split: key_owner.split)
  then have "\<forall>r \<in> set (au_keys (map_keys f g s)). owner_exists (map_keys f g s) (kr_owner r)"
    using assms(1,2) by (auto simp: keys_ok_def map_keys_def)
  ultimately show ?thesis using assms(3) unfolding keys_ok_def by blast
qed

lemma quiet_keys_ok: "quiet_step s t \<Longrightarrow> keys_ok s \<Longrightarrow> keys_ok t"
proof (induction rule: quiet_step.induct)
  case (key_inserted s r)
  then have "owner_exists (s\<lparr>au_keys := au_keys s @ [r]\<rparr>) x = owner_exists s x" for x
    by (simp add: owner_exists_ids user_ids_def account_ids_def split: key_owner.split)
  then show ?case using key_inserted by (auto simp: keys_ok_def)
next
  case (keys_changed s f g)
  have "map kr_token (au_keys (map_keys f g s)) = map kr_token (au_keys s)" using keys_changed.hyps by (simp add: map_keys_def)
  moreover have "kr_id (g r) = kr_id r \<and> owner_exists s (kr_owner (g r))" if "r \<in> set (au_keys s)" "f r" for r
    using keys_changed.hyps [OF that] keys_changed.prems that(1) unfolding keys_ok_def by metis
  ultimately show ?case using keys_changed.prems by (intro map_keys_ok) (simp_all add: keys_ok_def)
next
  case (key_rotated s i token shown)
  have d: "distinct (map kr_id (au_keys s))" "distinct (map kr_token (au_keys s))" using key_rotated.prems by (auto simp: keys_ok_def)
  have "distinct (map kr_token (map (\<lambda>r. if kr_id r = i then r\<lparr>kr_prefix := shown, kr_token := token\<rparr> else r) xs))"
    if "distinct (map kr_id xs)" "distinct (map kr_token xs)" "\<forall>r \<in> set xs. kr_id r = i \<or> kr_token r \<noteq> token" for xs
    using that by (induction xs) (auto split: if_splits, (metis image_eqI)+)
  from this [OF d key_rotated.hyps] show ?case using key_rotated by (intro map_keys_ok) (auto simp: keys_ok_def map_keys_def)
next
  case (user_inserted s name hash now)
  then show ?case by (rule keys_ok_frame [rotated 3]) (auto simp: insert_user_row_def user_ids_def account_ids_def)
next
  case (user_set s i b)
  show ?case by (rule keys_ok_frame [OF _ _ _ user_set]) (use set_user_rows [of i b s] in \<open>auto simp: map_users_ids\<close>)
next
  case (user_deleted s i)
  then show ?case using delete_user_rows [of i s] drop_user_keys_ok by auto
next
  case (users_changed g s f)
  then show ?case by (intro keys_ok_frame [OF _ _ _ users_changed.prems]) (auto simp: map_users_ids)
next
  case (account_changed s i name enabled)
  then show ?case
    by (rule keys_ok_frame [rotated 3]) (auto simp: user_ids_def account_ids_def comp_def if_distrib cong: if_cong)
next
  case (account_dropped s i)
  have "account_ids (drop_account i s) = account_ids s - {i}" by (auto simp: account_ids_def drop_account_def)
  then have "owner_exists (drop_account i s) (kr_owner r)" if "r \<in> set (au_keys s)" "kr_owner r \<noteq> OwnerAccount i" for r
    using account_dropped that by (auto simp: keys_ok_def owner_exists_ids split: key_owner.splits)
  then show ?case using account_dropped by (auto simp: keys_ok_def drop_account_def distinct_map_filter)
qed (erule keys_ok_frame [rotated 3], auto simp: user_ids_def account_ids_def drop_sessions_def)+

lemma drop_sessions_ok: "sessions_ok s \<Longrightarrow> sessions_ok (drop_sessions f s)"
  unfolding sessions_ok_def user_at_ids by (auto simp: drop_sessions_def user_ids_def distinct_map_filter)

lemma quiet_sessions_ok: "quiet_step s t \<Longrightarrow> sessions_ok s \<Longrightarrow> sessions_ok t"
proof (induction rule: quiet_step.induct)
  case (user_inserted s name hash now)
  then show ?case by (rule sessions_ok_frame [rotated 2]) (auto simp: insert_user_row_def user_ids_def)
next
  case (user_set s i b)
  have "sessions_ok (map_users (\<lambda>u. ur_id u = i) (\<lambda>u. u\<lparr>ur_enabled := b\<rparr>) s)"
    by (rule sessions_ok_frame [OF _ _ user_set]) (auto simp: map_users_ids)
  then show ?case using set_user_rows [of i b s] user_set drop_sessions_ok by auto
next
  case (user_deleted s i)
  have "sessions_ok (drop_user i s)"
    using user_deleted unfolding sessions_ok_def user_at_ids by (auto simp: drop_user_def user_ids_def distinct_map_filter)
  then show ?case using delete_user_rows [of i s] user_deleted by auto
next
  case (users_changed g s f)
  then show ?case by (intro sessions_ok_frame [OF _ _ users_changed.prems]) (auto simp: map_users_ids)
next
  case (session_inserted s e)
  then show ?case unfolding sessions_ok_def user_at_ids by (auto simp: user_ids_def)
qed (simp_all add: drop_sessions_ok, (erule sessions_ok_frame [rotated 2]; simp add: user_ids_def drop_account_def map_keys_def)+)

section \<open>Tickets\<close>

lemma oldest_found: "\<exists>e \<in> set m. f (snd e) \<Longrightarrow> \<exists>e \<in> set m. f (snd e) \<and> fst (oldest_ticket f m) = fst e"
proof (induction m rule: rev_induct)
  case (snoc e m)
  obtain k t where o': "foldl (\<lambda>(k, t) (key, item). if \<not> f item then (k, t) else if k = [] \<or> tk_expires item < t
      then (key, tk_expires item) else (k, t)) ([], 0) m = (k, t)" by fastforce
  show ?case
  proof (cases "\<exists>e \<in> set m. f (snd e)")
    case True
    with snoc o' show ?thesis by (cases e) (auto simp: oldest_ticket_def)
  next
    case False
    then have "foldl (\<lambda>(k, t) (key, item). if \<not> f item then (k, t) else if k = [] \<or> tk_expires item < t
      then (key, tk_expires item) else (k, t)) x m = x" for x
      by (induction m) (auto split: prod.splits)
    then show ?thesis using snoc(2) False by (cases e) (auto simp: oldest_ticket_def)
  qed
qed simp

lemma drop_ticket_less:
  assumes "e \<in> set m" and "f (snd e)"
  shows "length (filter (\<lambda>x. f (snd x)) (drop_ticket (fst e) m)) < length (filter (\<lambda>x. f (snd x)) m)"
proof -
  have "filter (\<lambda>x. f (snd x)) (drop_ticket (fst e) m) = filter (\<lambda>x. fst x \<noteq> fst e) (filter (\<lambda>x. f (snd x)) m)"
    by (simp add: drop_ticket_def conj_commute)
  moreover have "e \<in> set (filter (\<lambda>x. f (snd x)) m)" using assms by simp
  ultimately show ?thesis using length_filter_less [of e _ "\<lambda>x. fst x \<noteq> fst e"] by metis
qed

lemma drop_oldest_less:
  assumes "\<exists>e \<in> set m. f (snd e)"
  shows "length (filter (\<lambda>x. f (snd x)) (drop_ticket (fst (oldest_ticket f m)) m)) < length (filter (\<lambda>x. f (snd x)) m)"
  using oldest_found [OF assms] drop_ticket_less by metis

lemma session_room_bound:
  "length (filter (\<lambda>e. tk_session (snd e) = i) m) \<le> n + 7 \<Longrightarrow> tickets_of i (make_session_room n i m) < max_tickets_per_session"
proof (induction n arbitrary: m)
  case 0
  then show ?case by (simp add: tickets_of_def max_tickets_per_session_def)
next
  case (Suc n)
  show ?case
  proof (cases "length (filter (\<lambda>e. tk_session (snd e) = i) m) < max_tickets_per_session")
    case False
    then have "\<exists>e \<in> set m. tk_session (snd e) = i"
      by (auto simp: max_tickets_per_session_def) (metis (mono_tags, lifting) filter_False list.size(3) not_less_zero zero_less_numeral)
    from drop_oldest_less [of m "\<lambda>t. tk_session t = i", OF this] Suc show ?thesis
      using False by (auto intro!: Suc.IH)
  qed (simp add: tickets_of_def)
qed

lemma session_room_sublist: "\<exists>f. make_session_room n i m = filter f m"
proof (induction n arbitrary: m)
  case 0
  show ?case by (rule exI [of _ "\<lambda>x. True"]) simp
next
  case (Suc n)
  obtain f where "make_session_room n i (drop_ticket (fst (oldest_ticket (\<lambda>t. tk_session t = i) m)) m) =
      filter f (drop_ticket (fst (oldest_ticket (\<lambda>t. tk_session t = i) m)) m)"
    using Suc by blast
  then show ?case by (auto simp: drop_ticket_def intro: exI [of _ "\<lambda>x. True"])
qed

lemma global_room_sublist: "\<exists>f. make_global_room n m = filter f m"
proof (induction n arbitrary: m)
  case 0
  show ?case by (rule exI [of _ "\<lambda>x. True"]) simp
next
  case (Suc n)
  obtain f where "make_global_room n (drop_ticket (fst (oldest_ticket (\<lambda>t. True) m)) m) =
      filter f (drop_ticket (fst (oldest_ticket (\<lambda>t. True) m)) m)"
    using Suc by blast
  then show ?case by (auto simp: drop_ticket_def Let_def intro: exI [of _ "\<lambda>x. True"])
qed

lemma global_room_bound:
  "length m \<le> n + 1023 \<Longrightarrow> [] \<notin> fst ` set m \<Longrightarrow> length (make_global_room n m) < max_tickets_global"
proof (induction n arbitrary: m)
  case 0
  then show ?case by (simp add: max_tickets_global_def)
next
  case (Suc n)
  show ?case
  proof (cases "length m < max_tickets_global")
    case False
    then have "m \<noteq> []" by (cases m) (simp_all add: max_tickets_global_def)
    then have "\<exists>e \<in> set m. True" using hd_in_set by blast
    note e = oldest_found [of m "\<lambda>t. True", OF this] drop_oldest_less [of m "\<lambda>t. True", OF this]
    then have "fst (oldest_ticket (\<lambda>t. True) m) \<noteq> []" using Suc.prems(2) by (metis image_eqI)
    moreover have "length (make_global_room n (drop_ticket (fst (oldest_ticket (\<lambda>t. True) m)) m)) < max_tickets_global"
    proof (rule Suc.IH)
      show "length (drop_ticket (fst (oldest_ticket (\<lambda>t. True) m)) m) \<le> n + 1023" using e(2) Suc.prems(1) by simp
      show "[] \<notin> fst ` set (drop_ticket (fst (oldest_ticket (\<lambda>t. True) m)) m)"
        using Suc.prems(2) unfolding drop_ticket_def by (meson filter_is_subset image_mono subsetD)
    qed
    ultimately show ?thesis using False by (simp add: Let_def)
  qed simp
qed

lemma tickets_of_filter: "tickets_of i (filter f m) \<le> tickets_of i m"
  by (induction m) (auto simp: tickets_of_def)

lemma tickets_ok_filter:
  assumes "tickets_ok m"
  shows "tickets_ok (filter f m)"
proof -
  have "length (filter f m) \<le> max_tickets_global" using assms length_filter_le [of f m] unfolding tickets_ok_def by linarith
  moreover have "tickets_of i (filter f m) \<le> max_tickets_per_session" for i
    using assms tickets_of_filter [of i f m] by (metis le_trans tickets_ok_def)
  moreover have "[] \<notin> fst ` set (filter f m)" using assms by (auto simp: tickets_ok_def)
  ultimately show ?thesis using assms by (simp add: tickets_ok_def distinct_map_filter)
qed

lemma put_ticket_ok:
  assumes "tickets_ok m" and "t \<noteq> []"
  shows "tickets_ok (put_ticket t sn expires now m)"
proof -
  let ?i = "sn_id sn"
  define l where "l = filter (\<lambda>e. now < tk_expires (snd e)) m"
  define r where "r = make_session_room (length l) ?i l"
  define g where "g = make_global_room (length r) r"
  have l: "tickets_ok l" unfolding l_def by (rule tickets_ok_filter [OF assms(1)])
  obtain f1 where f1: "r = filter f1 l" using session_room_sublist r_def by blast
  obtain f2 where f2: "g = filter f2 r" using global_room_sublist g_def by blast
  have r: "tickets_ok r" "tickets_of ?i r < max_tickets_per_session"
    using tickets_ok_filter [OF l] f1 apply simp
    using session_room_bound [of ?i l "length l"] length_filter_le [of "\<lambda>e. tk_session (snd e) = ?i" l] r_def by simp
  have "[] \<notin> fst ` set r" using r(1) by (simp add: tickets_ok_def)
  then have g: "tickets_ok g" "length g < max_tickets_global"
    using tickets_ok_filter [OF r(1)] f2 global_room_bound [of r "length r"] g_def by auto
  define d where "d = drop_ticket t g"
  have d: "tickets_ok d" "length d \<le> length g" "t \<notin> fst ` set d"
    using tickets_ok_filter [OF g(1)] by (auto simp: d_def drop_ticket_def)
  have "tickets_of ?i d \<le> tickets_of ?i g" "tickets_of ?i g \<le> tickets_of ?i r"
    unfolding d_def drop_ticket_def f2 by (rule tickets_of_filter)+
  then have "tickets_of ?i d < max_tickets_per_session" using r(2) by simp
  moreover have "put_ticket t sn expires now m = d @ [(t, \<lparr>tk_session = ?i, tk_jti = sn_jti sn, tk_expires = expires\<rparr>)]"
    by (simp add: put_ticket_def Let_def l_def r_def g_def d_def)
  ultimately show ?thesis using d g(2) assms(2) by (auto simp: tickets_ok_def tickets_of_def)
qed

lemma quiet_tickets_ok: "quiet_step s t \<Longrightarrow> tickets_ok (au_tickets s) \<Longrightarrow> tickets_ok (au_tickets t)"
proof (induction rule: quiet_step.induct)
  case (user_set s i b)
  then show ?case using set_user_rows [of i b s] by (auto simp: drop_sessions_def map_users_def)
next
  case (user_deleted s i)
  then show ?case using delete_user_rows [of i s] by (auto simp: drop_user_def)
qed (simp_all add: put_ticket_ok drop_ticket_def tickets_ok_filter insert_user_row_def map_keys_def map_users_def
    drop_sessions_def drop_account_def)

section \<open>All operations\<close>

datatype auth_answer =
    KeyAnswer "auth_error + api_key"
  | DoneAnswer "auth_error + unit"
  | LoginAnswer "auth_error + login_result"
  | OtherAnswer

definition answering :: "('a \<Rightarrow> auth_answer) \<Rightarrow> 'a auth \<Rightarrow> auth_answer auth" where
  "answering f p = bindp p (\<lambda>r. Return (f r))"

inductive auth_operation :: "(string \<Rightarrow> string) \<Rightarrow> auth_answer auth \<Rightarrow> bool" for digest where
  op_authenticate: "auth_operation digest (answering KeyAnswer (authenticate_api_key_info digest n trusted token))"
| op_create_key: "auth_operation digest (answering (\<lambda>r. OtherAnswer) (create_api_key digest c))"
| op_create_key_for_user: "auth_operation digest (answering (\<lambda>r. OtherAnswer) (create_api_key_for_user digest name i))"
| op_managed_key: "auth_operation digest (answering (\<lambda>r. OtherAnswer) (ensure_managed_inference_key digest a))"
| op_enable_key: "auth_operation digest (answering DoneAnswer (set_api_key_enabled k b))"
| op_update_key: "auth_operation digest (answering DoneAnswer (update_api_key k u))"
| op_rotate_key: "auth_operation digest (answering (\<lambda>r. OtherAnswer) (rotate_api_key digest k))"
| op_rotate_managed: "auth_operation digest (answering (\<lambda>r. OtherAnswer) (rotate_managed_api_key digest k))"
| op_bootstrap: "auth_operation digest (answering (\<lambda>r. OtherAnswer) (bootstrap name password))"
| op_create_user: "auth_operation digest (answering (\<lambda>r. OtherAnswer) (create_user name password))"
| op_enable_user: "auth_operation digest (answering DoneAnswer (set_user_enabled i b))"
| op_delete_user: "auth_operation digest (answering DoneAnswer (delete_user j i))"
| op_reset_password: "auth_operation digest (answering DoneAnswer (reset_password i password))"
| op_change_password: "auth_operation digest (answering DoneAnswer (change_password i current password keep))"
| op_create_account: "auth_operation digest (answering (\<lambda>r. OtherAnswer) (create_service_account name i))"
| op_hidden_account: "auth_operation digest (answering (\<lambda>r. OtherAnswer) (ensure_hidden_service_account name))"
| op_update_account: "auth_operation digest (answering DoneAnswer (update_service_account a next e))"
| op_delete_account: "auth_operation digest (answering DoneAnswer (delete_service_account a))"
| op_delete_hidden: "auth_operation digest (answering DoneAnswer (delete_hidden_service_account_by_name name))"
| op_login: "auth_operation digest (answering LoginAnswer (login_bearer digest name password address agent))"
| op_bearer: "auth_operation digest (answering (\<lambda>r. OtherAnswer) (authenticate_bearer digest claims))"
| op_revoke: "auth_operation digest (answering DoneAnswer (revoke_session k))"
| op_revoke_own: "auth_operation digest (answering DoneAnswer (revoke_own_session i k))"
| op_revoke_others: "auth_operation digest (answering (\<lambda>r. OtherAnswer) (revoke_other_sessions i k))"
| op_revoke_all: "auth_operation digest (answering (\<lambda>r. OtherAnswer) (revoke_all_sessions i))"
| op_issue: "auth_operation digest (answering (\<lambda>r. OtherAnswer) (issue_web_socket_ticket digest sn))"
| op_consume: "auth_operation digest (answering (\<lambda>r. OtherAnswer) (consume_web_socket_ticket digest ticket))"
| op_lifetime: "auth_operation digest (answering (\<lambda>r. OtherAnswer) (set_session_lifetime i))"

definition calm :: "(string \<Rightarrow> string) \<Rightarrow> auth_answer auth \<Rightarrow> bool" where
  "calm digest p \<longleftrightarrow> quiet p \<or> (\<exists>n trusted token. p = answering KeyAnswer (authenticate_api_key_info digest n trusted token))"

lemma quiet_answering: "quiet p \<Longrightarrow> quiet (answering f p)"
  unfolding answering_def by (intro quiet_rules)

lemma operation_calm: "auth_operation digest p \<Longrightarrow> calm digest p"
proof (induction rule: auth_operation.induct)
  case (op_authenticate n trusted token)
  then show ?case by (auto simp: calm_def)
qed (auto simp: calm_def create_service_account_def revoke_other_sessions_def revoke_all_sessions_def set_session_lifetime_def
    intro!: quiet_answering quiet_create_key quiet_set_enabled quiet_update_key quiet_rotate quiet_users quiet_accounts
    quiet_sessions quiet_tickets quiet_Return acts_in_update quiet_intros)

lemma quiet_auth_ok: "quiet_step s t \<Longrightarrow> auth_ok s \<Longrightarrow> auth_ok t"
  unfolding auth_ok_def
  using quiet_users_ok quiet_accounts_ok quiet_keys_ok quiet_sessions_ok quiet_gate_ok quiet_tickets_ok by blast

lemma cache_auth_ok: "auth_ok s \<Longrightarrow> auth_ok (s\<lparr>au_cache := c\<rparr>)"
  unfolding auth_ok_def
  using keys_ok_frame [of "s\<lparr>au_cache := c\<rparr>" s] sessions_ok_frame [of "s\<lparr>au_cache := c\<rparr>" s]
  by (auto simp: users_ok_def accounts_ok_def gate_ok_def user_ids_def account_ids_def)

lemma auth_step_ok: "auth_step\<^sup>*\<^sup>* s t \<Longrightarrow> auth_ok s \<Longrightarrow> auth_ok t"
  by (induction rule: rtranclp_induct) (auto simp: auth_step_def intro: quiet_auth_ok cache_auth_ok)

text \<open>Authenticating a key acts in \<open>auth_step\<close>.\<close>

abbreviation caching :: "'a auth \<Rightarrow> bool" where
  "caching p \<equiv> acts_in auth_world_ok auth_step\<^sup>*\<^sup>* p"

lemma quiet_caching: "quiet p \<Longrightarrow> caching p"
  by (erule acts_in_mono) (erule rtranclp_mono [THEN predicate2D, rotated], simp add: auth_step_def le_fun_def)

lemma sets_cache: "auth_step\<^sup>*\<^sup>* s (s\<lparr>au_cache := c\<rparr>)"
  by (rule r_into_rtranclp) (auto simp: auth_step_def)

lemma caching_cache:
  "caching (remember_api_key h item g)" "caching (stamp_cached_api_key h at g)" "caching (cached_api_key h)"
  unfolding remember_api_key_def stamp_cached_api_key_def cached_api_key_def
  by (auto intro!: acts_in_act acts_in_readp sets_cache simp: Let_def split: option.split)

lemmas caching_rules = quiet_caching [OF quiet_Return] quiet_caching [OF quiet_readp] quiet_caching [OF quiet_record_use]
  quiet_caching [OF quiet_reads(6)] quiet_caching [OF quiet_uses(1)] caching_cache acts_in_bind

lemma caching_use_entry: "caching (use_entry h item g)"
  unfolding use_entry_def by (auto intro!: caching_rules split: option.split)

lemma caching_authenticate: "caching (authenticate_api_key_info digest n trusted token)"
proof -
  have "caching (authenticate_round h)" for h
    unfolding authenticate_round_def by (auto intro!: caching_rules caching_use_entry split: option.split sum.split)
  then have "caching (authenticate_rounds n h)" for h
    by (induction n) (auto intro!: acts_in_bind acts_in_Act acts_in_Return split: option.split)
  then show ?thesis unfolding authenticate_api_key_info_def by (auto intro!: acts_in_Return)
qed

lemma operation_caching:
  assumes "auth_operation digest p"
  shows "caching p"
  using operation_calm [OF assms] unfolding calm_def
proof
  assume "\<exists>n trusted token. p = answering KeyAnswer (authenticate_api_key_info digest n trusted token)"
  then show ?thesis by (auto simp: answering_def intro: acts_in_bind caching_authenticate acts_in_Return)
qed (rule quiet_caching)

lemma new_auth_ok: "auth_ok (new_auth lifetime)"
  by (simp add: auth_ok_def new_auth_def users_ok_def accounts_ok_def keys_ok_def sessions_ok_def gate_ok_def tickets_ok_def
      tickets_of_def)

lemma auth_visits_ok:
  assumes "pool_visits auth_world_ok (\<lambda>s. auth_operation digest) (H0, s0, []) (H, s, ps)" and "auth_ok s0" and "s0 \<in> H0"
  shows "auth_ok s"
proof -
  let ?G = "\<lambda>H s t. auth_ok s \<longrightarrow> auth_ok t"
  have "proves auth_world_ok ?G (\<lambda>H s. auth_ok s) p (\<lambda>a H s. True)" if "auth_operation digest p" for p
    by (rule proves_pre [OF acts_in_obeys [OF operation_caching [OF that]]]) (simp_all add: auth_step_ok)
  from pool_asserts [OF assms(1) this] assms(2,3) show ?thesis by (simp add: stable_def)
qed

text \<open>
  C7. The tables of the authentication service stay sound: in every state that its operations can reach,
  however they interleave, ids, names and hashes are unique, every API key and every session belongs to an
  owner that exists, an enabled user is left if there is any user, there are no more than 1024 tickets and
  8 of a session, and no more than 2 hashes of passwords are computed at a time with 6 admitted.
\<close>

theorem auth_tables_sound:
  assumes "pool_visits auth_world_ok (\<lambda>s. auth_operation digest) ({new_auth lifetime}, new_auth lifetime, []) (H, s, ps)"
  shows "distinct (map ur_id (au_users s)) \<and> distinct (map ur_username (au_users s)) \<and> distinct (map kr_id (au_keys s)) \<and>
    distinct (map kr_token (au_keys s)) \<and> (\<forall>r \<in> set (au_keys s). owner_exists s (kr_owner r)) \<and>
    (\<forall>e \<in> set (au_sessions s). user_at s (se_user e) \<noteq> None) \<and>
    (au_users s \<noteq> [] \<longrightarrow> (\<exists>u \<in> set (au_users s). ur_enabled u)) \<and>
    length (au_tickets s) \<le> 1024 \<and> (\<forall>i. tickets_of i (au_tickets s) \<le> 8) \<and> au_active s \<le> 2 \<and> au_admitted s \<le> 6"
proof -
  have "auth_ok s" by (rule auth_visits_ok [OF assms new_auth_ok]) simp
  then show ?thesis
    by (simp add: auth_ok_def users_ok_def keys_ok_def sessions_ok_def tickets_ok_def gate_ok_def max_tickets_global_def
        max_tickets_per_session_def password_work_max_active_def password_work_max_backlog_def)
qed

end
