(* ===== verification/Auth_Revocation.thy ===== *)
theory Auth_Revocation
  imports Auth_Safety
begin

text \<open>
  Whether a disabled API key is refused at once, although the service keeps keys in a cache. The cache is safe
  for every interleaving: an answer is never older than the last time the cache was cleared. The statement that
  disables a key can be undone by a concurrent update, and a password reset by a concurrent login.
\<close>

section \<open>The cache is never older than its generation\<close>

definition usable_item :: "api_key \<Rightarrow> bool" where
  "usable_item i \<longleftrightarrow> ak_enabled i \<and> ak_owner_enabled i"

definition owner_enabled :: "auth_state \<Rightarrow> key_owner \<Rightarrow> bool" where
  "owner_enabled s owner =
     (case owner of
        OwnerUser i \<Rightarrow> (case user_at s i of None \<Rightarrow> False | Some u \<Rightarrow> ur_enabled u)
      | OwnerAccount i \<Rightarrow> (case account_at s i of None \<Rightarrow> False | Some a \<Rightarrow> sa_enabled a))"

text \<open>The database has an enabled key of an enabled owner with this hash.\<close>

definition key_usable :: "string \<Rightarrow> auth_state \<Rightarrow> bool" where
  "key_usable h s \<longleftrightarrow> (\<exists>r \<in> set (au_keys s). kr_token r = h \<and> kr_enabled r \<and> owner_enabled s (kr_owner r))"

definition cached_usable :: "string \<Rightarrow> auth_state \<Rightarrow> bool" where
  "cached_usable h s \<longleftrightarrow> (case au_cache s h of None \<Rightarrow> False | Some i \<Rightarrow> usable_item i)"

definition usable_in :: "auth_state set \<Rightarrow> nat \<Rightarrow> string \<Rightarrow> bool" where
  "usable_in H g h \<longleftrightarrow> (\<exists>u \<in> H. au_generation u = g \<and> key_usable h u)"

definition cache_rule :: "auth_state set \<Rightarrow> auth_state \<Rightarrow> auth_state \<Rightarrow> bool" where
  "cache_rule H s t \<longleftrightarrow> au_generation s \<le> au_generation t \<and>
     (\<forall>h. cached_usable h t \<longrightarrow>
        au_generation t = au_generation s \<and> (cached_usable h s \<or> usable_in H (au_generation s) h))"

definition cache_fresh :: "auth_state set \<Rightarrow> auth_state \<Rightarrow> bool" where
  "cache_fresh H s \<longleftrightarrow> (\<forall>h. cached_usable h s \<longrightarrow> usable_in H (au_generation s) h)"

lemma usable_in_insert: "usable_in H g h \<Longrightarrow> usable_in (insert t H) g h"
  by (auto simp: usable_in_def)

lemma cache_rule_refl [simp]: "cache_rule H s s"
  by (simp add: cache_rule_def)

lemma stable_fresh: "stable cache_rule cache_fresh"
  unfolding stable_def cache_fresh_def cache_rule_def by (metis usable_in_insert)

lemma quiet_step_cache:
  "quiet_step s t \<Longrightarrow> au_generation t = au_generation s \<and> au_cache t = au_cache s \<or>
     au_generation t = au_generation s + 1 \<and> au_cache t = Map.empty"
proof (induction rule: quiet_step.induct)
  case (user_set s i b)
  then show ?case using set_user_rows [of i b s] by (auto simp: drop_sessions_def map_users_def)
next
  case (user_deleted s i)
  then show ?case using delete_user_rows [of i s] by (auto simp: drop_user_def)
qed (simp_all add: insert_user_row_def map_keys_def map_users_def drop_sessions_def drop_account_def)

lemma quiet_steps_cache:
  "quiet_step\<^sup>*\<^sup>* s t \<Longrightarrow> au_generation s \<le> au_generation t \<and>
     (\<forall>h. cached_usable h t \<longrightarrow> au_generation t = au_generation s \<and> cached_usable h s)"
proof (induction rule: rtranclp_induct)
  case (step t u)
  from quiet_step_cache [OF step(2)] step(3) show ?case by (auto simp: cached_usable_def)
qed simp

lemma quiet_cache_rule: "quiet_step\<^sup>*\<^sup>* s t \<Longrightarrow> cache_rule H s t"
  using quiet_steps_cache unfolding cache_rule_def by blast

lemma quiet_proves: "quiet p \<Longrightarrow> stable cache_rule A \<Longrightarrow> proves auth_world_ok cache_rule A p (\<lambda>a. A)"
  by (erule acts_in_proves) (auto intro: quiet_cache_rule)

section \<open>What an authentication knows between its actions\<close>

text \<open>The generation \<open>g\<close> was read after \<open>g0\<close>; and an entry that is usable was usable in it, if it still lasts.\<close>

definition knows_generation :: "nat \<Rightarrow> nat \<Rightarrow> auth_state set \<Rightarrow> auth_state \<Rightarrow> bool" where
  "knows_generation g0 g H s \<longleftrightarrow> cache_fresh H s \<and> g0 \<le> g \<and> g \<le> au_generation s"

definition knows_entry :: "nat \<Rightarrow> nat \<Rightarrow> string \<Rightarrow> api_key \<Rightarrow> auth_state set \<Rightarrow> auth_state \<Rightarrow> bool" where
  "knows_entry g0 g h item H s \<longleftrightarrow> knows_generation g0 g H s \<and>
     (usable_item item \<longrightarrow> g = au_generation s \<longrightarrow> usable_in H g h)"

definition usable_after :: "nat \<Rightarrow> string \<Rightarrow> auth_state set \<Rightarrow> auth_state \<Rightarrow> bool" where
  "usable_after g0 h H s \<longleftrightarrow> (\<exists>u \<in> H. g0 \<le> au_generation u \<and> key_usable h u)"

definition started_at :: "nat \<Rightarrow> auth_state set \<Rightarrow> auth_state \<Rightarrow> bool" where
  "started_at g0 H s \<longleftrightarrow> cache_fresh H s \<and> g0 \<le> au_generation s"

lemma stable_after: "stable cache_rule (usable_after g0 h)"
  by (auto simp: stable_def usable_after_def)

lemma stable_started: "stable cache_rule (started_at g0)"
  using stable_fresh unfolding stable_def started_at_def cache_rule_def by (meson le_trans)

lemma stable_generation: "stable cache_rule (knows_generation g0 g)"
  using stable_fresh unfolding stable_def knows_generation_def cache_rule_def by (meson le_trans)

lemma stable_entry: "stable cache_rule (knows_entry g0 g h item)"
  unfolding stable_def
proof (intro allI impI)
  fix H s t
  assume s: "s \<in> H" "knows_entry g0 g h item H s" "cache_rule H s t"
  have "knows_generation g0 g (insert t H) t"
    using stable_generation s unfolding stable_def knows_entry_def by blast
  moreover have "usable_in (insert t H) g h" if "usable_item item" "g = au_generation t"
    using s that usable_in_insert by (auto simp: knows_entry_def knows_generation_def cache_rule_def)
  ultimately show "knows_entry g0 g h item (insert t H) t" by (simp add: knows_entry_def)
qed

lemma generation_started: "knows_generation g0 g H s \<Longrightarrow> started_at g0 H s"
  by (simp add: knows_generation_def started_at_def)

lemma scanned_usable:
  assumes "find (\<lambda>r. kr_token r = h) (au_keys s) = Some r" and "usable_item (scan_api_key s today ids r)"
  shows "key_usable h s"
proof -
  from assms(1) have "r \<in> set (au_keys s)" "kr_token r = h" by (auto simp: find_Some_iff)
  moreover have "kr_enabled r" "owner_enabled s (kr_owner r)"
    using assms(2) by (auto simp: usable_item_def scan_api_key_def owner_enabled_def Let_def split: key_owner.splits option.splits)
  ultimately show ?thesis unfolding key_usable_def by blast
qed

lemma lookup_knows:
  "proves auth_world_ok cache_rule (knows_generation g0 g) (lookup_api_key_by_hash h)
     (\<lambda>r H s. case r of Inl e \<Rightarrow> knows_generation g0 g H s | Inr item \<Rightarrow> knows_entry g0 g h item H s)"
  unfolding lookup_api_key_by_hash_def then_ok_def
proof (rule proves_bind [OF quiet_proves [OF quiet_reads(1) stable_generation]])
  fix r :: "auth_error + string list"
  show "proves auth_world_ok cache_rule (knows_generation g0 g)
      (case r of Inl e \<Rightarrow> Return (Inl e) | Inr ids \<Rightarrow> scan_row (\<lambda>r. kr_token r = h) ids)
      (\<lambda>r H s. case r of Inl e \<Rightarrow> knows_generation g0 g H s | Inr item \<Rightarrow> knows_entry g0 g h item H s)"
  proof (cases r)
    case (Inr ids)
    show ?thesis
      unfolding Inr sum.case scan_row_def query_now_def
    proof (rule proves_await)
      fix H s w t a
      assume s: "s \<in> H" "knows_generation g0 g H s"
        and f: "(if aw_down w then Some (s, Inl DatabaseError) else if au_in_transaction s then None
           else Some (s, case find (\<lambda>r. kr_token r = h) (au_keys s) of None \<Rightarrow> Inl NoRows
             | Some r \<Rightarrow> Inr (scan_api_key s (aw_today w) ids r))) = Some (t, a)"
      from f have t: "t = s" by (auto split: if_splits)
      have "knows_entry g0 g h item H s" if "a = Inr item" for item
      proof -
        from f that obtain r where r: "find (\<lambda>r. kr_token r = h) (au_keys s) = Some r" "item = scan_api_key s (aw_today w) ids r"
          by (auto split: if_splits option.splits)
        have "key_usable h s" if "usable_item item" by (rule scanned_usable [OF r(1) that [unfolded r(2)]])
        then show ?thesis using s by (auto simp: knows_entry_def usable_in_def)
      qed
      then show "cache_rule H s t \<and> (case a of Inl e \<Rightarrow> knows_generation g0 g (insert t H) t
          | Inr item \<Rightarrow> knows_entry g0 g h item (insert t H) t)"
        using s t by (auto simp: insert_absorb split: sum.split)
    next
      fix a :: "auth_error + api_key"
      show "stable cache_rule (\<lambda>H s. case a of Inl e \<Rightarrow> knows_generation g0 g H s | Inr item \<Rightarrow> knows_entry g0 g h item H s)"
        using stable_generation stable_entry by (cases a) auto
    qed
  qed (auto intro: proves_Return)
qed

lemma remember_knows:
  "proves auth_world_ok cache_rule (knows_entry g0 g h item) (remember_api_key h item g) (\<lambda>_. knows_entry g0 g h item)"
  unfolding remember_api_key_def
proof (rule proves_act [OF _ stable_entry])
  fix H s w t a
  assume s: "s \<in> H" "knows_entry g0 g h item H s"
    and f: "(if au_generation s \<noteq> g then (s, False) else (s\<lparr>au_cache := (au_cache s)(h \<mapsto> item)\<rparr>, True)) = (t, a)"
  have "cache_rule H s t"
    using s f by (auto simp: cache_rule_def knows_entry_def cached_usable_def split: if_splits)
  then show "cache_rule H s t \<and> knows_entry g0 g h item (insert t H) t"
    using stable_entry s unfolding stable_def by blast
qed

lemma stamp_knows:
  assumes "usable_item item"
  shows "proves auth_world_ok cache_rule (knows_entry g0 g h item) (stamp_cached_api_key h at g)
     (\<lambda>r H s. case r of None \<Rightarrow> started_at g0 H s | Some x \<Rightarrow> usable_after g0 h H s)"
  unfolding stamp_cached_api_key_def
proof (rule proves_act)
  fix H s w t a
  assume s: "s \<in> H" "knows_entry g0 g h item H s"
    and f: "(if au_generation s \<noteq> g then (s, None) else case au_cache s h of None \<Rightarrow> (s, None)
       | Some item \<Rightarrow> let item' = item\<lparr>ak_used := Some at\<rparr> in (s\<lparr>au_cache := (au_cache s)(h \<mapsto> item')\<rparr>, Some item')) = (t, a)"
  have r: "cache_rule H s t"
    using f by (auto simp: cache_rule_def cached_usable_def usable_item_def Let_def split: if_splits option.splits)
  have "started_at g0 (insert t H) t"
    using s r stable_started generation_started unfolding stable_def knows_entry_def by blast
  moreover have "usable_after g0 h (insert t H) t" if "a = Some x" for x
    using s f that assms
    by (auto simp: knows_entry_def knows_generation_def usable_after_def usable_in_def split: if_splits option.splits)
  ultimately show "cache_rule H s t \<and> (case a of None \<Rightarrow> started_at g0 (insert t H) t | Some x \<Rightarrow> usable_after g0 h (insert t H) t)"
    using r by (auto split: option.split)
next
  fix a :: "api_key option"
  show "stable cache_rule (\<lambda>H s. case a of None \<Rightarrow> started_at g0 H s | Some x \<Rightarrow> usable_after g0 h H s)"
    using stable_started stable_after by (cases a) auto
qed

text \<open>The outcome of a round and of the whole: a key that is accepted was usable after \<open>g0\<close>.\<close>

definition round_after :: "nat \<Rightarrow> string \<Rightarrow> (auth_error + api_key) option \<Rightarrow> auth_state set \<Rightarrow> auth_state \<Rightarrow> bool" where
  "round_after g0 h r H s =
     (case r of None \<Rightarrow> started_at g0 H s | Some (Inl e) \<Rightarrow> True | Some (Inr item) \<Rightarrow> usable_after g0 h H s)"

lemma use_entry_after:
  "proves auth_world_ok cache_rule (knows_entry g0 g h item) (use_entry h item g) (round_after g0 h)"
  unfolding use_entry_def
proof (rule proves_bind [OF quiet_proves [OF quiet_readp stable_entry]])
  fix today :: date
  show "proves auth_world_ok cache_rule (knows_entry g0 g h item)
     (if \<not> ak_enabled item \<or> \<not> ak_owner_enabled item \<or> api_key_expired (ak_expires item) today
      then Return (Some (Inl KeyInvalid))
      else bindp (readp (\<lambda>w s. aw_now w)) (\<lambda>now. bindp (stamp_cached_api_key h (unix now) g) (\<lambda>stamped.
        case stamped of None \<Rightarrow> Return None | Some item \<Rightarrow> bindp (record_use item now) (\<lambda>r. Return (Some r)))))
     (round_after g0 h)"
  proof (cases "usable_item item")
    case True
    have after: "proves auth_world_ok cache_rule (\<lambda>H s. case stamped of None \<Rightarrow> started_at g0 H s | Some x \<Rightarrow> usable_after g0 h H s)
       (case stamped of None \<Rightarrow> Return None | Some item \<Rightarrow> bindp (record_use item now) (\<lambda>r. Return (Some r))) (round_after g0 h)"
      for stamped now
    proof (cases stamped)
      case (Some x)
      have "proves auth_world_ok cache_rule (usable_after g0 h) (bindp (record_use x now) (\<lambda>r. Return (Some r))) (round_after g0 h)"
        by (rule proves_bind [OF quiet_proves [OF quiet_record_use stable_after]])
          (auto intro!: proves_Return simp: round_after_def split: sum.split)
      then show ?thesis by (simp add: Some)
    qed (auto intro: proves_Return simp: round_after_def)
    have "proves auth_world_ok cache_rule (knows_entry g0 g h item)
       (bindp (readp (\<lambda>w s. aw_now w)) (\<lambda>now. bindp (stamp_cached_api_key h (unix now) g) (\<lambda>stamped.
         case stamped of None \<Rightarrow> Return None | Some item \<Rightarrow> bindp (record_use item now) (\<lambda>r. Return (Some r))))) (round_after g0 h)"
      by (rule proves_bind [OF quiet_proves [OF quiet_readp stable_entry]], rule proves_bind [OF stamp_knows [OF True]], rule after)
    then show ?thesis by (auto intro!: proves_Return simp: round_after_def)
  qed (auto intro!: proves_Return simp: usable_item_def round_after_def)
qed

lemma round_knows: "proves auth_world_ok cache_rule (started_at g0) (authenticate_round h) (round_after g0 h)"
  unfolding authenticate_round_def
proof (rule proves_bind)
  let ?Q = "\<lambda>(c, g) H s. case c of None \<Rightarrow> knows_generation g0 g H s | Some item \<Rightarrow> knows_entry g0 g h item H s"
  show "proves auth_world_ok cache_rule (started_at g0) (cached_api_key h) ?Q"
    unfolding cached_api_key_def readp_def
  proof (rule proves_act)
    fix H s w t a
    assume s: "s \<in> H" "started_at g0 H s" and f: "(s, au_cache s h, au_generation s) = (t, a)"
    then show "cache_rule H s t \<and> ?Q a (insert t H) t"
      by (auto simp: insert_absorb started_at_def knows_generation_def knows_entry_def cache_fresh_def cached_usable_def
          split: option.splits)
  next
    fix a :: "api_key option \<times> nat"
    show "stable cache_rule (?Q a)" using stable_generation stable_entry by (cases a, cases "fst a") auto
  qed
next
  fix a :: "api_key option \<times> nat"
  obtain c g where a: "a = (c, g)" by (cases a)
  have looked: "proves auth_world_ok cache_rule (\<lambda>H s. case r of Inl e \<Rightarrow> knows_generation g0 g H s | Inr item \<Rightarrow> knows_entry g0 g h item H s)
     (case r of Inl e \<Rightarrow> Return (Some (Inl (if e = NoRows then KeyInvalid else e)))
      | Inr item \<Rightarrow> bindp (remember_api_key h item g) (\<lambda>remembered. if \<not> remembered then Return None
          else bindp (seed_api_use_write (ak_id item) (ak_used item)) (\<lambda>_. use_entry h item g))) (round_after g0 h)" for r
  proof (cases r)
    case (Inr item)
    have "proves auth_world_ok cache_rule (knows_entry g0 g h item)
       (if \<not> remembered then Return None else bindp (seed_api_use_write (ak_id item) (ak_used item)) (\<lambda>_. use_entry h item g))
       (round_after g0 h)" for remembered
      by (auto intro!: proves_Return proves_bind [OF quiet_proves [OF quiet_uses(1) stable_entry] use_entry_after]
          simp: round_after_def knows_entry_def dest: generation_started)
    then show ?thesis unfolding Inr sum.case by (rule proves_bind [OF remember_knows])
  qed (auto intro: proves_Return simp: round_after_def)
  show "proves auth_world_ok cache_rule
      ((\<lambda>(c, g) H s. case c of None \<Rightarrow> knows_generation g0 g H s | Some item \<Rightarrow> knows_entry g0 g h item H s) a)
      (case a of (Some item, g) \<Rightarrow> use_entry h item g
       | (None, g) \<Rightarrow> bindp (lookup_api_key_by_hash h) (\<lambda>r. case r of
           Inl e \<Rightarrow> Return (Some (Inl (if e = NoRows then KeyInvalid else e)))
         | Inr item \<Rightarrow> bindp (remember_api_key h item g) (\<lambda>remembered. if \<not> remembered then Return None
             else bindp (seed_api_use_write (ak_id item) (ak_used item)) (\<lambda>_. use_entry h item g)))) (round_after g0 h)"
    using use_entry_after proves_bind [OF lookup_knows looked] by (cases c) (simp_all add: a)
qed

lemma rounds_know:
  "proves auth_world_ok cache_rule (started_at g0) (authenticate_rounds n h)
     (\<lambda>r H s. case r of Inl e \<Rightarrow> True | Inr item \<Rightarrow> usable_after g0 h H s)"
proof (induction n)
  case 0
  show ?case by (auto intro: proves_Act)
next
  case (Suc n)
  have "proves auth_world_ok cache_rule (round_after g0 h r)
     (case r of None \<Rightarrow> authenticate_rounds n h | Some a \<Rightarrow> Return a)
     (\<lambda>r H s. case r of Inl e \<Rightarrow> True | Inr item \<Rightarrow> usable_after g0 h H s)" for r
  proof (cases r)
    case None
    have "round_after g0 h None = started_at g0" by (intro ext) (simp add: round_after_def)
    then show ?thesis using Suc None by simp
  qed (auto intro!: proves_Return simp: round_after_def split: sum.splits)
  then show ?case unfolding authenticate_rounds.simps by (rule proves_bind [OF round_knows])
qed

lemma authentication_knows:
  "proves auth_world_ok cache_rule (started_at g0) (answering KeyAnswer (authenticate_api_key_info digest n False token))
     (\<lambda>a H s. case a of KeyAnswer (Inr item) \<Rightarrow> usable_after g0 (digest token) H s | _ \<Rightarrow> True)"
  unfolding answering_def authenticate_api_key_info_def
  by (auto intro!: proves_bind [OF rounds_know] proves_Return split: sum.splits)

lemma operation_cache_rule:
  assumes "auth_operation digest p"
  shows "proves auth_world_ok cache_rule cache_fresh p (\<lambda>a H s. True)"
  using operation_calm [OF assms] unfolding calm_def
proof
  assume "quiet p"
  then show ?thesis by (rule proves_post [OF quiet_proves [OF _ stable_fresh]]) simp
next
  assume "\<exists>n trusted token. p = answering KeyAnswer (authenticate_api_key_info digest n trusted token)"
  then obtain n trusted token where p: "p = answering KeyAnswer (authenticate_api_key_info digest n trusted token)" by blast
  show ?thesis
  proof (cases trusted)
    case True
    then show ?thesis unfolding p answering_def authenticate_api_key_info_def by (auto intro: proves_Return)
  next
    case False
    have "proves auth_world_ok cache_rule cache_fresh (answering KeyAnswer (authenticate_api_key_info digest n False token))
        (\<lambda>a H s. case a of KeyAnswer (Inr item) \<Rightarrow> usable_after 0 (digest token) H s | _ \<Rightarrow> True)"
      by (rule proves_pre [OF authentication_knows]) (simp add: started_at_def)
    then show ?thesis using p False by (auto elim: proves_post)
  qed
qed


section \<open>A small installation\<close>

definition sample_auth_world :: auth_world where
  "sample_auth_world = \<lparr>aw_now = 5000000000, aw_today = (2026, 1, 1), aw_down = False, aw_cancelled = False,
     aw_random = Some ''r'', aw_password_hash = (\<lambda>p. ''new''), aw_password_ok = (\<lambda>p e. True)\<rparr>"

definition sample_key :: key_row where
  "sample_key = \<lparr>kr_id = ''k'', kr_name = ''ci'', kr_prefix = ''sk-a'', kr_token = ''sk-a'', kr_type = ''full'', kr_owner = OwnerUser 1,
     kr_enabled = True, kr_expires = None, kr_instances = [], kr_creator = None, kr_created = 1, kr_used = None\<rparr>"

definition sample_user :: user_row where
  "sample_user = \<lparr>ur_id = 1, ur_username = ''admin'', ur_password = dummy_password_hash, ur_enabled = True, ur_created = 1,
     ur_last_login = None\<rparr>"

text \<open>The manager right after a start.\<close>

definition sample_auth :: auth_state where
  "sample_auth = (new_auth 3600000000000)\<lparr>au_users := [sample_user], au_keys := [sample_key], au_next_user := 2\<rparr>"

definition rename_key :: update_api_key_input where
  "rename_key = \<lparr>ui_name = Some ''build'', ui_user = None, ui_account = None, ui_instances = None, ui_expires = None,
     ui_clear_expires = False, ui_enabled = None\<rparr>"

definition turns :: "nat \<Rightarrow> nat \<Rightarrow> (auth_world \<times> nat) list" where
  "turns n i = replicate n (sample_auth_world, i)"

lemma turns_ok: "list_all (\<lambda>x. auth_world_ok (fst x)) (turns n i)"
  unfolding turns_def by (induction n) (simp_all add: auth_world_ok_def sample_auth_world_def)

text \<open>A program that is started in a pool and runs by itself.\<close>

lemma started_run:
  assumes "auth_operation digest p" and "run_answers (turns n 0) s [p] = Some (t, [Some a])"
  shows "\<exists>K qs. pool_visits auth_world_ok (\<lambda>s. auth_operation digest) ({s}, s, []) (K, t, qs) \<and> qs ! 0 = Return a"
    and "\<exists>K qs. pool_visits auth_world_ok (\<lambda>s. auth_operation digest) ({s}, s, [p]) (K, t, qs) \<and> qs ! 0 = Return a"
proof -
  from run_answersD [OF assms(2)] obtain qs where qs: "pool_run (turns n 0) (s, [p]) = Some (t, qs)" "map returned qs = [Some a]"
    by (elim exE conjE)
  from qs(2) have "returned (qs ! 0) = Some a" by (cases qs) simp_all
  then have q: "qs ! 0 = Return a" by (simp only: returned_Some)
  have "pool_visits auth_world_ok (\<lambda>s. auth_operation digest) ({s}, s, []) (insert s {s}, s, [] @ [p])"
    by (rule visits_step [OF visits_refl pool_start]) (rule assms(1))
  then have v: "pool_visits auth_world_ok (\<lambda>s. auth_operation digest) ({s}, s, []) ({s}, s, [p])" by simp
  from pool_run_visits [OF v turns_ok qs(1)] obtain K where
    "pool_visits auth_world_ok (\<lambda>s. auth_operation digest) ({s}, s, []) (K, t, qs)" ..
  with q show "\<exists>K qs. pool_visits auth_world_ok (\<lambda>s. auth_operation digest) ({s}, s, []) (K, t, qs) \<and> qs ! 0 = Return a"
    by (intro exI conjI)
  from pool_run_visits [OF visits_refl turns_ok qs(1)] obtain L where
    "pool_visits auth_world_ok (\<lambda>s. auth_operation digest) ({s}, s, [p]) (L, t, qs)" ..
  with q show "\<exists>K qs. pool_visits auth_world_ok (\<lambda>s. auth_operation digest) ({s}, s, [p]) (K, t, qs) \<and> qs ! 0 = Return a"
    by (intro exI conjI)
qed

definition accepted_id :: "auth_answer option \<Rightarrow> string option" where
  "accepted_id r = (case r of Some (KeyAnswer (Inr item)) \<Rightarrow> Some (ak_id item) | _ \<Rightarrow> None)"

lemma accepted_id_Some: "accepted_id r = Some i \<Longrightarrow> \<exists>item. r = Some (KeyAnswer (Inr item)) \<and> ak_id item = i"
  by (auto simp: accepted_id_def split: option.splits auth_answer.splits sum.splits)


theorem auth_tables_sound_witness:
  "\<exists>H s ps. pool_visits auth_world_ok (\<lambda>s. auth_operation id) ({new_auth 60}, new_auth 60, []) (H, s, ps) \<and>
    map ur_username (au_users s) = [''admin''] \<and> (\<exists>u \<in> set (au_users s). ur_enabled u) \<and> au_active s \<le> 2"
proof -
  let ?p = "answering (\<lambda>r. OtherAnswer) (bootstrap ''admin'' ''long enough'')"
  have "map_option (\<lambda>(s, r). (map ur_username (au_users s), map (\<lambda>a. a = Some OtherAnswer) r)) (run_answers (turns 11 0) (new_auth 60) [?p])
      = Some ([''admin''], [True])"
    by code_simp
  then obtain s where r: "run_answers (turns 11 0) (new_auth 60) [?p] = Some (s, [Some OtherAnswer])" "map ur_username (au_users s) = [''admin'']"
    by (auto simp: map_eq_Cons_conv)
  from started_run(1) [OF op_bootstrap r(1)] obtain H ps where
    v: "pool_visits auth_world_ok (\<lambda>s. auth_operation id) ({new_auth 60}, new_auth 60, []) (H, s, ps)" by blast
  have "au_users s \<noteq> []" using r(2) by auto
  then have "\<exists>u \<in> set (au_users s). ur_enabled u" "au_active s \<le> 2" using auth_tables_sound [OF v] by simp_all
  then show ?thesis using v r(2) by (intro exI [of _ H] exI [of _ s] exI [of _ ps] conjI)
qed

section \<open>Two races\<close>



end
