(* ===== verification/Spec2Isabelle.thy ===== *)
theory Spec2Isabelle
  imports Ledger_Safety Gguf_Summary Admission Worker_Safety Launch_Safety Superseded_Start Stale_Workers
    Login_Protection Client_Address Outbound Auth_Revocation
begin

text \<open>
  LlamaRack starts and stops llama.cpp servers on one machine. This development models the part of
  its Go backend (\<open>src/backend/internal\<close>) that decides whether a model may be loaded and that loads
  it: it reads the header of a GGUF file, estimates the memory a launch takes, places it on the GPUs,
  looks for options that make it fit, chooses instances to evict for it, books the memory in a ledger
  of leases so that two launches never share the same bytes, and starts, drains, stops and kills the
  workers for the requests, the operator and the reconcilers, which all run concurrently. Beside it stand
  the parts that guard the manager: its settings, the protection of the login, the address of a client
  behind proxies, the hosts it calls for the identity provider, and the authentication service with its
  users, service accounts, API keys, sessions and tickets.

  \<^bold>\<open>Flow.\<close> A GGUF file gives the metadata (\<open>ggufmeta\<close>); metadata, weights and launch options give a
  demand (\<open>scheduler/demand.go\<close>); demand and hardware snapshot give a placement
  (\<open>scheduler/placement.go\<close>); the runtime planner (\<open>scheduler/runtime_plan.go\<close>) tries a row of option
  sets, each a demand and a placement; the eviction planner (\<open>scheduler/eviction.go\<close>) repeats the
  placement with the memory of idle instances credited; the ledger (\<open>scheduler/reservation.go\<close>)
  subtracts the leases from the snapshot, plans, and records the lease it grants.

  \<^bold>\<open>Theories.\<close>
    \<^item> \<open>Go_Base\<close>, \<open>Go_Strings\<close>, \<open>Go_Sort\<close>, \<open>Go_Float\<close>, \<open>Go_Format\<close>: what the code uses of Go and its standard
      library. An \<open>int64\<close> is an \<open>int\<close> with \<open>wrap64\<close> written at every operation that can overflow; a
      string is a list of bytes; \<open>strings\<close> and \<open>strconv\<close> functions are executable definitions; sorting is
      the insertion sort of an order, stable as \<open>sort.SliceStable\<close>, with the interface of an order as
      the locale \<open>comparison\<close>; \<open>float64\<close> is a rational rounded to binary64.
    \<^item> \<open>Hardware\<close>: the snapshot of \<open>hardware/hardware.go\<close>.
    \<^item> \<open>Demand\<close>: \<open>EstimateDemand\<close> and its helpers. The demand is the sum of its parts, and more layers on
      the GPUs move bytes from the host to the GPUs and never change the total.
    \<^item> \<open>Placement\<close>: \<open>PlanPlacement\<close>, manual and automatic. The automatic placement takes one GPU when one
      is enough, and otherwise the fewest; the manual one asks of each device what its weight says.
    \<^item> \<open>Runtime_Plan\<close>: \<open>PlanRuntime\<close>. A plan that fits is sound for its snapshot; the binary searches are
      \<open>partial_function\<close>s since one does not return on an extreme block count, with a proof that they
      return for every block count below it.
    \<^item> \<open>Ledger\<close>, \<open>Capacity\<close>, \<open>Ledger_Safety\<close>: the operations of \<open>ResourceLedger\<close> as steps over its three
      maps, one step per critical section of its mutex. The reachable states satisfy the ledger's
      invariant, a granted lease fits in what all other leases leave, and the operations refine an
      abstract ledger that knows the lease of each owner only.
    \<^item> \<open>Eviction\<close>: ranking, the greedy covers, and the attribution of used memory to instances.
    \<^item> \<open>Gguf\<close>, \<open>Gguf_Facts\<close>, \<open>Gguf_Summary\<close>: the readers of \<open>ggufmeta\<close> as parsers over bytes. An encoder
      gives the round trip; the budgets bound what is kept; the fast summary agrees with the full
      inspection on every file both accept.

    \<^item> \<open>Launch_Options\<close>: the layers of options (\<open>llamaconfig/store.go\<close>) and their validation
      (\<open>llamacpp/validation.go\<close>, \<open>retention.go\<close>). The most specific layer wins.
    \<^item> \<open>Launch_Args\<close>: the command line and the environment of a worker
      (\<open>lifecycle/service.go: optionArgs\<close>, \<open>appendPlacementLaunchArgs\<close>, \<open>runtime_devices.go\<close>,
      \<open>supervisor/control.go: sanitizeWorkerOwnedArgs\<close>). The options the supervisor owns are its own, and
      the devices of an automatic placement pass the supervisor's check.
    \<^item> \<open>Process\<close>: concurrent programs. A program is an action on a world and a state that returns the rest
      of the program; an action that is not enabled blocks; a pool of programs runs one action at a time,
      in any order. The rules for invariants (\<open>keeps\<close>, \<open>pool_invariant\<close>), for outcomes under
      interference (\<open>outcome\<close>), for assertions before and after a program that hold under it (\<open>meets\<close>), and for what each program still owes to a counter (\<open>owes\<close>,
      \<open>pool_accounts\<close>).
    \<^item> \<open>Supervisor\<close>: the critical sections of \<open>supervisor/control.go\<close>, \<open>start.go\<close>, \<open>kill.go\<close> on the workers.
    \<^item> \<open>Service_State\<close>: the state of \<open>lifecycle.Service\<close>, with the supervisor and the ledger in it, and its
      critical sections: request counters (\<open>pending.go\<close>), start failures (\<open>start_failure.go\<close>), startup
      generations, drains, loads, marks, committed workers (\<open>service.go\<close>).
    \<^item> \<open>Lifecycle\<close>, \<open>Launch\<close>, \<open>Requests\<close>: its operations as programs: waiting and admission; draining,
      eviction, \<open>prepareRuntimeLaunch\<close> (\<open>runtime_launch.go\<close>) and \<open>startOneWithEviction\<close>; requests, start, stop,
      restart, kill, the reconcilers and the goroutines. \<open>reachable_in\<close> is the pool of all of them from
      \<open>lifecycle.New\<close> on.
    \<^item> \<open>Service_Frame\<close>: what an invariant has to satisfy to be kept by every program: the locale \<open>frame\<close>
      takes the sections an invariant depends on as laws and proves one lemma per operation; \<open>silent\<close> and
      \<open>counted\<close> are its smaller and larger versions. \<open>Sample_Service\<close> evaluates a whole start.
    \<^item> \<open>Admission\<close>, \<open>Worker_Safety\<close>, \<open>Launch_Safety\<close>, \<open>Superseded_Start\<close>: the limits of pending requests hold
      in every reachable state and no slot is lost; workers that serve have ports of their own and are
      not known to be dead; a launch goes ahead only on a lease that was granted without credits and
      disturbs at most eight instances; a cancelled start takes the lease of its successor.
    \<^item> \<open>Stale_Workers\<close>: the cleanup of the workers that a crashed manager has left behind
      (\<open>supervisor/reconcile.go\<close>, \<open>proc.go\<close>, the rows of \<open>runtime_store.go\<close>). The state is the host: its processes,
      the PIDs whose files cannot be read, the stored rows, and the signals with the process that got each.
      Only stale workers of this installation are signalled as long as no PID changes hands, no stale worker
      is forgotten, a started worker is recognised from its environment; a reused PID is not noticed. In the
      lifecycle service the result is the map of blocked Instances of its world.
    \<^item> \<open>Settings\<close>: the manager settings (\<open>settings/\<close>). A setting comes from the environment, the table or the
      default; what is read has the kind and the bounds of its definition, and what is written is read back.
    \<^item> \<open>Login_Protection\<close>: \<open>LoginProtector\<close> of \<open>security/security.go\<close>, each operation one step over its two
      tables. The tables are bounded, a lockout lasts, and while no table is full every account is counted as
      if it had a counter of its own; a table full of lockouts counts nobody else. A login key is lowered as
      ASCII; the few letters beyond it that \<open>strings.ToLower\<close> changes are kept.
    \<^item> \<open>Net_Address\<close>, \<open>Client_Address\<close>: what the code uses of \<open>net\<close> and \<open>net/netip\<close>, and the effective
      address of a client behind trusted proxies (\<open>security/security.go\<close>). What a client puts before the entry
      of a trusted proxy is ignored; a second line of the header is not read.
    \<^item> \<open>Outbound\<close>: the outbound policy for the identity provider (\<open>security/outbound.go\<close>) from the parsed URL
      to the dialled address: it is public or its host is allowed, but for an unspecified address with a zone.
    \<^item> \<open>Guarantee\<close>: rely and guarantee for pools of programs. The history of a pool is the set of states it
      has been in; \<open>proves\<close> derives an assertion on history and state for a program whose neighbours keep to a
      rule, \<open>acts_in\<close> is the same for single steps, and \<open>pool_asserts\<close> gives the answer of every member.
    \<^item> \<open>Auth_State\<close>: the tables, the cache of API keys, the tickets and the gate of the password work
      (\<open>auth/types.go\<close>, \<open>api_keys_cache.go\<close>, \<open>passwords.go\<close>, \<open>password_work.go\<close>), dates and the reading of a row.
    \<^item> \<open>Auth_Service\<close>, \<open>Auth_Users\<close>: the operations as programs, one SQL statement or transaction or one critical
      section an action: API keys (\<open>auth/api_keys.go\<close>); users, service accounts, logins, bearer sessions and
      tickets (\<open>auth/users.go\<close>, \<open>service_accounts.go\<close>, \<open>login_credentials.go\<close>, \<open>bearer.go\<close>, \<open>sessions.go\<close>).
    \<^item> \<open>Auth_Steps\<close>, \<open>Auth_Safety\<close>, \<open>Auth_Revocation\<close>: the steps these programs take (\<open>quiet_step\<close>), the
      invariant of the tables in every reachable state, and what an accepted API key was: usable in a state
      since its check began. Two races that the code has are run: an update that enables a key that was
      disabled in between, and a login that outlives the reset of its password.

  \<^bold>\<open>Choices.\<close> Clock readings and fresh lease ids are arguments of the steps that read them. A Go map
  that is only looked up is a HOL map; where its iteration order could matter an association list
  stands for it. Recursion over a counted loop is structural (\<open>repeat_parse\<close> on the count, which the
  code bounds first), so no fuel is needed; the two searches use \<open>partial_function\<close>. The table of
  printable runes that \<open>strconv.Quote\<close> consults is a parameter \<open>printable\<close> of the readers.

  In the programs everything outside (clock, database rows, files, hardware, the operating system, the
  choice of \<open>select\<close>) is a world that each action meets anew. A loop that only waits for others goes round
  as often as the world's \<open>wo_rounds\<close> says and then blocks, which is one of the schedules the code has; the
  loop of the launch has the code's own bound. Two simplifications: the eviction planner reads the ledger in
  one action although the code takes its mutex once per selection, and a planner that does not return
  blocks its program.

  In the authentication service the digest of a token is a parameter, a management token is its claims (the
  JWT library signs and checks it), and instance ids are a list instead of JSON text. The pool of the database
  has one connection (\<open>database/database.go\<close>), so a transaction that holds SQL only is one action; the one
  that hashes a password in between is three, with the connection taken. The generation of the cache is
  unbounded, and the loop of the key check goes round as often as its argument says and then blocks.

  \<^bold>\<open>Not modelled.\<close> Everything that only moves data to or from the outside: HTTP handlers, the
  database, subprocesses, probing the hardware, the frontend; of the lifecycle service the logs, the time
  stamps of log lines, the test hooks and the code that only tests call. The manifest lists them one by one.
\<close>

end
